(* ===== verification/Prelude.thy ===== *)
theory Prelude
  imports Complex_Main "HOL-Library.Word"
begin

text \<open>
  Shared vocabulary of the development: the machine integer types of the sources, the
  generic lemmas on words, lists and options that the component theories use, and the
  \<^theory_text>\<open>named_theorems\<close> collections into which the components put their facts.
\<close>

unbundle bit_operations_syntax

named_theorems word_nat \<open>reading word operations as natural-number arithmetic\<close>

section \<open>Machine integers\<close>

type_synonym u8 = "8 word"
type_synonym u16 = "16 word"
type_synonym u32 = "32 word"
type_synonym u64 = "64 word"
type_synonym bytes = "8 word list"

lemma unat_ucast_mod:
  "unat (ucast (x :: 'a::len word) :: 'b::len word) = unat x mod 2 ^ LENGTH('b)"
  by (simp add: unsigned_ucast_eq take_bit_eq_mod)

lemma unat_ucast_up [word_nat]:
  assumes "LENGTH('a) \<le> LENGTH('b)"
  shows "unat (ucast (x :: 'a::len word) :: 'b::len word) = unat x"
proof -
  have "unat x < 2 ^ LENGTH('a)" by simp
  also have "\<dots> \<le> 2 ^ LENGTH('b)" using assms by simp
  finally show ?thesis by (simp add: unat_ucast_mod)
qed

lemma unat_drop_bit_div:
  "unat (drop_bit n (x :: 'a::len word)) = unat x div 2 ^ n"
  unfolding unat_drop_bit_eq by (rule drop_bit_eq_div)

lemma unat_and_mask:
  "unat (x AND mask n :: 'a::len word) = unat x mod 2 ^ n"
  unfolding take_bit_eq_mask [symmetric] unsigned_take_bit_eq by (rule take_bit_eq_mod)

lemma unat_add_small:
  "unat (x :: 'a::len word) + unat y < 2 ^ LENGTH('a) \<Longrightarrow> unat (x + y) = unat x + unat y"
  by (simp add: unat_word_ariths)

lemma unat_mult_small:
  "unat (x :: 'a::len word) * unat y < 2 ^ LENGTH('a) \<Longrightarrow> unat (x * y) = unat x * unat y"
  by (simp add: unat_word_ariths)

lemma nat_or_push_bit:
  "m < 2 ^ k \<Longrightarrow> m OR push_bit k n = m + 2 ^ k * n" for m n :: nat
proof -
  assume m: "m < 2 ^ k"
  then have "take_bit k m = m" by (simp add: take_bit_nat_eq_self_iff)
  then have low: "bit m i \<Longrightarrow> i < k" for i by (metis bit_take_bit_iff)
  have "m + push_bit k n = m OR push_bit k n"
    by (rule disjunctive_add) (use low in \<open>force simp: bit_push_bit_iff\<close>)
  then show ?thesis by (simp add: push_bit_eq_mult mult.commute)
qed

lemma unat_or_push_bit:
  fixes a b :: "'a::len word"
  assumes "unat a < 2 ^ k" "2 ^ k * unat b < 2 ^ LENGTH('a)"
  shows "unat (a OR push_bit k b) = unat a + 2 ^ k * unat b"
proof -
  have "take_bit LENGTH('a) (push_bit k (unat b)) = push_bit k (unat b)"
    using assms(2) by (simp add: take_bit_nat_eq_self_iff push_bit_eq_mult mult.commute)
  then show ?thesis
    using assms(1) by (simp only: unsigned_or_eq unsigned_push_bit_eq nat_or_push_bit)
qed

lemma unat_push_bit_small:
  fixes b :: "'a::len word"
  assumes "2 ^ k * unat b < 2 ^ LENGTH('a)"
  shows "unat (push_bit k b) = 2 ^ k * unat b"
  using unat_or_push_bit [of 0 k b] assms by simp

lemma and_not_mask_eq_0:
  "unat (x :: 'a::len word) < 2 ^ n \<Longrightarrow> x AND NOT (mask n) = 0"
proof -
  assume "unat x < 2 ^ n"
  then have "x AND mask n = x"
    unfolding word_unat_eq_iff by (simp only: unat_and_mask mod_less)
  then show ?thesis by (metis and.assoc and.right_neutral bit.conj_cancel_right bit.conj_zero_right)
qed

lemma bit_top_iff:
  "(x :: nat) < 2 ^ Suc n \<Longrightarrow> bit x n \<longleftrightarrow> 2 ^ n \<le> x"
proof -
  assume "x < 2 ^ Suc n"
  then have "x div 2 ^ n < 2" by (simp add: less_mult_imp_div_less)
  then have "odd (x div 2 ^ n) \<longleftrightarrow> 0 < x div 2 ^ n" by (cases "x div 2 ^ n") auto
  then show ?thesis by (simp add: bit_iff_odd div_greater_zero_iff)
qed

lemma bit_nat_ge: "bit (x :: nat) n \<Longrightarrow> 2 ^ n \<le> x"
  by (metis bit_iff_odd div_less even_zero not_le)

lemma no_bits_less: "(\<And>m. n \<le> m \<Longrightarrow> \<not> bit (x :: nat) m) \<Longrightarrow> x < 2 ^ n"
proof -
  assume "\<And>m. n \<le> m \<Longrightarrow> \<not> bit x m"
  then have "take_bit n x = x" by (intro bit_eqI) (auto simp: bit_take_bit_iff not_le [symmetric])
  then show "x < 2 ^ n" by (metis take_bit_nat_less_exp)
qed

end
