(* ===== verification/Arith_Uint256.thy ===== *)
theory Arith_Uint256
  imports Prelude
begin

text \<open>
  The 256-bit unsigned integers of \<^verbatim>\<open>src/src/arith_uint256.h\<close> and
  \<^verbatim>\<open>src/src/arith_uint256.cpp\<close>: little-endian arrays of 32-bit limbs with
  schoolbook arithmetic, and the compact ("nBits") encoding of targets.  Every operation
  is proved against natural-number arithmetic modulo \<open>2 ^ 256\<close>.
\<close>

section \<open>Representation\<close>

type_synonym base_uint = "u32 list"

definition WIDTH :: nat where
  "WIDTH = 256 div 32"

definition wf_uint :: "base_uint \<Rightarrow> bool" where
  "wf_uint a \<longleftrightarrow> length a = WIDTH"

text \<open>The number a limb array stands for.\<close>

fun uval :: "u32 list \<Rightarrow> nat" where
  "uval [] = 0"
| "uval (x # xs) = unat x + 2 ^ 32 * uval xs"

definition base_uint_zero :: base_uint where
  "base_uint_zero = replicate WIDTH 0"

definition base_uint_of_u64 :: "u64 \<Rightarrow> base_uint" where
  "base_uint_of_u64 b = ucast b # ucast (drop_bit 32 b) # replicate (WIDTH - 2) 0"

section \<open>Operators\<close>

definition uint_is_zero :: "base_uint \<Rightarrow> bool" where
  "uint_is_zero a \<longleftrightarrow> list_all (\<lambda>p. p = 0) a"

definition uint_not :: "base_uint \<Rightarrow> base_uint" where
  "uint_not a = map (\<lambda>p. NOT p) a"

definition uint_xor :: "base_uint \<Rightarrow> base_uint \<Rightarrow> base_uint" where
  "uint_xor a b = map2 (\<lambda>p q. p XOR q) a b"

definition uint_and :: "base_uint \<Rightarrow> base_uint \<Rightarrow> base_uint" where
  "uint_and a b = map2 (\<lambda>p q. p AND q) a b"

definition uint_or :: "base_uint \<Rightarrow> base_uint \<Rightarrow> base_uint" where
  "uint_or a b = map2 (\<lambda>p q. p OR q) a b"

text \<open>\<open>operator++\<close>: carries into the next limb while the incremented limb became 0.\<close>

fun uint_inc :: "u32 list \<Rightarrow> u32 list" where
  "uint_inc [] = []"
| "uint_inc (p # ps) = (let p' = p + 1 in if p' = 0 then p' # uint_inc ps else p' # ps)"

fun uint_dec :: "u32 list \<Rightarrow> u32 list" where
  "uint_dec [] = []"
| "uint_dec (p # ps) = (let p' = p - 1 in if p' = - 1 then p' # uint_dec ps else p' # ps)"

definition uint_neg :: "base_uint \<Rightarrow> base_uint" where
  "uint_neg a = uint_inc (map (\<lambda>p. NOT p) a)"

fun add_limbs :: "u64 \<Rightarrow> u32 list \<Rightarrow> u32 list \<Rightarrow> u32 list" where
  "add_limbs carry (p # ps) (q # qs) =
     (let n = carry + ucast p + ucast q
      in ucast (n AND 0xffffffff) # add_limbs (drop_bit 32 n) ps qs)"
| "add_limbs carry _ _ = []"

definition uint_add :: "base_uint \<Rightarrow> base_uint \<Rightarrow> base_uint" where
  "uint_add a b = add_limbs 0 a b"

definition uint_sub :: "base_uint \<Rightarrow> base_uint \<Rightarrow> base_uint" where
  "uint_sub a b = uint_add a (uint_neg b)"

text \<open>\<open>operator*=(uint32_t)\<close>.\<close>

fun mul32_limbs :: "u64 \<Rightarrow> u32 \<Rightarrow> u32 list \<Rightarrow> u32 list" where
  "mul32_limbs carry b32 [] = []"
| "mul32_limbs carry b32 (p # ps) =
     (let n = carry + ucast b32 * ucast p
      in ucast (n AND 0xffffffff) # mul32_limbs (drop_bit 32 n) b32 ps)"

definition uint_mul32 :: "base_uint \<Rightarrow> u32 \<Rightarrow> base_uint" where
  "uint_mul32 a b32 = mul32_limbs 0 b32 a"

text \<open>
  \<open>operator*=(const base_uint&)\<close>: the inner loop runs over the limbs \<open>pn[j ..]\<close> of
  the result, the outer one over the limbs of the multiplicand.
\<close>

fun mul_inner :: "u64 \<Rightarrow> u32 \<Rightarrow> u32 list \<Rightarrow> u32 list \<Rightarrow> u32 list" where
  "mul_inner carry aj (p # ps) (q # qs) =
     (let n = carry + ucast p + ucast aj * ucast q
      in ucast (n AND 0xffffffff) # mul_inner (drop_bit 32 n) aj ps qs)"
| "mul_inner carry aj ps _ = ps"

fun mul_outer :: "nat \<Rightarrow> u32 list \<Rightarrow> u32 list \<Rightarrow> u32 list \<Rightarrow> u32 list" where
  "mul_outer j [] b pn = pn"
| "mul_outer j (aj # as) b pn =
     mul_outer (Suc j) as b (take j pn @ mul_inner 0 aj (drop j pn) b)"

definition uint_mul :: "base_uint \<Rightarrow> base_uint \<Rightarrow> base_uint" where
  "uint_mul a b = mul_outer 0 a b base_uint_zero"

definition shl_step :: "base_uint \<Rightarrow> nat \<Rightarrow> nat \<Rightarrow> nat \<Rightarrow> base_uint \<Rightarrow> base_uint" where
  "shl_step a k s i pn =
     (let pn = (if i + k + 1 < WIDTH \<and> s \<noteq> 0
                then pn[i + k + 1 := pn ! (i + k + 1) OR drop_bit (32 - s) (a ! i)] else pn)
      in if i + k < WIDTH then pn[i + k := pn ! (i + k) OR push_bit s (a ! i)] else pn)"

definition uint_shl :: "base_uint \<Rightarrow> nat \<Rightarrow> base_uint" where
  "uint_shl a shift =
     fold (shl_step a (shift div 32) (shift mod 32)) [0..<WIDTH] base_uint_zero"

definition shr_step :: "base_uint \<Rightarrow> nat \<Rightarrow> nat \<Rightarrow> nat \<Rightarrow> base_uint \<Rightarrow> base_uint" where
  "shr_step a k s i pn =
     (let pn = (if int i - int k - 1 \<ge> 0 \<and> s \<noteq> 0
                then pn[i - k - 1 := pn ! (i - k - 1) OR push_bit (32 - s) (a ! i)] else pn)
      in if int i - int k \<ge> 0 then pn[i - k := pn ! (i - k) OR drop_bit s (a ! i)] else pn)"

definition uint_shr :: "base_uint \<Rightarrow> nat \<Rightarrow> base_uint" where
  "uint_shr a shift =
     fold (shr_step a (shift div 32) (shift mod 32)) [0..<WIDTH] base_uint_zero"

text \<open>\<open>CompareTo\<close>: the first argument counts the limbs still to be compared.\<close>

fun compare_limbs :: "nat \<Rightarrow> u32 list \<Rightarrow> u32 list \<Rightarrow> int" where
  "compare_limbs 0 a b = 0"
| "compare_limbs (Suc i) a b =
     (if a ! i < b ! i then - 1 else if a ! i > b ! i then 1 else compare_limbs i a b)"

definition CompareTo :: "base_uint \<Rightarrow> base_uint \<Rightarrow> int" where
  "CompareTo a b = compare_limbs WIDTH a b"

definition EqualTo :: "base_uint \<Rightarrow> u64 \<Rightarrow> bool" where
  "EqualTo a b \<longleftrightarrow> list_all (\<lambda>p. p = 0) (drop 2 a)
     \<and> ucast (a ! 1) = drop_bit 32 b \<and> ucast (a ! 0) = (b AND 0xffffffff)"

text \<open>\<open>bits\<close>: position of the highest set bit plus one; the inner loop is \<open>limb_bits\<close>.\<close>

fun limb_bits :: "u32 \<Rightarrow> nat \<Rightarrow> nat" where
  "limb_bits p 0 = 1"
| "limb_bits p (Suc n) = (if p AND push_bit (Suc n) 1 \<noteq> 0 then Suc n + 1 else limb_bits p n)"

fun bits_loop :: "u32 list \<Rightarrow> nat \<Rightarrow> nat" where
  "bits_loop pn 0 = 0"
| "bits_loop pn (Suc pos) =
     (if pn ! pos \<noteq> 0 then 32 * pos + limb_bits (pn ! pos) 31 else bits_loop pn pos)"

definition bits :: "base_uint \<Rightarrow> nat" where
  "bits a = bits_loop a WIDTH"

definition GetLow64 :: "base_uint \<Rightarrow> u64" where
  "GetLow64 a = ucast (a ! 0) OR push_bit 32 (ucast (a ! 1))"

text \<open>
  \<open>operator/=\<close>: shift-and-subtract division; the loop counter is \<open>shift + 1\<close>.
  The exception of a zero divisor is the left value of the sum.
\<close>

datatype uint_error = DivisionByZero

fun div_loop :: "nat \<Rightarrow> base_uint \<Rightarrow> base_uint \<Rightarrow> base_uint \<Rightarrow> base_uint" where
  "div_loop 0 num d q = q"
| "div_loop (Suc shift) num d q =
     (let (num, q) =
        (if CompareTo num d \<ge> 0
         then (uint_sub num d,
               q[shift div 32 := q ! (shift div 32) OR push_bit (shift mod 32) 1])
         else (num, q))
      in div_loop shift num (uint_shr d 1) q)"

definition uint_div :: "base_uint \<Rightarrow> base_uint \<Rightarrow> uint_error + base_uint" where
  "uint_div a b =
     (let num_bits = bits a; div_bits = bits b
      in if div_bits = 0 then Inl DivisionByZero
         else if div_bits > num_bits then Inr base_uint_zero
         else let shift = num_bits - div_bits
              in Inr (div_loop (Suc shift) a (uint_shl b shift) base_uint_zero))"

section \<open>The compact encoding\<close>

definition SetCompact :: "u32 \<Rightarrow> base_uint \<times> bool \<times> bool" where
  "SetCompact nCompact =
     (let nSize = unat (drop_bit 24 nCompact);
          nWord = nCompact AND 0x007fffff;
          nWord = (if nSize \<le> 3 then drop_bit (8 * (3 - nSize)) nWord else nWord);
          v = base_uint_of_u64 (ucast nWord);
          v = (if nSize \<le> 3 then v else uint_shl v (8 * (nSize - 3)));
          fNegative = (nWord \<noteq> 0 \<and> nCompact AND 0x00800000 \<noteq> 0);
          fOverflow = (nWord \<noteq> 0 \<and> (nSize > 34 \<or> (nWord > 0xff \<and> nSize > 33)
                                          \<or> (nWord > 0xffff \<and> nSize > 32)))
      in (v, fNegative, fOverflow))"

text \<open>\<open>GetCompact\<close>; a failed \<open>assert\<close> is \<open>None\<close>.\<close>

definition GetCompact :: "base_uint \<Rightarrow> bool \<Rightarrow> u32 option" where
  "GetCompact a fNegative =
     (let nSize = (bits a + 7) div 8;
          nCompact = (if nSize \<le> 3 then ucast (push_bit (8 * (3 - nSize)) (GetLow64 a))
                      else ucast (GetLow64 (uint_shr a (8 * (nSize - 3))))) :: u32;
          (nCompact, nSize) = (if nCompact AND 0x00800000 \<noteq> 0
                               then (drop_bit 8 nCompact, nSize + 1) else (nCompact, nSize))
      in if nCompact AND NOT 0x007fffff \<noteq> 0 \<or> \<not> nSize < 256 then None
         else let nCompact = nCompact OR push_bit 24 (word_of_nat nSize)
              in Some (nCompact OR
                   (if fNegative \<and> nCompact AND 0x007fffff \<noteq> 0 then 0x00800000 else 0)))"

section \<open>Limb arrays as numbers\<close>

lemma uval_bound: "uval xs < 2 ^ (32 * length xs)"
proof (induction xs)
  case (Cons x xs)
  have "unat x < 2 ^ 32" using unsigned_less [of x] by simp
  moreover have "Suc (uval xs) \<le> 2 ^ (32 * length xs)" using Cons by simp
  then have "2 ^ 32 * Suc (uval xs) \<le> 2 ^ 32 * 2 ^ (32 * length xs)"
    by (rule mult_le_mono2)
  ultimately show ?case by (simp add: power_add)
qed simp

lemma uval_append: "uval (xs @ ys) = uval xs + 2 ^ (32 * length xs) * uval ys"
  by (induction xs) (simp_all add: power_add algebra_simps)

lemma uval_replicate_0 [simp]: "uval (replicate n 0) = 0"
  by (induction n) simp_all

lemma bit_uval:
  "bit (uval xs) n \<longleftrightarrow> n div 32 < length xs \<and> bit (xs ! (n div 32)) (n mod 32)"
proof (induction xs arbitrary: n)
  case (Cons x xs)
  have eq: "uval (x # xs) = push_bit 32 (uval xs) OR unat x"
  proof -
    have "bit (push_bit 32 (uval xs)) m \<Longrightarrow> \<not> bit (unat x) m" for m
      using bit_imp_le_length [of x m] by (auto simp: bit_simps)
    then have "push_bit 32 (uval xs) + unat x = push_bit 32 (uval xs) OR unat x"
      by (intro disjunctive_add) blast
    then show ?thesis by (simp add: push_bit_eq_mult mult.commute add.commute)
  qed
  show ?case
  proof (cases "n < 32")
    case True
    then show ?thesis unfolding eq by (simp add: bit_simps)
  next
    case False
    then have nd: "n div 32 = Suc ((n - 32) div 32)" "n mod 32 = (n - 32) mod 32"
      by (simp_all add: le_div_geq le_mod_geq)
    from False have "\<not> bit (unat x) n"
      using bit_imp_le_length [of x n] by (auto simp: bit_simps)
    with False nd show ?thesis unfolding eq by (simp add: bit_simps Cons)
  qed
qed simp

lemma limb_mod:
  "lo < B \<Longrightarrow> lo + B * (x mod M) = (lo + B * x) mod (B * M)" for lo :: nat
  by (simp add: mod_mult2_eq)

lemma ucast_low32 [word_nat]:
  "unat (ucast (n AND 0xffffffff :: u64) :: u32) = unat n mod 2 ^ 32"
proof -
  have "n AND 0xffffffff = n AND mask 32" by (simp add: mask_eq_exp_minus_1)
  then show ?thesis by (simp only: unat_ucast_mod unat_and_mask) simp
qed

lemma unat_u32_up [word_nat]: "unat (ucast (x :: u32) :: u64) = unat x"
  by (rule unat_ucast_up) simp

lemma unat_u32_less: "unat (x :: u32) < 2 ^ 32"
  using unsigned_less [of x] by simp

lemma unat_u64_less: "unat (x :: u64) < 2 ^ 64"
  using unsigned_less [of x] by simp

lemma unat_u32_max [simp]: "unat (- 1 :: u32) = 4294967295"
  by (simp add: unsigned_minus_1_eq_mask mask_eq_exp_minus_1)

section \<open>Addition, negation and subtraction\<close>

lemma add_limbs_length [simp]: "length (add_limbs c a b) = min (length a) (length b)"
  by (induction c a b rule: add_limbs.induct) (simp_all add: Let_def)

lemma uval_add_limbs:
  "length a = length b \<Longrightarrow> unat c \<le> 1 \<Longrightarrow>
   uval (add_limbs c a b) = (unat c + uval a + uval b) mod 2 ^ (32 * length a)"
proof (induction c a b rule: add_limbs.induct)
  case (1 carry p ps q qs)
  define n where "n = carry + ucast p + ucast q"
  have n: "unat n = unat carry + unat p + unat q"
    using "1.prems" unat_u32_less [of p] unat_u32_less [of q]
    by (simp add: n_def unat_word_ariths word_nat)
  have hi: "unat (drop_bit 32 n) \<le> 1"
    using "1.prems" unat_u32_less [of p] unat_u32_less [of q]
    unfolding unat_drop_bit_div n by simp
  have "uval (add_limbs carry (p # ps) (q # qs))
      = unat n mod 2 ^ 32 + 2 ^ 32 *
        ((unat n div 2 ^ 32 + uval ps + uval qs) mod 2 ^ (32 * length ps))"
    using "1.IH" [OF n_def] "1.prems" hi
    by (simp add: Let_def n_def [symmetric] word_nat unat_drop_bit_div)
  also have "\<dots> = (unat n mod 2 ^ 32 + 2 ^ 32 * (unat n div 2 ^ 32 + uval ps + uval qs))
        mod (2 ^ 32 * 2 ^ (32 * length ps))"
    by (rule limb_mod) simp
  also have "unat n mod 2 ^ 32 + 2 ^ 32 * (unat n div 2 ^ 32 + uval ps + uval qs)
      = unat carry + uval (p # ps) + uval (q # qs)"
    using mod_mult_div_eq [of "unat n" "2 ^ 32"] by (simp add: n algebra_simps)
  finally show ?case by (simp add: power_add)
qed simp_all

lemma uval_uint_add:
  "length a = length b \<Longrightarrow> uval (uint_add a b) = (uval a + uval b) mod 2 ^ (32 * length a)"
  by (simp add: uint_add_def uval_add_limbs)

lemma uint_inc_length [simp]: "length (uint_inc a) = length a"
  by (induction a) (simp_all add: Let_def)

lemma uval_uint_inc: "uval (uint_inc a) = (uval a + 1) mod 2 ^ (32 * length a)"
proof (induction a)
  case (Cons p ps)
  show ?case
  proof (cases "p + 1 = 0")
    case True
    then have "p = - 1" by (simp add: eq_neg_iff_add_eq_0)
    then have p: "unat p = 2 ^ 32 - 1" by simp
    have "uval (uint_inc (p # ps)) = 2 ^ 32 * ((uval ps + 1) mod 2 ^ (32 * length ps))"
      using True Cons by (simp add: Let_def)
    also have "\<dots> = (2 ^ 32 * (uval ps + 1)) mod (2 ^ 32 * 2 ^ (32 * length ps))"
      by (simp only: mult_mod_right)
    also have "2 ^ 32 * (uval ps + 1) = uval (p # ps) + 1"
      using p by simp
    finally show ?thesis by (simp add: power_add)
  next
    case False
    then have p: "unat (p + 1) = unat p + 1"
      using unatSuc [of p] by (simp add: add.commute)
    have "uval (p # ps) + 1 < 2 ^ (32 * length (p # ps))"
    proof -
      have "uval ((p + 1) # ps) < 2 ^ (32 * length ((p + 1) # ps))" by (rule uval_bound)
      then show ?thesis using p by simp
    qed
    then show ?thesis using False p by (simp add: Let_def)
  qed
qed simp

lemma uint_dec_length [simp]: "length (uint_dec a) = length a"
  by (induction a) (simp_all add: Let_def)

lemma uval_uint_dec: "uval (uint_dec a) = (uval a + 2 ^ (32 * length a) - 1) mod 2 ^ (32 * length a)"
proof (induction a)
  case (Cons p ps)
  let ?M = "2 ^ (32 * length ps) :: nat"
  show ?case
  proof (cases "p = 0")
    case True
    have "uval (uint_dec (p # ps)) = 2 ^ 32 - 1 + 2 ^ 32 * ((uval ps + ?M - 1) mod ?M)"
      using True Cons by (simp add: Let_def)
    also have "\<dots> = (2 ^ 32 - 1 + 2 ^ 32 * (uval ps + ?M - 1)) mod (2 ^ 32 * ?M)"
      by (rule limb_mod) simp
    also have "2 ^ 32 - 1 + 2 ^ 32 * (uval ps + ?M - 1) = uval (p # ps) + 2 ^ 32 * ?M - 1"
    proof -
      have "1 \<le> uval ps + ?M" by (simp add: trans_le_add2)
      then obtain k where "uval ps + ?M = Suc k" by (cases "uval ps + ?M") auto
      then show ?thesis using True by (simp add: distrib_left [symmetric] del: distrib_left_numeral)
    qed
    finally show ?thesis by (simp add: power_add)
  next
    case False
    then have p: "unat (p - 1) = unat p - 1" "0 < unat p" "p - 1 \<noteq> - 1"
      using unat_minus_one [of p] by (simp_all add: unat_gt_0 diff_eq_eq)
    have "uval (p # ps) < 2 ^ (32 * length (p # ps))" by (rule uval_bound)
    moreover have "uval (p # ps) + 2 ^ (32 * length (p # ps)) - 1
        = uval ((p - 1) # ps) + 2 ^ (32 * length (p # ps))" using p by simp
    moreover have "uval ((p - 1) # ps) \<le> uval (p # ps)" using p by simp
    ultimately have "(uval (p # ps) + 2 ^ (32 * length (p # ps)) - 1) mod 2 ^ (32 * length (p # ps))
        = uval ((p - 1) # ps)" by simp
    then show ?thesis using p by (simp add: Let_def)
  qed
qed simp

lemma uval_map_not: "uval (map (\<lambda>p. NOT p) a) = 2 ^ (32 * length a) - 1 - uval a"
proof (induction a)
  case (Cons p ps)
  have np: "unat (NOT p) = 2 ^ 32 - 1 - unat p"
  proof -
    have "p \<le> - 1" by simp
    then have "unat (- 1 - p) = unat (- 1 :: u32) - unat p" by (rule unat_sub)
    moreover have "NOT p = - 1 - p" by (simp add: not_eq_complement)
    ultimately show ?thesis by simp
  qed
  have b: "uval ps < 2 ^ (32 * length ps)" by (rule uval_bound)
  have "uval (map (\<lambda>p. NOT p) (p # ps)) = 2 ^ 32 - 1 - unat p + 2 ^ 32 * (2 ^ (32 * length ps) - 1 - uval ps)"
    using Cons np by simp
  then show ?case using b unat_u32_less [of p] by (simp add: power_add algebra_simps)
qed simp

lemma uval_uint_neg:
  "uval (uint_neg a) = (2 ^ (32 * length a) - uval a) mod 2 ^ (32 * length a)"
  using uval_bound [of a] by (simp add: uint_neg_def uval_uint_inc uval_map_not Suc_diff_Suc)

lemma uval_uint_sub:
  assumes "length a = length b" "uval b \<le> uval a"
  shows "uval (uint_sub a b) = uval a - uval b"
proof -
  let ?M = "2 ^ (32 * length a) :: nat"
  have b: "uval a < ?M" "uval b < ?M" using uval_bound [of a] uval_bound [of b] assms by auto
  have l: "length a = length (uint_neg b)" using assms by (simp add: uint_neg_def)
  have "uval (uint_sub a b) = (uval a + (?M - uval b) mod ?M) mod ?M"
    using assms by (simp add: uint_sub_def uval_uint_add [OF l] uval_uint_neg)
  also have "\<dots> = (uval a + (?M - uval b)) mod ?M" by (simp add: mod_simps)
  also have "uval a + (?M - uval b) = (uval a - uval b) + ?M" using assms b by simp
  finally show ?thesis using b by simp
qed

section \<open>Multiplication\<close>

lemma mul32_limbs_length [simp]: "length (mul32_limbs c b a) = length a"
  by (induction a arbitrary: c) (simp_all add: Let_def)

lemma unat_mul_limb:
  fixes p q r :: u32 and c :: u64
  assumes "unat c < 2 ^ 32"
  shows "unat (c + ucast p + ucast q * ucast r) = unat c + unat p + unat q * unat r"
    and "unat (drop_bit 32 (c + ucast p + ucast q * ucast r)) < 2 ^ 32"
proof -
  have "unat q * unat r \<le> (2 ^ 32 - 1) * (2 ^ 32 - 1)"
    using unat_u32_less [of q] unat_u32_less [of r] by (intro mult_le_mono) auto
  then have b: "unat c + unat p + unat q * unat r < 2 ^ 64"
    using assms unat_u32_less [of p] by simp
  then have "unat (ucast q * ucast r :: u64) = unat q * unat r"
    by (simp add: unat_word_ariths word_nat)
  with b show u: "unat (c + ucast p + ucast q * ucast r) = unat c + unat p + unat q * unat r"
    by (simp add: unat_word_ariths(1) word_nat)
  show "unat (drop_bit 32 (c + ucast p + ucast q * ucast r)) < 2 ^ 32"
    unfolding unat_drop_bit_div u using b by (simp add: less_mult_imp_div_less)
qed

lemma uval_mul32_limbs:
  "unat c < 2 ^ 32 \<Longrightarrow>
   uval (mul32_limbs c b a) = (unat c + unat b * uval a) mod 2 ^ (32 * length a)"
proof (induction a arbitrary: c)
  case (Cons p ps)
  define n where "n = c + ucast b * ucast p"
  have n: "unat n = unat c + unat b * unat p" and hi: "unat (drop_bit 32 n) < 2 ^ 32"
    using unat_mul_limb [OF Cons.prems, of 0 b p] by (simp_all add: n_def)
  have "uval (mul32_limbs c b (p # ps))
      = unat n mod 2 ^ 32 + 2 ^ 32 * ((unat n div 2 ^ 32 + unat b * uval ps) mod 2 ^ (32 * length ps))"
    using Cons.IH [OF hi] by (simp add: Let_def n_def [symmetric] word_nat unat_drop_bit_div)
  also have "\<dots> = (unat n mod 2 ^ 32 + 2 ^ 32 * (unat n div 2 ^ 32 + unat b * uval ps))
        mod (2 ^ 32 * 2 ^ (32 * length ps))"
    by (rule limb_mod) simp
  also have "unat n mod 2 ^ 32 + 2 ^ 32 * (unat n div 2 ^ 32 + unat b * uval ps)
      = unat c + unat b * uval (p # ps)"
    using mod_mult_div_eq [of "unat n" "2 ^ 32"] by (simp add: n algebra_simps)
  finally show ?case by (simp add: power_add)
qed simp

lemma mul_inner_length [simp]: "length (mul_inner c a ps qs) = length ps"
  by (induction c a ps qs rule: mul_inner.induct) (simp_all add: Let_def)

lemma uval_mul_inner:
  "unat c < 2 ^ 32 \<Longrightarrow> length ps \<le> length qs \<Longrightarrow>
   uval (mul_inner c a ps qs) = (unat c + uval ps + unat a * uval qs) mod 2 ^ (32 * length ps)"
proof (induction c a ps qs rule: mul_inner.induct)
  case (1 c a p ps q qs)
  define n where "n = c + ucast p + ucast a * ucast q"
  have n: "unat n = unat c + unat p + unat a * unat q" and hi: "unat (drop_bit 32 n) < 2 ^ 32"
    using unat_mul_limb [OF "1.prems"(1), of p a q] by (simp_all add: n_def)
  have "uval (mul_inner c a (p # ps) (q # qs))
      = unat n mod 2 ^ 32 + 2 ^ 32 *
        ((unat n div 2 ^ 32 + uval ps + unat a * uval qs) mod 2 ^ (32 * length ps))"
    using "1.IH" [OF n_def hi] "1.prems"
    by (simp add: Let_def n_def [symmetric] word_nat unat_drop_bit_div)
  also have "\<dots> = (unat n mod 2 ^ 32 + 2 ^ 32 * (unat n div 2 ^ 32 + uval ps + unat a * uval qs))
        mod (2 ^ 32 * 2 ^ (32 * length ps))"
    by (rule limb_mod) simp
  also have "unat n mod 2 ^ 32 + 2 ^ 32 * (unat n div 2 ^ 32 + uval ps + unat a * uval qs)
      = unat c + uval (p # ps) + unat a * uval (q # qs)"
    using mod_mult_div_eq [of "unat n" "2 ^ 32"] by (simp add: n algebra_simps)
  finally show ?case by (simp add: power_add)
qed simp_all

lemma mul_outer_length [simp]: "length (mul_outer j as b pn) = length pn"
  by (induction j as b pn rule: mul_outer.induct) simp_all

lemma uval_take_drop: "uval (take j xs) + 2 ^ (32 * min j (length xs)) * uval (drop j xs) = uval xs"
  using uval_append [of "take j xs" "drop j xs"] by (simp add: min.commute)

lemma uval_mul_outer:
  "length pn = length b \<Longrightarrow> j + length as \<le> length pn \<Longrightarrow>
   uval (mul_outer j as b pn) = (uval pn + 2 ^ (32 * j) * uval as * uval b) mod 2 ^ (32 * length pn)"
proof (induction j as b pn rule: mul_outer.induct)
  case (1 j b pn)
  then show ?case using uval_bound [of pn] by simp
next
  case (2 j x as b pn)
  let ?M = "2 ^ (32 * length pn) :: nat"
  define pn' where "pn' = take j pn @ mul_inner 0 x (drop j pn) b"
  have j: "j \<le> length pn" using 2 by simp
  have M: "2 ^ (32 * j) * 2 ^ (32 * (length pn - j)) = ?M"
    using j by (simp add: power_add [symmetric] algebra_simps)
  have "uval pn' = uval (take j pn) + 2 ^ (32 * j) *
      ((uval (drop j pn) + unat x * uval b) mod 2 ^ (32 * (length pn - j)))"
    using 2 j by (simp add: pn'_def uval_append uval_mul_inner)
  also have "\<dots> = (uval (take j pn) + 2 ^ (32 * j) * (uval (drop j pn) + unat x * uval b)) mod ?M"
    using limb_mod [of "uval (take j pn)" "2 ^ (32 * j)"] uval_bound [of "take j pn"] j M by simp
  also have "uval (take j pn) + 2 ^ (32 * j) * (uval (drop j pn) + unat x * uval b)
      = uval pn + 2 ^ (32 * j) * unat x * uval b"
    using uval_take_drop [of j pn] j by (simp add: algebra_simps)
  finally have pn': "uval pn' = (uval pn + 2 ^ (32 * j) * unat x * uval b) mod ?M" .
  have "uval (mul_outer j (x # as) b pn) = uval (mul_outer (Suc j) as b pn')"
    by (simp add: pn'_def)
  also have "\<dots> = (uval pn' + 2 ^ (32 * Suc j) * uval as * uval b) mod ?M"
    using 2 j by (simp add: pn'_def)
  also have "\<dots> = (uval pn + 2 ^ (32 * j) * unat x * uval b + 2 ^ (32 * Suc j) * uval as * uval b) mod ?M"
    unfolding pn' by (simp add: mod_simps)
  also have "uval pn + 2 ^ (32 * j) * unat x * uval b + 2 ^ (32 * Suc j) * uval as * uval b
      = uval pn + 2 ^ (32 * j) * uval (x # as) * uval b"
    by (simp add: power_add algebra_simps)
  finally show ?case .
qed

section \<open>Shifts\<close>

definition shl_limb :: "base_uint \<Rightarrow> nat \<Rightarrow> nat \<Rightarrow> nat \<Rightarrow> nat \<Rightarrow> u32" where
  "shl_limb a k s n m =
     (if k \<le> m \<and> m - k < n then push_bit s (a ! (m - k)) else 0) OR
     (if k + 1 \<le> m \<and> m - k - 1 < n \<and> s \<noteq> 0 then drop_bit (32 - s) (a ! (m - k - 1)) else 0)"

lemma shl_fold:
  "n \<le> WIDTH \<Longrightarrow> length (fold (shl_step a k s) [0..<n] base_uint_zero) = WIDTH \<and>
   (\<forall>m < WIDTH. fold (shl_step a k s) [0..<n] base_uint_zero ! m = shl_limb a k s n m)"
proof (induction n)
  case 0
  then show ?case by (simp add: base_uint_zero_def shl_limb_def)
next
  case (Suc n)
  define pn where "pn = fold (shl_step a k s) [0..<n] base_uint_zero"
  have IH: "length pn = WIDTH" "\<And>m. m < WIDTH \<Longrightarrow> pn ! m = shl_limb a k s n m"
    using Suc by (simp_all add: pn_def)
  have eq: "fold (shl_step a k s) [0..<Suc n] base_uint_zero = shl_step a k s n pn"
    by (simp add: pn_def)
  have "shl_step a k s n pn ! m = shl_limb a k s (Suc n) m" if m: "m < WIDTH" for m
  proof -
    consider "m = n + k" | "m = n + k + 1" | "m \<noteq> n + k" "m \<noteq> n + k + 1" by blast
    then show ?thesis
    proof cases
      case 1
      then show ?thesis using m IH
        by (auto simp: shl_step_def shl_limb_def Let_def nth_list_update ac_simps)
    next
      case 2
      then show ?thesis using m IH
        by (auto simp: shl_step_def shl_limb_def Let_def nth_list_update ac_simps)
    next
      case 3
      then have "shl_limb a k s (Suc n) m = shl_limb a k s n m"
        by (auto simp: shl_limb_def less_Suc_eq)
      moreover have "shl_step a k s n pn ! m = pn ! m"
        using 3 by (auto simp: shl_step_def Let_def nth_list_update)
      ultimately show ?thesis using m IH by simp
    qed
  qed
  moreover have "length (shl_step a k s n pn) = WIDTH"
    using IH by (simp add: shl_step_def Let_def)
  ultimately show ?case unfolding eq by blast
qed

lemma uint_shl_length [simp]: "length (uint_shl a n) = WIDTH"
  using shl_fold [of WIDTH] by (simp add: uint_shl_def)

lemma uint_shl_nth:
  "m < WIDTH \<Longrightarrow> uint_shl a n ! m = shl_limb a (n div 32) (n mod 32) WIDTH m"
  using shl_fold [of WIDTH] by (simp add: uint_shl_def)

lemma limb_index_less: "n div 32 < w \<longleftrightarrow> n < 32 * w" for n w :: nat
  by (simp add: div_less_iff_less_mult mult.commute)

lemma limb_div_mod: "n = 32 * q + r \<Longrightarrow> r < 32 \<Longrightarrow> n div 32 = q \<and> n mod 32 = r" for n q r :: nat
  by simp

lemma limb_sub_gt:
  "y + 1 \<le> x \<Longrightarrow> i < j \<Longrightarrow> j < 32 \<Longrightarrow> 32 * x + i - (32 * y + j) = 32 * (x - y - 1) + (32 + i - j)"
  for x y i j :: nat
  by arith

lemma limb_sub_le:
  "y \<le> x \<Longrightarrow> j \<le> i \<Longrightarrow> 32 * x + i - (32 * y + j) = 32 * (x - y) + (i - j)" for x y i j :: nat
  by arith

lemma limb_le_gt:
  "32 * y + j \<le> 32 * x + i \<Longrightarrow> i < j \<Longrightarrow> y + 1 \<le> x" for x y i j :: nat
  by arith

lemma limb_less:
  "32 * x + i < 32 * y + j \<Longrightarrow> j < 32 \<Longrightarrow> x < y \<or> x = y \<and> i < j" for x y i j :: nat
  by arith

lemma div_mod_sub_le:
  fixes n d :: nat
  assumes "d \<le> n" "d mod 32 \<le> n mod 32"
  shows "(n - d) div 32 = n div 32 - d div 32 \<and> (n - d) mod 32 = n mod 32 - d mod 32"
proof (rule limb_div_mod)
  have "d div 32 \<le> n div 32" using assms(1) by (rule div_le_mono)
  then show "n - d = 32 * (n div 32 - d div 32) + (n mod 32 - d mod 32)"
    using limb_sub_le [of "d div 32" "n div 32", OF _ assms(2)] by simp
  show "n mod 32 - d mod 32 < 32" by (simp add: less_imp_diff_less)
qed

lemma div_mod_sub_gt:
  fixes n d :: nat
  assumes "d \<le> n" "n mod 32 < d mod 32"
  shows "d div 32 + 1 \<le> n div 32"
    and "(n - d) div 32 = n div 32 - d div 32 - 1 \<and> (n - d) mod 32 = 32 + n mod 32 - d mod 32"
proof -
  have n: "n = 32 * (n div 32) + n mod 32" and d: "d = 32 * (d div 32) + d mod 32" by simp_all
  show lt: "d div 32 + 1 \<le> n div 32"
    using limb_le_gt [of "d div 32" _ "n div 32", OF _ assms(2)] assms(1) by simp
  have "n - d = 32 * (n div 32 - d div 32 - 1) + (32 + n mod 32 - d mod 32)"
    using limb_sub_gt [OF lt assms(2)] n d by simp
  moreover have "32 + n mod 32 - d mod 32 < 32" using assms(2) by linarith
  ultimately show "(n - d) div 32 = n div 32 - d div 32 - 1 \<and> (n - d) mod 32 = 32 + n mod 32 - d mod 32"
    by (rule limb_div_mod)
qed

lemma bit_uint_shl:
  assumes "length a = WIDTH"
  shows "bit (uval (uint_shl a d)) n \<longleftrightarrow> n < 32 * WIDTH \<and> d \<le> n \<and> bit (uval a) (n - d)"
proof (cases "n < 32 * WIDTH")
  case False
  then show ?thesis by (simp add: bit_uval limb_index_less)
next
  case inr: True
  then have m: "n div 32 < WIDTH" by (simp add: limb_index_less)
  let ?k = "d div 32" and ?s = "d mod 32" and ?m = "n div 32" and ?j = "n mod 32"
  have lt: "?j < 32" "?s < 32" by simp_all
  have limb: "bit (uval (uint_shl a d)) n = bit (shl_limb a ?k ?s WIDTH ?m) ?j"
    using m by (simp add: bit_uval uint_shl_nth)
  consider (lt) "n < d" | (le) "d \<le> n" "?s \<le> ?j" | (gt) "d \<le> n" "?j < ?s" by linarith
  then show ?thesis
  proof cases
    case lt
    then have "?m < ?k \<or> ?m = ?k \<and> ?j < ?s"
      using limb_less [of ?m ?j ?k ?s] by simp
    with lt show ?thesis unfolding limb by (auto simp: shl_limb_def bit_simps)
  next
    case le
    note e = div_mod_sub_le [OF le]
    have "?k \<le> ?m" using le(1) by (rule div_le_mono)
    moreover have "?m - ?k < WIDTH" using m by simp
    moreover have "\<not> bit (drop_bit (32 - ?s) w) ?j" if "?s \<noteq> 0" for w :: u32
      using le(2) that lt bit_imp_le_length [of w "32 - ?s + ?j"] by (auto simp: bit_simps)
    ultimately show ?thesis using le assms inr lt unfolding limb
      by (simp add: shl_limb_def bit_or_iff bit_push_bit_iff bit_uval e)
  next
    case gt
    note e = div_mod_sub_gt [OF gt]
    have "32 - ?s + ?j = 32 + ?j - ?s" using lt by simp
    moreover have "?m - ?k - 1 < WIDTH" using m by simp
    ultimately show ?thesis using gt assms e inr unfolding limb
      by (simp add: shl_limb_def bit_or_iff bit_push_bit_iff bit_drop_bit_eq bit_uval)
  qed
qed

lemma uval_uint_shl:
  assumes "length a = WIDTH"
  shows "uval (uint_shl a d) = uval a * 2 ^ d mod 2 ^ (32 * WIDTH)"
proof -
  have "uval (uint_shl a d) = take_bit (32 * WIDTH) (push_bit d (uval a))"
    by (rule bit_eqI) (auto simp: bit_uint_shl [OF assms] bit_simps)
  then show ?thesis by (simp add: take_bit_eq_mod push_bit_eq_mult)
qed

definition shr_limb :: "base_uint \<Rightarrow> nat \<Rightarrow> nat \<Rightarrow> nat \<Rightarrow> nat \<Rightarrow> u32" where
  "shr_limb a k s n m =
     (if m + k < n then drop_bit s (a ! (m + k)) else 0) OR
     (if m + k + 1 < n \<and> s \<noteq> 0 then push_bit (32 - s) (a ! (m + k + 1)) else 0)"

lemma shr_fold:
  "n \<le> WIDTH \<Longrightarrow> length (fold (shr_step a k s) [0..<n] base_uint_zero) = WIDTH \<and>
   (\<forall>m < WIDTH. fold (shr_step a k s) [0..<n] base_uint_zero ! m = shr_limb a k s n m)"
proof (induction n)
  case 0
  then show ?case by (simp add: base_uint_zero_def shr_limb_def)
next
  case (Suc n)
  define pn where "pn = fold (shr_step a k s) [0..<n] base_uint_zero"
  have IH: "length pn = WIDTH" "\<And>m. m < WIDTH \<Longrightarrow> pn ! m = shr_limb a k s n m"
    using Suc by (simp_all add: pn_def)
  have eq: "fold (shr_step a k s) [0..<Suc n] base_uint_zero = shr_step a k s n pn"
    by (simp add: pn_def)
  have "shr_step a k s n pn ! m = shr_limb a k s (Suc n) m" if m: "m < WIDTH" for m
  proof -
    consider "n = m + k" | "n = m + k + 1" | "n \<noteq> m + k" "n \<noteq> m + k + 1" by blast
    then show ?thesis
    proof cases
      case 1
      then show ?thesis using m IH
        by (auto simp: shr_step_def shr_limb_def Let_def nth_list_update ac_simps)
    next
      case 2
      then show ?thesis using m IH
        by (auto simp: shr_step_def shr_limb_def Let_def nth_list_update ac_simps)
    next
      case 3
      then have "shr_limb a k s (Suc n) m = shr_limb a k s n m"
        by (auto simp: shr_limb_def less_Suc_eq)
      moreover have "shr_step a k s n pn ! m = pn ! m"
        using 3 by (auto simp: shr_step_def Let_def nth_list_update)
      ultimately show ?thesis using m IH by simp
    qed
  qed
  moreover have "length (shr_step a k s n pn) = WIDTH"
    using IH by (simp add: shr_step_def Let_def)
  ultimately show ?case unfolding eq by blast
qed

lemma uint_shr_length [simp]: "length (uint_shr a n) = WIDTH"
  using shr_fold [of WIDTH] by (simp add: uint_shr_def)

lemma uint_shr_nth:
  "m < WIDTH \<Longrightarrow> uint_shr a n ! m = shr_limb a (n div 32) (n mod 32) WIDTH m"
  using shr_fold [of WIDTH] by (simp add: uint_shr_def)

lemma div_mod_add_lt:
  fixes n d :: nat
  assumes "n mod 32 + d mod 32 < 32"
  shows "(n + d) div 32 = n div 32 + d div 32 \<and> (n + d) mod 32 = n mod 32 + d mod 32"
  by (rule limb_div_mod [OF _ assms]) (simp add: algebra_simps)

lemma div_mod_add_ge:
  fixes n d :: nat
  assumes "32 \<le> n mod 32 + d mod 32"
  shows "(n + d) div 32 = n div 32 + d div 32 + 1 \<and> (n + d) mod 32 = n mod 32 + d mod 32 - 32"
proof (rule limb_div_mod)
  have "32 * (n div 32) + n mod 32 = n" "32 * (d div 32) + d mod 32 = d" by simp_all
  then show "n + d = 32 * (n div 32 + d div 32 + 1) + (n mod 32 + d mod 32 - 32)"
    using assms by (simp add: algebra_simps)
  have "n mod 32 < 32" "d mod 32 < 32" by simp_all
  then show "n mod 32 + d mod 32 - 32 < 32" by linarith
qed

lemma bit_uint_shr:
  assumes "length a = WIDTH"
  shows "bit (uval (uint_shr a d)) n \<longleftrightarrow> bit (uval a) (n + d)"
proof (cases "n div 32 < WIDTH")
  case False
  then have "\<not> (n + d) div 32 < WIDTH" using div_le_mono [of n "n + d" 32] by simp
  with False show ?thesis using assms by (simp add: bit_uval)
next
  case m: True
  let ?k = "d div 32" and ?s = "d mod 32" and ?m = "n div 32" and ?j = "n mod 32"
  have lt: "?j < 32" "?s < 32" by simp_all
  have limb: "bit (uval (uint_shr a d)) n = bit (shr_limb a ?k ?s WIDTH ?m) ?j"
    using m by (simp add: bit_uval uint_shr_nth)
  consider (lt) "?j + ?s < 32" | (ge) "32 \<le> ?j + ?s" by linarith
  then show ?thesis
  proof cases
    case lt
    note e = div_mod_add_lt [OF lt]
    from lt have "?s \<noteq> 0 \<Longrightarrow> \<not> bit (push_bit (32 - ?s) w) ?j" for w :: u32
      by (auto simp: bit_simps)
    then show ?thesis using assms unfolding limb
      by (simp add: shr_limb_def bit_or_iff bit_drop_bit_eq bit_uval e
          add.commute [of "d mod 32" "n mod 32"])
  next
    case ge
    note e = div_mod_add_ge [OF ge]
    from ge have "\<not> bit (drop_bit ?s w) ?j" for w :: u32
      using bit_imp_le_length [of w "?s + ?j"] by (auto simp: bit_drop_bit_eq add.commute)
    moreover have "?j - (32 - ?s) = ?j + ?s - 32" "32 - ?s \<le> ?j" using ge lt by simp_all
    moreover have "?s \<noteq> 0" using ge \<open>?j < 32\<close> by linarith
    ultimately show ?thesis using assms \<open>?j < 32\<close> unfolding limb
      by (simp add: shr_limb_def bit_or_iff bit_push_bit_iff bit_uval e)
  qed
qed

lemma uval_uint_shr:
  assumes "length a = WIDTH"
  shows "uval (uint_shr a d) = uval a div 2 ^ d"
proof -
  have "uval (uint_shr a d) = drop_bit d (uval a)"
    by (rule bit_eqI) (simp add: bit_uint_shr [OF assms] bit_drop_bit_eq add.commute)
  then show ?thesis by (simp add: drop_bit_eq_div)
qed

section \<open>Comparison and bit length\<close>

lemma uval_take_Suc:
  "i < length a \<Longrightarrow> uval (take (Suc i) a) = uval (take i a) + 2 ^ (32 * i) * unat (a ! i)"
  by (simp add: take_Suc_conv_app_nth uval_append)

lemma uval_take_bound: "i \<le> length a \<Longrightarrow> uval (take i a) < 2 ^ (32 * i)"
  using uval_bound [of "take i a"] by simp

lemma compare_limbs_sgn:
  "length a = length b \<Longrightarrow> i \<le> length a \<Longrightarrow>
   compare_limbs i a b = sgn (int (uval (take i a)) - int (uval (take i b)))"
proof (induction i)
  case (Suc i)
  let ?B = "2 ^ (32 * i) :: nat" and ?x = "uval (take i a)" and ?y = "uval (take i b)"
  have b: "?x < ?B" "?y < ?B" using Suc.prems uval_take_bound by auto
  have key: "p < q \<Longrightarrow> x < B \<Longrightarrow> x + B * p < y + B * q" for x y p q B :: nat
  proof -
    assume pq: "p < q" and x: "x < B"
    then have "B * Suc p \<le> B * q" by (intro mult_le_mono2) simp
    with x show "x + B * p < y + B * q" by simp
  qed
  consider (lt) "a ! i < b ! i" | (gt) "b ! i < a ! i" | (eq) "a ! i = b ! i" by fastforce
  then show ?case
  proof cases
    case lt
    then have "?x + ?B * unat (a ! i) < ?y + ?B * unat (b ! i)"
      using b key by (simp add: word_less_nat_alt)
    with lt Suc.prems show ?thesis by (simp add: uval_take_Suc flip: of_nat_add)
  next
    case gt
    then have "?y + ?B * unat (b ! i) < ?x + ?B * unat (a ! i)"
      using b key by (simp add: word_less_nat_alt)
    with gt Suc.prems show ?thesis by (simp add: uval_take_Suc flip: of_nat_add)
  next
    case eq
    with Suc show ?thesis by (simp add: uval_take_Suc)
  qed
qed simp

lemma CompareTo_sgn:
  "length a = WIDTH \<Longrightarrow> length b = WIDTH \<Longrightarrow> CompareTo a b = sgn (int (uval a) - int (uval b))"
  by (simp add: CompareTo_def compare_limbs_sgn)

lemma limb_bits_top:
  assumes "p \<noteq> 0" "\<And>m. n < m \<Longrightarrow> \<not> bit p m"
  shows "0 < limb_bits p n" "bit p (limb_bits p n - 1)" "\<And>m. limb_bits p n \<le> m \<Longrightarrow> \<not> bit p m"
proof -
  have "0 < limb_bits p n \<and> bit p (limb_bits p n - 1) \<and> (\<forall>m. limb_bits p n \<le> m \<longrightarrow> \<not> bit p m)"
    using assms(2)
  proof (induction n)
    case 0
    have "bit p 0"
    proof (rule ccontr)
      assume "\<not> bit p 0"
      then have "\<And>m. \<not> bit p m" using 0 by (metis gr_zeroI)
      then have "p = 0" by (intro bit_eqI) simp
      with assms(1) show False by simp
    qed
    with 0 show ?case by simp
  next
    case (Suc n)
    show ?case
    proof (cases "bit p (Suc n)")
      case True
      with Suc.prems show ?thesis by (simp add: bit_iff_and_push_bit_not_eq_0)
    next
      case False
      with Suc.prems have "\<And>m. n < m \<Longrightarrow> \<not> bit p m" by (metis Suc_lessI)
      from Suc.IH [OF this] False show ?thesis by (simp add: bit_iff_and_push_bit_not_eq_0)
    qed
  qed
  then show "0 < limb_bits p n" "bit p (limb_bits p n - 1)"
    "\<And>m. limb_bits p n \<le> m \<Longrightarrow> \<not> bit p m" by auto
qed

lemma limb_bits_le: "limb_bits p n \<le> n + 1"
  by (induction n) auto

lemma bits_loop_top:
  assumes "n \<le> length a" "\<And>i. n \<le> i \<Longrightarrow> i < length a \<Longrightarrow> a ! i = 0"
  shows "(bits_loop a n = 0 \<and> uval a = 0) \<or>
    (0 < bits_loop a n \<and> bit (uval a) (bits_loop a n - 1) \<and>
     (\<forall>m \<ge> bits_loop a n. \<not> bit (uval a) m))"
  using assms
proof (induction n)
  case 0
  then have "\<And>m. \<not> bit (uval a) m" by (simp add: bit_uval)
  then have "uval a = 0" by (intro bit_eqI) simp
  then show ?case by simp
next
  case (Suc n)
  show ?case
  proof (cases "a ! n = 0")
    case True
    then have "\<And>i. n \<le> i \<Longrightarrow> i < length a \<Longrightarrow> a ! i = 0" 
      using Suc.prems(2) by (metis Suc_leI le_neq_implies_less)
    with Suc True show ?thesis by simp
  next
    case False
    let ?l = "limb_bits (a ! n) 31"
    have no: "\<And>m. 31 < m \<Longrightarrow> \<not> bit (a ! n) m" using bit_imp_le_length by fastforce
    note top = limb_bits_top [of "a ! n" 31, OF False no]
    have l: "?l - 1 < 32" using limb_bits_le [of "a ! n" 31] by simp
    have e: "32 * n + ?l - 1 = 32 * n + (?l - 1)" using top(1) by simp
    have "bit (uval a) (32 * n + ?l - 1)"
      using limb_div_mod [OF e l] top Suc.prems(1) by (simp add: bit_uval)
    moreover have "\<not> bit (uval a) m" if m: "32 * n + ?l \<le> m" for m
    proof
      assume "bit (uval a) m"
      then have b: "m div 32 < length a" "bit (a ! (m div 32)) (m mod 32)" by (simp_all add: bit_uval)
      have "n \<le> m div 32" using m div_le_mono [of "32 * n" m 32] by simp
      moreover have "\<not> Suc n \<le> m div 32" using b Suc.prems(2) [of "m div 32"] by auto
      ultimately have n: "m div 32 = n" by simp
      then have "?l \<le> m mod 32" using m mod_mult_div_eq [of m 32] by simp
      then show False using b(2) top(3) n by simp
    qed
    ultimately show ?thesis using False top(1) by simp
  qed
qed

lemma bits_top:
  assumes "length a = WIDTH"
  shows "(bits a = 0 \<and> uval a = 0) \<or>
    (0 < bits a \<and> bit (uval a) (bits a - 1) \<and> (\<forall>m \<ge> bits a. \<not> bit (uval a) m))"
  using bits_loop_top [of WIDTH a] assms by (simp add: bits_def)

lemma uval_less_bits: "length a = WIDTH \<Longrightarrow> uval a < 2 ^ bits a"
  using bits_top [of a] no_bits_less [of "bits a" "uval a"] by auto

lemma bits_le_uval: "length a = WIDTH \<Longrightarrow> 0 < bits a \<Longrightarrow> 2 ^ (bits a - 1) \<le> uval a"
  using bits_top [of a] bit_nat_ge by auto

lemma bits_eq_0_iff: "length a = WIDTH \<Longrightarrow> bits a = 0 \<longleftrightarrow> uval a = 0"
  using bits_top [of a] by auto

lemma bits_le: "length a = WIDTH \<Longrightarrow> bits a \<le> 32 * WIDTH"
proof -
  assume a: "length a = WIDTH"
  show ?thesis
  proof (cases "bits a = 0")
    case False
    then have "2 ^ (bits a - 1) \<le> uval a" using a bits_le_uval [of a] by simp
    also have "\<dots> < 2 ^ (32 * WIDTH)" using a uval_bound [of a] by simp
    finally have "bits a - 1 < 32 * WIDTH" by (rule power_less_imp_less_exp [rotated]) simp
    then show ?thesis by simp
  qed simp
qed

section \<open>Division\<close>

lemma uval_set_bit:
  assumes "length q = WIDTH" "n < 32 * WIDTH" "2 ^ Suc n dvd uval q"
  shows "uval (q[n div 32 := q ! (n div 32) OR push_bit (n mod 32) 1]) = uval q + 2 ^ n"
proof -
  let ?q = "q[n div 32 := q ! (n div 32) OR push_bit (n mod 32) 1]"
  have m: "n div 32 < WIDTH" using assms(2) by (simp add: limb_index_less)
  have eq: "bit (uval ?q) i \<longleftrightarrow> bit (uval q OR push_bit n 1) i" for i
  proof (cases "i div 32 = n div 32")
    case True
    then have "i mod 32 = n mod 32 \<longleftrightarrow> i = n" by (metis mod_mult_div_eq)
    moreover have "bit (push_bit (n mod 32) 1 :: u32) (i mod 32) \<longleftrightarrow> i mod 32 = n mod 32"
      by (auto simp: bit_exp_iff)
    ultimately show ?thesis using True m assms(1)
      by (auto simp: bit_uval bit_or_iff bit_exp_iff)
  next
    case False
    then have "i \<noteq> n" by auto
    with False show ?thesis using assms(1)
      by (auto simp: bit_uval bit_or_iff bit_exp_iff)
  qed
  have "\<not> bit (uval q) n"
  proof -
    obtain c where "uval q = 2 ^ Suc n * c" using assms(3) by blast
    then show ?thesis by (simp add: bit_iff_odd)
  qed
  then have "uval q OR push_bit n 1 = uval q + push_bit n 1"
    by (intro disjunctive_add [symmetric]) (auto simp: bit_exp_iff)
  moreover have "uval ?q = uval q OR push_bit n 1" by (rule bit_eqI) (rule eq)
  ultimately show ?thesis by (simp add: push_bit_eq_mult)
qed

lemma uval_div_loop:
  assumes "length num = WIDTH" "length d = WIDTH" "length q = WIDTH"
    and "n \<le> 32 * WIDTH" "0 < D" "0 < n \<Longrightarrow> uval d = D * 2 ^ (n - 1)"
    and "uval num < D * 2 ^ n" "2 ^ n dvd uval q" "uval q * D + uval num = N"
  shows "uval (div_loop n num d q) = N div D \<and> length (div_loop n num d q) = WIDTH"
  using assms
proof (induction n arbitrary: num d q)
  case 0
  then have "N = uval num + uval q * D" "uval num < D" by simp_all
  then have "N div D = uval q" by simp
  with 0 show ?case by simp
next
  case (Suc n)
  have d: "uval d = D * 2 ^ n" using Suc.prems by simp
  have d': "0 < n \<Longrightarrow> uval (uint_shr d 1) = D * 2 ^ (n - 1)"
    using Suc.prems(2) by (cases n) (simp_all add: uval_uint_shr d)
  have cmp: "CompareTo num d \<ge> 0 \<longleftrightarrow> uval d \<le> uval num"
    using CompareTo_sgn Suc.prems(1,2) by (auto simp: sgn_if)
  show ?case
  proof (cases "uval d \<le> uval num")
    case True
    define q' where "q' = q[n div 32 := q ! (n div 32) OR push_bit (n mod 32) 1]"
    have q': "uval q' = uval q + 2 ^ n"
      unfolding q'_def using Suc.prems by (intro uval_set_bit) simp_all
    have num': "uval (uint_sub num d) = uval num - uval d"
      using Suc.prems True by (simp add: uval_uint_sub)
    have "2 ^ n dvd uval q" using Suc.prems(8) by (rule power_le_dvd) simp
    then have "2 ^ n dvd uval q'" by (simp add: q')
    moreover have "uval (uint_sub num d) < D * 2 ^ n"
      using Suc.prems(7) True by (simp add: num' d)
    moreover have "uval q' * D + uval (uint_sub num d) = N"
      using Suc.prems(9) True by (simp add: q' num' d algebra_simps)
    moreover have "length (uint_sub num d) = WIDTH"
      using Suc.prems(1,2) by (simp add: uint_sub_def uint_add_def uint_neg_def)
    ultimately have "uval (div_loop n (uint_sub num d) (uint_shr d 1) q') = N div D \<and>
        length (div_loop n (uint_sub num d) (uint_shr d 1) q') = WIDTH"
      using Suc.prems d' by (intro Suc.IH) (simp_all add: q'_def)
    then show ?thesis using True cmp by (simp add: q'_def)
  next
    case False
    have "2 ^ n dvd uval q" using Suc.prems(8) by (rule power_le_dvd) simp
    then have "uval (div_loop n num (uint_shr d 1) q) = N div D \<and>
        length (div_loop n num (uint_shr d 1) q) = WIDTH"
      using Suc.prems d' False d by (intro Suc.IH) simp_all
    then show ?thesis using False cmp by simp
  qed
qed

lemma uint_div_by_zero:
  "length b = WIDTH \<Longrightarrow> uval b = 0 \<Longrightarrow> uint_div a b = Inl DivisionByZero"
  by (simp add: uint_div_def bits_eq_0_iff [symmetric])

lemma uint_div_val:
  assumes a: "length a = WIDTH" and b: "length b = WIDTH" and nz: "uval b \<noteq> 0"
  shows "\<exists>q. uint_div a b = Inr q \<and> length q = WIDTH \<and> uval q = uval a div uval b"
proof (cases "bits b > bits a")
  case True
  have "uval a < 2 ^ bits a" using a by (rule uval_less_bits)
  also have "(2::nat) ^ bits a \<le> 2 ^ (bits b - 1)" using True by (intro power_increasing) auto
  also have "\<dots> \<le> uval b" using True b bits_le_uval by simp
  finally have "uval a div uval b = 0" by simp
  then show ?thesis using True nz b
    by (simp add: uint_div_def bits_eq_0_iff base_uint_zero_def)
next
  case False
  define shift where "shift = bits a - bits b"
  have nb: "bits b \<noteq> 0" using b nz bits_eq_0_iff by simp
  have sum: "bits b + shift = bits a" using False by (simp add: shift_def)
  have sW: "Suc shift \<le> 32 * WIDTH" using bits_le [OF a] nb sum by simp
  have "uval b * 2 ^ shift < 2 ^ bits b * 2 ^ shift" using uval_less_bits [OF b] by simp
  also have "\<dots> = 2 ^ bits a" by (simp add: power_add [symmetric] sum)
  also have "(2::nat) ^ bits a \<le> 2 ^ (32 * WIDTH)" using bits_le [OF a] by (intro power_increasing) auto
  finally have d: "uval (uint_shl b shift) = uval b * 2 ^ shift"
    using b by (simp add: uval_uint_shl)
  have "uval a < 2 ^ bits a" using a by (rule uval_less_bits)
  also have "bits a = (bits b - 1) + Suc shift" using nb sum by simp
  also have "(2::nat) ^ (bits b - 1 + Suc shift) = 2 ^ (bits b - 1) * 2 ^ Suc shift"
    by (rule power_add)
  also have "\<dots> \<le> uval b * 2 ^ Suc shift" using bits_le_uval [OF b] nb by (intro mult_le_mono1) simp
  finally have "uval a < uval b * 2 ^ Suc shift" .
  then have "uval (div_loop (Suc shift) a (uint_shl b shift) base_uint_zero) = uval a div uval b \<and>
      length (div_loop (Suc shift) a (uint_shl b shift) base_uint_zero) = WIDTH"
    using a nz sW d by (intro uval_div_loop) (simp_all add: base_uint_zero_def)
  then show ?thesis using False nb by (simp add: uint_div_def shift_def Let_def del: div_loop.simps)
qed

section \<open>Conversions from and to 64-bit integers\<close>

lemma base_uint_of_u64_length [simp]: "length (base_uint_of_u64 b) = WIDTH"
  by (simp add: base_uint_of_u64_def WIDTH_def)

lemma uval_base_uint_of_u64 [simp]: "uval (base_uint_of_u64 b) = unat b"
proof -
  have "unat b div 2 ^ 32 < 2 ^ 32"
    using unat_u64_less [of b] by (simp add: less_mult_imp_div_less)
  then show ?thesis
    by (simp add: base_uint_of_u64_def unat_ucast_mod unat_drop_bit_div)
qed

lemma unat_GetLow64:
  assumes "length a = WIDTH"
  shows "unat (GetLow64 a) = uval a mod 2 ^ 64"
proof -
  obtain x y zs where a: "a = x # y # zs"
    using assms by (cases a; cases "tl a") (auto simp: WIDTH_def)
  have "unat (GetLow64 a) = unat x + 2 ^ 32 * unat y"
    unfolding GetLow64_def a
    using unat_or_push_bit [of "ucast x :: u64" 32 "ucast y"] unat_u32_less [of x] unat_u32_less [of y]
    by (simp add: word_nat)
  moreover have "uval a mod 2 ^ 64 = (unat x + 2 ^ 32 * unat y)"
  proof -
    have "uval a = unat x + 2 ^ 32 * unat y + 2 ^ 64 * uval zs" by (simp add: a)
    moreover have "unat x + 2 ^ 32 * unat y < 2 ^ 64"
      using unat_u32_less [of x] unat_u32_less [of y] by simp
    ultimately show ?thesis by (simp only: mod_mult_self2 mod_less)
  qed
  ultimately show ?thesis by simp
qed

section \<open>The interface the clients use\<close>

text \<open>
  What proof-of-work retargeting and the dividend payout rely on: fixed-width unsigned
  arithmetic with a division that fails on a zero divisor only.
\<close>

locale uint_ops =
  fixes invar :: "'u \<Rightarrow> bool" and val :: "'u \<Rightarrow> nat" and modulus :: nat
    and of_u64 :: "u64 \<Rightarrow> 'u" and low64 :: "'u \<Rightarrow> u64"
    and add :: "'u \<Rightarrow> 'u \<Rightarrow> 'u" and mul :: "'u \<Rightarrow> 'u \<Rightarrow> 'u"
    and divide :: "'u \<Rightarrow> 'u \<Rightarrow> 'e + 'u" and cmp :: "'u \<Rightarrow> 'u \<Rightarrow> int"
  assumes val_less: "invar a \<Longrightarrow> val a < modulus"
    and invar_of_u64: "invar (of_u64 w)" and val_of_u64: "val (of_u64 w) = unat w"
    and val_low64: "invar a \<Longrightarrow> unat (low64 a) = val a mod 2 ^ 64"
    and invar_add: "invar a \<Longrightarrow> invar b \<Longrightarrow> invar (add a b)"
    and val_add: "invar a \<Longrightarrow> invar b \<Longrightarrow> val (add a b) = (val a + val b) mod modulus"
    and invar_mul: "invar a \<Longrightarrow> invar b \<Longrightarrow> invar (mul a b)"
    and val_mul: "invar a \<Longrightarrow> invar b \<Longrightarrow> val (mul a b) = val a * val b mod modulus"
    and val_divide: "invar a \<Longrightarrow> invar b \<Longrightarrow> val b \<noteq> 0 \<Longrightarrow>
      \<exists>q. divide a b = Inr q \<and> invar q \<and> val q = val a div val b"
    and val_cmp: "invar a \<Longrightarrow> invar b \<Longrightarrow> cmp a b = sgn (int (val a) - int (val b))"
begin

text \<open>Scaling by a fraction is exact as long as the product fits.\<close>

lemma scale:
  assumes "invar a" "invar f" "invar s" "val s \<noteq> 0" "val a * val f < modulus"
  shows "\<exists>q. divide (mul a f) s = Inr q \<and> invar q \<and> val q = val a * val f div val s"
  using val_divide [OF invar_mul, of a f s] assms by (simp add: val_mul)

lemma cmp_gt: "invar a \<Longrightarrow> invar b \<Longrightarrow> cmp a b > 0 \<longleftrightarrow> val b < val a"
  by (simp add: val_cmp sgn_if)

end

lemma uint_mul_val:
  "length a = WIDTH \<Longrightarrow> length b = WIDTH \<Longrightarrow>
   uval (uint_mul a b) = uval a * uval b mod 2 ^ (32 * WIDTH)"
  unfolding uint_mul_def by (subst uval_mul_outer) (simp_all add: base_uint_zero_def)

interpretation u256: uint_ops "\<lambda>a. length a = WIDTH" uval "2 ^ (32 * WIDTH)"
  base_uint_of_u64 GetLow64 uint_add uint_mul uint_div CompareTo
proof
  show "length a = WIDTH \<Longrightarrow> uval a < 2 ^ (32 * WIDTH)" for a using uval_bound [of a] by simp
  show "length a = WIDTH \<Longrightarrow> length b = WIDTH \<Longrightarrow> uval b \<noteq> 0 \<Longrightarrow>
      \<exists>q. uint_div a b = Inr q \<and> length q = WIDTH \<and> uval q = uval a div uval b" for a b
    by (rule uint_div_val)
qed (simp_all add: unat_GetLow64 uint_add_def uval_add_limbs uint_mul_val CompareTo_sgn,
     simp_all add: uint_mul_def base_uint_zero_def)

section \<open>Properties\<close>

lemma uint_sub_val:
  assumes "length a = WIDTH" "length b = WIDTH"
  shows "uval (uint_sub a b) = (uval a + (2 ^ (32 * WIDTH) - uval b)) mod 2 ^ (32 * WIDTH)"
proof -
  have l: "length a = length (uint_neg b)" using assms by (simp add: uint_neg_def)
  show ?thesis
    using assms by (simp add: uint_sub_def uval_uint_add [OF l] uval_uint_neg mod_simps)
qed

text \<open>
  C31: the limb-by-limb \<open>+=\<close>, \<open>-=\<close>, \<open>*=\<close> (by a 32-bit and by a 256-bit
  integer), unary minus, increment and decrement compute in the integers modulo \<open>2 ^ 256\<close>.
\<close>

theorem uint_ring_ops:
  assumes "wf_uint a" "wf_uint b"
  shows "uval (uint_add a b) = (uval a + uval b) mod 2 ^ 256
    \<and> uval (uint_sub a b) = (uval a + (2 ^ 256 - uval b)) mod 2 ^ 256
    \<and> uval (uint_neg a) = (2 ^ 256 - uval a) mod 2 ^ 256
    \<and> uval (uint_inc a) = (uval a + 1) mod 2 ^ 256
    \<and> uval (uint_dec a) = (uval a + 2 ^ 256 - 1) mod 2 ^ 256
    \<and> uval (uint_mul a b) = uval a * uval b mod 2 ^ 256
    \<and> uval (uint_mul32 a c) = unat c * uval a mod 2 ^ 256"
proof -
  have W: "32 * WIDTH = 256" by (simp add: WIDTH_def)
  have l: "length a = WIDTH" "length b = WIDTH" using assms by (simp_all add: wf_uint_def)
  have "uval (uint_mul32 a c) = unat c * uval a mod 2 ^ (32 * WIDTH)"
    using uval_mul32_limbs [of 0 c a] l by (simp add: uint_mul32_def)
  moreover have "uval (uint_add a b) = (uval a + uval b) mod 2 ^ (32 * WIDTH)"
    using l by (simp add: uval_uint_add)
  moreover note uint_sub_val [OF l] uint_mul_val [OF l] uval_uint_neg [of a] uval_uint_inc [of a]
    uval_uint_dec [of a]
  ultimately show ?thesis unfolding l W by blast
qed

theorem uint_ring_ops_witness:
  "wf_uint (0xffffffff # 7 # replicate 6 0)
   \<and> uval (uint_mul32 (0xffffffff # 7 # replicate 6 0) 5)
       = unat (5 :: u32) * uval (0xffffffff # 7 # replicate 6 0) mod 2 ^ 256"
proof -
  have h: "wf_uint (0xffffffff # 7 # replicate 6 0)" by (simp add: wf_uint_def WIDTH_def)
  show ?thesis using h uint_ring_ops [OF h h, of 5] by blast
qed

text \<open>
  C12: the shift-and-subtract \<open>/=\<close> throws exactly on a zero divisor; otherwise it
  returns the quotient of the two numbers.
\<close>

theorem uint_div_correct:
  assumes "wf_uint a" "wf_uint b"
  shows "(uval b = 0 \<longrightarrow> uint_div a b = Inl DivisionByZero) \<and>
    (uval b \<noteq> 0 \<longrightarrow> (\<exists>q. uint_div a b = Inr q \<and> wf_uint q \<and> uval q = uval a div uval b))"
  using assms uint_div_by_zero [of b a] uint_div_val [of a b] by (auto simp: wf_uint_def)

theorem uint_div_correct_witness:
  "\<exists>q. uint_div (base_uint_of_u64 1000) (base_uint_of_u64 7) = Inr q \<and> uval q = 142"
proof -
  have h: "wf_uint (base_uint_of_u64 1000)" "wf_uint (base_uint_of_u64 7)"
    by (simp_all add: wf_uint_def)
  show ?thesis using uint_div_correct [OF h] by auto
qed

text \<open>
  C39: the limb shifts are multiplication by a power of two modulo \<open>2 ^ 256\<close> and
  division by one, for every shift amount; \<open>CompareTo\<close> orders by value, and
  \<open>bits\<close> is the length of the binary representation, 0 for the number 0.
\<close>

theorem uint_shift_compare:
  assumes "wf_uint a" "wf_uint b"
  shows "uval (uint_shl a n) = uval a * 2 ^ n mod 2 ^ 256
    \<and> uval (uint_shr a n) = uval a div 2 ^ n
    \<and> CompareTo a b = sgn (int (uval a) - int (uval b))
    \<and> uval a < 2 ^ bits a \<and> (if uval a = 0 then bits a = 0 else 2 ^ (bits a - 1) \<le> uval a)"
proof -
  have W: "32 * WIDTH = 256" by (simp add: WIDTH_def)
  have l: "length a = WIDTH" "length b = WIDTH" using assms by (simp_all add: wf_uint_def)
  have top: "if uval a = 0 then bits a = 0 else 2 ^ (bits a - 1) \<le> uval a"
    using bits_le_uval [OF l(1)] bits_eq_0_iff [OF l(1)] by auto
  show ?thesis
    using uval_uint_shl [OF l(1), of n] uval_uint_shr [OF l(1), of n] CompareTo_sgn [OF l]
      uval_less_bits [OF l(1)] top
    unfolding W by (intro conjI)
qed

theorem uint_shift_compare_witness:
  "wf_uint (base_uint_of_u64 0x1234567890) \<and>
   uval (uint_shl (base_uint_of_u64 0x1234567890) 37) = 0x1234567890 * 2 ^ 37 mod 2 ^ 256 \<and>
   uval (uint_shr (base_uint_of_u64 0x1234567890) 37) = 0 \<and>
   CompareTo (base_uint_of_u64 0x1234567890) (base_uint_of_u64 7) = 1"
proof -
  have h: "wf_uint (base_uint_of_u64 0x1234567890)" "wf_uint (base_uint_of_u64 7)" by (simp_all add: wf_uint_def)
  show ?thesis using h(1) uint_shift_compare [OF h, of 37] by simp
qed

end
