(* ===== verification/Compact_Bits.thy ===== *)
theory Compact_Bits
  imports Arith_Uint256
begin

text \<open>
  The compact encoding of targets (\<^verbatim>\<open>SetCompact\<close> and \<^verbatim>\<open>GetCompact\<close> of
  \<^verbatim>\<open>src/src/arith_uint256.cpp\<close>) read as arithmetic: what each of them computes, and
  that encoding keeps the two or three most significant bytes.
\<close>

section \<open>Decoding\<close>

lemma and_7fffff: "(x :: u32) AND 0x007fffff = x AND mask 23"
  by (simp add: mask_eq_exp_minus_1)

lemma and_800000: "(x :: u32) AND 0x00800000 \<noteq> 0 \<longleftrightarrow> bit (unat x) 23"
proof -
  have "(0x00800000 :: u32) = push_bit 23 1" by simp
  then have "x AND 0x00800000 \<noteq> 0 \<longleftrightarrow> bit x 23"
    by (simp only: bit_iff_and_push_bit_not_eq_0)
  then show ?thesis by (simp add: bit_unsigned_iff)
qed

definition compact_word :: "nat \<Rightarrow> nat \<Rightarrow> nat" where
  "compact_word s m = (if s \<le> 3 then m div 256 ^ (3 - s) else m)"

definition compact_val :: "nat \<Rightarrow> nat \<Rightarrow> nat" where
  "compact_val s m = (if s \<le> 3 then m div 256 ^ (3 - s) else m * 256 ^ (s - 3))"

lemma pow256: "2 ^ (8 * n) = (256 :: nat) ^ n"
  by (simp add: power_mult)

lemma SetCompact_arith:
  fixes c :: u32
  defines "s \<equiv> unat c div 2 ^ 24" and "m \<equiv> unat c mod 2 ^ 23"
  shows "\<exists>v. SetCompact c = (v, compact_word s m \<noteq> 0 \<and> bit (unat c) 23,
            compact_word s m \<noteq> 0 \<and> (s > 34 \<or> (compact_word s m > 0xff \<and> s > 33)
                                               \<or> (compact_word s m > 0xffff \<and> s > 32)))
          \<and> length v = WIDTH \<and> uval v = compact_val s m mod 2 ^ (32 * WIDTH)"
proof -
  let ?w0 = "c AND 0x007fffff"
  define w where "w = (if s \<le> 3 then drop_bit (8 * (3 - s)) ?w0 else ?w0)"
  have s: "unat (drop_bit 24 c) = s" by (simp only: s_def unat_drop_bit_div)
  have w0: "unat ?w0 = m" unfolding and_7fffff m_def by (rule unat_and_mask)
  have w: "unat w = compact_word s m"
    by (cases "s \<le> 3")
       (simp_all only: w_def compact_word_def unat_drop_bit_div w0 pow256 if_True if_False)
  have wz: "w \<noteq> 0 \<longleftrightarrow> compact_word s m \<noteq> 0" using w by (metis unat_0 unat_eq_zero)
  have wgt: "w > 0xff \<longleftrightarrow> compact_word s m > 0xff" "w > 0xffff \<longleftrightarrow> compact_word s m > 0xffff"
    by (simp_all add: word_less_nat_alt w)
  define v where "v = (if s \<le> 3 then base_uint_of_u64 (ucast w)
                       else uint_shl (base_uint_of_u64 (ucast w)) (8 * (s - 3)))"
  have "length v = WIDTH" by (simp add: v_def)
  moreover have "uval v = compact_val s m mod 2 ^ (32 * WIDTH)"
  proof -
    have cw: "compact_word s m < 2 ^ (32 * WIDTH)"
    proof -
      have "compact_word s m < 2 ^ 32" using unat_u32_less [of w] by (simp add: w)
      also have "(2::nat) ^ 32 \<le> 2 ^ (32 * WIDTH)" by (intro power_increasing) (simp_all add: WIDTH_def)
      finally show ?thesis .
    qed
    show ?thesis
    proof (cases "s \<le> 3")
      case True
      then show ?thesis using cw by (simp add: v_def w word_nat compact_val_def compact_word_def)
    next
      case False
      then show ?thesis
        by (simp add: v_def w word_nat compact_val_def compact_word_def uval_uint_shl pow256)
    qed
  qed
  moreover have "SetCompact c = (v, w \<noteq> 0 \<and> c AND 0x00800000 \<noteq> 0,
      w \<noteq> 0 \<and> (s > 34 \<or> (w > 0xff \<and> s > 33) \<or> (w > 0xffff \<and> s > 32)))"
    unfolding SetCompact_def Let_def s w_def [symmetric] v_def by simp
  ultimately show ?thesis unfolding wz wgt and_800000 by blast
qed

section \<open>Encoding\<close>

text \<open>Size and mantissa before and after the sign bit is cleared.\<close>

definition compact_mant :: "nat \<Rightarrow> nat \<Rightarrow> nat" where
  "compact_mant n v = (if n \<le> 3 then v * 256 ^ (3 - n) else v div 256 ^ (n - 3))"

definition compact_norm :: "nat \<Rightarrow> nat \<Rightarrow> nat \<times> nat" where
  "compact_norm n v =
     (let m = compact_mant n v in if 2 ^ 23 \<le> m then (m div 256, n + 1) else (m, n))"

lemma compact_mant_less: "v < 256 ^ n \<Longrightarrow> compact_mant n v < 2 ^ 24"
proof -
  assume v: "v < 256 ^ n"
  show ?thesis
  proof (cases "n \<le> 3")
    case True
    then have "v * 256 ^ (3 - n) < 256 ^ n * 256 ^ (3 - n)" using v by simp
    also have "\<dots> = 256 ^ 3" using True by (simp only: power_add [symmetric]) simp
    finally show ?thesis using True by (simp add: compact_mant_def)
  next
    case False
    have "v < 256 ^ 3 * 256 ^ (n - 3)" using v False by (simp only: power_add [symmetric]) simp
    then have "v div 256 ^ (n - 3) < 256 ^ 3" by (rule less_mult_imp_div_less)
    then show ?thesis using False by (simp add: compact_mant_def)
  qed
qed

lemma GetCompact_arith:
  assumes a: "length a = WIDTH"
  defines "n \<equiv> (bits a + 7) div 8"
  defines "r \<equiv> compact_norm n (uval a)"
  shows "\<exists>c. GetCompact a False = Some c \<and> unat c = fst r + snd r * 2 ^ 24"
    and "fst r < 2 ^ 23" and "snd r \<le> 33" and "uval a < 256 ^ n"
proof -
  have n33: "n \<le> 32" using bits_le [OF a] unfolding n_def WIDTH_def by simp
  have "uval a < 2 ^ bits a" using a by (rule uval_less_bits)
  also have "(2::nat) ^ bits a \<le> 2 ^ (8 * n)" unfolding n_def by (intro power_increasing) auto
  finally show v: "uval a < 256 ^ n" by (simp only: pow256)
  note mant = compact_mant_less [OF v]
  define m0 :: u32 where "m0 = (if n \<le> 3 then ucast (push_bit (8 * (3 - n)) (GetLow64 a))
                      else ucast (GetLow64 (uint_shr a (8 * (n - 3)))))"
  have m0: "unat m0 = compact_mant n (uval a)"
  proof (cases "n \<le> 3")
    case True
    have "uval a < 256 ^ 3" using v True by (meson less_le_trans one_le_numeral power_increasing)
    then have low: "unat (GetLow64 a) = uval a" using a by (simp add: unat_GetLow64)
    have p: "2 ^ (8 * (3 - n)) * unat (GetLow64 a) = compact_mant n (uval a)"
      using True by (simp add: low pow256 compact_mant_def)
    then have "unat (push_bit (8 * (3 - n)) (GetLow64 a)) = compact_mant n (uval a)"
      using mant by (subst unat_push_bit_small) simp_all
    then show ?thesis using True mant by (simp add: m0_def unat_ucast_mod del: push_bit_eq_mult)
  next
    case False
    have "unat (GetLow64 (uint_shr a (8 * (n - 3)))) = compact_mant n (uval a)"
      using a mant False by (simp add: unat_GetLow64 uval_uint_shr pow256 compact_mant_def)
    then show ?thesis using False mant by (simp add: m0_def unat_ucast_mod)
  qed
  have sign: "m0 AND 0x00800000 \<noteq> 0 \<longleftrightarrow> 2 ^ 23 \<le> unat m0"
    unfolding and_800000 using mant by (intro bit_top_iff) (simp add: m0)
  define m1 n1 where "m1 = (if 2 ^ 23 \<le> unat m0 then drop_bit 8 m0 else m0)"
    and "n1 = (if 2 ^ 23 \<le> unat m0 then n + 1 else n)"
  have r: "r = (unat m1, n1)"
    by (simp add: r_def compact_norm_def m1_def n1_def m0 unat_drop_bit_div Let_def del: drop_bit_eq_div)
  have m1: "unat m1 < 2 ^ 23"
  proof (cases "2 ^ 23 \<le> unat m0")
    case True
    have "unat (drop_bit 8 m0) = unat m0 div 2 ^ 8" by (rule unat_drop_bit_div)
    also have "\<dots> < 2 ^ 23" using mant by (simp add: m0 less_mult_imp_div_less)
    finally show ?thesis using True by (simp add: m1_def)
  qed (simp add: m1_def)
  have n1: "n1 \<le> 33" using n33 by (simp add: n1_def)
  from r m1 n1 show "fst r < 2 ^ 23" "snd r \<le> 33" by simp_all
  have "(NOT 0x007fffff :: u32) = NOT (mask 23)" by (simp add: mask_eq_exp_minus_1)
  then have mask0: "m1 AND NOT 0x007fffff = 0"
    using and_not_mask_eq_0 [OF m1] by (simp only:)
  define c where "c = m1 OR push_bit 24 (word_of_nat n1)"
  have un1: "unat (word_of_nat n1 :: u32) = n1" using n1 by (simp add: unat_of_nat)
  have c: "unat c = unat m1 + n1 * 2 ^ 24"
    unfolding c_def using m1 n1 by (subst unat_or_push_bit) (simp_all add: un1)
  have "GetCompact a False = Some c"
    using mask0 n1 unfolding GetCompact_def Let_def n_def [symmetric] m0_def [symmetric] sign
    by (simp add: m1_def n1_def c_def split: if_splits)
  with c r show "\<exists>c. GetCompact a False = Some c \<and> unat c = fst r + snd r * 2 ^ 24" by simp
qed

section \<open>Round trip\<close>

lemma compact_norm_val:
  assumes "v < 256 ^ n" "compact_norm n v = (m, s)"
  shows "compact_val s m = v div 256 ^ (s - 3) * 256 ^ (s - 3)"
proof (cases "2 ^ 23 \<le> compact_mant n v")
  case True
  then have ms: "m = compact_mant n v div 256" "s = n + 1"
    using assms(2) by (simp_all add: compact_norm_def Let_def)
  consider (lt) "n < 3" | (eq) "n = 3" | (gt) "n > 3" by linarith
  then show ?thesis
  proof cases
    case lt
    then have "(256::nat) ^ (3 - n) = 256 * 256 ^ (3 - s)" "s \<le> 3"
      unfolding ms by (simp_all add: power_Suc [symmetric] Suc_diff_Suc del: power_Suc)
    with lt show ?thesis
      by (simp add: compact_val_def ms(1) compact_mant_def div_mult2_eq [symmetric])
  next
    case eq
    then show ?thesis by (simp add: compact_val_def ms compact_mant_def)
  next
    case gt
    then have "(256::nat) ^ (s - 3) = 256 ^ (n - 3) * 256"
      unfolding ms by (simp add: power_Suc [symmetric] Suc_diff_le mult.commute del: power_Suc)
    with gt show ?thesis
      by (simp add: compact_val_def ms compact_mant_def div_mult2_eq)
  qed
next
  case False
  then have ms: "m = compact_mant n v" "s = n"
    using assms(2) by (auto simp: compact_norm_def Let_def)
  then show ?thesis by (simp add: compact_val_def compact_mant_def)
qed

lemma compact_norm_size:
  assumes "v < 256 ^ n" "n \<le> 32" "compact_norm n v = (m, s)" "s > 32"
  shows "m \<le> 0xffff"
proof -
  have "m = compact_mant n v div 256"
    using assms by (auto simp: compact_norm_def Let_def split: if_splits)
  then show ?thesis using compact_mant_less [OF assms(1)] by simp
qed

lemma compact_split:
  "m < 2 ^ 23 \<Longrightarrow> unat c = m + s * 2 ^ 24 \<Longrightarrow>
   unat c div 2 ^ 24 = s \<and> unat c mod 2 ^ 23 = m \<and> \<not> bit (unat c) 23"
proof -
  assume m: "m < 2 ^ 23" and c: "unat c = m + s * 2 ^ 24"
  have "unat c div 2 ^ 24 = s" unfolding c using m by simp
  moreover have "unat c mod 2 ^ 23 = m"
  proof -
    have "unat c = m + (s * 2) * 2 ^ 23" by (simp add: c)
    then show ?thesis using m by (simp only: mod_mult_self1 mod_less)
  qed
  moreover have "\<not> bit (unat c) 23"
  proof -
    have "unat c div 2 ^ 23 = s * 2" using m unfolding c by simp
    then show ?thesis by (simp only: bit_iff_odd) simp
  qed
  ultimately show ?thesis by simp
qed

lemma compact_norm_leading:
  assumes v: "v < 256 ^ n" and low: "0 < n \<Longrightarrow> 256 ^ (n - 1) \<le> v"
    and r: "compact_norm n v = (m, s)"
  shows "v div 256 ^ (s - 3) < 2 ^ 23" and "s \<le> 3 \<or> 2 ^ 15 \<le> v div 256 ^ (s - 3)"
proof -
  have small: "v < 2 ^ 16" if "n \<le> 2"
  proof -
    have "(256::nat) ^ n \<le> 256 ^ 2" using that by (intro power_increasing) simp_all
    then show ?thesis using v by simp
  qed
  have ms: "(m, s) = (if 2 ^ 23 \<le> compact_mant n v then (compact_mant n v div 256, n + 1)
      else (compact_mant n v, n))" using r by (simp add: compact_norm_def Let_def)
  have mant: "compact_mant n v = v div 256 ^ (n - 3)" if "3 \<le> n"
    using that by (cases "n = 3") (simp_all add: compact_mant_def)
  have up: "v div 256 ^ (n + 1 - 3) = compact_mant n v div 256" if "3 \<le> n"
  proof -
    have "(256::nat) ^ (n + 1 - 3) = 256 ^ (n - 3) * 256"
      using that by (simp add: power_Suc [symmetric] Suc_diff_le mult.commute del: power_Suc)
    then show ?thesis by (simp add: mant [OF that] div_mult2_eq)
  qed
  have top: "2 ^ 16 \<le> compact_mant n v" if "3 \<le> n"
  proof -
    have "2 + (n - 3) = n - 1" using that by simp
    then have "256 ^ 2 * 256 ^ (n - 3) = (256::nat) ^ (n - 1)" by (simp only: power_add [symmetric])
    then have "256 ^ 2 * 256 ^ (n - 3) \<le> v" using low that by simp
    then have "256 ^ 2 \<le> v div 256 ^ (n - 3)" by (simp add: less_eq_div_iff_mult_less_eq)
    then show ?thesis by (simp add: mant [OF that])
  qed
  show "v div 256 ^ (s - 3) < 2 ^ 23"
  proof (cases "3 \<le> n")
    case True
    then show ?thesis using ms up mant compact_mant_less [OF v] by (auto split: if_splits)
  next
    case False
    then have "s \<le> 3" using ms by (auto split: if_splits)
    then show ?thesis using small False by simp
  qed
  show "s \<le> 3 \<or> 2 ^ 15 \<le> v div 256 ^ (s - 3)"
  proof (cases "3 \<le> n")
    case True
    then show ?thesis using ms up mant top by (auto split: if_splits)
  next
    case False
    then show ?thesis using ms by (auto split: if_splits)
  qed
qed

lemma bytes_low:
  assumes a: "length a = WIDTH" and n: "0 < (bits a + 7) div 8"
  shows "256 ^ ((bits a + 7) div 8 - 1) \<le> uval a"
proof -
  have "0 < bits a" using n by (cases "bits a") simp_all
  then have "2 ^ (bits a - 1) \<le> uval a" using a by (intro bits_le_uval)
  moreover have "(2::nat) ^ (8 * ((bits a + 7) div 8 - 1)) \<le> 2 ^ (bits a - 1)"
    using \<open>0 < bits a\<close> by (intro power_increasing) linarith+
  ultimately show ?thesis by (simp add: pow256)
qed

text \<open>
  The number of low bytes the encoding clears: none when the target is below \<open>2 ^ 23\<close>,
  otherwise the number that leaves a mantissa between \<open>2 ^ 15\<close> and \<open>2 ^ 23\<close>.
\<close>

definition cleared_bytes :: "nat \<Rightarrow> nat \<Rightarrow> bool" where
  "cleared_bytes v k \<longleftrightarrow> v div 256 ^ k < 2 ^ 23 \<and> (k = 0 \<or> 2 ^ 15 \<le> v div 256 ^ k)"

lemma compact_decode_encode:
  assumes a: "length a = WIDTH"
  shows "\<exists>c v k. GetCompact a False = Some c \<and> SetCompact c = (v, False, False)
           \<and> length v = WIDTH \<and> k = unat c div 2 ^ 24 - 3 \<and> cleared_bytes (uval a) k
           \<and> uval v = uval a div 256 ^ k * 256 ^ k"
proof -
  define n where "n = (bits a + 7) div 8"
  obtain m s where ms: "compact_norm n (uval a) = (m, s)" by fastforce
  note G = GetCompact_arith [OF a, folded n_def, unfolded ms, simplified]
  obtain c where c: "GetCompact a False = Some c" "unat c = m + s * 2 ^ 24" using G(1) by auto
  have n32: "n \<le> 32" using bits_le [OF a] unfolding n_def WIDTH_def by simp
  have m: "m < 2 ^ 23" and s: "s \<le> 33" and v: "uval a < 256 ^ n" using G by simp_all
  note sp = compact_split [OF m c(2)]
  have ovf: "\<not> (s > 34 \<or> (compact_word s m > 0xff \<and> s > 33) \<or> (compact_word s m > 0xffff \<and> s > 32))"
    using s compact_norm_size [OF v n32 ms] by (auto simp: compact_word_def)
  have val: "compact_val s m = uval a div 256 ^ (s - 3) * 256 ^ (s - 3)"
    by (rule compact_norm_val [OF v ms])
  have "compact_val s m \<le> uval a" unfolding val by (rule div_times_less_eq_dividend)
  also have "uval a < 2 ^ (32 * WIDTH)" using uval_bound [of a] a by simp
  finally have "compact_val s m mod 2 ^ (32 * WIDTH) = compact_val s m" by simp
  then obtain w where w: "SetCompact c = (w, False, False)" "length w = WIDTH" "uval w = compact_val s m"
    using SetCompact_arith [of c] sp ovf by auto
  have "cleared_bytes (uval a) (s - 3)"
    using compact_norm_leading [OF v bytes_low [OF a, folded n_def] ms] by (auto simp: cleared_bytes_def)
  with c(1) w sp val show ?thesis by auto
qed

lemma compact_val_bound:
  assumes m: "m < 2 ^ 23" and ovf: "\<not> (compact_word s m \<noteq> 0 \<and> (s > 34
      \<or> (compact_word s m > 0xff \<and> s > 33) \<or> (compact_word s m > 0xffff \<and> s > 32)))"
  shows "compact_val s m < 2 ^ 256"
    and "\<exists>M j. compact_val s m = M * 256 ^ j \<and> M < 2 ^ 23"
proof -
  consider (le) "s \<le> 3" | (zero) "3 < s" "m = 0" | (mid) "3 < s" "s \<le> 32"
    | (x33) "s = 33" "m \<le> 0xffff" | (x34) "s = 34" "m \<le> 0xff"
    using ovf by (force simp: compact_word_def split: if_splits)
  then show "compact_val s m < 2 ^ 256"
  proof cases
    case le
    have "m div 256 ^ (3 - s) \<le> m" by simp
    also note m
    also have "(2::nat) ^ 23 < 2 ^ 256" by simp
    finally show ?thesis using le by (simp only: compact_val_def if_True)
  next
    case mid
    have "(256::nat) ^ (s - 3) \<le> 256 ^ 29" using mid by (intro power_increasing) simp_all
    then have "m * 256 ^ (s - 3) \<le> (2 ^ 23 - 1) * 256 ^ 29" using m by (intro mult_le_mono) simp_all
    then show ?thesis using mid by (simp add: compact_val_def)
  qed (simp_all add: compact_val_def)
  have "m div 256 ^ (3 - s) < 2 ^ 23" using m by (meson div_le_dividend le_less_trans)
  then show "\<exists>M j. compact_val s m = M * 256 ^ j \<and> M < 2 ^ 23"
    using m unfolding compact_val_def by (metis mult.right_neutral power_0)
qed

lemma cleared_exact:
  assumes k: "cleared_bytes (M * 256 ^ j) k" and M: "M < 2 ^ 23"
  shows "M * 256 ^ j div 256 ^ k * 256 ^ k = M * 256 ^ j"
proof (cases "k = 0")
  case False
  then have "2 ^ 15 \<le> M * 256 ^ j div 256 ^ k" using k by (simp add: cleared_bytes_def)
  then have "2 ^ 15 * 256 ^ k \<le> M * 256 ^ j" by (simp add: less_eq_div_iff_mult_less_eq)
  also have "\<dots> < 2 ^ 23 * 256 ^ j" using M by simp
  finally have "(256::nat) ^ k < 256 ^ Suc j" by simp
  then have "k < Suc j" by (rule power_less_imp_less_exp [rotated]) simp
  then have "k \<le> j" by simp
  then show ?thesis by (simp add: le_imp_power_dvd)
qed simp

lemma uval_eqD: "length a = length b \<Longrightarrow> uval a = uval b \<Longrightarrow> a = b"
proof (induction a b rule: list_induct2)
  case (Cons p ps q qs)
  from Cons.prems have e: "unat p + 2 ^ 32 * uval ps = unat q + 2 ^ 32 * uval qs" by simp
  have "unat p = (unat p + 2 ^ 32 * uval ps) mod 2 ^ 32" using unat_u32_less [of p] by simp
  also have "\<dots> = unat q" unfolding e using unat_u32_less [of q] by simp
  finally have "unat p = unat q" .
  then show ?case using e Cons.IH by (simp add: word_unat_eq_iff)
qed simp

lemma compact_reencode:
  assumes S: "SetCompact c = (w, False, False)"
  shows "\<exists>d. GetCompact w False = Some d \<and> SetCompact d = (w, False, False)"
proof -
  define s m where "s = unat c div 2 ^ 24" and "m = unat c mod 2 ^ 23"
  have ovf: "\<not> (compact_word s m \<noteq> 0 \<and> (s > 34
      \<or> (compact_word s m > 0xff \<and> s > 33) \<or> (compact_word s m > 0xffff \<and> s > 32)))"
    and w: "length w = WIDTH" "uval w = compact_val s m mod 2 ^ (32 * WIDTH)"
    using SetCompact_arith [of c] S by (auto simp: s_def m_def)
  have "m < 2 ^ 23" by (simp add: m_def)
  note b = compact_val_bound [OF this ovf]
  obtain M j where Mj: "uval w = M * 256 ^ j" "M < 2 ^ 23" using b w(2) by (auto simp: WIDTH_def)
  obtain d v k where d: "GetCompact w False = Some d" "SetCompact d = (v, False, False)"
    "length v = WIDTH" "cleared_bytes (uval w) k" "uval v = uval w div 256 ^ k * 256 ^ k"
    using compact_decode_encode [OF w(1)] by blast
  have "uval v = uval w" using d(4,5) cleared_exact [OF _ Mj(2)] by (simp add: Mj(1))
  then have "v = w" using uval_eqD [of v w] d(3) w(1) by simp
  with d show ?thesis by blast
qed

section \<open>Properties\<close>

text \<open>
  C25: encoding a target never fails an assertion, and decoding the result gives back the
  target with its low \<open>k\<close> bytes cleared, with neither the sign nor the overflow
  flag raised.  The number \<open>k\<close> is the one the exponent byte says and is the smallest
  that leaves a 23-bit mantissa: nothing is cleared of a target below \<open>2 ^ 23\<close>, and
  otherwise what is kept is at least \<open>2 ^ 15\<close>.  In the other direction, a compact
  number that decodes with neither flag raised decodes to a target that the encoding keeps
  exactly.
\<close>

theorem compact_roundtrip:
  assumes "wf_uint a"
  shows "(\<exists>c v k. GetCompact a False = Some c \<and> SetCompact c = (v, False, False) \<and> wf_uint v
             \<and> k = unat c div 2 ^ 24 - 3 \<and> uval v = uval a div 256 ^ k * 256 ^ k
             \<and> uval a div 256 ^ k < 2 ^ 23 \<and> (k = 0 \<or> 2 ^ 15 \<le> uval a div 256 ^ k))
         \<and> (\<forall>n w. SetCompact n = (w, False, False) \<longrightarrow>
             (\<exists>d. GetCompact w False = Some d \<and> SetCompact d = (w, False, False)))"
  using compact_decode_encode [of a] assms compact_reencode unfolding wf_uint_def cleared_bytes_def by blast

theorem compact_roundtrip_witness:
  "(\<exists>c v k. GetCompact (base_uint_of_u64 0x1234567890) False = Some c
     \<and> SetCompact c = (v, False, False) \<and> k = unat c div 2 ^ 24 - 3
     \<and> uval v = 0x1234567890 div 256 ^ k * 256 ^ k)
   \<and> (\<exists>d. GetCompact (fst (SetCompact 0x1b0404cb)) False = Some d
        \<and> SetCompact d = (fst (SetCompact 0x1b0404cb), False, False))"
proof -
  have h: "wf_uint (base_uint_of_u64 0x1234567890)" by (simp add: wf_uint_def)
  have "snd (SetCompact 0x1b0404cb) = (False, False)"
    by (simp add: SetCompact_def Let_def)
  then have "SetCompact 0x1b0404cb = (fst (SetCompact 0x1b0404cb), False, False)"
    by (metis prod.collapse)
  note d = this
  have u: "uval (base_uint_of_u64 0x1234567890) = 0x1234567890" by simp
  note r = compact_roundtrip [OF h, unfolded u]
  from r [THEN conjunct1] r [THEN conjunct2, rule_format, OF d] show ?thesis by blast
qed

end
