(* ===== verification/Merkle.thy ===== *)
theory Merkle
  imports Prelude
begin

text \<open>
  Merkle roots and branches (\<^verbatim>\<open>src/src/consensus/merkle.cpp\<close>).  The code computes
  them in constant space: an array of 32 subtree hashes is combined like the digits of a
  binary counter.  The reference is the tree built level by level, in which a level of odd
  length has its last hash paired with itself.  The hash of two concatenated 32-byte values
  (\<^verbatim>\<open>CHash256\<close>) is the parameter \<open>H\<close>; \<open>z\<close> is the null hash.
\<close>

section \<open>The constant-space computation\<close>

record 'h merkle_state =
  inner :: "'h list"
  matchlevel :: int
  mutated :: bool
  pbranch :: "'h list"

text \<open>
  The branch bookkeeping that both combining loops share; \<open>want\<close> says whether the
  caller passed a branch vector.
\<close>

definition track ::
  "bool \<Rightarrow> nat \<Rightarrow> 'h \<Rightarrow> bool \<Rightarrow> 'h merkle_state \<Rightarrow> bool \<times> 'h merkle_state" where
  "track want level h matchh st =
     (if want then
        if matchh then (matchh, st\<lparr>pbranch := pbranch st @ [inner st ! level]\<rparr>)
        else if matchlevel st = int level then (True, st\<lparr>pbranch := pbranch st @ [h]\<rparr>)
        else (matchh, st)
      else (matchh, st))"

text \<open>
  The loop \<open>for (level = 0; !(count & (1 << level)); level++)\<close>; it ends before level 32
  because \<open>count\<close> is a nonzero 32-bit number.
\<close>

function combine_leaf ::
  "('h \<Rightarrow> 'h \<Rightarrow> 'h) \<Rightarrow> bool \<Rightarrow> nat \<Rightarrow> nat \<Rightarrow> 'h \<Rightarrow> bool \<Rightarrow> 'h merkle_state \<Rightarrow>
   nat \<times> 'h \<times> bool \<times> 'h merkle_state" where
  "combine_leaf H want count level h matchh st =
     (if level < 32 \<and> \<not> bit count level then
        let t = track want level h matchh st;
            e = inner st ! level;
            st' = (snd t)\<lparr>mutated := mutated (snd t) \<or> e = h\<rparr>
        in combine_leaf H want count (Suc level) (H e h) (fst t) st'
      else (level, h, matchh, st))"
  by pat_completeness auto
termination
  by (relation "measure (\<lambda>(H, want, count, level, h, matchh, st). 32 - level)") auto

declare combine_leaf.simps [simp del]

text \<open>One iteration of the loop over the leaves; \<open>count\<close> is a \<open>uint32_t\<close>.\<close>

definition add_leaf ::
  "('h \<Rightarrow> 'h \<Rightarrow> 'h) \<Rightarrow> bool \<Rightarrow> nat \<Rightarrow> 'h \<Rightarrow> nat \<times> 'h merkle_state \<Rightarrow> nat \<times> 'h merkle_state" where
  "add_leaf H want branchpos leaf cs =
     (let (count, st) = cs;
          matchh = (count = branchpos);
          count = (count + 1) mod 2 ^ 32;
          (level, h, matchh, st) = combine_leaf H want count 0 leaf matchh st;
          st = st\<lparr>inner := (inner st)[level := h]\<rparr>
      in (count, if matchh then st\<lparr>matchlevel := int level\<rparr> else st))"

function skip_level :: "nat \<Rightarrow> nat \<Rightarrow> nat" where
  "skip_level count level =
     (if level < 32 \<and> \<not> bit count level then skip_level count (Suc level) else level)"
  by pat_completeness auto
termination
  by (relation "measure (\<lambda>(count, level). 32 - level)") auto

declare skip_level.simps [simp del]

text \<open>The inner \<open>while\<close> of the final sweep: like \<open>combine_leaf\<close>, without the mutation test.\<close>

function propagate ::
  "('h \<Rightarrow> 'h \<Rightarrow> 'h) \<Rightarrow> bool \<Rightarrow> nat \<Rightarrow> nat \<Rightarrow> 'h \<Rightarrow> bool \<Rightarrow> 'h merkle_state \<Rightarrow>
   nat \<times> 'h \<times> bool \<times> 'h merkle_state" where
  "propagate H want count level h matchh st =
     (if level < 32 \<and> \<not> bit count level then
        let t = track want level h matchh st
        in propagate H want count (Suc level) (H (inner st ! level) h) (fst t) (snd t)
      else (level, h, matchh, st))"
  by pat_completeness auto
termination
  by (relation "measure (\<lambda>(H, want, count, level, h, matchh, st). 32 - level)") auto

declare propagate.simps [simp del]

lemma propagate_level: "level \<le> fst (propagate H want count level h matchh st)"
proof (induction H want count level h matchh st rule: propagate.induct)
  case (1 H want count level h matchh st)
  show ?case
  proof (cases "level < 32 \<and> \<not> bit count level")
    case True
    then show ?thesis
      using "1.IH" [OF True refl] by (subst propagate.simps) (simp add: Let_def)
  qed (subst propagate.simps, auto)
qed

function sweep ::
  "('h \<Rightarrow> 'h \<Rightarrow> 'h) \<Rightarrow> bool \<Rightarrow> nat \<Rightarrow> nat \<Rightarrow> 'h \<Rightarrow> bool \<Rightarrow> 'h merkle_state \<Rightarrow> 'h \<times> 'h merkle_state" where
  "sweep H want count level h matchh st =
     (if level < 32 \<and> count \<noteq> 2 ^ level then
        let st = (if want \<and> matchh then st\<lparr>pbranch := pbranch st @ [h]\<rparr> else st);
            h = H h h;
            count = (count + 2 ^ level) mod 2 ^ 32;
            r = propagate H want count (Suc level) h matchh st
        in sweep H want count (fst r) (fst (snd r)) (fst (snd (snd r))) (snd (snd (snd r)))
      else (h, st))"
  by pat_completeness auto
termination
proof (relation "measure (\<lambda>(H, want, count, level, h, matchh, st). 32 - level)", goal_cases)
  case (2 H want count level h matchh st x xa xb xc)
  have "level < fst xc"
    unfolding 2(5) using propagate_level [of "Suc level" H want xb xa matchh x] by simp
  with 2(1) show ?case by (simp add: case_prod_beta diff_less_mono2)
qed simp

declare sweep.simps [simp del]

definition MerkleComputation ::
  "('h \<Rightarrow> 'h \<Rightarrow> 'h) \<Rightarrow> 'h \<Rightarrow> 'h list \<Rightarrow> nat \<Rightarrow> bool \<Rightarrow> 'h \<times> bool \<times> 'h list" where
  "MerkleComputation H z leaves branchpos want =
     (if leaves = [] then (z, False, [])
      else
        let st0 = \<lparr>inner = replicate 32 z, matchlevel = - 1, mutated = False, pbranch = []\<rparr>;
            (count, st) = fold (add_leaf H want branchpos) leaves (0, st0);
            level = skip_level count 0;
            (h, st) = sweep H want count level (inner st ! level) (matchlevel st = int level) st
        in (h, mutated st, pbranch st))"

definition ComputeMerkleRoot :: "('h \<Rightarrow> 'h \<Rightarrow> 'h) \<Rightarrow> 'h \<Rightarrow> 'h list \<Rightarrow> 'h \<times> bool" where
  "ComputeMerkleRoot H z leaves =
     (let (root, mut, br) = MerkleComputation H z leaves (2 ^ 32 - 1) False in (root, mut))"

definition ComputeMerkleBranch :: "('h \<Rightarrow> 'h \<Rightarrow> 'h) \<Rightarrow> 'h \<Rightarrow> 'h list \<Rightarrow> nat \<Rightarrow> 'h list" where
  "ComputeMerkleBranch H z leaves position =
     (let (root, mut, br) = MerkleComputation H z leaves position True in br)"

fun ComputeMerkleRootFromBranch :: "('h \<Rightarrow> 'h \<Rightarrow> 'h) \<Rightarrow> 'h \<Rightarrow> 'h list \<Rightarrow> nat \<Rightarrow> 'h" where
  "ComputeMerkleRootFromBranch H h [] nIndex = h"
| "ComputeMerkleRootFromBranch H h (b # bs) nIndex =
     ComputeMerkleRootFromBranch H (if bit nIndex 0 then H b h else H h b) bs (nIndex div 2)"

section \<open>Reference: the padded binary tree\<close>

text \<open>One level up: pairs are hashed, an unpaired last element is hashed with itself.\<close>

fun merkle_level :: "('h \<Rightarrow> 'h \<Rightarrow> 'h) \<Rightarrow> 'h list \<Rightarrow> 'h list" where
  "merkle_level H [] = []"
| "merkle_level H [x] = [H x x]"
| "merkle_level H (x # y # zs) = H x y # merkle_level H zs"

lemma merkle_level_length: "length (merkle_level H xs) = (length xs + 1) div 2"
  by (induction H xs rule: merkle_level.induct) auto

function merkle_root :: "('h \<Rightarrow> 'h \<Rightarrow> 'h) \<Rightarrow> 'h \<Rightarrow> 'h list \<Rightarrow> 'h" where
  "merkle_root H z xs =
     (case xs of [] \<Rightarrow> z | [x] \<Rightarrow> x | _ \<Rightarrow> merkle_root H z (merkle_level H xs))"
  by pat_completeness auto
termination
  by (relation "measure (\<lambda>(H, z, xs). length xs)") (auto simp: merkle_level_length)

declare merkle_root.simps [simp del]

text \<open>The subtree of height \<open>k\<close> over at most \<open>2 ^ k\<close> leaves, and its duplicate pairs.\<close>

fun subtree :: "('h \<Rightarrow> 'h \<Rightarrow> 'h) \<Rightarrow> nat \<Rightarrow> 'h list \<Rightarrow> 'h" where
  "subtree H 0 xs = hd xs"
| "subtree H (Suc k) xs =
     (if length xs \<le> 2 ^ k then H (subtree H k xs) (subtree H k xs)
      else H (subtree H k (take (2 ^ k) xs)) (subtree H k (drop (2 ^ k) xs)))"

text \<open>Some two complete sibling subtrees have equal hashes.\<close>

fun dup_pair :: "('h \<Rightarrow> 'h \<Rightarrow> 'h) \<Rightarrow> nat \<Rightarrow> 'h list \<Rightarrow> bool" where
  "dup_pair H 0 xs = False"
| "dup_pair H (Suc k) xs =
     (if length xs \<le> 2 ^ k then dup_pair H k xs
      else dup_pair H k (take (2 ^ k) xs) \<or> dup_pair H k (drop (2 ^ k) xs) \<or>
           (length xs = 2 ^ Suc k \<and> subtree H k (take (2 ^ k) xs) = subtree H k (drop (2 ^ k) xs)))"

text \<open>The authentication path of leaf \<open>pos\<close>, from the leaves up.\<close>

fun subtree_branch :: "('h \<Rightarrow> 'h \<Rightarrow> 'h) \<Rightarrow> nat \<Rightarrow> 'h list \<Rightarrow> nat \<Rightarrow> 'h list" where
  "subtree_branch H 0 xs pos = []"
| "subtree_branch H (Suc k) xs pos =
     (if length xs \<le> 2 ^ k then subtree_branch H k xs pos @ [subtree H k xs]
      else if pos < 2 ^ k
      then subtree_branch H k (take (2 ^ k) xs) pos @ [subtree H k (drop (2 ^ k) xs)]
      else subtree_branch H k (drop (2 ^ k) xs) (pos - 2 ^ k) @ [subtree H k (take (2 ^ k) xs)])"

fun tree_height :: "nat \<Rightarrow> nat" where
  "tree_height n = (if n \<le> 1 then 0 else Suc (tree_height ((n + 1) div 2)))"

declare tree_height.simps [simp del]

section \<open>The binary counter\<close>

definition blk_start :: "nat \<Rightarrow> nat \<Rightarrow> nat" where
  "blk_start c l = c div 2 ^ Suc l * 2 ^ Suc l"

lemma quot_eq: "n = b * q + r \<Longrightarrow> r < b \<Longrightarrow> n div b = q" for n b q r :: nat
  by simp

text \<open>Decrementing a multiple of \<open>2 ^ (k + 1)\<close> by at most \<open>2 ^ k\<close>.\<close>

lemma counter_borrow:
  assumes "2 ^ Suc k dvd C" "0 < d" "d \<le> 2 ^ k" "0 < C"
  shows "bit (C - d) k" "blk_start (C - d) k = C - 2 ^ Suc k" "2 ^ Suc k \<le> C"
proof -
  obtain q where q: "C = 2 ^ Suc k * q" using assms(1) by blast
  with assms(4) obtain p where p: "q = Suc p" by (cases q) auto
  define r where "r = 2 ^ k - d"
  have r: "r < 2 ^ k" using assms(2,3) by (simp add: r_def)
  have e: "C - d = 2 ^ k * (2 * p + 1) + r"
    using assms(2,3) by (simp add: q p r_def algebra_simps)
  have "(C - d) div 2 ^ k = 2 * p + 1" using e r by (rule quot_eq)
  then show "bit (C - d) k" by (simp add: bit_iff_odd)
  have "(C - d) div 2 ^ Suc k = p"
    using r e by (intro quot_eq [of _ _ _ "2 ^ k + r"]) (simp_all add: algebra_simps)
  then show "blk_start (C - d) k = C - 2 ^ Suc k" by (simp add: blk_start_def q p)
  show "2 ^ Suc k \<le> C" by (simp add: q p)
qed

lemma counter_above:
  assumes "2 ^ k dvd C" "bit C k" "0 < d" "d \<le> 2 ^ k" "k < l"
  shows "bit (C - d) l \<longleftrightarrow> bit C l" "blk_start (C - d) l = blk_start C l"
proof -
  obtain q where q: "C = 2 ^ k * q" using assms(1) by blast
  with assms(2) have "odd q" by (simp add: bit_iff_odd)
  then obtain p where p: "q = 2 * p + 1" by (rule oddE)
  define r where "r = 2 ^ k - d"
  have r: "r < 2 ^ Suc k"
    unfolding r_def by (rule le_less_trans [OF diff_le_self]) simp
  have e: "C - d = 2 ^ Suc k * p + r" using assms(3,4) by (simp add: q p r_def algebra_simps)
  have "(C - d) div 2 ^ Suc k = p" using e r by (rule quot_eq)
  moreover have "C div 2 ^ Suc k = p" by (rule quot_eq [of _ _ _ "2 ^ k"]) (simp_all add: q p algebra_simps)
  ultimately have eq: "(C - d) div 2 ^ Suc k = C div 2 ^ Suc k" by simp
  have div: "(C - d) div 2 ^ j = C div 2 ^ j" if "Suc k \<le> j" for j
  proof -
    have "(2::nat) ^ j = 2 ^ Suc k * 2 ^ (j - Suc k)" using that by (simp add: power_add [symmetric] del: power_Suc)
    then show ?thesis by (simp only: div_mult2_eq eq)
  qed
  show "bit (C - d) l \<longleftrightarrow> bit C l" using div [of l] assms(5) by (simp add: bit_iff_odd)
  show "blk_start (C - d) l = blk_start C l" using div [of "Suc l"] assms(5) by (simp add: blk_start_def)
qed

lemma counter_below:
  fixes C d :: nat
  assumes "2 ^ k dvd C" "bit C k" "0 < d" "d \<le> 2 ^ k"
  shows "\<not> bit (C - d) k"
proof -
  obtain q where q: "C = 2 ^ k * q" using assms(1) by blast
  with assms(2) have "odd q" by (simp add: bit_iff_odd)
  then obtain p where p: "q = 2 * p + 1" by (rule oddE)
  have "(C - d) div 2 ^ k = 2 * p"
    using assms(3,4) by (intro quot_eq [of _ _ _ "2 ^ k - d"]) (simp_all add: q p algebra_simps)
  then show ?thesis by (simp add: bit_iff_odd)
qed

lemma counter_lowest:
  assumes "2 ^ k dvd C" "bit C k"
  shows "blk_start C k = C - 2 ^ k" "2 ^ k \<le> C" "\<And>l. l < k \<Longrightarrow> \<not> bit C l"
proof -
  obtain q where q: "C = 2 ^ k * q" using assms(1) by blast
  with assms(2) have "odd q" by (simp add: bit_iff_odd)
  then obtain p where p: "q = 2 * p + 1" by (rule oddE)
  have "C div 2 ^ Suc k = p" by (rule quot_eq [of _ _ _ "2 ^ k"]) (simp_all add: q p algebra_simps)
  then show "blk_start C k = C - 2 ^ k" by (simp add: blk_start_def q p)
  show "2 ^ k \<le> C" by (simp add: q p)
  show "\<not> bit C l" if "l < k" for l
  proof -
    have "C = 2 ^ l * (2 ^ (k - l) * q)" using that by (simp add: q power_add [symmetric])
    then have "C div 2 ^ l = 2 ^ (k - l) * q" by simp
    then show ?thesis using that by (simp add: bit_iff_odd)
  qed
qed

lemma dvd_not_bit_Suc: "2 ^ k dvd C \<Longrightarrow> \<not> bit C k \<Longrightarrow> 2 ^ Suc k dvd C" for C :: nat
  by (auto simp: bit_iff_odd elim!: dvdE)

lemma blk_end:
  "bit c l \<Longrightarrow> blk_start c l + 2 ^ l \<le> c"
proof -
  assume "bit c l"
  then have "odd (c div 2 ^ l)" by (simp add: bit_iff_odd)
  then have "c div 2 ^ l = 2 * (c div 2 ^ Suc l) + 1"
    by (metis div_mult2_eq odd_two_times_div_two_succ power_Suc2)
  then have "blk_start c l + 2 ^ l = c div 2 ^ l * 2 ^ l" by (simp add: blk_start_def algebra_simps)
  then show ?thesis by simp
qed

section \<open>What the combining loops keep\<close>

definition blk :: "'h list \<Rightarrow> nat \<Rightarrow> nat \<Rightarrow> 'h list" where
  "blk xs c l = take (2 ^ l) (drop (blk_start c l) xs)"

definition cur :: "'h list \<Rightarrow> nat \<Rightarrow> nat \<Rightarrow> 'h list" where
  "cur xs C k = take (2 ^ k) (drop (C - 2 ^ k) xs)"

definition inner_ok :: "('h \<Rightarrow> 'h \<Rightarrow> 'h) \<Rightarrow> 'h list \<Rightarrow> nat \<Rightarrow> nat \<Rightarrow> 'h merkle_state \<Rightarrow> bool" where
  "inner_ok H xs c k st \<longleftrightarrow> length (inner st) = 32 \<and>
     (\<forall>l. k \<le> l \<and> l < 32 \<and> bit c l \<longrightarrow> inner st ! l = subtree H l (blk xs c l))"

definition at_block ::
  "('h \<Rightarrow> 'h \<Rightarrow> 'h) \<Rightarrow> 'h list \<Rightarrow> nat \<Rightarrow> nat \<Rightarrow> nat \<Rightarrow> 'h merkle_state \<Rightarrow> bool" where
  "at_block H xs pos c k st \<longleftrightarrow>
     (\<exists>l. k \<le> l \<and> l < 32 \<and> bit c l \<and> blk_start c l \<le> pos \<and> pos < blk_start c l + 2 ^ l \<and>
          matchlevel st = int l \<and>
          pbranch st = subtree_branch H l (blk xs c l) (pos - blk_start c l))"

definition trk ::
  "('h \<Rightarrow> 'h \<Rightarrow> 'h) \<Rightarrow> 'h list \<Rightarrow> nat \<Rightarrow> nat \<Rightarrow> nat \<Rightarrow> nat \<Rightarrow> bool \<Rightarrow> 'h merkle_state \<Rightarrow> bool" where
  "trk H xs pos c C k matchh st \<longleftrightarrow>
     (if pos < min C (length xs)
      then if matchh
           then C - 2 ^ k \<le> pos \<and> pbranch st = subtree_branch H k (cur xs C k) (pos - (C - 2 ^ k))
           else at_block H xs pos c k st
      else \<not> matchh \<and> matchlevel st = - 1 \<and> pbranch st = [])"

definition comb_inv ::
  "('h \<Rightarrow> 'h \<Rightarrow> 'h) \<Rightarrow> 'h list \<Rightarrow> bool \<Rightarrow> nat \<Rightarrow> nat \<Rightarrow> nat \<Rightarrow> nat \<Rightarrow> 'h \<Rightarrow> bool \<Rightarrow>
   'h merkle_state \<Rightarrow> bool" where
  "comb_inv H xs want pos c C k h matchh st \<longleftrightarrow>
     inner_ok H xs c k st \<and> h = subtree H k (cur xs C k) \<and> 2 ^ k dvd C \<and> 2 ^ k \<le> C \<and>
     C - 2 ^ k < length xs \<and> c < C \<and> C \<le> c + 2 ^ k \<and> (want \<longrightarrow> trk H xs pos c C k matchh st)"

lemma cur_Suc:
  assumes "2 ^ Suc k \<le> C" "C - 2 ^ k < length xs"
  shows "cur xs C (Suc k) = take (2 ^ k) (drop (C - 2 ^ Suc k) xs) @ cur xs C k"
    and "length (take (2 ^ k) (drop (C - 2 ^ Suc k) xs)) = 2 ^ k" and "cur xs C k \<noteq> []"
proof -
  have "take (2 ^ Suc k) (drop m xs) = take (2 ^ k) (drop m xs) @ take (2 ^ k) (drop (m + 2 ^ k) xs)" for m
    using take_add [of "2 ^ k" "2 ^ k" "drop m xs"] by (simp add: add.commute mult_2)
  moreover have "C - 2 ^ Suc k + 2 ^ k = C - 2 ^ k" using assms(1) by simp
  ultimately show "cur xs C (Suc k) = take (2 ^ k) (drop (C - 2 ^ Suc k) xs) @ cur xs C k"
    by (simp add: cur_def)
  show "length (take (2 ^ k) (drop (C - 2 ^ Suc k) xs)) = 2 ^ k" using assms by simp
  show "cur xs C k \<noteq> []" using assms(2) by (simp add: cur_def)
qed

lemma subtree_append:
  "length a = 2 ^ k \<Longrightarrow> b \<noteq> [] \<Longrightarrow> subtree H (Suc k) (a @ b) = H (subtree H k a) (subtree H k b)"
  by (auto simp: Suc_le_eq)

lemma comb_geometry:
  assumes inv: "comb_inv H xs want pos c C k h matchh st" and k: "k < 32" and nb: "\<not> bit C k"
  shows "2 ^ Suc k dvd C" "2 ^ Suc k \<le> C" "bit c k" "blk_start c k = C - 2 ^ Suc k"
    "cur xs C (Suc k) = blk xs c k @ cur xs C k" "length (blk xs c k) = 2 ^ k" "cur xs C k \<noteq> []"
    "inner st ! k = subtree H k (blk xs c k)"
proof -
  note inv' = inv [unfolded comb_inv_def]
  show dvd: "2 ^ Suc k dvd C" using inv' nb by (blast intro: dvd_not_bit_Suc)
  have d: "0 < C - c" "C - c \<le> 2 ^ k" "c = C - (C - c)" "0 < C" using inv' by auto
  note cb = counter_borrow [OF dvd d(1,2,4), folded d(3)]
  show "2 ^ Suc k \<le> C" and bk: "bit c k" and bs: "blk_start c k = C - 2 ^ Suc k"
    using cb by simp_all
  have lt: "C - 2 ^ k < length xs" using inv' by blast
  note cu = cur_Suc [OF cb(3) lt]
  show "cur xs C (Suc k) = blk xs c k @ cur xs C k" "length (blk xs c k) = 2 ^ k" "cur xs C k \<noteq> []"
    using cu by (simp_all add: blk_def bs)
  show "inner st ! k = subtree H k (blk xs c k)"
    using inv' k bk by (auto simp: inner_ok_def)
qed

lemma subtree_branch_append:
  assumes "length a = 2 ^ k" "b \<noteq> []"
  shows "pos < 2 ^ k \<Longrightarrow> subtree_branch H (Suc k) (a @ b) pos = subtree_branch H k a pos @ [subtree H k b]"
    and "2 ^ k \<le> pos \<Longrightarrow>
      subtree_branch H (Suc k) (a @ b) pos = subtree_branch H k b (pos - 2 ^ k) @ [subtree H k a]"
  using assms by (auto simp: Suc_le_eq)

lemma trk_step:
  assumes inv: "comb_inv H xs True pos c C k h matchh st" and k: "k < 32" and nb: "\<not> bit C k"
  defines "t \<equiv> track True k h matchh st"
  shows "trk H xs pos c C (Suc k) (fst t) (snd t)"
proof -
  note inv' = inv [unfolded comb_inv_def]
  note geo = comb_geometry [OF inv k nb]
  note br = subtree_branch_append [OF geo(6,7), folded geo(5)]
  have tr: "trk H xs pos c C k matchh st" and h: "h = subtree H k (cur xs C k)" using inv' by auto
  consider (out) "\<not> pos < min C (length xs)" | (matched) "pos < min C (length xs)" matchh
    | (block) "pos < min C (length xs)" "\<not> matchh" by blast
  then show ?thesis
  proof cases
    case out
    then show ?thesis using tr unfolding trk_def t_def track_def by auto
  next
    case matched
    then have p: "C - 2 ^ k \<le> pos" "pbranch st = subtree_branch H k (cur xs C k) (pos - (C - 2 ^ k))"
      using tr by (simp_all add: trk_def)
    have "pos - (C - 2 ^ Suc k) - 2 ^ k = pos - (C - 2 ^ k)" "2 ^ k \<le> pos - (C - 2 ^ Suc k)"
      "C - 2 ^ Suc k \<le> pos" using p(1) geo(2) by simp_all
    then show ?thesis using matched p(2) br(2) [of "pos - (C - 2 ^ Suc k)" H] geo(8)
      by (simp add: trk_def t_def track_def del: subtree_branch.simps power_Suc)
  next
    case block
    then obtain l where l: "k \<le> l" "l < 32" "bit c l" "blk_start c l \<le> pos"
      "pos < blk_start c l + 2 ^ l" "matchlevel st = int l"
      "pbranch st = subtree_branch H l (blk xs c l) (pos - blk_start c l)"
      using tr by (auto simp: trk_def at_block_def)
    show ?thesis
    proof (cases "l = k")
      case True
      then show ?thesis using block l h br(1) [of "pos - (C - 2 ^ Suc k)" H] geo(4)
        by (simp add: trk_def t_def track_def less_diff_conv2 del: subtree_branch.simps power_Suc)
    next
      case False
      then have "snd t = st" "fst t = False" using block l(6) by (simp_all add: t_def track_def)
      moreover have "at_block H xs pos c (Suc k) st"
        unfolding at_block_def using l False by (intro exI [of _ l]) simp
      ultimately show ?thesis using block by (simp add: trk_def)
    qed
  qed
qed

lemma comb_step:
  assumes inv: "comb_inv H xs want pos c C k h matchh st" and k: "k < 32" and nb: "\<not> bit C k"
  defines "t \<equiv> track want k h matchh st"
  shows "comb_inv H xs want pos c C (Suc k) (H (inner st ! k) h) (fst t) (snd t)"
proof -
  note inv' = inv [unfolded comb_inv_def]
  note geo = comb_geometry [OF inv k nb]
  have "H (inner st ! k) h = subtree H (Suc k) (cur xs C (Suc k))"
    using subtree_append [OF geo(6,7), of H] inv' geo(5,8) by simp
  moreover have "inner_ok H xs c (Suc k) (snd t)"
    using inv' by (simp add: inner_ok_def t_def track_def)
  moreover have "C - 2 ^ Suc k < length xs"
  proof -
    have "C - 2 ^ Suc k \<le> C - 2 ^ k" by (rule diff_le_mono2) simp
    then show ?thesis using inv' by linarith
  qed
  moreover have "want \<Longrightarrow> trk H xs pos c C (Suc k) (fst t) (snd t)"
    using trk_step [of H xs pos c C k h matchh st] inv k nb by (simp add: t_def)
  ultimately show ?thesis using inv' geo(1,2) unfolding comb_inv_def by simp
qed

text \<open>The loops stop at the lowest set bit of a nonzero 32-bit counter.\<close>

lemma level_bound: "2 ^ k dvd C \<Longrightarrow> 0 < C \<Longrightarrow> C < 2 ^ 32 \<Longrightarrow> k < 32" for C :: nat
proof -
  assume "2 ^ k dvd C" "0 < C" and C: "C < 2 ^ 32"
  then have "2 ^ k \<le> C" by (blast intro: dvd_imp_le)
  also note C
  finally show "k < 32" by (rule power_less_imp_less_exp [rotated]) simp
qed

lemma comb_inv_mutated [simp]:
  "comb_inv H xs want pos c C k h matchh (st\<lparr>mutated := b\<rparr>) = comb_inv H xs want pos c C k h matchh st"
  by (simp add: comb_inv_def inner_ok_def trk_def at_block_def)

lemma propagate_inv:
  assumes "comb_inv H xs want pos c C k h matchh st" "C < 2 ^ 32"
    and "propagate H want C k h matchh st = (k', h', matchh', st')"
  shows "comb_inv H xs want pos c C k' h' matchh' st' \<and> bit C k' \<and> k' < 32 \<and> mutated st' = mutated st"
  using assms
proof (induction H want C k h matchh st rule: propagate.induct)
  case (1 H want C k h matchh st)
  have k: "k < 32" using "1.prems"(1,2) level_bound [of k C] by (auto simp: comb_inv_def)
  show ?case
  proof (cases "bit C k")
    case True
    then show ?thesis using "1.prems" k by (subst (asm) propagate.simps) auto
  next
    case False
    have "comb_inv H xs want pos c C (Suc k) (H (inner st ! k) h)
        (fst (track want k h matchh st)) (snd (track want k h matchh st))"
      by (rule comb_step [OF "1.prems"(1) k False])
    moreover have "propagate H want C (Suc k) (H (inner st ! k) h)
        (fst (track want k h matchh st)) (snd (track want k h matchh st)) = (k', h', matchh', st')"
      using "1.prems"(3) k False by (subst (asm) propagate.simps) (simp add: Let_def)
    ultimately show ?thesis
      using "1.IH" [OF _ refl] k False "1.prems"(2) by (simp add: track_def)
  qed
qed

definition mut_above :: "('h \<Rightarrow> 'h \<Rightarrow> 'h) \<Rightarrow> 'h list \<Rightarrow> nat \<Rightarrow> nat \<Rightarrow> bool" where
  "mut_above H xs c k \<longleftrightarrow> (\<exists>l. k \<le> l \<and> l < 32 \<and> bit c l \<and> dup_pair H l (blk xs c l))"

lemma ex_ge_Suc: "(\<exists>l \<ge> k. P l) \<longleftrightarrow> P k \<or> (\<exists>l \<ge> Suc k. P l)" for k :: nat
  using Suc_le_eq le_eq_less_or_eq by auto

lemma mut_above_Suc:
  "k < 32 \<Longrightarrow> bit c k \<Longrightarrow> mut_above H xs c k \<longleftrightarrow> dup_pair H k (blk xs c k) \<or> mut_above H xs c (Suc k)"
  unfolding mut_above_def by (subst ex_ge_Suc) simp

lemma dup_pair_append:
  "length a = 2 ^ k \<Longrightarrow> length b = 2 ^ k \<Longrightarrow>
   dup_pair H (Suc k) (a @ b) \<longleftrightarrow>
     dup_pair H k a \<or> dup_pair H k b \<or> subtree H k a = subtree H k b"
  by auto

lemma combine_leaf_inv:
  assumes "comb_inv H xs want pos c C k h matchh st" "C < 2 ^ 32" "C \<le> length xs"
    and "mutated st \<longleftrightarrow> mut_above H xs c k \<or> dup_pair H k (cur xs C k)"
    and "combine_leaf H want C k h matchh st = (k', h', matchh', st')"
  shows "comb_inv H xs want pos c C k' h' matchh' st' \<and> bit C k' \<and> k' < 32 \<and>
    (mutated st' \<longleftrightarrow> mut_above H xs c k' \<or> dup_pair H k' (cur xs C k'))"
  using assms
proof (induction H want C k h matchh st rule: combine_leaf.induct)
  case (1 H want C k h matchh st)
  have k: "k < 32" using "1.prems"(1,2) level_bound [of k C] by (auto simp: comb_inv_def)
  show ?case
  proof (cases "bit C k")
    case True
    then show ?thesis using "1.prems" k by (subst (asm) combine_leaf.simps) auto
  next
    case False
    let ?t = "track want k h matchh st"
    define st2 where "st2 = (snd ?t)\<lparr>mutated := mutated (snd ?t) \<or> inner st ! k = h\<rparr>"
    note geo = comb_geometry [OF "1.prems"(1) k False]
    have inv: "comb_inv H xs want pos c C (Suc k) (H (inner st ! k) h) (fst ?t) st2"
      using comb_step [OF "1.prems"(1) k False] by (simp add: st2_def)
    have "length (cur xs C k) = 2 ^ k" using "1.prems"(1,3) by (auto simp: cur_def comb_inv_def)
    moreover have "mutated (snd ?t) = mutated st" by (simp add: track_def)
    ultimately have "mutated st2 \<longleftrightarrow> mut_above H xs c (Suc k) \<or> dup_pair H (Suc k) (cur xs C (Suc k))"
      using "1.prems"(1,4) dup_pair_append [OF geo(6), of "cur xs C k" H] mut_above_Suc [OF k geo(3)]
        geo(5,8) by (auto simp: st2_def comb_inv_def simp del: dup_pair.simps)
    moreover have "combine_leaf H want C (Suc k) (H (inner st ! k) h) (fst ?t) st2 = (k', h', matchh', st')"
      using "1.prems"(5) k False by (subst (asm) combine_leaf.simps) (simp add: Let_def st2_def)
    ultimately show ?thesis
      using "1.IH" [OF _ refl refl refl] k False inv "1.prems"(2,3) by (simp add: st2_def)
  qed
qed

section \<open>The loop over the leaves\<close>

definition leaf_inv ::
  "('h \<Rightarrow> 'h \<Rightarrow> 'h) \<Rightarrow> 'h list \<Rightarrow> bool \<Rightarrow> nat \<Rightarrow> nat \<Rightarrow> 'h merkle_state \<Rightarrow> bool" where
  "leaf_inv H xs want pos c st \<longleftrightarrow> inner_ok H xs c 0 st \<and> (mutated st \<longleftrightarrow> mut_above H xs c 0) \<and>
     (want \<longrightarrow> (if pos < c then at_block H xs pos c 0 st else matchlevel st = - 1 \<and> pbranch st = []))"

lemma leaf_inv_start:
  assumes "leaf_inv H xs want pos c st" "c < length xs"
  shows "comb_inv H xs want pos c (Suc c) 0 (xs ! c) (c = pos) st"
proof -
  have "cur xs (Suc c) 0 = [xs ! c]" using assms(2) by (simp add: cur_def take_Suc hd_drop_conv_nth)
  then show ?thesis using assms
    by (auto simp: comb_inv_def leaf_inv_def trk_def)
qed

text \<open>At the lowest set bit, the old counter's blocks above it are the new counter's.\<close>

lemma blocks_above:
  assumes "2 ^ k dvd C" "bit C k" "c < C" "C \<le> c + 2 ^ k"
  shows "\<And>l. k < l \<Longrightarrow> bit c l \<longleftrightarrow> bit C l" "\<And>l. k < l \<Longrightarrow> blk_start c l = blk_start C l"
    "\<And>l. k < l \<Longrightarrow> blk xs c l = blk xs C l" "\<not> bit c k" "blk xs C k = cur xs C k"
proof -
  have d: "0 < C - c" "C - c \<le> 2 ^ k" "c = C - (C - c)" using assms(3,4) by auto
  note above = counter_above [OF assms(1,2) d(1,2), folded d(3)]
  show "k < l \<Longrightarrow> bit c l \<longleftrightarrow> bit C l" and bs: "k < l \<Longrightarrow> blk_start c l = blk_start C l" for l
    using above by simp_all
  show "k < l \<Longrightarrow> blk xs c l = blk xs C l" for l by (simp add: blk_def bs)
  show "\<not> bit c k" using counter_below [OF assms(1,2) d(1,2)] d(3) by simp
  show "blk xs C k = cur xs C k"
    using counter_lowest(1) [OF assms(1,2)] by (simp add: blk_def cur_def)
qed

lemma ex_above_cong:
  fixes k :: nat
  assumes "\<And>l. k < l \<Longrightarrow> P l \<longleftrightarrow> Q l" "\<not> P k"
  shows "(\<exists>l. k \<le> l \<and> P l) \<longleftrightarrow> (\<exists>l. Suc k \<le> l \<and> Q l)"
  using assms by (metis Suc_le_eq le_eq_less_or_eq)

lemma at_block_above:
  assumes "2 ^ k dvd C" "bit C k" "c < C" "C \<le> c + 2 ^ k"
  shows "at_block H xs pos c k st \<longleftrightarrow> at_block H xs pos C (Suc k) st"
    and "mut_above H xs c k \<longleftrightarrow> mut_above H xs C (Suc k)"
  unfolding at_block_def mut_above_def
  by (rule ex_above_cong; simp add: blocks_above [OF assms])+

lemma leaf_inv_finish:
  assumes inv: "comb_inv H xs want pos c C k h matchh st" and b: "bit C k" "k < 32"
    and C: "c + 1 = C" "C \<le> length xs"
    and mut: "mutated st \<longleftrightarrow> mut_above H xs c k \<or> dup_pair H k (cur xs C k)"
  defines "st' \<equiv> st\<lparr>inner := (inner st)[k := h]\<rparr>"
  shows "leaf_inv H xs want pos C (if matchh then st'\<lparr>matchlevel := int k\<rparr> else st')"
proof -
  note inv' = inv [unfolded comb_inv_def]
  have h: "2 ^ k dvd C" "bit C k" "c < C" "C \<le> c + 2 ^ k" using inv' b by auto
  note ba = blocks_above(1) [OF h] and bx = blocks_above(3,5) [OF h, where xs = xs] and low = counter_lowest [OF h(1,2)]
  have len: "length (inner st) = 32" using inv' by (simp add: inner_ok_def)
  have "inner_ok H xs C 0 st'"
    unfolding inner_ok_def
  proof (intro conjI allI impI)
    fix l assume l: "0 \<le> l \<and> l < 32 \<and> bit C l"
    then have "k \<le> l" using low(3) [of l] by (meson not_le)
    then consider "l = k" | "k < l" by linarith
    then show "inner st' ! l = subtree H l (blk xs C l)"
    proof cases
      case 1
      then show ?thesis using inv' len b(2) bx(2) by (simp add: st'_def)
    next
      case 2
      then show ?thesis using inv' l ba bx(1) by (auto simp: st'_def inner_ok_def)
    qed
  qed (simp add: st'_def len)
  moreover have "mutated st' \<longleftrightarrow> mut_above H xs C 0"
  proof -
    have "mut_above H xs C 0 \<longleftrightarrow> mut_above H xs C k"
      unfolding mut_above_def using low(3) by (metis le0 not_le)
    then show ?thesis using mut at_block_above(2) [OF h] mut_above_Suc [OF b(2,1)] bx(2)
      by (auto simp: st'_def)
  qed
  moreover have "at_block H xs pos C 0 (if matchh then st'\<lparr>matchlevel := int k\<rparr> else st')"
    if want "pos < C"
  proof (cases matchh)
    case True
    then have "C - 2 ^ k \<le> pos" "pbranch st = subtree_branch H k (cur xs C k) (pos - (C - 2 ^ k))"
      using inv' that C by (auto simp: trk_def)
    then show ?thesis unfolding at_block_def
      using True b low(1,2) bx(2) that by (intro exI [of _ k]) (simp add: st'_def)
  next
    case False
    then have "at_block H xs pos C (Suc k) st"
      using inv' that C at_block_above(1) [OF h] by (auto simp: trk_def)
    then show ?thesis using False by (auto simp: at_block_def st'_def)
  qed
  moreover have "\<not> matchh \<and> matchlevel st' = - 1 \<and> pbranch st' = []" if want "\<not> pos < C"
    using inv' that C by (auto simp: trk_def st'_def)
  ultimately show ?thesis
    by (auto simp: leaf_inv_def inner_ok_def)
qed

lemma add_leaf_inv:
  assumes inv: "leaf_inv H xs want pos c st" and c: "c < length xs" and n: "length xs < 2 ^ 32"
  shows "\<exists>st'. add_leaf H want pos (xs ! c) (c, st) = (Suc c, st') \<and> leaf_inv H xs want pos (Suc c) st'"
proof -
  obtain k h matchh st1 where eq: "combine_leaf H want (Suc c) 0 (xs ! c) (c = pos) st = (k, h, matchh, st1)"
    by (cases "combine_leaf H want (Suc c) 0 (xs ! c) (c = pos) st")
  have C: "Suc c < 2 ^ 32" "Suc c \<le> length xs" using c n by simp_all
  have "mutated st \<longleftrightarrow> mut_above H xs c 0 \<or> dup_pair H 0 (cur xs (Suc c) 0)"
    using inv by (simp add: leaf_inv_def)
  note r = combine_leaf_inv [OF leaf_inv_start [OF inv c] C this eq]
  have "leaf_inv H xs want pos (Suc c) (if matchh
      then st1\<lparr>inner := (inner st1)[k := h]\<rparr>\<lparr>matchlevel := int k\<rparr> else st1\<lparr>inner := (inner st1)[k := h]\<rparr>)"
    using r C(2) by (intro leaf_inv_finish) auto
  moreover have "add_leaf H want pos (xs ! c) (c, st) = (Suc c, if matchh
      then st1\<lparr>inner := (inner st1)[k := h]\<rparr>\<lparr>matchlevel := int k\<rparr> else st1\<lparr>inner := (inner st1)[k := h]\<rparr>)"
    using C(1) by (simp add: add_leaf_def eq)
  ultimately show ?thesis by blast
qed

lemma fold_add_leaf:
  assumes "length xs < 2 ^ 32" "leaf_inv H xs want pos 0 st0"
  shows "n \<le> length xs \<Longrightarrow>
    \<exists>st. fold (add_leaf H want pos) (take n xs) (0, st0) = (n, st) \<and> leaf_inv H xs want pos n st"
proof (induction n)
  case 0
  then show ?case using assms by simp
next
  case (Suc n)
  then obtain st where st: "fold (add_leaf H want pos) (take n xs) (0, st0) = (n, st)"
    "leaf_inv H xs want pos n st" by auto
  have "take (Suc n) xs = take n xs @ [xs ! n]" using Suc.prems by (simp add: take_Suc_conv_app_nth)
  then show ?case using add_leaf_inv [OF st(2)] Suc.prems assms(1) by (simp add: st(1))
qed

section \<open>The final sweep\<close>

lemma skip_level_lowest:
  "2 ^ k dvd C \<Longrightarrow> 0 < C \<Longrightarrow> C < 2 ^ 32 \<Longrightarrow>
   2 ^ skip_level C k dvd C \<and> bit C (skip_level C k) \<and> skip_level C k < 32"
proof (induction C k rule: skip_level.induct)
  case (1 C k)
  have k: "k < 32" using level_bound "1.prems" by blast
  show ?case
  proof (cases "bit C k")
    case True
    then have "skip_level C k = k" by (subst skip_level.simps) simp
    then show ?thesis using True k "1.prems" by simp
  next
    case False
    then have "skip_level C k = skip_level C (Suc k)" using k by (subst skip_level.simps) simp
    then show ?thesis using "1.IH" False k "1.prems" dvd_not_bit_Suc by simp
  qed
qed

definition head_inv ::
  "('h \<Rightarrow> 'h \<Rightarrow> 'h) \<Rightarrow> 'h list \<Rightarrow> bool \<Rightarrow> nat \<Rightarrow> nat \<Rightarrow> nat \<Rightarrow> 'h \<Rightarrow> bool \<Rightarrow> 'h merkle_state \<Rightarrow> bool" where
  "head_inv H xs want pos C k h matchh st \<longleftrightarrow>
     inner_ok H xs C (Suc k) st \<and> h = subtree H k (cur xs C k) \<and> 2 ^ k dvd C \<and> bit C k \<and>
     length xs \<le> C \<and> C - 2 ^ k < length xs \<and> C \<le> 2 ^ 31 \<and>
     (C = 2 ^ k \<longrightarrow> k = 0 \<or> 2 ^ (k - 1) < length xs) \<and>
     (want \<longrightarrow> (if pos < length xs
        then if matchh
             then C - 2 ^ k \<le> pos \<and> pbranch st = subtree_branch H k (cur xs C k) (pos - (C - 2 ^ k))
             else at_block H xs pos C (Suc k) st
        else \<not> matchh \<and> matchlevel st = - 1 \<and> pbranch st = []))"

lemma dvd_gap: "m dvd a \<Longrightarrow> m dvd b \<Longrightarrow> a < b \<Longrightarrow> a + m \<le> b" for m a b :: nat
  by (metis add_diff_inverse_nat dvd_diffD1 dvd_imp_le less_imp_le_nat nat_add_left_cancel_le
      not_less zero_less_diff dvd_diff_nat)

lemma sweep_counter:
  fixes C n :: nat
  assumes "2 ^ k dvd C" "bit C k" "C \<noteq> 2 ^ k" "C - 2 ^ k < n" "n \<le> 2 ^ 31"
  shows "2 ^ Suc k dvd C + 2 ^ k" "2 ^ Suc k \<le> C - 2 ^ k" "C + 2 ^ k \<le> 2 ^ 31" "2 ^ k \<le> C"
    "C + 2 ^ k - 2 ^ Suc k = C - 2 ^ k"
    "C + 2 ^ k = 2 ^ j \<Longrightarrow> 2 ^ (j - 1) < n"
proof -
  obtain q where q: "C = 2 ^ k * q" using assms(1) by blast
  with assms(2) have "odd q" by (simp add: bit_iff_odd)
  then obtain p where p: "q = 2 * p + 1" by (rule oddE)
  with q assms(3) have p0: "0 < p" by (cases p) auto
  have C: "C - 2 ^ k = 2 ^ Suc k * p" by (simp add: q p algebra_simps)
  have C1: "C + 2 ^ k = 2 ^ Suc k * (p + 1)" by (simp add: q p algebra_simps)
  show "2 ^ Suc k dvd C + 2 ^ k" unfolding C1 by simp
  show le: "2 ^ Suc k \<le> C - 2 ^ k" using p0 unfolding C by simp
  show kC: "2 ^ k \<le> C" by (simp add: q p)
  show "C + 2 ^ k - 2 ^ Suc k = C - 2 ^ k" by simp
  have lt: "C - 2 ^ k < 2 ^ 31" using assms(4,5) by linarith
  with le have "(2::nat) ^ Suc k < 2 ^ 31" by linarith
  then have "Suc k < 31" by (rule power_less_imp_less_exp [rotated]) simp
  then have "2 ^ Suc k dvd (2::nat) ^ 31" by (intro le_imp_power_dvd) simp
  moreover have "2 ^ Suc k dvd C - 2 ^ k" unfolding C by simp
  ultimately have "C - 2 ^ k + 2 ^ Suc k \<le> 2 ^ 31" using lt by (intro dvd_gap)
  then show "C + 2 ^ k \<le> 2 ^ 31" using kC by simp
  show "2 ^ (j - 1) < n" if j: "C + 2 ^ k = 2 ^ j"
  proof -
    have "2 ^ Suc (Suc k) \<le> C + 2 ^ k" using p0 unfolding C1 by simp
    then have "(2::nat) ^ Suc (Suc k) \<le> 2 ^ j" using j by simp
    then have sk: "Suc (Suc k) \<le> j" by (rule power_le_imp_le_exp [rotated]) simp
    then obtain i where i: "j = Suc i" "Suc k \<le> i" by (cases j) auto
    have "(2::nat) ^ Suc k \<le> 2 ^ i" using i(2) by (intro power_increasing) auto
    then have "2 ^ i \<le> C - 2 ^ k" using j i(1) kC by simp
    then show ?thesis using assms(4) i(1) by simp
  qed
qed

text \<open>Duplicating the last subtree of a level, and what the head of the loop keeps.\<close>

lemma sweep_duplicate:
  assumes inv: "head_inv H xs want pos C k h matchh st" and n: "length xs \<le> 2 ^ 31" and ne: "C \<noteq> 2 ^ k"
  defines "st' \<equiv> (if want \<and> matchh then st\<lparr>pbranch := pbranch st @ [h]\<rparr> else st)"
  shows "comb_inv H xs want pos C (C + 2 ^ k) (Suc k) (H h h) matchh st'"
proof -
  note inv' = inv [unfolded head_inv_def]
  have sc: "2 ^ Suc k dvd C + 2 ^ k" "2 ^ Suc k \<le> C - 2 ^ k" "2 ^ k \<le> C"
    "C + 2 ^ k - 2 ^ Suc k = C - 2 ^ k"
    using sweep_counter [of k C "length xs"] inv' n ne by auto
  have short: "length (cur xs C k) \<le> 2 ^ k" by (simp add: cur_def)
  have "length xs \<le> C" using inv' by blast
  then have "length (drop (C - 2 ^ k) xs) \<le> 2 ^ k" using sc(3) by simp
  then have "cur xs (C + 2 ^ k) (Suc k) = drop (C - 2 ^ k) xs" "cur xs C k = drop (C - 2 ^ k) xs"
    using sc(4) by (simp_all add: cur_def)
  then have cur: "cur xs (C + 2 ^ k) (Suc k) = cur xs C k" by simp
  have "H h h = subtree H (Suc k) (cur xs (C + 2 ^ k) (Suc k))"
    using inv' short unfolding cur by simp
  moreover have "inner_ok H xs C (Suc k) st'" using inv' by (simp add: st'_def inner_ok_def)
  moreover have "want \<longrightarrow> trk H xs pos C (C + 2 ^ k) (Suc k) matchh st'"
  proof
    assume want
    have m: "min (C + 2 ^ k) (length xs) = length xs" using inv' by simp
    show "trk H xs pos C (C + 2 ^ k) (Suc k) matchh st'"
      using inv' \<open>want\<close> short unfolding trk_def m cur sc(4)
      by (auto simp: st'_def at_block_def)
  qed
  moreover have "2 ^ Suc k \<le> C + 2 ^ k" using sc(2) by simp
  ultimately show ?thesis
    using inv' sc(1,4) unfolding comb_inv_def by simp
qed

lemma sweep_head:
  assumes inv: "comb_inv H xs want pos c C k h matchh st" and b: "bit C k"
    and C: "length xs \<le> C" "C \<le> 2 ^ 31" and top: "C = 2 ^ k \<Longrightarrow> 2 ^ (k - 1) < length xs"
  shows "head_inv H xs want pos C k h matchh st"
proof -
  note inv' = inv [unfolded comb_inv_def]
  have h: "2 ^ k dvd C" "bit C k" "c < C" "C \<le> c + 2 ^ k" using inv' b by auto
  note ba = blocks_above(1) [OF h] and bx = blocks_above(3) [OF h, where xs = xs]
  have "inner_ok H xs C (Suc k) st"
    using inv' ba bx by (auto simp: inner_ok_def)
  moreover have "min C (length xs) = length xs" using C by simp
  ultimately show ?thesis
    using inv' b C top at_block_above(1) [OF h, of H xs pos st]
    by (auto simp: head_inv_def trk_def)
qed

lemma sweep_exit:
  assumes "head_inv H xs want pos (2 ^ k) k h matchh st"
  shows "h = subtree H k xs \<and> length xs \<le> 2 ^ k \<and> (k = 0 \<or> 2 ^ (k - 1) < length xs) \<and>
    (want \<and> pos < length xs \<longrightarrow> pbranch st = subtree_branch H k xs pos)"
proof -
  note inv' = assms [unfolded head_inv_def]
  have "\<not> at_block H xs pos (2 ^ k) (Suc k) st" by (simp add: at_block_def bit_exp_iff)
  moreover have "cur xs (2 ^ k) k = xs" using inv' by (simp add: cur_def)
  ultimately show ?thesis using inv' by (auto split: if_splits)
qed

lemma sweep_inv:
  assumes "head_inv H xs want pos C k h matchh st" "length xs \<le> 2 ^ 31"
    and "sweep H want C k h matchh st = (h', st')"
  shows "\<exists>L. h' = subtree H L xs \<and> length xs \<le> 2 ^ L \<and> (L = 0 \<or> 2 ^ (L - 1) < length xs) \<and>
    mutated st' = mutated st \<and> (want \<and> pos < length xs \<longrightarrow> pbranch st' = subtree_branch H L xs pos)"
  using assms
proof (induction H want C k h matchh st rule: sweep.induct)
  case (1 H want C k h matchh st)
  note inv' = "1.prems"(1) [unfolded head_inv_def]
  show ?case
  proof (cases "C = 2 ^ k")
    case True
    then have "h' = h" "st' = st" using "1.prems"(3) by (subst (asm) sweep.simps, simp)+
    then show ?thesis using sweep_exit "1.prems"(1) True by (intro exI [of _ k]) simp
  next
    case False
    define st1 where "st1 = (if want \<and> matchh then st\<lparr>pbranch := pbranch st @ [h]\<rparr> else st)"
    have sc: "2 ^ Suc k dvd C + 2 ^ k" "C + 2 ^ k \<le> 2 ^ 31"
      "\<And>j. C + 2 ^ k = 2 ^ j \<Longrightarrow> 2 ^ (j - 1) < length xs"
      using sweep_counter [of k C "length xs"] inv' "1.prems"(2) False by auto
    have k: "k < 32" using level_bound [of k C] inv' by auto
    have C1: "(C + 2 ^ k) mod 2 ^ 32 = C + 2 ^ k" "C + 2 ^ k < 2 ^ 32" using sc(2) by simp_all
    obtain k2 h2 m2 st2 where p: "propagate H want (C + 2 ^ k) (Suc k) (H h h) matchh st1 = (k2, h2, m2, st2)"
      by (cases "propagate H want (C + 2 ^ k) (Suc k) (H h h) matchh st1")
    note pi = propagate_inv [OF sweep_duplicate [OF "1.prems"(1,2) False, folded st1_def] C1(2) p]
    have "head_inv H xs want pos (C + 2 ^ k) k2 h2 m2 st2"
      using pi sc(2,3) inv' by (intro sweep_head) auto
    moreover have "sweep H want (C + 2 ^ k) k2 h2 m2 st2 = (h', st')"
      using "1.prems"(3) False k C1(1) p
      by (subst (asm) sweep.simps) (simp add: Let_def st1_def [symmetric])
    moreover have "mutated st2 = mutated st" using pi by (simp add: st1_def)
    ultimately show ?thesis
      using "1.IH" [OF _ refl refl refl refl] k False C1(1) p "1.prems"(2)
      by (simp add: st1_def [symmetric])
  qed
qed

section \<open>The whole computation\<close>

lemma bit_add_top:
  assumes "m < 2 ^ L" "l < L"
  shows "bit (2 ^ L + m) l \<longleftrightarrow> bit m l" "blk_start (2 ^ L + m) l = 2 ^ L + blk_start m l"
proof -
  obtain d where d: "L = Suc l + d" using assms(2) less_iff_Suc_add by auto
  have L: "(2::nat) ^ L = 2 ^ Suc l * 2 ^ d" unfolding d by (rule power_add)
  have "(2 ^ L + m) div 2 ^ Suc l = 2 ^ d + m div 2 ^ Suc l" unfolding L by simp
  then show "blk_start (2 ^ L + m) l = 2 ^ L + blk_start m l"
    unfolding blk_start_def by (simp add: L algebra_simps)
  have "(2::nat) ^ L = 2 ^ l * (2 * 2 ^ d)" unfolding L by simp
  then have "(2 ^ L + m) div 2 ^ l = 2 * 2 ^ d + m div 2 ^ l" by simp
  then show "bit (2 ^ L + m) l \<longleftrightarrow> bit m l" by (simp add: bit_iff_odd)
qed

lemma bit_top_power: "m < 2 ^ L \<Longrightarrow> bit (2 ^ L + m) L" "m < 2 ^ L \<Longrightarrow> L < l \<Longrightarrow> \<not> bit (2 ^ L + m) l" for m :: nat
proof -
  assume m: "m < 2 ^ L"
  then have "(2 ^ L + m) div 2 ^ L = 1" by (intro quot_eq [of _ _ _ m]) simp_all
  then show "bit (2 ^ L + m) L" by (simp add: bit_iff_odd)
  assume "L < l"
  then have "(2::nat) ^ Suc L \<le> 2 ^ l" by (intro power_increasing) auto
  then have "2 ^ L + m < 2 ^ l" using m by simp
  then show "\<not> bit (2 ^ L + m) l" by (simp add: bit_iff_odd)
qed

lemma dup_pair_blocks:
  "length xs \<le> 2 ^ L \<Longrightarrow>
   dup_pair H L xs \<longleftrightarrow> (\<exists>l. bit (length xs) l \<and> dup_pair H l (blk xs (length xs) l))"
proof (induction L arbitrary: xs)
  case 0
  then show ?case by (cases xs) (auto simp: bit_Suc_0_iff)
next
  case (Suc L)
  consider (short) "length xs \<le> 2 ^ L" | (full) "length xs = 2 ^ Suc L"
    | (part) "2 ^ L < length xs" "length xs < 2 ^ Suc L" using Suc.prems by linarith
  then show ?case
  proof cases
    case short
    then show ?thesis using Suc.IH by simp
  next
    case full
    then have "blk xs (length xs) (Suc L) = xs" by (simp add: blk_def blk_start_def)
    moreover have "bit (length xs) l \<longleftrightarrow> l = Suc L" for l 
      unfolding full by (auto simp: bit_exp_iff simp del: power_Suc)
    ultimately show ?thesis by simp
  next
    case part
    define ys where "ys = drop (2 ^ L) xs"
    have n: "length xs = 2 ^ L + length ys" and m: "length ys < 2 ^ L"
      using part by (simp_all add: ys_def)
    have "blk_start (2 ^ L + length ys) L = 0"
      using m by (simp add: blk_start_def)
    then have top: "blk xs (length xs) L = take (2 ^ L) xs" by (simp add: blk_def n)
    have low: "l < L \<Longrightarrow> blk xs (length xs) l = blk ys (length ys) l" for l
      unfolding blk_def n bit_add_top(2) [OF m] by (simp add: ys_def add.commute)
    have bits: "bit (length xs) l \<longleftrightarrow> l = L \<or> (l < L \<and> bit (length ys) l)" for l
      unfolding n using bit_top_power [OF m] bit_add_top(1) [OF m] by (metis linorder_neqE_nat)
    have high: "bit (length ys) l \<Longrightarrow> l < L" for l
    proof -
      assume "bit (length ys) l"
      then have "2 ^ l \<le> length ys" by (rule bit_nat_ge)
      then have "(2::nat) ^ l < 2 ^ L" using m by (rule le_less_trans)
      then show "l < L" by (rule power_less_imp_less_exp [rotated]) simp
    qed
    have "dup_pair H (Suc L) xs \<longleftrightarrow> dup_pair H L (take (2 ^ L) xs) \<or> dup_pair H L ys"
      using part by (simp add: ys_def)
    also have "dup_pair H L ys \<longleftrightarrow> (\<exists>l. bit (length ys) l \<and> dup_pair H l (blk ys (length ys) l))"
      using m by (intro Suc.IH) simp
    also have "dup_pair H L (take (2 ^ L) xs) \<or> \<dots> \<longleftrightarrow>
        (\<exists>l. bit (length xs) l \<and> dup_pair H l (blk xs (length xs) l))"
      unfolding bits by (simp add: conj_disj_distribR ex_disj_distrib top) (metis low high)
    finally show ?thesis .
  qed
qed

lemma leaf_inv_initial:
  "leaf_inv H xs want pos 0 \<lparr>inner = replicate 32 z, matchlevel = - 1, mutated = False, pbranch = []\<rparr>"
  by (simp add: leaf_inv_def inner_ok_def mut_above_def)

lemma leaf_inv_head:
  assumes inv: "leaf_inv H xs want pos (length xs) st" and ne: "xs \<noteq> []" and n: "length xs \<le> 2 ^ 31"
  defines "k \<equiv> skip_level (length xs) 0"
  shows "head_inv H xs want pos (length xs) k (inner st ! k) (matchlevel st = int k) st"
proof -
  note inv' = inv [unfolded leaf_inv_def]
  have k: "2 ^ k dvd length xs" "bit (length xs) k" "k < 32"
    using skip_level_lowest [of 0 "length xs"] ne n unfolding k_def by auto
  note low = counter_lowest [OF k(1,2)]
  have cur: "blk xs (length xs) k = cur xs (length xs) k" using low(1) by (simp add: blk_def cur_def)
  have "inner st ! k = subtree H k (cur xs (length xs) k)" "inner_ok H xs (length xs) (Suc k) st"
    using inv' k cur by (auto simp: inner_ok_def)
  moreover have "if pos < length xs
        then if matchlevel st = int k
             then length xs - 2 ^ k \<le> pos \<and>
               pbranch st = subtree_branch H k (cur xs (length xs) k) (pos - (length xs - 2 ^ k))
             else at_block H xs pos (length xs) (Suc k) st
        else \<not> matchlevel st = int k \<and> matchlevel st = - 1 \<and> pbranch st = []" if w: want
  proof (cases "pos < length xs")
    case True
    then obtain l where l: "l < 32" "bit (length xs) l" "blk_start (length xs) l \<le> pos"
      "pos < blk_start (length xs) l + 2 ^ l" "matchlevel st = int l"
      "pbranch st = subtree_branch H l (blk xs (length xs) l) (pos - blk_start (length xs) l)"
      using inv' w by (auto simp: at_block_def)
    have "k \<le> l" using low(3) l(2) by (meson not_le)
    then show ?thesis using l True cur low(1) by (cases "l = k") (auto simp: at_block_def)
  next
    case False
    then show ?thesis using inv' w by auto
  qed
  moreover have "length xs - 2 ^ k < length xs" using ne by (simp add: diff_less)
  moreover have "length xs = 2 ^ k \<longrightarrow> k = 0 \<or> 2 ^ (k - 1) < length xs" by (cases k) auto
  ultimately show ?thesis using k n unfolding head_inv_def by blast
qed

lemma MerkleComputation_subtree:
  assumes ne: "xs \<noteq> []" and n: "length xs \<le> 2 ^ 31"
  shows "\<exists>L br. MerkleComputation H z xs pos want = (subtree H L xs, dup_pair H L xs, br) \<and>
    length xs \<le> 2 ^ L \<and> (L = 0 \<or> 2 ^ (L - 1) < length xs) \<and>
    (want \<and> pos < length xs \<longrightarrow> br = subtree_branch H L xs pos)"
proof -
  define st0 :: "'a merkle_state" where
    "st0 = \<lparr>inner = replicate 32 z, matchlevel = - 1, mutated = False, pbranch = []\<rparr>"
  have "length xs < 2 ^ 32" using n by simp
  then obtain st where st: "fold (add_leaf H want pos) xs (0, st0) = (length xs, st)"
    "leaf_inv H xs want pos (length xs) st"
    using fold_add_leaf [of xs H want pos st0 "length xs"] leaf_inv_initial [of H xs want pos z]
    by (auto simp: st0_def)
  define k where "k = skip_level (length xs) 0"
  obtain h st' where sw: "sweep H want (length xs) k (inner st ! k) (matchlevel st = int k) st = (h, st')"
    by (cases "sweep H want (length xs) k (inner st ! k) (matchlevel st = int k) st")
  have "MerkleComputation H z xs pos want = (h, mutated st', pbranch st')"
    using ne st(1) sw by (simp add: MerkleComputation_def st0_def k_def)
  moreover obtain L where L: "h = subtree H L xs" "length xs \<le> 2 ^ L" "L = 0 \<or> 2 ^ (L - 1) < length xs"
    "mutated st' = mutated st" "want \<and> pos < length xs \<longrightarrow> pbranch st' = subtree_branch H L xs pos"
    using sweep_inv [OF leaf_inv_head [OF st(2) ne n, folded k_def] n sw] by blast
  moreover have "mutated st \<longleftrightarrow> dup_pair H L xs"
  proof -
    have "bit (length xs) l \<Longrightarrow> l < 32" for l
    proof -
      assume "bit (length xs) l"
      then have "(2::nat) ^ l \<le> 2 ^ 31" using bit_nat_ge [of "length xs" l] n by linarith
      then show "l < 32" using power_le_imp_le_exp [of "2::nat" l 31] by simp
    qed
    then have "mut_above H xs (length xs) 0 \<longleftrightarrow> dup_pair H L xs"
      unfolding dup_pair_blocks [OF L(2)] mut_above_def by auto
    then show ?thesis using st(2) by (simp add: leaf_inv_def)
  qed
  ultimately show ?thesis by auto
qed

section \<open>Subtrees and levels\<close>

lemma merkle_level_append:
  "even (length a) \<Longrightarrow> merkle_level H (a @ b) = merkle_level H a @ merkle_level H b"
  by (induction H a rule: merkle_level.induct) auto

lemma merkle_level_Nil [simp]: "merkle_level H xs = [] \<longleftrightarrow> xs = []"
  by (cases "(H, xs)" rule: merkle_level.cases) auto

lemma subtree_level:
  "xs \<noteq> [] \<Longrightarrow> length xs \<le> 2 ^ Suc k \<Longrightarrow> subtree H (Suc k) xs = subtree H k (merkle_level H xs)"
proof (induction k arbitrary: xs)
  case 0
  then obtain x ys where xs: "xs = x # ys" "length ys \<le> 1" by (cases xs) auto
  then show ?case by (cases ys) auto
next
  case (Suc k)
  show ?case
  proof (cases "length xs \<le> 2 ^ Suc k")
    case True
    then have "length (merkle_level H xs) \<le> 2 ^ k" by (simp add: merkle_level_length)
    then have "subtree H (Suc k) (merkle_level H xs)
        = H (subtree H k (merkle_level H xs)) (subtree H k (merkle_level H xs))" by simp
    then show ?thesis using Suc.IH [OF Suc.prems(1) True] True by (simp del: subtree.simps add: subtree.simps(2) [of H "Suc k"])
  next
    case False
    define a b where "a = take (2 ^ Suc k) xs" and "b = drop (2 ^ Suc k) xs"
    have ab: "xs = a @ b" "length a = 2 ^ Suc k" "b \<noteq> []" "a \<noteq> []" "length b \<le> 2 ^ Suc k"
      using False Suc.prems by (auto simp: a_def b_def)
    have "subtree H (Suc (Suc k)) xs = H (subtree H (Suc k) a) (subtree H (Suc k) b)"
      unfolding ab(1) by (rule subtree_append [OF ab(2,3)])
    also have "\<dots> = H (subtree H k (merkle_level H a)) (subtree H k (merkle_level H b))"
      using Suc.IH [of a] Suc.IH [of b] ab by simp
    also have "\<dots> = subtree H (Suc k) (merkle_level H a @ merkle_level H b)"
      using ab by (intro subtree_append [symmetric]) (simp_all add: merkle_level_length)
    finally show ?thesis using ab(2) by (simp add: ab(1) merkle_level_append del: subtree.simps)
  qed
qed

lemma level_height:
  fixes n :: nat
  assumes "2 ^ L < n" "n \<le> 2 ^ Suc L"
  shows "(n + 1) div 2 \<le> 2 ^ L" "L = 0 \<or> 2 ^ (L - 1) < (n + 1) div 2"
proof -
  show "(n + 1) div 2 \<le> 2 ^ L" using assms(2) by simp
  show "L = 0 \<or> 2 ^ (L - 1) < (n + 1) div 2" using assms(1) by (cases L) auto
qed

lemma merkle_root_small [simp]: "merkle_root H z [] = z" "merkle_root H z [x] = x"
  by (subst merkle_root.simps, simp)+

lemma merkle_root_subtree:
  "xs \<noteq> [] \<Longrightarrow> length xs \<le> 2 ^ L \<Longrightarrow> L = 0 \<or> 2 ^ (L - 1) < length xs \<Longrightarrow>
   merkle_root H z xs = subtree H L xs"
proof (induction L arbitrary: xs)
  case 0
  then obtain x where "xs = [x]" by (cases xs) auto
  then show ?case by simp
next
  case (Suc L)
  have lt: "2 ^ L < length xs" using Suc.prems by simp
  then obtain x y zs where xs: "xs = x # y # zs"
    by (cases xs; cases "tl xs") (auto simp: less_Suc_eq)
  have "merkle_root H z xs = merkle_root H z (merkle_level H xs)"
    by (subst merkle_root.simps) (simp add: xs)
  also have "\<dots> = subtree H L (merkle_level H xs)"
    using level_height [OF lt Suc.prems(2)] Suc.prems(1) by (intro Suc.IH) (simp_all add: merkle_level_length)
  also have "\<dots> = subtree H (Suc L) xs" using Suc.prems(1,2) by (rule subtree_level [symmetric])
  finally show ?case .
qed

lemma tree_height_unique:
  "n \<le> 2 ^ L \<Longrightarrow> L = 0 \<or> 2 ^ (L - 1) < n \<Longrightarrow> tree_height n = L"
proof (induction L arbitrary: n)
  case 0
  then show ?case by (subst tree_height.simps) simp
next
  case (Suc L)
  have lt: "2 ^ L < n" using Suc.prems by simp
  moreover have "(1::nat) \<le> 2 ^ L" by simp
  ultimately have "\<not> n \<le> 1" by linarith
  then have "tree_height n = Suc (tree_height ((n + 1) div 2))" by (subst tree_height.simps) simp
  then show ?case using Suc.IH [OF level_height [OF lt Suc.prems(1)]] by simp
qed

lemma MerkleComputation_reference:
  assumes "length xs \<le> 2 ^ 31"
  shows "\<exists>br. MerkleComputation H z xs pos want
           = (merkle_root H z xs, dup_pair H (tree_height (length xs)) xs, br) \<and>
    (want \<and> pos < length xs \<longrightarrow> br = subtree_branch H (tree_height (length xs)) xs pos)"
proof (cases "xs = []")
  case True
  then show ?thesis by (simp add: MerkleComputation_def tree_height.simps)
next
  case False
  obtain L br where L: "MerkleComputation H z xs pos want = (subtree H L xs, dup_pair H L xs, br)"
    "length xs \<le> 2 ^ L" "L = 0 \<or> 2 ^ (L - 1) < length xs"
    "want \<and> pos < length xs \<longrightarrow> br = subtree_branch H L xs pos"
    using MerkleComputation_subtree [OF False assms] by blast
  then show ?thesis
    using merkle_root_subtree [OF False L(2,3)] tree_height_unique [OF L(2,3)] by auto
qed

section \<open>Branches\<close>

lemma subtree_branch_length [simp]: "length (subtree_branch H k xs pos) = k"
  by (induction k arbitrary: xs pos) auto

lemma RootFromBranch_append:
  "ComputeMerkleRootFromBranch H h (bs @ [b]) i =
     (let r = ComputeMerkleRootFromBranch H h bs i in if bit i (length bs) then H b r else H r b)"
proof (induction bs arbitrary: h i)
  case (Cons x bs)
  then show ?case by (simp add: bit_Suc Let_def)
qed simp

lemma RootFromBranch_subtree:
  "pos < length xs \<Longrightarrow> length xs \<le> 2 ^ k \<Longrightarrow> i mod 2 ^ k = pos \<Longrightarrow>
   ComputeMerkleRootFromBranch H (xs ! pos) (subtree_branch H k xs pos) i = subtree H k xs"
proof (induction k arbitrary: xs pos)
  case 0
  then show ?case by (cases xs) auto
next
  case (Suc k)
  have pos: "pos = i mod 2 ^ k + (if bit i k then 2 ^ k else 0)"
  proof -
    have "i mod 2 ^ Suc k = 2 ^ k * (i div 2 ^ k mod 2) + i mod 2 ^ k"
      using mod_mult2_eq [of i "2 ^ k" 2] by (simp add: mult.commute)
    then show ?thesis using Suc.prems(3) by (auto simp: bit_iff_odd mod2_eq_if)
  qed
  have im: "i mod 2 ^ k < 2 ^ k" by simp
  show ?case
  proof (cases "length xs \<le> 2 ^ k")
    case True
    have nb: "\<not> bit i k"
    proof
      assume "bit i k"
      with pos have "2 ^ k \<le> pos" by simp
      with True Suc.prems(1) show False by linarith
    qed
    with pos have p: "i mod 2 ^ k = pos" by simp
    show ?thesis using Suc.IH [OF Suc.prems(1) True p] True nb
      by (simp add: RootFromBranch_append Let_def)
  next
    case long: False
    show ?thesis
    proof (cases "bit i k")
      case True
      with pos have p: "i mod 2 ^ k = pos - 2 ^ k" and le: "2 ^ k \<le> pos" by simp_all
      have "ComputeMerkleRootFromBranch H (drop (2 ^ k) xs ! (pos - 2 ^ k))
          (subtree_branch H k (drop (2 ^ k) xs) (pos - 2 ^ k)) i = subtree H k (drop (2 ^ k) xs)"
        using Suc.prems(1,2) le by (intro Suc.IH [OF _ _ p]) simp_all
      moreover have "drop (2 ^ k) xs ! (pos - 2 ^ k) = xs ! pos" using long le by simp
      ultimately show ?thesis using True long le by (simp add: RootFromBranch_append Let_def)
    next
      case False
      with pos have p: "i mod 2 ^ k = pos" by simp
      with im have lt: "pos < 2 ^ k" by simp
      have "ComputeMerkleRootFromBranch H (take (2 ^ k) xs ! pos)
          (subtree_branch H k (take (2 ^ k) xs) pos) i = subtree H k (take (2 ^ k) xs)"
        using Suc.prems(1) lt by (intro Suc.IH [OF _ _ p]) simp_all
      then show ?thesis using False long lt by (simp add: RootFromBranch_append Let_def)
    qed
  qed
qed

lemma tree_height_bound: "n \<le> 2 ^ tree_height n"
proof (induction n rule: tree_height.induct)
  case (1 n)
  show ?case
  proof (cases "n \<le> 1")
    case True
    then show ?thesis by (simp add: tree_height.simps)
  next
    case False
    then have "(n + 1) div 2 \<le> 2 ^ tree_height ((n + 1) div 2)" by (rule 1)
    then have "n \<le> 2 * 2 ^ tree_height ((n + 1) div 2)" by linarith
    then show ?thesis using False by (subst tree_height.simps) simp
  qed
qed

section \<open>Duplicate detection\<close>

text \<open>
  The pairs of nodes that are hashed to build a subtree.  The claims below need no more of
  the hash than that it has no collision on the pairs that occur in the trees compared; a
  complete subtree can then only have the hash of a padded one if it contains two equal
  complete siblings itself.
\<close>

fun tree_pairs :: "('h \<Rightarrow> 'h \<Rightarrow> 'h) \<Rightarrow> nat \<Rightarrow> 'h list \<Rightarrow> ('h \<times> 'h) set" where
  "tree_pairs H 0 xs = {}"
| "tree_pairs H (Suc k) xs =
     (if length xs \<le> 2 ^ k then insert (subtree H k xs, subtree H k xs) (tree_pairs H k xs)
      else insert (subtree H k (take (2 ^ k) xs), subtree H k (drop (2 ^ k) xs))
             (tree_pairs H k (take (2 ^ k) xs) \<union> tree_pairs H k (drop (2 ^ k) xs)))"

definition collision_free_on :: "('h \<times> 'h) set \<Rightarrow> ('h \<Rightarrow> 'h \<Rightarrow> 'h) \<Rightarrow> bool" where
  "collision_free_on P H \<longleftrightarrow> inj_on (\<lambda>(a, b). H a b) P"

lemma collision_freeD:
  "collision_free_on P H \<Longrightarrow> (a, b) \<in> P \<Longrightarrow> (c, d) \<in> P \<Longrightarrow> H a b = H c d \<Longrightarrow> a = c \<and> b = d"
  unfolding collision_free_on_def by (drule inj_onD [of _ _ "(a, b)" "(c, d)"]) simp_all

lemma subtree_long_long:
  assumes "collision_free_on P H" "2 ^ k < length a" "2 ^ k < length b"
    and "tree_pairs H (Suc k) a \<subseteq> P" "tree_pairs H (Suc k) b \<subseteq> P"
    and "subtree H (Suc k) a = subtree H (Suc k) b"
  shows "subtree H k (take (2 ^ k) a) = subtree H k (take (2 ^ k) b) \<and>
    subtree H k (drop (2 ^ k) a) = subtree H k (drop (2 ^ k) b)"
  using assms(2-6) by (intro collision_freeD [OF assms(1)]) simp_all

lemma subtree_long_short:
  assumes "collision_free_on P H" "2 ^ k < length a" "length b \<le> 2 ^ k"
    and "tree_pairs H (Suc k) a \<subseteq> P" "tree_pairs H (Suc k) b \<subseteq> P"
    and "subtree H (Suc k) a = subtree H (Suc k) b"
  shows "subtree H k (take (2 ^ k) a) = subtree H k b \<and> subtree H k (drop (2 ^ k) a) = subtree H k b"
  using assms(2-6) by (intro collision_freeD [OF assms(1)]) simp_all

lemma subtree_short_short:
  assumes "collision_free_on P H" "length a \<le> 2 ^ k" "length b \<le> 2 ^ k"
    and "tree_pairs H (Suc k) a \<subseteq> P" "tree_pairs H (Suc k) b \<subseteq> P"
    and "subtree H (Suc k) a = subtree H (Suc k) b"
  shows "subtree H k a = subtree H k b"
  using assms(2-6)
    collision_freeD [OF assms(1), of "subtree H k a" "subtree H k a" "subtree H k b" "subtree H k b"]
  by simp

lemma full_partial_dup:
  "collision_free_on P H \<Longrightarrow> length a = 2 ^ k \<Longrightarrow> 0 < length b \<Longrightarrow> length b < 2 ^ k \<Longrightarrow>
   tree_pairs H k a \<subseteq> P \<Longrightarrow> tree_pairs H k b \<subseteq> P \<Longrightarrow>
   subtree H k a = subtree H k b \<Longrightarrow> dup_pair H k a"
proof (induction k arbitrary: a b)
  case (Suc k)
  have a: "2 ^ k < length a" using Suc.prems(2) by simp
  show ?case
  proof (cases "length b \<le> 2 ^ k")
    case True
    then show ?thesis
      using subtree_long_short [OF Suc.prems(1) a True Suc.prems(5-7)] Suc.prems(2) a by simp
  next
    case False
    then have b: "2 ^ k < length b" by simp
    have "dup_pair H k (drop (2 ^ k) a)"
      using subtree_long_long [OF Suc.prems(1) a b Suc.prems(5-7)] Suc.prems a b
      by (intro Suc.IH [of _ "drop (2 ^ k) b"]) simp_all
    then show ?thesis using a by simp
  qed
qed simp

lemma padded_dup:
  assumes cf: "collision_free_on P H" and xs: "xs \<noteq> []" "length xs \<le> 2 ^ k"
    and ys: "2 ^ k < length ys" "length ys \<le> 2 ^ Suc k"
    and P: "tree_pairs H (Suc k) xs \<subseteq> P" "tree_pairs H (Suc k) ys \<subseteq> P"
    and eq: "subtree H (Suc k) xs = subtree H (Suc k) ys"
  shows "dup_pair H (Suc k) ys"
proof -
  have "subtree H k (take (2 ^ k) ys) = subtree H k (drop (2 ^ k) ys)"
    using subtree_long_short [OF cf ys(1) xs(2) P(2,1) eq [symmetric]] by simp
  then show ?thesis
    using full_partial_dup [OF cf, of "take (2 ^ k) ys" k "drop (2 ^ k) ys"] ys P
    by (cases "length ys = 2 ^ Suc k") auto
qed

lemma same_root_dup:
  "collision_free_on P H \<Longrightarrow> xs \<noteq> [] \<Longrightarrow> ys \<noteq> [] \<Longrightarrow> length xs \<le> 2 ^ k \<Longrightarrow> length ys \<le> 2 ^ k \<Longrightarrow>
   tree_pairs H k xs \<subseteq> P \<Longrightarrow> tree_pairs H k ys \<subseteq> P \<Longrightarrow>
   subtree H k xs = subtree H k ys \<Longrightarrow> xs = ys \<or> dup_pair H k xs \<or> dup_pair H k ys"
proof (induction k arbitrary: xs ys)
  case 0
  then have "length xs = 1" "length ys = 1" by (simp_all add: le_Suc_eq)
  then show ?case using 0 by (auto simp: length_Suc_conv)
next
  case (Suc k)
  consider (ss) "length xs \<le> 2 ^ k" "length ys \<le> 2 ^ k" | (sl) "length xs \<le> 2 ^ k" "2 ^ k < length ys"
    | (ls) "2 ^ k < length xs" "length ys \<le> 2 ^ k" | (ll) "2 ^ k < length xs" "2 ^ k < length ys"
    by linarith
  then show ?case
  proof cases
    case ss
    then have "subtree H k xs = subtree H k ys"
      using subtree_short_short Suc.prems by blast
    then show ?thesis using Suc.IH [OF Suc.prems(1,2,3) ss] Suc.prems(6,7) ss by simp
  next
    case sl
    then show ?thesis using padded_dup [OF Suc.prems(1,2) sl Suc.prems(5-8)] by simp
  next
    case ls
    then show ?thesis using padded_dup [OF Suc.prems(1,3) ls(2,1) Suc.prems(4,7,6) Suc.prems(8) [symmetric]] by simp
  next
    case ll
    note eq = subtree_long_long [OF Suc.prems(1) ll Suc.prems(6-8)]
    have "length (drop (2 ^ k) xs) \<le> 2 ^ k" "length (drop (2 ^ k) ys) \<le> 2 ^ k"
      using Suc.prems(4,5) by simp_all
    with eq have "take (2 ^ k) xs = take (2 ^ k) ys \<or> dup_pair H (Suc k) xs \<or> dup_pair H (Suc k) ys"
      "drop (2 ^ k) xs = drop (2 ^ k) ys \<or> dup_pair H (Suc k) xs \<or> dup_pair H (Suc k) ys"
      using Suc.IH [of "take (2 ^ k) xs" "take (2 ^ k) ys"]
        Suc.IH [of "drop (2 ^ k) xs" "drop (2 ^ k) ys"] Suc.prems ll by auto
    then show ?thesis by (metis append_take_drop_id)
  qed
qed

section \<open>Properties\<close>

lemma ComputeMerkleRoot_subtree:
  assumes "us \<noteq> []" "length us \<le> 2 ^ 31"
  shows "ComputeMerkleRoot H z us
    = (subtree H (tree_height (length us)) us, dup_pair H (tree_height (length us)) us)"
proof -
  obtain L br where L: "MerkleComputation H z us (2 ^ 32 - 1) False = (subtree H L us, dup_pair H L us, br)"
    "length us \<le> 2 ^ L" "L = 0 \<or> 2 ^ (L - 1) < length us"
    using MerkleComputation_subtree [OF assms, of H z "2 ^ 32 - 1" False] by blast
  then show ?thesis using tree_height_unique [OF L(2,3)] by (simp add: ComputeMerkleRoot_def)
qed

text \<open>
  C2: the constant-space \<open>ComputeMerkleRoot\<close> returns the root of the tree built level by
  level, and its mutation flag says whether two complete sibling subtrees have equal hashes.
\<close>

theorem merkle_root_correct:
  assumes "length leaves \<le> 2 ^ 31"
  shows "ComputeMerkleRoot H z leaves
    = (merkle_root H z leaves, dup_pair H (tree_height (length leaves)) leaves)"
  using MerkleComputation_reference [OF assms, of H z "2 ^ 32 - 1" False]
  by (auto simp: ComputeMerkleRoot_def)

theorem merkle_root_correct_witness:
  "ComputeMerkleRoot (\<lambda>a b. 31 * a + 7 * b + 1) 0 [2, 3, 5, 5, 11 :: int]
    = (merkle_root (\<lambda>a b. 31 * a + 7 * b + 1) 0 [2, 3, 5, 5, 11], True)"
proof -
  have "tree_height (length [2, 3, 5, 5, 11 :: int]) = 3" by (rule tree_height_unique) simp_all
  moreover have "dup_pair (\<lambda>a b. 31 * a + 7 * b + 1) 3 [2, 3, 5, 5, 11 :: int]" by code_simp
  ultimately show ?thesis
    using merkle_root_correct [of "[2, 3, 5, 5, 11 :: int]" "\<lambda>a b. 31 * a + 7 * b + 1" 0] by simp
qed

text \<open>
  C26: the branch that \<open>ComputeMerkleBranch\<close> returns for a leaf authenticates it:
  \<open>ComputeMerkleRootFromBranch\<close> rebuilds the root from the leaf, its branch and its
  position.
\<close>

theorem merkle_branch_verifies:
  assumes "length leaves \<le> 2 ^ 31" "position < length leaves"
  shows "ComputeMerkleRootFromBranch H (leaves ! position)
      (ComputeMerkleBranch H z leaves position) position = fst (ComputeMerkleRoot H z leaves)"
proof -
  let ?L = "tree_height (length leaves)"
  have ne: "leaves \<noteq> []" using assms(2) by auto
  have "position mod 2 ^ ?L = position" using assms(2) tree_height_bound [of "length leaves"] by simp
  then have "ComputeMerkleRootFromBranch H (leaves ! position)
      (subtree_branch H ?L leaves position) position = subtree H ?L leaves"
    by (rule RootFromBranch_subtree [OF assms(2) tree_height_bound])
  moreover have "ComputeMerkleBranch H z leaves position = subtree_branch H ?L leaves position"
    using MerkleComputation_reference [OF assms(1), of H z position True] assms(2)
    by (auto simp: ComputeMerkleBranch_def)
  ultimately show ?thesis using ComputeMerkleRoot_subtree [OF ne assms(1), of H z] by simp
qed

theorem merkle_branch_verifies_witness:
  "ComputeMerkleRootFromBranch (\<lambda>a b. 31 * a + 7 * b + 1) 5
      (ComputeMerkleBranch (\<lambda>a b. 31 * a + 7 * b + 1) 0 [2, 3, 5 :: int] 2) 2
    = fst (ComputeMerkleRoot (\<lambda>a b. 31 * a + 7 * b + 1) 0 [2, 3, 5])"
  using merkle_branch_verifies [of "[2, 3, 5 :: int]" 2 "\<lambda>a b. 31 * a + 7 * b + 1" 0] by simp

text \<open>
  C13: two different leaf lists whose trees have the same height and the same root are told
  apart by the mutation flag (the defence against CVE-2012-2459: one of the two lists repeats
  transactions), if the hash has no collision among the node pairs that are hashed in the two
  trees.
\<close>

theorem merkle_mutation_detected:
  assumes "length xs \<le> 2 ^ 31" "length ys \<le> 2 ^ 31" "xs \<noteq> []" "ys \<noteq> []"
    and height: "tree_height (length xs) = tree_height (length ys)"
    and cf: "collision_free_on (tree_pairs H (tree_height (length xs)) xs
               \<union> tree_pairs H (tree_height (length ys)) ys) H"
    and root: "fst (ComputeMerkleRoot H z xs) = fst (ComputeMerkleRoot H z ys)" and ne: "xs \<noteq> ys"
  shows "snd (ComputeMerkleRoot H z xs) \<or> snd (ComputeMerkleRoot H z ys)"
proof -
  have "subtree H (tree_height (length ys)) xs = subtree H (tree_height (length ys)) ys"
    using height root ComputeMerkleRoot_subtree [OF assms(3,1), of H z]
      ComputeMerkleRoot_subtree [OF assms(4,2), of H z] by simp
  moreover have "length xs \<le> 2 ^ tree_height (length ys)"
    using tree_height_bound [of "length xs"] height by simp
  ultimately have "dup_pair H (tree_height (length ys)) xs \<or> dup_pair H (tree_height (length ys)) ys"
    using same_root_dup [OF cf assms(3,4) _ tree_height_bound] ne height by simp
  then show ?thesis
    using height ComputeMerkleRoot_subtree [OF assms(3,1), of H z]
      ComputeMerkleRoot_subtree [OF assms(4,2), of H z] by simp
qed

theorem merkle_mutation_detected_witness:
  "snd (ComputeMerkleRoot (\<lambda>a b. 31 * a + b) 0 [1, 2, 3 :: u32]) \<or>
   snd (ComputeMerkleRoot (\<lambda>a b. 31 * a + b) 0 [1, 2, 3, 3 :: u32])"
proof (rule merkle_mutation_detected)
  let ?H = "\<lambda>a b. 31 * a + b" and ?xs = "[1, 2, 3 :: u32]" and ?ys = "[1, 2, 3, 3 :: u32]"
  have h: "tree_height (length ?xs) = 2" "tree_height (length ?ys) = 2"
    by (rule tree_height_unique; simp)+
  then show "tree_height (length ?xs) = tree_height (length ?ys)" by simp
  have "subtree ?H 2 ?xs = subtree ?H 2 ?ys" by (simp add: numeral_2_eq_2)
  then show "fst (ComputeMerkleRoot ?H 0 ?xs) = fst (ComputeMerkleRoot ?H 0 ?ys)"
    using ComputeMerkleRoot_subtree [of ?xs ?H 0] ComputeMerkleRoot_subtree [of ?ys ?H 0] h by simp
  show "collision_free_on (tree_pairs ?H (tree_height (length ?xs)) ?xs
      \<union> tree_pairs ?H (tree_height (length ?ys)) ?ys) ?H"
  proof -
    have "tree_pairs ?H 2 ?xs \<union> tree_pairs ?H 2 ?ys = {(33, 96), (1, 2), (3, 3)}"
      by code_simp
    then show ?thesis unfolding h by (auto simp: collision_free_on_def inj_on_def)
  qed
qed simp_all

end
