(* ===== verification/Crypto_Common.thy ===== *)
theory Crypto_Common
  imports Prelude
begin

text \<open>
  Byte access and the block buffering shared by the hash classes of
  \<^verbatim>\<open>src/src/crypto\<close>.  The readers and writers of \<^verbatim>\<open>crypto/common.h\<close> work on byte lists: a
  pointer is the list of the bytes from it on.  The four hash classes have the same members
  (chaining values \<open>s\<close>, block buffer \<open>buf\<close>, byte counter \<open>bytes\<close>) and textually the same
  \<open>Write\<close> up to the block size and the \<open>Transform\<close> it calls, so both are arguments of the
  definitions here.  The locale \<open>block_hash\<close> states what \<open>Write\<close> needs from a \<open>Transform\<close> and
  shows that feeding a message in any pieces computes the Merkle-Damgaard iteration over the
  blocks of the padded message.
\<close>

section \<open>Byte order\<close>

definition ReadLE16 :: "bytes \<Rightarrow> u16" where
  "ReadLE16 p = ucast (p ! 0) OR push_bit 8 (ucast (p ! 1))"

definition ReadLE32 :: "bytes \<Rightarrow> u32" where
  "ReadLE32 p = ucast (p ! 0) OR push_bit 8 (ucast (p ! 1)) OR push_bit 16 (ucast (p ! 2))
     OR push_bit 24 (ucast (p ! 3))"

definition ReadLE64 :: "bytes \<Rightarrow> u64" where
  "ReadLE64 p = ucast (p ! 0) OR push_bit 8 (ucast (p ! 1)) OR push_bit 16 (ucast (p ! 2))
     OR push_bit 24 (ucast (p ! 3)) OR push_bit 32 (ucast (p ! 4)) OR push_bit 40 (ucast (p ! 5))
     OR push_bit 48 (ucast (p ! 6)) OR push_bit 56 (ucast (p ! 7))"

definition WriteLE16 :: "u16 \<Rightarrow> bytes" where
  "WriteLE16 x = [ucast x, ucast (drop_bit 8 x)]"

definition WriteLE32 :: "u32 \<Rightarrow> bytes" where
  "WriteLE32 x = [ucast x, ucast (drop_bit 8 x), ucast (drop_bit 16 x), ucast (drop_bit 24 x)]"

definition WriteLE64 :: "u64 \<Rightarrow> bytes" where
  "WriteLE64 x = [ucast x, ucast (drop_bit 8 x), ucast (drop_bit 16 x), ucast (drop_bit 24 x),
     ucast (drop_bit 32 x), ucast (drop_bit 40 x), ucast (drop_bit 48 x), ucast (drop_bit 56 x)]"

definition ReadBE32 :: "bytes \<Rightarrow> u32" where
  "ReadBE32 p = push_bit 24 (ucast (p ! 0)) OR push_bit 16 (ucast (p ! 1))
     OR push_bit 8 (ucast (p ! 2)) OR ucast (p ! 3)"

definition ReadBE64 :: "bytes \<Rightarrow> u64" where
  "ReadBE64 p = push_bit 56 (ucast (p ! 0)) OR push_bit 48 (ucast (p ! 1))
     OR push_bit 40 (ucast (p ! 2)) OR push_bit 32 (ucast (p ! 3)) OR push_bit 24 (ucast (p ! 4))
     OR push_bit 16 (ucast (p ! 5)) OR push_bit 8 (ucast (p ! 6)) OR ucast (p ! 7)"

definition WriteBE32 :: "u32 \<Rightarrow> bytes" where
  "WriteBE32 x = [ucast (drop_bit 24 x), ucast (drop_bit 16 x), ucast (drop_bit 8 x), ucast x]"

definition WriteBE64 :: "u64 \<Rightarrow> bytes" where
  "WriteBE64 x = [ucast (drop_bit 56 x), ucast (drop_bit 48 x), ucast (drop_bit 40 x),
     ucast (drop_bit 32 x), ucast (drop_bit 24 x), ucast (drop_bit 16 x), ucast (drop_bit 8 x),
     ucast x]"

section \<open>The hash state and \<open>Write\<close>\<close>

record 'w hash_ctx =
  ctx_s :: "'w list"
  ctx_buf :: bytes
  ctx_bytes :: u64

definition memcpy_at :: "bytes \<Rightarrow> nat \<Rightarrow> bytes \<Rightarrow> bytes" where
  "memcpy_at dst off src = take off dst @ src @ drop (off + length src) dst"

function hash_chunks ::
  "nat \<Rightarrow> ('w list \<Rightarrow> bytes \<Rightarrow> 'w list) \<Rightarrow> 'w hash_ctx \<Rightarrow> bytes \<Rightarrow> 'w hash_ctx \<times> bytes" where
  "hash_chunks B T ctx data =
     (if B = 0 \<or> length data < B then (ctx, data)
      else hash_chunks B T
             (ctx\<lparr>ctx_s := T (ctx_s ctx) data, ctx_bytes := ctx_bytes ctx + of_nat B\<rparr>)
             (drop B data))"
  by pat_completeness auto
termination by (relation "measure (\<lambda>(B, T, ctx, data). length data)") auto

definition hash_Write ::
  "nat \<Rightarrow> ('w list \<Rightarrow> bytes \<Rightarrow> 'w list) \<Rightarrow> 'w hash_ctx \<Rightarrow> bytes \<Rightarrow> 'w hash_ctx" where
  "hash_Write B T ctx data =
     (let bufsize = unat (ctx_bytes ctx) mod B;
          (ctx, data, bufsize) =
            (if bufsize \<noteq> 0 \<and> B \<le> bufsize + length data
             then let buf = memcpy_at (ctx_buf ctx) bufsize (take (B - bufsize) data)
                  in (ctx\<lparr>ctx_buf := buf, ctx_bytes := ctx_bytes ctx + of_nat (B - bufsize),
                          ctx_s := T (ctx_s ctx) buf\<rparr>,
                      drop (B - bufsize) data, 0)
             else (ctx, data, bufsize));
          (ctx, data) = hash_chunks B T ctx data
      in if data \<noteq> []
         then ctx\<lparr>ctx_buf := memcpy_at (ctx_buf ctx) bufsize data,
                  ctx_bytes := ctx_bytes ctx + of_nat (length data)\<rparr>
         else ctx)"

section \<open>Reference: Merkle-Damgaard iteration\<close>

function blocks_of :: "nat \<Rightarrow> bytes \<Rightarrow> bytes list" where
  "blocks_of B m = (if B = 0 \<or> length m < B then [] else take B m # blocks_of B (drop B m))"
  by pat_completeness auto
termination by (relation "measure (\<lambda>(B, m). length m)") auto

definition md_pad :: "nat \<Rightarrow> bytes \<Rightarrow> bytes \<Rightarrow> bytes" where
  "md_pad B sz m =
     m @ [0x80] @ replicate ((B - (length m + 1 + length sz) mod B) mod B) 0 @ sz"

definition md_hash ::
  "nat \<Rightarrow> ('w list \<Rightarrow> bytes \<Rightarrow> 'w list) \<Rightarrow> 'w list \<Rightarrow> bytes \<Rightarrow> bytes \<Rightarrow> 'w list" where
  "md_hash B T s0 sz m = foldl T s0 (blocks_of B (md_pad B sz m))"

declare hash_chunks.simps [simp del] blocks_of.simps [simp del]

text \<open>The length of the full blocks.\<close>

definition full_len :: "nat \<Rightarrow> nat \<Rightarrow> nat" where
  "full_len B n = n - n mod B"

text \<open>A context represents the message \<open>m\<close> written so far.\<close>

definition ctx_rep ::
  "nat \<Rightarrow> ('w list \<Rightarrow> bytes \<Rightarrow> 'w list) \<Rightarrow> 'w list \<Rightarrow> 'w hash_ctx \<Rightarrow> bytes \<Rightarrow> bool" where
  "ctx_rep B T s0 ctx m \<longleftrightarrow>
     ctx_s ctx = foldl T s0 (blocks_of B m) \<and>
     ctx_bytes ctx = of_nat (length m) \<and>
     length (ctx_buf ctx) = B \<and>
     take (length m mod B) (ctx_buf ctx) = drop (full_len B (length m)) m"

section \<open>Blocks of a message\<close>

lemma blocks_of_short [simp]: "length m < B \<Longrightarrow> blocks_of B m = []"
  by (simp add: blocks_of.simps)

lemma blocks_of_step: "0 < B \<Longrightarrow> B \<le> length m \<Longrightarrow> blocks_of B m = take B m # blocks_of B (drop B m)"
  by (subst blocks_of.simps) simp

lemma blocks_of_append:
  assumes "0 < B" "B dvd length a"
  shows "blocks_of B (a @ b) = blocks_of B a @ blocks_of B b"
  using assms
proof (induction "length a" arbitrary: a rule: less_induct)
  case less
  show ?case
  proof (cases "a = []")
    case False
    then have le: "B \<le> length a" using less.prems by (simp add: dvd_imp_le)
    have "B dvd length (drop B a)" using less.prems by simp
    with less.hyps [of "drop B a"] less.prems le False
    have "blocks_of B (drop B a @ b) = blocks_of B (drop B a) @ blocks_of B b" by simp
    with le less.prems show ?thesis by (simp add: blocks_of_step [of B "a @ b"] blocks_of_step [of B a])
  qed (use less.prems in simp)
qed

lemma blocks_of_append_short:
  "0 < B \<Longrightarrow> B dvd length a \<Longrightarrow> length b < B \<Longrightarrow> blocks_of B (a @ b) = blocks_of B a"
  by (simp add: blocks_of_append)

lemma blocks_of_append_one:
  "0 < B \<Longrightarrow> B dvd length a \<Longrightarrow> length b = B \<Longrightarrow> blocks_of B (a @ b) = blocks_of B a @ [b]"
  using blocks_of_step [of B b] by (simp add: blocks_of_append)

lemma full_len_add [simp]: "full_len B n + n mod B = n"
  by (simp add: full_len_def)

lemma full_len_step: "B \<le> n \<Longrightarrow> B + full_len B (n - B) = full_len B n"
  using full_len_add [of B n] full_len_add [of B "n - B"] le_mod_geq [of B n] by linarith

lemma full_len_short [simp]: "n < B \<Longrightarrow> full_len B n = 0"
  by (simp add: full_len_def)

lemma full_len_le [simp]: "full_len B n \<le> n"
  by (simp add: full_len_def)

lemma full_len_rest [simp]: "n - full_len B n = n mod B"
  using full_len_add [of B n] by linarith

lemma full_len_dvd [simp]: "B dvd full_len B n"
  by (simp add: full_len_def)

lemma unat_of_nat_mod_dvd:
  assumes "B dvd 2 ^ LENGTH('a)"
  shows "unat (of_nat n :: 'a::len word) mod B = n mod B"
  using assms by (simp add: unat_of_nat mod_mod_cancel)

lemma length_memcpy_at [simp]:
  "off + length src \<le> length dst \<Longrightarrow> length (memcpy_at dst off src) = length dst"
  by (simp add: memcpy_at_def)

lemma take_memcpy_at:
  "off + length src \<le> length dst \<Longrightarrow>
   take (off + length src) (memcpy_at dst off src) = take off dst @ src"
  by (simp add: memcpy_at_def)

lemma mod_add_cancel_nat:
  fixes n x y B :: nat
  assumes "0 < B" "(n + x) mod B = (n + y) mod B"
  shows "x mod B = y mod B"
proof -
  have c: "z mod B = ((n + z) mod B + (B * n - n)) mod B" for z
  proof -
    have "n \<le> B * n" using assms(1) by simp
    then have "n + z + (B * n - n) = z + B * n" by linarith
    then show ?thesis by (metis mod_add_left_eq mod_mult_self2)
  qed
  show ?thesis using assms(2) c [of x] c [of y] by simp
qed

lemma pad_count:
  fixes n L B :: nat
  assumes "L < B"
  shows "(2 * B - 1 - L - n mod B) mod B = (B - (n + 1 + L) mod B) mod B"
proof -
  have B: "0 < B" using assms by simp
  have r: "n mod B < B" using B by simp
  have s: "(n + 1 + L) mod B < B" using B by simp
  have "n mod B + 1 + L + (2 * B - 1 - L - n mod B) = 2 * B" using r assms by linarith
  then have 1: "(n + 1 + L + (2 * B - 1 - L - n mod B)) mod B = 0"
    by (metis add.assoc mod_add_left_eq mod_mult_self2_is_0)
  have "(n + 1 + L) mod B + (B - (n + 1 + L) mod B) = B" using s by linarith
  then have 2: "(n + 1 + L + (B - (n + 1 + L) mod B)) mod B = 0"
    by (metis mod_add_left_eq mod_self)
  show ?thesis using mod_add_cancel_nat [OF B] 1 2 by metis
qed

section \<open>Integer cube roots\<close>

text \<open>SHA-2 takes its round constants from cube roots of primes; the root is found bit by bit.\<close>

primrec cube_root_bits :: "int \<Rightarrow> nat \<Rightarrow> int \<Rightarrow> int" where
  "cube_root_bits n 0 r = r"
| "cube_root_bits n (Suc k) r =
     cube_root_bits n k (if (r + 2 ^ k) ^ 3 \<le> n then r + 2 ^ k else r)"

definition cube_root_frac :: "nat \<Rightarrow> int \<Rightarrow> 'w::len word" where
  "cube_root_frac w p = of_int (cube_root_bits (p * 2 ^ (3 * w)) (w + 3) 0)"

lemma cube_root_bits_eq:
  assumes "0 \<le> r" "r \<le> c" "c < r + 2 ^ k" "c ^ 3 \<le> n" "n < (c + 1) ^ 3"
  shows "cube_root_bits n k r = c"
  using assms(1-3)
proof (induction k arbitrary: r)
  case (Suc k)
  show ?case
  proof (cases "r + 2 ^ k \<le> c")
    case True
    with Suc.prems(1) have "(r + 2 ^ k) ^ 3 \<le> c ^ 3" by (intro power_mono) simp_all
    with assms(4) have "(r + 2 ^ k) ^ 3 \<le> n" by linarith
    with Suc True show ?thesis by simp
  next
    case False
    with Suc.prems have "(c + 1) ^ 3 \<le> (r + 2 ^ k) ^ 3" by (intro power_mono) simp_all
    with assms(5) have "\<not> (r + 2 ^ k) ^ 3 \<le> n" by linarith
    with Suc False show ?thesis by simp
  qed
qed simp

lemma cube_root_frac_eq:
  assumes "0 \<le> c" "c < 2 ^ (w + 3)" "c ^ 3 \<le> p * 2 ^ (3 * w)" "p * 2 ^ (3 * w) < (c + 1) ^ 3"
  shows "cube_root_frac w p = of_int c"
  unfolding cube_root_frac_def using assms by (subst cube_root_bits_eq [of _ c]) simp_all

section \<open>The contract of a transform\<close>

locale block_hash =
  fixes B :: nat and T :: "'w list \<Rightarrow> bytes \<Rightarrow> 'w list"
  assumes B_pos: "0 < B"
    and B_dvd: "B dvd 2 ^ 64"
    and T_prefix: "B \<le> length d \<Longrightarrow> T s (take B d) = T s d"
begin

lemma chunks_eq:
  "hash_chunks B T ctx d =
     (ctx\<lparr>ctx_s := foldl T (ctx_s ctx) (blocks_of B d),
          ctx_bytes := ctx_bytes ctx + of_nat (full_len B (length d))\<rparr>,
      drop (full_len B (length d)) d)"
proof (induction "length d" arbitrary: ctx d rule: less_induct)
  case less
  show ?case
  proof (cases "length d < B")
    case True
    then show ?thesis by (simp add: hash_chunks.simps)
  next
    case False
    then have le: "B \<le> length d" by simp
    have w: "(of_nat B :: u64) + of_nat (full_len B (length d - B)) = of_nat (full_len B (length d))"
      by (simp only: of_nat_add [symmetric] full_len_step [OF le])
    have "hash_chunks B T ctx d = hash_chunks B T
        (ctx\<lparr>ctx_s := T (ctx_s ctx) d, ctx_bytes := ctx_bytes ctx + of_nat B\<rparr>) (drop B d)"
      using le B_pos by (subst hash_chunks.simps) simp
    also have "\<dots> = (ctx\<lparr>ctx_s := foldl T (T (ctx_s ctx) d) (blocks_of B (drop B d)),
          ctx_bytes := ctx_bytes ctx + of_nat B + of_nat (full_len B (length d - B))\<rparr>,
        drop (full_len B (length d - B)) (drop B d))"
      using less.hyps [of "drop B d"] le B_pos by simp
    finally show ?thesis
      using full_len_step [OF le]
      by (simp add: blocks_of_step [OF B_pos le] T_prefix [OF le] add.assoc w add.commute)
  qed
qed

lemma write_aligned:
  assumes s: "ctx_s ctx = foldl T s0 (blocks_of B p)"
    and n: "ctx_bytes ctx = of_nat (length p)" and b: "length (ctx_buf ctx) = B"
    and p: "B dvd length p"
    and c: "hash_chunks B T ctx d = (ctx', d')"
  shows "ctx_rep B T s0 (if d' \<noteq> [] then ctx'\<lparr>ctx_buf := memcpy_at (ctx_buf ctx') 0 d',
           ctx_bytes := ctx_bytes ctx' + of_nat (length d')\<rparr> else ctx') (p @ d)"
proof -
  let ?k = "full_len B (length d)"
  have d': "d' = drop ?k d" "length d' = length d mod B" using c chunks_eq [of ctx d] by auto
  have lt: "length d' < B" using d' B_pos by simp
  have ctx': "ctx' = ctx\<lparr>ctx_s := foldl T (ctx_s ctx) (blocks_of B d),
      ctx_bytes := ctx_bytes ctx + of_nat ?k\<rparr>" using c chunks_eq [of ctx d] by auto
  have md: "length (p @ d) mod B = length d mod B" using p by (simp add: mod_add_left_eq dvd_eq_mod_eq_0 mod_add_eq [symmetric])
  have w: "(of_nat (length p) :: u64) + of_nat ?k + of_nat (length d mod B) = of_nat (length (p @ d))"
    by (simp only: of_nat_add [symmetric] length_append add.assoc full_len_add)
  have "full_len B (length (p @ d)) = length p + ?k"
    using full_len_add [of B "length d"] full_len_add [of B "length (p @ d)"] md
    by (simp del: full_len_add)
  then have dr: "drop (full_len B (length (p @ d))) (p @ d) = d'" using d' by simp
  have bl: "blocks_of B (p @ d) = blocks_of B p @ blocks_of B d" by (rule blocks_of_append [OF B_pos p])
  show ?thesis
  proof (cases "d' = []")
    case True
    then have "length d mod B = 0" using d' by simp
    then show ?thesis using True w md s n b dr by (simp add: ctx_rep_def ctx' bl)
  next
    case False
    have "take (length d') (memcpy_at (ctx_buf ctx) 0 d') = d'"
      using take_memcpy_at [of 0 d' "ctx_buf ctx"] lt b by simp
    then show ?thesis using False w md s n b dr lt d'(2)
      by (simp add: ctx_rep_def ctx' bl)
  qed
qed

lemma write_rep:
  assumes rep: "ctx_rep B T s0 ctx m"
  shows "ctx_rep B T s0 (hash_Write B T ctx d) (m @ d)"
proof -
  define r where "r = length m mod B"
  define p where "p = take (full_len B (length m)) m"
  define q where "q = drop (full_len B (length m)) m"
  have mpq: "p @ q = m" and p: "B dvd length p" and q: "length q = r"
    by (simp_all add: p_def q_def r_def min_absorb2)
  have r: "r < B" unfolding r_def using B_pos by simp
  have lm: "length m = length p + r" using mpq q by (metis length_append)
  have bl: "blocks_of B (m @ x) = blocks_of B p @ blocks_of B (q @ x)" for x
    using blocks_of_append [OF B_pos p] mpq by (metis append.assoc)
  have "blocks_of B m = blocks_of B p" using bl [of "[]"] q r by simp
  then have st: "ctx_s ctx = foldl T s0 (blocks_of B p)" "ctx_bytes ctx = of_nat (length m)"
    "length (ctx_buf ctx) = B" "take r (ctx_buf ctx) = q"
    using rep by (simp_all add: ctx_rep_def r_def q_def)
  have bs: "unat (ctx_bytes ctx) mod B = r"
    unfolding st(2) r_def by (rule unat_of_nat_mod_dvd) (use B_dvd in simp)
  consider (fill) "r \<noteq> 0" "B \<le> r + length d" | (part) "r \<noteq> 0" "r + length d < B" | (al) "r = 0"
    by linarith
  then show ?thesis
  proof cases
    case fill
    let ?t = "take (B - r) d"
    let ?buf = "memcpy_at (ctx_buf ctx) r ?t"
    have lt: "length ?t = B - r" using fill r by simp
    have buf: "?buf = q @ ?t" using lt st(3,4) r by (simp add: memcpy_at_def)
    have lb: "length ?buf = B" using buf lt q r by simp
    have len: "length (p @ ?buf) = length m + (B - r)" using lb lm r by simp
    obtain c' d' where c: "hash_chunks B T (ctx\<lparr>ctx_buf := ?buf,
        ctx_bytes := ctx_bytes ctx + of_nat (B - r), ctx_s := T (ctx_s ctx) ?buf\<rparr>)
        (drop (B - r) d) = (c', d')" by fastforce
    have w: "ctx_bytes ctx + of_nat (B - r) = of_nat (length (p @ ?buf))"
      unfolding len st(2) by (simp only: of_nat_add)
    have "ctx_rep B T s0 (hash_Write B T ctx d) ((p @ ?buf) @ drop (B - r) d)"
      using write_aligned [OF _ _ _ _ c, of s0 "p @ ?buf"] fill c st(1) w lb p
      by (simp add: hash_Write_def bs blocks_of_append_one [OF B_pos p lb] Let_def)
    moreover have "(p @ ?buf) @ drop (B - r) d = m @ d" using buf mpq [symmetric] by simp
    ultimately show ?thesis by simp
  next
    case part
    have c: "hash_chunks B T ctx d = (ctx, d)" using part by (simp add: hash_chunks.simps)
    have md: "length (m @ d) mod B = r + length d"
      using part by (metis length_append mod_add_left_eq mod_less r_def)
    have fl: "full_len B (length (m @ d)) = length p"
      unfolding full_len_def md using lm by simp
    have dr: "drop (length p) (m @ d) = q @ d" using mpq [symmetric] by simp
    have "take (r + length d) (memcpy_at (ctx_buf ctx) r d) = q @ d"
      using take_memcpy_at [of r d "ctx_buf ctx"] part st by simp
    moreover have "hash_Write B T ctx d = (if d \<noteq> [] then ctx\<lparr>ctx_buf := memcpy_at (ctx_buf ctx) r d,
        ctx_bytes := ctx_bytes ctx + of_nat (length d)\<rparr> else ctx)"
      using part c by (simp add: hash_Write_def bs Let_def)
    ultimately show ?thesis
      using part st md fl dr bl [of d] q unfolding ctx_rep_def by (cases "d = []") simp_all
  next
    case al
    obtain c' d' where c: "hash_chunks B T ctx d = (c', d')" by fastforce
    have "p = m" using al q mpq by simp
    moreover have "hash_Write B T ctx d = (if d' \<noteq> [] then c'\<lparr>ctx_buf := memcpy_at (ctx_buf c') 0 d',
           ctx_bytes := ctx_bytes c' + of_nat (length d')\<rparr> else c')"
      using al c by (simp add: hash_Write_def bs Let_def)
    ultimately show ?thesis using write_aligned [OF st(1) _ st(3) p c] st(2) by simp
  qed
qed

lemma writes_rep:
  "ctx_rep B T s0 ctx m \<Longrightarrow> ctx_rep B T s0 (foldl (hash_Write B T) ctx ds) (m @ concat ds)"
  by (induction ds arbitrary: ctx m) (simp_all add: write_rep flip: append_assoc)

lemma pad_rep:
  assumes rep: "ctx_rep B T s0 ctx m" and L: "length sz < B"
  shows "ctx_s (hash_Write B T (hash_Write B T ctx
           (take (1 + ((2 * B - 1 - length sz - unat (ctx_bytes ctx) mod B) mod B))
             (0x80 # replicate (B - 1) 0))) sz)
         = md_hash B T s0 sz m"
proof -
  have "unat (ctx_bytes ctx) mod B = length m mod B"
    using rep B_dvd by (simp add: ctx_rep_def unat_of_nat_mod_dvd)
  then have z: "(2 * B - 1 - length sz - unat (ctx_bytes ctx) mod B) mod B
      = (B - (length m + 1 + length sz) mod B) mod B"
    using pad_count [OF L] by simp
  have lt: "(B - (length m + 1 + length sz) mod B) mod B < B" using B_pos by simp
  from write_rep [OF write_rep [OF rep], of "0x80 # replicate ((B - (length m + 1 + length sz) mod B) mod B) 0" sz]
  show ?thesis unfolding z
    using lt by (simp add: ctx_rep_def md_hash_def md_pad_def min_absorb1)
qed

end

lemma ctx_rep_init:
  "0 < B \<Longrightarrow> length buf = B \<Longrightarrow> ctx_rep B T s0 \<lparr>ctx_s = s0, ctx_buf = buf, ctx_bytes = 0\<rparr> []"
  by (simp add: ctx_rep_def)

text \<open>A transform reads its block word by word, so it only depends on the bytes of the block.\<close>

lemma Read_drop_take [simp]:
  assumes "n \<le> length d"
  shows "k + 4 \<le> n \<Longrightarrow> ReadBE32 (drop k (take n d)) = ReadBE32 (drop k d)"
    and "k + 4 \<le> n \<Longrightarrow> ReadLE32 (drop k (take n d)) = ReadLE32 (drop k d)"
    and "k + 8 \<le> n \<Longrightarrow> ReadBE64 (drop k (take n d)) = ReadBE64 (drop k d)"
  using assms by (simp_all add: ReadBE32_def ReadLE32_def ReadBE64_def)

lemma Read_take [simp]:
  assumes "n \<le> length d"
  shows "4 \<le> n \<Longrightarrow> ReadBE32 (take n d) = ReadBE32 d"
    and "4 \<le> n \<Longrightarrow> ReadLE32 (take n d) = ReadLE32 d"
    and "8 \<le> n \<Longrightarrow> ReadBE64 (take n d) = ReadBE64 d"
  using assms by (simp_all add: ReadBE32_def ReadLE32_def ReadBE64_def)

section \<open>Rotations\<close>

lemma rotr_shifts:
  fixes x :: "'a::len word"
  assumes "n + m = LENGTH('a)" "0 < n" "0 < m"
  shows "drop_bit n x OR push_bit m x = word_rotr n x"
proof (rule bit_word_eqI)
  fix i :: nat
  assume i: "i < LENGTH('a)"
  show "bit (drop_bit n x OR push_bit m x) i = bit (word_rotr n x) i"
  proof (cases "i + n < LENGTH('a)")
    case True
    then have "\<not> m \<le> i" using assms by linarith
    then show ?thesis using True i by (simp add: bit_simps add.commute)
  next
    case False
    then have "i + n - LENGTH('a) = i - m" "m \<le> i" using assms by linarith+
    then have "(i + n) mod LENGTH('a) = i - m" "m \<le> i" using False i by (simp_all add: mod_if)
    moreover have "\<not> bit x (n + i)"
      using False bit_imp_le_length [of x "n + i"] by (auto simp: add.commute)
    ultimately show ?thesis using i by (simp add: bit_simps add.commute)
  qed
qed

lemma foldl_case_prod:
  "foldl F (case p of (x, y) \<Rightarrow> f x y) xs = (case p of (x, y) \<Rightarrow> foldl F (f x y) xs)"
  by (cases p) simp

lemma case_prod_case_prod:
  "case_prod g (case p of (x, y) \<Rightarrow> f x y) = (case p of (x, y) \<Rightarrow> case_prod g (f x y))"
  by (cases p) simp

lemma upt_0_16: "[0..<16] = [0, 1, 2, 3, 4, 5, 6, 7, 8, 9, 10, 11, 12, 13, 14, 15]"
  by code_simp

lemma upt_split16: "i \<le> j \<Longrightarrow> [i..<j + 16] = [i..<j] @ [j..<j + 16]"
  by (rule upt_add_eq_append)

lemma prod_cases8:
  obtains a b c d e f g h where "p = (a, b, c, d, e, f, g, h)"
  by (cases p) auto

lemma map_nth_upt: "length xs = n \<Longrightarrow> map (\<lambda>i. f (xs ! i)) [0..<n] = map f xs"
  by (rule nth_equalityI) simp_all

lemma rotl_shifts:
  fixes x :: "'a::len word"
  assumes "n + m = LENGTH('a)" "0 < n" "0 < m"
  shows "push_bit n x OR drop_bit m x = word_rotl n x"
proof -
  have "push_bit n x OR drop_bit m x = word_rotr m x"
    using rotr_shifts [of m n x] assms by (simp add: ac_simps)
  also have "\<dots> = word_rotl n x"
    using assms by (simp add: word_rotl_eq_word_rotr flip: assms(1))
  finally show ?thesis .
qed

end
