(* ===== verification/Sha256.thy ===== *)
theory Sha256
  imports Crypto_Common
begin

text \<open>
  SHA-256 of \<^verbatim>\<open>src/src/crypto/sha256.cpp\<close>.  \<open>sha256_Transform\<close> is the unrolled code: the eight registers
  keep their names and \<open>Round\<close> returns the two it assigns, and the sixteen schedule words are
  updated in place.  The reference is the standard's formulation, with rotating registers and
  the schedule as a recursively defined sequence; the two are shown equal, and the class
  CSHA256 is shown to hash the concatenation of what is written to it.
\<close>

section \<open>The transform\<close>

type_synonym u32_8 = "u32 \<times> u32 \<times> u32 \<times> u32 \<times> u32 \<times> u32 \<times> u32 \<times> u32"
type_synonym u32_24 = "u32 \<times> u32 \<times> u32 \<times> u32 \<times> u32 \<times> u32 \<times> u32 \<times> u32 \<times> u32 \<times> u32 \<times> u32 \<times> u32 \<times> u32 \<times> u32 \<times> u32 \<times> u32 \<times> u32_8"

definition sha256_Ch :: "u32 \<Rightarrow> u32 \<Rightarrow> u32 \<Rightarrow> u32" where
  "sha256_Ch x y z = z XOR (x AND (y XOR z))"

definition sha256_Maj :: "u32 \<Rightarrow> u32 \<Rightarrow> u32 \<Rightarrow> u32" where
  "sha256_Maj x y z = (x AND y) OR (z AND (x OR y))"

definition sha256_Sigma0 :: "u32 \<Rightarrow> u32" where
  "sha256_Sigma0 x = (drop_bit 2 x OR push_bit 30 x) XOR (drop_bit 13 x OR push_bit 19 x) XOR (drop_bit 22 x OR push_bit 10 x)"

definition sha256_Sigma1 :: "u32 \<Rightarrow> u32" where
  "sha256_Sigma1 x = (drop_bit 6 x OR push_bit 26 x) XOR (drop_bit 11 x OR push_bit 21 x) XOR (drop_bit 25 x OR push_bit 7 x)"

definition sha256_sigma0 :: "u32 \<Rightarrow> u32" where
  "sha256_sigma0 x = (drop_bit 7 x OR push_bit 25 x) XOR (drop_bit 18 x OR push_bit 14 x) XOR drop_bit 3 x"

definition sha256_sigma1 :: "u32 \<Rightarrow> u32" where
  "sha256_sigma1 x = (drop_bit 17 x OR push_bit 15 x) XOR (drop_bit 19 x OR push_bit 13 x) XOR drop_bit 10 x"

definition sha256_Round ::
  "u32 \<Rightarrow> u32 \<Rightarrow> u32 \<Rightarrow> u32 \<Rightarrow> u32 \<Rightarrow> u32 \<Rightarrow> u32 \<Rightarrow> u32 \<Rightarrow> u32 \<Rightarrow> u32 \<Rightarrow> u32 \<times> u32" where
  "sha256_Round a b c d e f g h k w =
     (let t1 = h + sha256_Sigma1 e + sha256_Ch e f g + k + w;
          t2 = sha256_Sigma0 a + sha256_Maj a b c
      in (d + t1, t1 + t2))"

definition sha256_Initialize :: "u32 list" where
  "sha256_Initialize =
     [0x6a09e667, 0xbb67ae85, 0x3c6ef372, 0xa54ff53a,
      0x510e527f, 0x9b05688c, 0x1f83d9ab, 0x5be0cd19]"

definition sha256_rounds0 ::
  "u32 \<Rightarrow> u32 \<Rightarrow> u32 \<Rightarrow> u32 \<Rightarrow> u32 \<Rightarrow> u32 \<Rightarrow> u32 \<Rightarrow> u32 \<Rightarrow> bytes \<Rightarrow> u32_24" where
  "sha256_rounds0 a b c d e f g h chunk =
     (let w0 = ReadBE32 (drop 0 chunk); (d, h) = sha256_Round a b c d e f g h 0x428a2f98 w0;
          w1 = ReadBE32 (drop 4 chunk); (c, g) = sha256_Round h a b c d e f g 0x71374491 w1;
          w2 = ReadBE32 (drop 8 chunk); (b, f) = sha256_Round g h a b c d e f 0xb5c0fbcf w2;
          w3 = ReadBE32 (drop 12 chunk); (a, e) = sha256_Round f g h a b c d e 0xe9b5dba5 w3;
          w4 = ReadBE32 (drop 16 chunk); (h, d) = sha256_Round e f g h a b c d 0x3956c25b w4;
          w5 = ReadBE32 (drop 20 chunk); (g, c) = sha256_Round d e f g h a b c 0x59f111f1 w5;
          w6 = ReadBE32 (drop 24 chunk); (f, b) = sha256_Round c d e f g h a b 0x923f82a4 w6;
          w7 = ReadBE32 (drop 28 chunk); (e, a) = sha256_Round b c d e f g h a 0xab1c5ed5 w7;
          w8 = ReadBE32 (drop 32 chunk); (d, h) = sha256_Round a b c d e f g h 0xd807aa98 w8;
          w9 = ReadBE32 (drop 36 chunk); (c, g) = sha256_Round h a b c d e f g 0x12835b01 w9;
          w10 = ReadBE32 (drop 40 chunk); (b, f) = sha256_Round g h a b c d e f 0x243185be w10;
          w11 = ReadBE32 (drop 44 chunk); (a, e) = sha256_Round f g h a b c d e 0x550c7dc3 w11;
          w12 = ReadBE32 (drop 48 chunk); (h, d) = sha256_Round e f g h a b c d 0x72be5d74 w12;
          w13 = ReadBE32 (drop 52 chunk); (g, c) = sha256_Round d e f g h a b c 0x80deb1fe w13;
          w14 = ReadBE32 (drop 56 chunk); (f, b) = sha256_Round c d e f g h a b 0x9bdc06a7 w14;
          w15 = ReadBE32 (drop 60 chunk); (e, a) = sha256_Round b c d e f g h a 0xc19bf174 w15
      in (a, b, c, d, e, f, g, h, w0, w1, w2, w3, w4, w5, w6, w7, w8, w9, w10, w11, w12, w13, w14, w15))"

definition sha256_rounds1 ::
  "u32 \<Rightarrow> u32 \<Rightarrow> u32 \<Rightarrow> u32 \<Rightarrow> u32 \<Rightarrow> u32 \<Rightarrow> u32 \<Rightarrow> u32 \<Rightarrow> u32 \<Rightarrow> u32 \<Rightarrow> u32 \<Rightarrow> u32 \<Rightarrow> u32 \<Rightarrow> u32 \<Rightarrow> u32 \<Rightarrow> u32 \<Rightarrow> u32 \<Rightarrow> u32 \<Rightarrow> u32 \<Rightarrow> u32 \<Rightarrow> u32 \<Rightarrow> u32 \<Rightarrow> u32 \<Rightarrow> u32 \<Rightarrow> u32_24" where
  "sha256_rounds1 a b c d e f g h w0 w1 w2 w3 w4 w5 w6 w7 w8 w9 w10 w11 w12 w13 w14 w15 =
     (let w0 = w0 + (sha256_sigma1 w14 + w9 + sha256_sigma0 w1); (d, h) = sha256_Round a b c d e f g h 0xe49b69c1 w0;
          w1 = w1 + (sha256_sigma1 w15 + w10 + sha256_sigma0 w2); (c, g) = sha256_Round h a b c d e f g 0xefbe4786 w1;
          w2 = w2 + (sha256_sigma1 w0 + w11 + sha256_sigma0 w3); (b, f) = sha256_Round g h a b c d e f 0x0fc19dc6 w2;
          w3 = w3 + (sha256_sigma1 w1 + w12 + sha256_sigma0 w4); (a, e) = sha256_Round f g h a b c d e 0x240ca1cc w3;
          w4 = w4 + (sha256_sigma1 w2 + w13 + sha256_sigma0 w5); (h, d) = sha256_Round e f g h a b c d 0x2de92c6f w4;
          w5 = w5 + (sha256_sigma1 w3 + w14 + sha256_sigma0 w6); (g, c) = sha256_Round d e f g h a b c 0x4a7484aa w5;
          w6 = w6 + (sha256_sigma1 w4 + w15 + sha256_sigma0 w7); (f, b) = sha256_Round c d e f g h a b 0x5cb0a9dc w6;
          w7 = w7 + (sha256_sigma1 w5 + w0 + sha256_sigma0 w8); (e, a) = sha256_Round b c d e f g h a 0x76f988da w7;
          w8 = w8 + (sha256_sigma1 w6 + w1 + sha256_sigma0 w9); (d, h) = sha256_Round a b c d e f g h 0x983e5152 w8;
          w9 = w9 + (sha256_sigma1 w7 + w2 + sha256_sigma0 w10); (c, g) = sha256_Round h a b c d e f g 0xa831c66d w9;
          w10 = w10 + (sha256_sigma1 w8 + w3 + sha256_sigma0 w11); (b, f) = sha256_Round g h a b c d e f 0xb00327c8 w10;
          w11 = w11 + (sha256_sigma1 w9 + w4 + sha256_sigma0 w12); (a, e) = sha256_Round f g h a b c d e 0xbf597fc7 w11;
          w12 = w12 + (sha256_sigma1 w10 + w5 + sha256_sigma0 w13); (h, d) = sha256_Round e f g h a b c d 0xc6e00bf3 w12;
          w13 = w13 + (sha256_sigma1 w11 + w6 + sha256_sigma0 w14); (g, c) = sha256_Round d e f g h a b c 0xd5a79147 w13;
          w14 = w14 + (sha256_sigma1 w12 + w7 + sha256_sigma0 w15); (f, b) = sha256_Round c d e f g h a b 0x06ca6351 w14;
          w15 = w15 + (sha256_sigma1 w13 + w8 + sha256_sigma0 w0); (e, a) = sha256_Round b c d e f g h a 0x14292967 w15
      in (a, b, c, d, e, f, g, h, w0, w1, w2, w3, w4, w5, w6, w7, w8, w9, w10, w11, w12, w13, w14, w15))"

definition sha256_rounds2 ::
  "u32 \<Rightarrow> u32 \<Rightarrow> u32 \<Rightarrow> u32 \<Rightarrow> u32 \<Rightarrow> u32 \<Rightarrow> u32 \<Rightarrow> u32 \<Rightarrow> u32 \<Rightarrow> u32 \<Rightarrow> u32 \<Rightarrow> u32 \<Rightarrow> u32 \<Rightarrow> u32 \<Rightarrow> u32 \<Rightarrow> u32 \<Rightarrow> u32 \<Rightarrow> u32 \<Rightarrow> u32 \<Rightarrow> u32 \<Rightarrow> u32 \<Rightarrow> u32 \<Rightarrow> u32 \<Rightarrow> u32 \<Rightarrow> u32_24" where
  "sha256_rounds2 a b c d e f g h w0 w1 w2 w3 w4 w5 w6 w7 w8 w9 w10 w11 w12 w13 w14 w15 =
     (let w0 = w0 + (sha256_sigma1 w14 + w9 + sha256_sigma0 w1); (d, h) = sha256_Round a b c d e f g h 0x27b70a85 w0;
          w1 = w1 + (sha256_sigma1 w15 + w10 + sha256_sigma0 w2); (c, g) = sha256_Round h a b c d e f g 0x2e1b2138 w1;
          w2 = w2 + (sha256_sigma1 w0 + w11 + sha256_sigma0 w3); (b, f) = sha256_Round g h a b c d e f 0x4d2c6dfc w2;
          w3 = w3 + (sha256_sigma1 w1 + w12 + sha256_sigma0 w4); (a, e) = sha256_Round f g h a b c d e 0x53380d13 w3;
          w4 = w4 + (sha256_sigma1 w2 + w13 + sha256_sigma0 w5); (h, d) = sha256_Round e f g h a b c d 0x650a7354 w4;
          w5 = w5 + (sha256_sigma1 w3 + w14 + sha256_sigma0 w6); (g, c) = sha256_Round d e f g h a b c 0x766a0abb w5;
          w6 = w6 + (sha256_sigma1 w4 + w15 + sha256_sigma0 w7); (f, b) = sha256_Round c d e f g h a b 0x81c2c92e w6;
          w7 = w7 + (sha256_sigma1 w5 + w0 + sha256_sigma0 w8); (e, a) = sha256_Round b c d e f g h a 0x92722c85 w7;
          w8 = w8 + (sha256_sigma1 w6 + w1 + sha256_sigma0 w9); (d, h) = sha256_Round a b c d e f g h 0xa2bfe8a1 w8;
          w9 = w9 + (sha256_sigma1 w7 + w2 + sha256_sigma0 w10); (c, g) = sha256_Round h a b c d e f g 0xa81a664b w9;
          w10 = w10 + (sha256_sigma1 w8 + w3 + sha256_sigma0 w11); (b, f) = sha256_Round g h a b c d e f 0xc24b8b70 w10;
          w11 = w11 + (sha256_sigma1 w9 + w4 + sha256_sigma0 w12); (a, e) = sha256_Round f g h a b c d e 0xc76c51a3 w11;
          w12 = w12 + (sha256_sigma1 w10 + w5 + sha256_sigma0 w13); (h, d) = sha256_Round e f g h a b c d 0xd192e819 w12;
          w13 = w13 + (sha256_sigma1 w11 + w6 + sha256_sigma0 w14); (g, c) = sha256_Round d e f g h a b c 0xd6990624 w13;
          w14 = w14 + (sha256_sigma1 w12 + w7 + sha256_sigma0 w15); (f, b) = sha256_Round c d e f g h a b 0xf40e3585 w14;
          w15 = w15 + (sha256_sigma1 w13 + w8 + sha256_sigma0 w0); (e, a) = sha256_Round b c d e f g h a 0x106aa070 w15
      in (a, b, c, d, e, f, g, h, w0, w1, w2, w3, w4, w5, w6, w7, w8, w9, w10, w11, w12, w13, w14, w15))"

definition sha256_rounds3 ::
  "u32 \<Rightarrow> u32 \<Rightarrow> u32 \<Rightarrow> u32 \<Rightarrow> u32 \<Rightarrow> u32 \<Rightarrow> u32 \<Rightarrow> u32 \<Rightarrow> u32 \<Rightarrow> u32 \<Rightarrow> u32 \<Rightarrow> u32 \<Rightarrow> u32 \<Rightarrow> u32 \<Rightarrow> u32 \<Rightarrow> u32 \<Rightarrow> u32 \<Rightarrow> u32 \<Rightarrow> u32 \<Rightarrow> u32 \<Rightarrow> u32 \<Rightarrow> u32 \<Rightarrow> u32 \<Rightarrow> u32 \<Rightarrow> u32_8" where
  "sha256_rounds3 a b c d e f g h w0 w1 w2 w3 w4 w5 w6 w7 w8 w9 w10 w11 w12 w13 w14 w15 =
     (let w0 = w0 + (sha256_sigma1 w14 + w9 + sha256_sigma0 w1); (d, h) = sha256_Round a b c d e f g h 0x19a4c116 w0;
          w1 = w1 + (sha256_sigma1 w15 + w10 + sha256_sigma0 w2); (c, g) = sha256_Round h a b c d e f g 0x1e376c08 w1;
          w2 = w2 + (sha256_sigma1 w0 + w11 + sha256_sigma0 w3); (b, f) = sha256_Round g h a b c d e f 0x2748774c w2;
          w3 = w3 + (sha256_sigma1 w1 + w12 + sha256_sigma0 w4); (a, e) = sha256_Round f g h a b c d e 0x34b0bcb5 w3;
          w4 = w4 + (sha256_sigma1 w2 + w13 + sha256_sigma0 w5); (h, d) = sha256_Round e f g h a b c d 0x391c0cb3 w4;
          w5 = w5 + (sha256_sigma1 w3 + w14 + sha256_sigma0 w6); (g, c) = sha256_Round d e f g h a b c 0x4ed8aa4a w5;
          w6 = w6 + (sha256_sigma1 w4 + w15 + sha256_sigma0 w7); (f, b) = sha256_Round c d e f g h a b 0x5b9cca4f w6;
          w7 = w7 + (sha256_sigma1 w5 + w0 + sha256_sigma0 w8); (e, a) = sha256_Round b c d e f g h a 0x682e6ff3 w7;
          w8 = w8 + (sha256_sigma1 w6 + w1 + sha256_sigma0 w9); (d, h) = sha256_Round a b c d e f g h 0x748f82ee w8;
          w9 = w9 + (sha256_sigma1 w7 + w2 + sha256_sigma0 w10); (c, g) = sha256_Round h a b c d e f g 0x78a5636f w9;
          w10 = w10 + (sha256_sigma1 w8 + w3 + sha256_sigma0 w11); (b, f) = sha256_Round g h a b c d e f 0x84c87814 w10;
          w11 = w11 + (sha256_sigma1 w9 + w4 + sha256_sigma0 w12); (a, e) = sha256_Round f g h a b c d e 0x8cc70208 w11;
          w12 = w12 + (sha256_sigma1 w10 + w5 + sha256_sigma0 w13); (h, d) = sha256_Round e f g h a b c d 0x90befffa w12;
          w13 = w13 + (sha256_sigma1 w11 + w6 + sha256_sigma0 w14); (g, c) = sha256_Round d e f g h a b c 0xa4506ceb w13;
          (f, b) = sha256_Round c d e f g h a b 0xbef9a3f7 (w14 + sha256_sigma1 w12 + w7 + sha256_sigma0 w15);
          (e, a) = sha256_Round b c d e f g h a 0xc67178f2 (w15 + sha256_sigma1 w13 + w8 + sha256_sigma0 w0)
      in (a, b, c, d, e, f, g, h))"

definition sha256_Transform :: "u32 list \<Rightarrow> bytes \<Rightarrow> u32 list" where
  "sha256_Transform s chunk =
     (let (a, b, c, d, e, f, g, h, w0, w1, w2, w3, w4, w5, w6, w7, w8, w9, w10, w11, w12, w13, w14, w15) = sha256_rounds0 (s ! 0) (s ! 1) (s ! 2) (s ! 3) (s ! 4) (s ! 5) (s ! 6) (s ! 7) chunk;
          (a, b, c, d, e, f, g, h, w0, w1, w2, w3, w4, w5, w6, w7, w8, w9, w10, w11, w12, w13, w14, w15) = sha256_rounds1 a b c d e f g h w0 w1 w2 w3 w4 w5 w6 w7 w8 w9 w10 w11 w12 w13 w14 w15;
          (a, b, c, d, e, f, g, h, w0, w1, w2, w3, w4, w5, w6, w7, w8, w9, w10, w11, w12, w13, w14, w15) = sha256_rounds2 a b c d e f g h w0 w1 w2 w3 w4 w5 w6 w7 w8 w9 w10 w11 w12 w13 w14 w15;
          (a, b, c, d, e, f, g, h) = sha256_rounds3 a b c d e f g h w0 w1 w2 w3 w4 w5 w6 w7 w8 w9 w10 w11 w12 w13 w14 w15
      in [s ! 0 + a, s ! 1 + b, s ! 2 + c, s ! 3 + d, s ! 4 + e, s ! 5 + f, s ! 6 + g, s ! 7 + h])"

section \<open>The class\<close>

type_synonym CSHA256 = "u32 hash_ctx"

definition CSHA256_ctor :: CSHA256 where
  "CSHA256_ctor = \<lparr>ctx_s = sha256_Initialize, ctx_buf = replicate 64 0, ctx_bytes = 0\<rparr>"

definition CSHA256_Write :: "CSHA256 \<Rightarrow> bytes \<Rightarrow> CSHA256" where
  "CSHA256_Write = hash_Write 64 sha256_Transform"

definition CSHA256_Finalize :: "CSHA256 \<Rightarrow> CSHA256 \<times> bytes" where
  "CSHA256_Finalize ctx =
     (let pad = 0x80 # replicate 63 0;
          sizedesc = WriteBE64 (push_bit 3 (ctx_bytes ctx));
          ctx = CSHA256_Write ctx (take (1 + ((119 - unat (ctx_bytes ctx) mod 64) mod 64)) pad);
          ctx = CSHA256_Write ctx sizedesc
      in (ctx, concat (map (\<lambda>i. WriteBE32 (ctx_s ctx ! i)) [0, 1, 2, 3, 4, 5, 6, 7])))"

definition CSHA256_Reset :: "CSHA256 \<Rightarrow> CSHA256" where
  "CSHA256_Reset ctx = ctx\<lparr>ctx_bytes := 0, ctx_s := sha256_Initialize\<rparr>"

section \<open>The reference\<close>

text \<open>The round constants: the first 32 bits of the fractional parts of the cube roots of the first
  64 primes.\<close>

definition sha256_K :: "u32 list" where
  "sha256_K =
     map (cube_root_frac 32)
       [2, 3, 5, 7, 11, 13, 17, 19, 23, 29, 31, 37, 41, 43, 47, 53, 59, 61, 67, 71, 73, 79,
        83, 89, 97, 101, 103, 107, 109, 113, 127, 131, 137, 139, 149, 151, 157, 163, 167, 173,
        179, 181, 191, 193, 197, 199, 211, 223, 227, 229, 233, 239, 241, 251, 257, 263, 269,
        271, 277, 281, 283, 293, 307, 311]"

lemma sha256_cube_roots:
  "cube_root_frac 32 2 = (of_int 0x1428a2f98 :: u32)"
  "cube_root_frac 32 3 = (of_int 0x171374491 :: u32)"
  "cube_root_frac 32 5 = (of_int 0x1b5c0fbcf :: u32)"
  "cube_root_frac 32 7 = (of_int 0x1e9b5dba5 :: u32)"
  "cube_root_frac 32 11 = (of_int 0x23956c25b :: u32)"
  "cube_root_frac 32 13 = (of_int 0x259f111f1 :: u32)"
  "cube_root_frac 32 17 = (of_int 0x2923f82a4 :: u32)"
  "cube_root_frac 32 19 = (of_int 0x2ab1c5ed5 :: u32)"
  "cube_root_frac 32 23 = (of_int 0x2d807aa98 :: u32)"
  "cube_root_frac 32 29 = (of_int 0x312835b01 :: u32)"
  "cube_root_frac 32 31 = (of_int 0x3243185be :: u32)"
  "cube_root_frac 32 37 = (of_int 0x3550c7dc3 :: u32)"
  "cube_root_frac 32 41 = (of_int 0x372be5d74 :: u32)"
  "cube_root_frac 32 43 = (of_int 0x380deb1fe :: u32)"
  "cube_root_frac 32 47 = (of_int 0x39bdc06a7 :: u32)"
  "cube_root_frac 32 53 = (of_int 0x3c19bf174 :: u32)"
  "cube_root_frac 32 59 = (of_int 0x3e49b69c1 :: u32)"
  "cube_root_frac 32 61 = (of_int 0x3efbe4786 :: u32)"
  "cube_root_frac 32 67 = (of_int 0x40fc19dc6 :: u32)"
  "cube_root_frac 32 71 = (of_int 0x4240ca1cc :: u32)"
  "cube_root_frac 32 73 = (of_int 0x42de92c6f :: u32)"
  "cube_root_frac 32 79 = (of_int 0x44a7484aa :: u32)"
  "cube_root_frac 32 83 = (of_int 0x45cb0a9dc :: u32)"
  "cube_root_frac 32 89 = (of_int 0x476f988da :: u32)"
  "cube_root_frac 32 97 = (of_int 0x4983e5152 :: u32)"
  "cube_root_frac 32 101 = (of_int 0x4a831c66d :: u32)"
  "cube_root_frac 32 103 = (of_int 0x4b00327c8 :: u32)"
  "cube_root_frac 32 107 = (of_int 0x4bf597fc7 :: u32)"
  "cube_root_frac 32 109 = (of_int 0x4c6e00bf3 :: u32)"
  "cube_root_frac 32 113 = (of_int 0x4d5a79147 :: u32)"
  "cube_root_frac 32 127 = (of_int 0x506ca6351 :: u32)"
  "cube_root_frac 32 131 = (of_int 0x514292967 :: u32)"
  "cube_root_frac 32 137 = (of_int 0x527b70a85 :: u32)"
  "cube_root_frac 32 139 = (of_int 0x52e1b2138 :: u32)"
  "cube_root_frac 32 149 = (of_int 0x54d2c6dfc :: u32)"
  "cube_root_frac 32 151 = (of_int 0x553380d13 :: u32)"
  "cube_root_frac 32 157 = (of_int 0x5650a7354 :: u32)"
  "cube_root_frac 32 163 = (of_int 0x5766a0abb :: u32)"
  "cube_root_frac 32 167 = (of_int 0x581c2c92e :: u32)"
  "cube_root_frac 32 173 = (of_int 0x592722c85 :: u32)"
  "cube_root_frac 32 179 = (of_int 0x5a2bfe8a1 :: u32)"
  "cube_root_frac 32 181 = (of_int 0x5a81a664b :: u32)"
  "cube_root_frac 32 191 = (of_int 0x5c24b8b70 :: u32)"
  "cube_root_frac 32 193 = (of_int 0x5c76c51a3 :: u32)"
  "cube_root_frac 32 197 = (of_int 0x5d192e819 :: u32)"
  "cube_root_frac 32 199 = (of_int 0x5d6990624 :: u32)"
  "cube_root_frac 32 211 = (of_int 0x5f40e3585 :: u32)"
  "cube_root_frac 32 223 = (of_int 0x6106aa070 :: u32)"
  "cube_root_frac 32 227 = (of_int 0x619a4c116 :: u32)"
  "cube_root_frac 32 229 = (of_int 0x61e376c08 :: u32)"
  "cube_root_frac 32 233 = (of_int 0x62748774c :: u32)"
  "cube_root_frac 32 239 = (of_int 0x634b0bcb5 :: u32)"
  "cube_root_frac 32 241 = (of_int 0x6391c0cb3 :: u32)"
  "cube_root_frac 32 251 = (of_int 0x64ed8aa4a :: u32)"
  "cube_root_frac 32 257 = (of_int 0x65b9cca4f :: u32)"
  "cube_root_frac 32 263 = (of_int 0x6682e6ff3 :: u32)"
  "cube_root_frac 32 269 = (of_int 0x6748f82ee :: u32)"
  "cube_root_frac 32 271 = (of_int 0x678a5636f :: u32)"
  "cube_root_frac 32 277 = (of_int 0x684c87814 :: u32)"
  "cube_root_frac 32 281 = (of_int 0x68cc70208 :: u32)"
  "cube_root_frac 32 283 = (of_int 0x690befffa :: u32)"
  "cube_root_frac 32 293 = (of_int 0x6a4506ceb :: u32)"
  "cube_root_frac 32 307 = (of_int 0x6bef9a3f7 :: u32)"
  "cube_root_frac 32 311 = (of_int 0x6c67178f2 :: u32)"
  by (rule cube_root_frac_eq; simp)+

lemma sha256_K_nth:
  "sha256_K ! 0 = 0x428a2f98"
  "sha256_K ! (Suc 0) = 0x71374491"
  "sha256_K ! 2 = 0xb5c0fbcf"
  "sha256_K ! 3 = 0xe9b5dba5"
  "sha256_K ! 4 = 0x3956c25b"
  "sha256_K ! 5 = 0x59f111f1"
  "sha256_K ! 6 = 0x923f82a4"
  "sha256_K ! 7 = 0xab1c5ed5"
  "sha256_K ! 8 = 0xd807aa98"
  "sha256_K ! 9 = 0x12835b01"
  "sha256_K ! 10 = 0x243185be"
  "sha256_K ! 11 = 0x550c7dc3"
  "sha256_K ! 12 = 0x72be5d74"
  "sha256_K ! 13 = 0x80deb1fe"
  "sha256_K ! 14 = 0x9bdc06a7"
  "sha256_K ! 15 = 0xc19bf174"
  "sha256_K ! 16 = 0xe49b69c1"
  "sha256_K ! 17 = 0xefbe4786"
  "sha256_K ! 18 = 0xfc19dc6"
  "sha256_K ! 19 = 0x240ca1cc"
  "sha256_K ! 20 = 0x2de92c6f"
  "sha256_K ! 21 = 0x4a7484aa"
  "sha256_K ! 22 = 0x5cb0a9dc"
  "sha256_K ! 23 = 0x76f988da"
  "sha256_K ! 24 = 0x983e5152"
  "sha256_K ! 25 = 0xa831c66d"
  "sha256_K ! 26 = 0xb00327c8"
  "sha256_K ! 27 = 0xbf597fc7"
  "sha256_K ! 28 = 0xc6e00bf3"
  "sha256_K ! 29 = 0xd5a79147"
  "sha256_K ! 30 = 0x6ca6351"
  "sha256_K ! 31 = 0x14292967"
  "sha256_K ! 32 = 0x27b70a85"
  "sha256_K ! 33 = 0x2e1b2138"
  "sha256_K ! 34 = 0x4d2c6dfc"
  "sha256_K ! 35 = 0x53380d13"
  "sha256_K ! 36 = 0x650a7354"
  "sha256_K ! 37 = 0x766a0abb"
  "sha256_K ! 38 = 0x81c2c92e"
  "sha256_K ! 39 = 0x92722c85"
  "sha256_K ! 40 = 0xa2bfe8a1"
  "sha256_K ! 41 = 0xa81a664b"
  "sha256_K ! 42 = 0xc24b8b70"
  "sha256_K ! 43 = 0xc76c51a3"
  "sha256_K ! 44 = 0xd192e819"
  "sha256_K ! 45 = 0xd6990624"
  "sha256_K ! 46 = 0xf40e3585"
  "sha256_K ! 47 = 0x106aa070"
  "sha256_K ! 48 = 0x19a4c116"
  "sha256_K ! 49 = 0x1e376c08"
  "sha256_K ! 50 = 0x2748774c"
  "sha256_K ! 51 = 0x34b0bcb5"
  "sha256_K ! 52 = 0x391c0cb3"
  "sha256_K ! 53 = 0x4ed8aa4a"
  "sha256_K ! 54 = 0x5b9cca4f"
  "sha256_K ! 55 = 0x682e6ff3"
  "sha256_K ! 56 = 0x748f82ee"
  "sha256_K ! 57 = 0x78a5636f"
  "sha256_K ! 58 = 0x84c87814"
  "sha256_K ! 59 = 0x8cc70208"
  "sha256_K ! 60 = 0x90befffa"
  "sha256_K ! 61 = 0xa4506ceb"
  "sha256_K ! 62 = 0xbef9a3f7"
  "sha256_K ! 63 = 0xc67178f2"
  by (simp_all add: sha256_K_def sha256_cube_roots)

definition sha256_ch_spec :: "u32 \<Rightarrow> u32 \<Rightarrow> u32 \<Rightarrow> u32" where
  "sha256_ch_spec x y z = (x AND y) XOR (NOT x AND z)"

definition sha256_maj_spec :: "u32 \<Rightarrow> u32 \<Rightarrow> u32 \<Rightarrow> u32" where
  "sha256_maj_spec x y z = (x AND y) XOR (x AND z) XOR (y AND z)"

fun sha256_step :: "u32_8 \<Rightarrow> u32 \<times> u32 \<Rightarrow> u32_8" where
  "sha256_step (a, b, c, d, e, f, g, h) (k, w) =
     (let t1 = h + (word_rotr 6 e XOR word_rotr 11 e XOR word_rotr 25 e) + sha256_ch_spec e f g + k + w;
          t2 = (word_rotr 2 a XOR word_rotr 13 a XOR word_rotr 22 a) + sha256_maj_spec a b c
      in (t1 + t2, a, b, c, d + t1, e, f, g))"

fun sha256_W :: "(nat \<Rightarrow> u32) \<Rightarrow> nat \<Rightarrow> u32" where
  "sha256_W M t =
     (if t < 16 then M t
      else let x = sha256_W M (t - 2); s1 = word_rotr 17 x XOR word_rotr 19 x XOR drop_bit 10 x;
               x = sha256_W M (t - 15); s0 = word_rotr 7 x XOR word_rotr 18 x XOR drop_bit 3 x
           in sha256_W M (t - 16) + (s1 + sha256_W M (t - 7) + s0))"

definition sha256_compress :: "u32 list \<Rightarrow> bytes \<Rightarrow> u32 list" where
  "sha256_compress s block =
     (let M = (\<lambda>t. ReadBE32 (drop (4 * t) block));
          (a, b, c, d, e, f, g, h) = foldl sha256_step (s ! 0, s ! 1, s ! 2, s ! 3, s ! 4, s ! 5, s ! 6, s ! 7)
            (map (\<lambda>t. (sha256_K ! t, sha256_W M t)) [0..<64])
      in [s ! 0 + a, s ! 1 + b, s ! 2 + c, s ! 3 + d, s ! 4 + e, s ! 5 + f, s ! 6 + g, s ! 7 + h])"

definition sha256 :: "bytes \<Rightarrow> bytes" where
  "sha256 m =
     concat (map WriteBE32
       (md_hash 64 sha256_compress sha256_Initialize
          (WriteBE64 (of_nat (8 * length m))) m))"

declare sha256_W.simps [simp del]

section \<open>The unrolled rounds follow the reference\<close>

lemma sha256_functions:
  "sha256_Sigma0 x = word_rotr 2 x XOR word_rotr 13 x XOR word_rotr 22 x"
  "sha256_Sigma1 x = word_rotr 6 x XOR word_rotr 11 x XOR word_rotr 25 x"
  "sha256_sigma0 x = word_rotr 7 x XOR word_rotr 18 x XOR drop_bit 3 x"
  "sha256_sigma1 x = word_rotr 17 x XOR word_rotr 19 x XOR drop_bit 10 x"
  "sha256_Ch x y z = sha256_ch_spec x y z"
  "sha256_Maj x y z = sha256_maj_spec x y z"
  by (simp_all add: sha256_Sigma0_def sha256_Sigma1_def sha256_sigma0_def sha256_sigma1_def rotr_shifts)
    (auto intro!: bit_word_eqI simp: sha256_Ch_def sha256_Maj_def sha256_ch_spec_def sha256_maj_spec_def bit_simps)

lemma sha256_step_Round:
  "sha256_step (a, b, c, d, e, f, g, h) (k, w) =
     (case sha256_Round a b c d e f g h k w of (d', h') \<Rightarrow> (h', a, b, c, d', e, f, g))"
  by (simp add: sha256_Round_def sha256_functions Let_def)

lemma sha256_step_case:
  "sha256_step (case p of (x, y) \<Rightarrow> f x y) kw = (case p of (x, y) \<Rightarrow> sha256_step (f x y) kw)"
  by (cases p) simp

lemma sha256_W_next:
  assumes "j = i + 14" "k = i + 9" "l = i + 1"
  shows "sha256_W M i + (sha256_sigma1 (sha256_W M j) + sha256_W M k + sha256_sigma0 (sha256_W M l)) = sha256_W M (i + 16)"
    and "sha256_W M i + sha256_sigma1 (sha256_W M j) + sha256_W M k + sha256_sigma0 (sha256_W M l) = sha256_W M (i + 16)"
  unfolding assms by (subst (5) sha256_W.simps, simp add: sha256_functions Let_def ac_simps)+

lemma sha256_W_block: "t < 16 \<Longrightarrow> sha256_W M t = M t"
  by (simp add: sha256_W.simps)

declare sha256_step.simps [simp del]

lemmas sha256_unroll = sha256_W_next sha256_step_Round sha256_step_case case_prod_case_prod Let_def


lemma sha256_rounds0_eq:
  assumes "M = (\<lambda>t. ReadBE32 (drop (4 * t) chunk))"
  shows "sha256_rounds0 a b c d e f g h chunk =
     (case foldl sha256_step (a, b, c, d, e, f, g, h) (map (\<lambda>t. (sha256_K ! t, sha256_W M t)) [0..<16]) of
        (a, b, c, d, e, f, g, h) \<Rightarrow> (a, b, c, d, e, f, g, h, sha256_W M 0, sha256_W M 1, sha256_W M 2, sha256_W M 3, sha256_W M 4, sha256_W M 5, sha256_W M 6, sha256_W M 7, sha256_W M 8, sha256_W M 9, sha256_W M 10, sha256_W M 11, sha256_W M 12, sha256_W M 13, sha256_W M 14, sha256_W M 15))"
  by (simp add: sha256_rounds0_def sha256_unroll sha256_W_block assms sha256_K_nth upt_0_16)

lemma sha256_rounds1_eq:
  "sha256_rounds1 a b c d e f g h (sha256_W M 0) (sha256_W M 1) (sha256_W M 2) (sha256_W M 3) (sha256_W M 4) (sha256_W M 5) (sha256_W M 6) (sha256_W M 7) (sha256_W M 8) (sha256_W M 9) (sha256_W M 10) (sha256_W M 11) (sha256_W M 12) (sha256_W M 13) (sha256_W M 14) (sha256_W M 15) =
     (case foldl sha256_step (a, b, c, d, e, f, g, h) (map (\<lambda>t. (sha256_K ! t, sha256_W M t)) [16..<32]) of
        (a, b, c, d, e, f, g, h) \<Rightarrow> (a, b, c, d, e, f, g, h, sha256_W M 16, sha256_W M 17, sha256_W M 18, sha256_W M 19, sha256_W M 20, sha256_W M 21, sha256_W M 22, sha256_W M 23, sha256_W M 24, sha256_W M 25, sha256_W M 26, sha256_W M 27, sha256_W M 28, sha256_W M 29, sha256_W M 30, sha256_W M 31))"
  by (simp add: sha256_rounds1_def sha256_unroll sha256_K_nth upt_rec_numeral)

lemma sha256_rounds2_eq:
  "sha256_rounds2 a b c d e f g h (sha256_W M 16) (sha256_W M 17) (sha256_W M 18) (sha256_W M 19) (sha256_W M 20) (sha256_W M 21) (sha256_W M 22) (sha256_W M 23) (sha256_W M 24) (sha256_W M 25) (sha256_W M 26) (sha256_W M 27) (sha256_W M 28) (sha256_W M 29) (sha256_W M 30) (sha256_W M 31) =
     (case foldl sha256_step (a, b, c, d, e, f, g, h) (map (\<lambda>t. (sha256_K ! t, sha256_W M t)) [32..<48]) of
        (a, b, c, d, e, f, g, h) \<Rightarrow> (a, b, c, d, e, f, g, h, sha256_W M 32, sha256_W M 33, sha256_W M 34, sha256_W M 35, sha256_W M 36, sha256_W M 37, sha256_W M 38, sha256_W M 39, sha256_W M 40, sha256_W M 41, sha256_W M 42, sha256_W M 43, sha256_W M 44, sha256_W M 45, sha256_W M 46, sha256_W M 47))"
  by (simp add: sha256_rounds2_def sha256_unroll sha256_K_nth upt_rec_numeral)

lemma sha256_rounds3_eq:
  "sha256_rounds3 a b c d e f g h (sha256_W M 32) (sha256_W M 33) (sha256_W M 34) (sha256_W M 35) (sha256_W M 36) (sha256_W M 37) (sha256_W M 38) (sha256_W M 39) (sha256_W M 40) (sha256_W M 41) (sha256_W M 42) (sha256_W M 43) (sha256_W M 44) (sha256_W M 45) (sha256_W M 46) (sha256_W M 47) =
     (case foldl sha256_step (a, b, c, d, e, f, g, h) (map (\<lambda>t. (sha256_K ! t, sha256_W M t)) [48..<64]) of
        (a, b, c, d, e, f, g, h) \<Rightarrow> (a, b, c, d, e, f, g, h))"
  by (simp add: sha256_rounds3_def sha256_unroll sha256_K_nth upt_rec_numeral)

lemma sha256_Transform_eq: "sha256_Transform s chunk = sha256_compress s chunk"
proof -
  let ?M = "\<lambda>t. ReadBE32 (drop (4 * t) chunk)"
  let ?f = "\<lambda>t. (sha256_K ! t, sha256_W ?M t)"
  have u: "[0..<64] = [0..<16] @ [16..<32] @ [32..<48] @ [48..<64]"
    using upt_split16 [of 0 16] upt_split16 [of 0 32] upt_split16 [of 0 48] by simp
  obtain a0 b0 c0 d0 e0 f0 g0 h0 where s0:
    "foldl sha256_step (s ! 0, s ! 1, s ! 2, s ! 3, s ! 4, s ! 5, s ! 6, s ! 7) (map ?f [0..<16]) = (a0, b0, c0, d0, e0, f0, g0, h0)"
    by (rule prod_cases8)
  obtain a1 b1 c1 d1 e1 f1 g1 h1 where s1:
    "foldl sha256_step (a0, b0, c0, d0, e0, f0, g0, h0) (map ?f [16..<32]) = (a1, b1, c1, d1, e1, f1, g1, h1)"
    by (rule prod_cases8)
  obtain a2 b2 c2 d2 e2 f2 g2 h2 where s2:
    "foldl sha256_step (a1, b1, c1, d1, e1, f1, g1, h1) (map ?f [32..<48]) = (a2, b2, c2, d2, e2, f2, g2, h2)"
    by (rule prod_cases8)
  obtain a3 b3 c3 d3 e3 f3 g3 h3 where s3:
    "foldl sha256_step (a2, b2, c2, d2, e2, f2, g2, h2) (map ?f [48..<64]) = (a3, b3, c3, d3, e3, f3, g3, h3)"
    by (rule prod_cases8)
  show ?thesis
    unfolding sha256_Transform_def sha256_compress_def Let_def u map_append foldl_append s0 s1 s2 s3
      sha256_rounds0_eq [OF refl] sha256_rounds1_eq sha256_rounds2_eq sha256_rounds3_eq prod.case
    by (rule refl)
qed

interpretation sha256: block_hash 64 sha256_Transform
proof
  show "(0 :: nat) < 64" by simp
  show "(64 :: nat) dvd 2 ^ 64" by simp
  show "sha256_Transform s (take 64 d) = sha256_Transform s d" if "64 \<le> length d" for s d
  proof -
    have r: "ReadBE32 (drop k (take 64 d)) = ReadBE32 (drop k d)" if "k \<le> 60" for k
      using that \<open>64 \<le> length d\<close> by simp
    show ?thesis
      by (simp only: sha256_Transform_def sha256_rounds0_def r numeral_le_iff semiring_norm le0)
  qed
qed

lemma length_sha256_Transform [simp]: "length (sha256_Transform s chunk) = 8"
  unfolding sha256_Transform_eq sha256_compress_def Let_def by (simp split: prod.split)

lemma length_foldl_sha256: "length s = 8 \<Longrightarrow> length (foldl sha256_Transform s bs) = 8"
  by (induction bs arbitrary: s) simp_all

abbreviation CSHA256_rep :: "CSHA256 \<Rightarrow> bytes \<Rightarrow> bool" where
  "CSHA256_rep \<equiv> ctx_rep 64 sha256_Transform sha256_Initialize"

lemma length_sha256 [simp]: "length (sha256 m) = 32"
proof -
  have T: "sha256_Transform = sha256_compress" by (intro ext) (rule sha256_Transform_eq)
  have "length (md_hash 64 sha256_Transform sha256_Initialize z m) = 8" for z
    by (simp add: md_hash_def length_foldl_sha256 sha256_Initialize_def)
  moreover have "length (concat (map WriteBE32 xs)) = 32 div 8 * length xs" for xs
    by (induction xs) (simp_all add: WriteBE32_def)
  ultimately show ?thesis by (simp add: sha256_def T [symmetric])
qed

lemma CSHA256_ctor_rep: "CSHA256_rep CSHA256_ctor []"
  unfolding CSHA256_ctor_def by (rule ctx_rep_init) simp_all

lemma CSHA256_Write_rep: "CSHA256_rep ctx m \<Longrightarrow> CSHA256_rep (CSHA256_Write ctx d) (m @ d)"
  unfolding CSHA256_Write_def by (rule sha256.write_rep)

lemma CSHA256_Reset_rep: "CSHA256_rep ctx m \<Longrightarrow> CSHA256_rep (CSHA256_Reset ctx) []"
  by (simp add: CSHA256_Reset_def ctx_rep_def)

lemma CSHA256_Finalize_ctx: "CSHA256_rep ctx m \<Longrightarrow> \<exists>m'. CSHA256_rep (fst (CSHA256_Finalize ctx)) m'"
  unfolding CSHA256_Finalize_def Let_def fst_conv by (rule exI) (rule CSHA256_Write_rep [OF CSHA256_Write_rep])

lemma CSHA256_Finalize_rep:
  assumes rep: "CSHA256_rep ctx m"
  shows "snd (CSHA256_Finalize ctx) = sha256 m"
proof -
  have T: "sha256_Transform = sha256_compress" by (intro ext) (rule sha256_Transform_eq)
  have sz: "push_bit 3 (ctx_bytes ctx) = of_nat (8 * length m)"
    using rep by (simp add: ctx_rep_def push_bit_eq_mult)
  have list8: "[0, 1, 2, 3, 4, 5, 6, 7] = [0 :: nat..<8]" by code_simp
  let ?sz = "WriteBE64 (of_nat (8 * length m))"
  have "length ?sz < 64" by (simp add: WriteBE64_def)
  from sha256.pad_rep [OF rep this]
  have "ctx_s (hash_Write 64 sha256_Transform (hash_Write 64 sha256_Transform ctx
      (take (1 + ((119 - unat (ctx_bytes ctx) mod 64) mod 64)) (0x80 # replicate 63 0))) ?sz)
    = md_hash 64 sha256_Transform sha256_Initialize ?sz m" (is "?s = ?h")
    by (simp add: WriteBE64_def)
  note s = this
  have "length ?h = 8"
    by (simp add: md_hash_def length_foldl_sha256 sha256_Initialize_def)
  note h = map_nth_upt [OF this, of WriteBE32]
  show ?thesis
    unfolding CSHA256_Finalize_def CSHA256_Write_def [symmetric] Let_def sha256_def T [symmetric] sz list8
      s [folded CSHA256_Write_def] h
    by simp
qed

text \<open>
  C11: hashing a message with the class CSHA256, in whatever pieces it is written, gives the
  SHA-256 digest of the concatenation: the padded message is cut into blocks and each is
  compressed with the standard's rotating registers and recursive message schedule.
\<close>

theorem CSHA256_correct:
  "snd (CSHA256_Finalize (foldl CSHA256_Write CSHA256_ctor ds)) = sha256 (concat ds)"
  using CSHA256_Finalize_rep [OF sha256.writes_rep [OF CSHA256_ctor_rep]]
  by (simp add: CSHA256_Write_def)

end
