(* ===== verification/Sha512.thy ===== *)
theory Sha512
  imports Crypto_Common
begin

text \<open>
  SHA-512 of \<^verbatim>\<open>src/src/crypto/sha512.cpp\<close>.  \<open>sha512_Transform\<close> is the unrolled code: the eight registers
  keep their names and \<open>Round\<close> returns the two it assigns, and the sixteen schedule words are
  updated in place.  The reference is the standard's formulation, with rotating registers and
  the schedule as a recursively defined sequence; the two are shown equal, and the class
  CSHA512 is shown to hash the concatenation of what is written to it.
\<close>

section \<open>The transform\<close>

type_synonym u64_8 = "u64 \<times> u64 \<times> u64 \<times> u64 \<times> u64 \<times> u64 \<times> u64 \<times> u64"
type_synonym u64_24 = "u64 \<times> u64 \<times> u64 \<times> u64 \<times> u64 \<times> u64 \<times> u64 \<times> u64 \<times> u64 \<times> u64 \<times> u64 \<times> u64 \<times> u64 \<times> u64 \<times> u64 \<times> u64 \<times> u64_8"

definition sha512_Ch :: "u64 \<Rightarrow> u64 \<Rightarrow> u64 \<Rightarrow> u64" where
  "sha512_Ch x y z = z XOR (x AND (y XOR z))"

definition sha512_Maj :: "u64 \<Rightarrow> u64 \<Rightarrow> u64 \<Rightarrow> u64" where
  "sha512_Maj x y z = (x AND y) OR (z AND (x OR y))"

definition sha512_Sigma0 :: "u64 \<Rightarrow> u64" where
  "sha512_Sigma0 x = (drop_bit 28 x OR push_bit 36 x) XOR (drop_bit 34 x OR push_bit 30 x) XOR (drop_bit 39 x OR push_bit 25 x)"

definition sha512_Sigma1 :: "u64 \<Rightarrow> u64" where
  "sha512_Sigma1 x = (drop_bit 14 x OR push_bit 50 x) XOR (drop_bit 18 x OR push_bit 46 x) XOR (drop_bit 41 x OR push_bit 23 x)"

definition sha512_sigma0 :: "u64 \<Rightarrow> u64" where
  "sha512_sigma0 x = (drop_bit 1 x OR push_bit 63 x) XOR (drop_bit 8 x OR push_bit 56 x) XOR drop_bit 7 x"

definition sha512_sigma1 :: "u64 \<Rightarrow> u64" where
  "sha512_sigma1 x = (drop_bit 19 x OR push_bit 45 x) XOR (drop_bit 61 x OR push_bit 3 x) XOR drop_bit 6 x"

definition sha512_Round ::
  "u64 \<Rightarrow> u64 \<Rightarrow> u64 \<Rightarrow> u64 \<Rightarrow> u64 \<Rightarrow> u64 \<Rightarrow> u64 \<Rightarrow> u64 \<Rightarrow> u64 \<Rightarrow> u64 \<Rightarrow> u64 \<times> u64" where
  "sha512_Round a b c d e f g h k w =
     (let t1 = h + sha512_Sigma1 e + sha512_Ch e f g + k + w;
          t2 = sha512_Sigma0 a + sha512_Maj a b c
      in (d + t1, t1 + t2))"

definition sha512_Initialize :: "u64 list" where
  "sha512_Initialize =
     [0x6a09e667f3bcc908, 0xbb67ae8584caa73b, 0x3c6ef372fe94f82b, 0xa54ff53a5f1d36f1,
      0x510e527fade682d1, 0x9b05688c2b3e6c1f, 0x1f83d9abfb41bd6b, 0x5be0cd19137e2179]"

definition sha512_rounds0 ::
  "u64 \<Rightarrow> u64 \<Rightarrow> u64 \<Rightarrow> u64 \<Rightarrow> u64 \<Rightarrow> u64 \<Rightarrow> u64 \<Rightarrow> u64 \<Rightarrow> bytes \<Rightarrow> u64_24" where
  "sha512_rounds0 a b c d e f g h chunk =
     (let w0 = ReadBE64 (drop 0 chunk); (d, h) = sha512_Round a b c d e f g h 0x428a2f98d728ae22 w0;
          w1 = ReadBE64 (drop 8 chunk); (c, g) = sha512_Round h a b c d e f g 0x7137449123ef65cd w1;
          w2 = ReadBE64 (drop 16 chunk); (b, f) = sha512_Round g h a b c d e f 0xb5c0fbcfec4d3b2f w2;
          w3 = ReadBE64 (drop 24 chunk); (a, e) = sha512_Round f g h a b c d e 0xe9b5dba58189dbbc w3;
          w4 = ReadBE64 (drop 32 chunk); (h, d) = sha512_Round e f g h a b c d 0x3956c25bf348b538 w4;
          w5 = ReadBE64 (drop 40 chunk); (g, c) = sha512_Round d e f g h a b c 0x59f111f1b605d019 w5;
          w6 = ReadBE64 (drop 48 chunk); (f, b) = sha512_Round c d e f g h a b 0x923f82a4af194f9b w6;
          w7 = ReadBE64 (drop 56 chunk); (e, a) = sha512_Round b c d e f g h a 0xab1c5ed5da6d8118 w7;
          w8 = ReadBE64 (drop 64 chunk); (d, h) = sha512_Round a b c d e f g h 0xd807aa98a3030242 w8;
          w9 = ReadBE64 (drop 72 chunk); (c, g) = sha512_Round h a b c d e f g 0x12835b0145706fbe w9;
          w10 = ReadBE64 (drop 80 chunk); (b, f) = sha512_Round g h a b c d e f 0x243185be4ee4b28c w10;
          w11 = ReadBE64 (drop 88 chunk); (a, e) = sha512_Round f g h a b c d e 0x550c7dc3d5ffb4e2 w11;
          w12 = ReadBE64 (drop 96 chunk); (h, d) = sha512_Round e f g h a b c d 0x72be5d74f27b896f w12;
          w13 = ReadBE64 (drop 104 chunk); (g, c) = sha512_Round d e f g h a b c 0x80deb1fe3b1696b1 w13;
          w14 = ReadBE64 (drop 112 chunk); (f, b) = sha512_Round c d e f g h a b 0x9bdc06a725c71235 w14;
          w15 = ReadBE64 (drop 120 chunk); (e, a) = sha512_Round b c d e f g h a 0xc19bf174cf692694 w15
      in (a, b, c, d, e, f, g, h, w0, w1, w2, w3, w4, w5, w6, w7, w8, w9, w10, w11, w12, w13, w14, w15))"

definition sha512_rounds1 ::
  "u64 \<Rightarrow> u64 \<Rightarrow> u64 \<Rightarrow> u64 \<Rightarrow> u64 \<Rightarrow> u64 \<Rightarrow> u64 \<Rightarrow> u64 \<Rightarrow> u64 \<Rightarrow> u64 \<Rightarrow> u64 \<Rightarrow> u64 \<Rightarrow> u64 \<Rightarrow> u64 \<Rightarrow> u64 \<Rightarrow> u64 \<Rightarrow> u64 \<Rightarrow> u64 \<Rightarrow> u64 \<Rightarrow> u64 \<Rightarrow> u64 \<Rightarrow> u64 \<Rightarrow> u64 \<Rightarrow> u64 \<Rightarrow> u64_24" where
  "sha512_rounds1 a b c d e f g h w0 w1 w2 w3 w4 w5 w6 w7 w8 w9 w10 w11 w12 w13 w14 w15 =
     (let w0 = w0 + (sha512_sigma1 w14 + w9 + sha512_sigma0 w1); (d, h) = sha512_Round a b c d e f g h 0xe49b69c19ef14ad2 w0;
          w1 = w1 + (sha512_sigma1 w15 + w10 + sha512_sigma0 w2); (c, g) = sha512_Round h a b c d e f g 0xefbe4786384f25e3 w1;
          w2 = w2 + (sha512_sigma1 w0 + w11 + sha512_sigma0 w3); (b, f) = sha512_Round g h a b c d e f 0x0fc19dc68b8cd5b5 w2;
          w3 = w3 + (sha512_sigma1 w1 + w12 + sha512_sigma0 w4); (a, e) = sha512_Round f g h a b c d e 0x240ca1cc77ac9c65 w3;
          w4 = w4 + (sha512_sigma1 w2 + w13 + sha512_sigma0 w5); (h, d) = sha512_Round e f g h a b c d 0x2de92c6f592b0275 w4;
          w5 = w5 + (sha512_sigma1 w3 + w14 + sha512_sigma0 w6); (g, c) = sha512_Round d e f g h a b c 0x4a7484aa6ea6e483 w5;
          w6 = w6 + (sha512_sigma1 w4 + w15 + sha512_sigma0 w7); (f, b) = sha512_Round c d e f g h a b 0x5cb0a9dcbd41fbd4 w6;
          w7 = w7 + (sha512_sigma1 w5 + w0 + sha512_sigma0 w8); (e, a) = sha512_Round b c d e f g h a 0x76f988da831153b5 w7;
          w8 = w8 + (sha512_sigma1 w6 + w1 + sha512_sigma0 w9); (d, h) = sha512_Round a b c d e f g h 0x983e5152ee66dfab w8;
          w9 = w9 + (sha512_sigma1 w7 + w2 + sha512_sigma0 w10); (c, g) = sha512_Round h a b c d e f g 0xa831c66d2db43210 w9;
          w10 = w10 + (sha512_sigma1 w8 + w3 + sha512_sigma0 w11); (b, f) = sha512_Round g h a b c d e f 0xb00327c898fb213f w10;
          w11 = w11 + (sha512_sigma1 w9 + w4 + sha512_sigma0 w12); (a, e) = sha512_Round f g h a b c d e 0xbf597fc7beef0ee4 w11;
          w12 = w12 + (sha512_sigma1 w10 + w5 + sha512_sigma0 w13); (h, d) = sha512_Round e f g h a b c d 0xc6e00bf33da88fc2 w12;
          w13 = w13 + (sha512_sigma1 w11 + w6 + sha512_sigma0 w14); (g, c) = sha512_Round d e f g h a b c 0xd5a79147930aa725 w13;
          w14 = w14 + (sha512_sigma1 w12 + w7 + sha512_sigma0 w15); (f, b) = sha512_Round c d e f g h a b 0x06ca6351e003826f w14;
          w15 = w15 + (sha512_sigma1 w13 + w8 + sha512_sigma0 w0); (e, a) = sha512_Round b c d e f g h a 0x142929670a0e6e70 w15
      in (a, b, c, d, e, f, g, h, w0, w1, w2, w3, w4, w5, w6, w7, w8, w9, w10, w11, w12, w13, w14, w15))"

definition sha512_rounds2 ::
  "u64 \<Rightarrow> u64 \<Rightarrow> u64 \<Rightarrow> u64 \<Rightarrow> u64 \<Rightarrow> u64 \<Rightarrow> u64 \<Rightarrow> u64 \<Rightarrow> u64 \<Rightarrow> u64 \<Rightarrow> u64 \<Rightarrow> u64 \<Rightarrow> u64 \<Rightarrow> u64 \<Rightarrow> u64 \<Rightarrow> u64 \<Rightarrow> u64 \<Rightarrow> u64 \<Rightarrow> u64 \<Rightarrow> u64 \<Rightarrow> u64 \<Rightarrow> u64 \<Rightarrow> u64 \<Rightarrow> u64 \<Rightarrow> u64_24" where
  "sha512_rounds2 a b c d e f g h w0 w1 w2 w3 w4 w5 w6 w7 w8 w9 w10 w11 w12 w13 w14 w15 =
     (let w0 = w0 + (sha512_sigma1 w14 + w9 + sha512_sigma0 w1); (d, h) = sha512_Round a b c d e f g h 0x27b70a8546d22ffc w0;
          w1 = w1 + (sha512_sigma1 w15 + w10 + sha512_sigma0 w2); (c, g) = sha512_Round h a b c d e f g 0x2e1b21385c26c926 w1;
          w2 = w2 + (sha512_sigma1 w0 + w11 + sha512_sigma0 w3); (b, f) = sha512_Round g h a b c d e f 0x4d2c6dfc5ac42aed w2;
          w3 = w3 + (sha512_sigma1 w1 + w12 + sha512_sigma0 w4); (a, e) = sha512_Round f g h a b c d e 0x53380d139d95b3df w3;
          w4 = w4 + (sha512_sigma1 w2 + w13 + sha512_sigma0 w5); (h, d) = sha512_Round e f g h a b c d 0x650a73548baf63de w4;
          w5 = w5 + (sha512_sigma1 w3 + w14 + sha512_sigma0 w6); (g, c) = sha512_Round d e f g h a b c 0x766a0abb3c77b2a8 w5;
          w6 = w6 + (sha512_sigma1 w4 + w15 + sha512_sigma0 w7); (f, b) = sha512_Round c d e f g h a b 0x81c2c92e47edaee6 w6;
          w7 = w7 + (sha512_sigma1 w5 + w0 + sha512_sigma0 w8); (e, a) = sha512_Round b c d e f g h a 0x92722c851482353b w7;
          w8 = w8 + (sha512_sigma1 w6 + w1 + sha512_sigma0 w9); (d, h) = sha512_Round a b c d e f g h 0xa2bfe8a14cf10364 w8;
          w9 = w9 + (sha512_sigma1 w7 + w2 + sha512_sigma0 w10); (c, g) = sha512_Round h a b c d e f g 0xa81a664bbc423001 w9;
          w10 = w10 + (sha512_sigma1 w8 + w3 + sha512_sigma0 w11); (b, f) = sha512_Round g h a b c d e f 0xc24b8b70d0f89791 w10;
          w11 = w11 + (sha512_sigma1 w9 + w4 + sha512_sigma0 w12); (a, e) = sha512_Round f g h a b c d e 0xc76c51a30654be30 w11;
          w12 = w12 + (sha512_sigma1 w10 + w5 + sha512_sigma0 w13); (h, d) = sha512_Round e f g h a b c d 0xd192e819d6ef5218 w12;
          w13 = w13 + (sha512_sigma1 w11 + w6 + sha512_sigma0 w14); (g, c) = sha512_Round d e f g h a b c 0xd69906245565a910 w13;
          w14 = w14 + (sha512_sigma1 w12 + w7 + sha512_sigma0 w15); (f, b) = sha512_Round c d e f g h a b 0xf40e35855771202a w14;
          w15 = w15 + (sha512_sigma1 w13 + w8 + sha512_sigma0 w0); (e, a) = sha512_Round b c d e f g h a 0x106aa07032bbd1b8 w15
      in (a, b, c, d, e, f, g, h, w0, w1, w2, w3, w4, w5, w6, w7, w8, w9, w10, w11, w12, w13, w14, w15))"

definition sha512_rounds3 ::
  "u64 \<Rightarrow> u64 \<Rightarrow> u64 \<Rightarrow> u64 \<Rightarrow> u64 \<Rightarrow> u64 \<Rightarrow> u64 \<Rightarrow> u64 \<Rightarrow> u64 \<Rightarrow> u64 \<Rightarrow> u64 \<Rightarrow> u64 \<Rightarrow> u64 \<Rightarrow> u64 \<Rightarrow> u64 \<Rightarrow> u64 \<Rightarrow> u64 \<Rightarrow> u64 \<Rightarrow> u64 \<Rightarrow> u64 \<Rightarrow> u64 \<Rightarrow> u64 \<Rightarrow> u64 \<Rightarrow> u64 \<Rightarrow> u64_24" where
  "sha512_rounds3 a b c d e f g h w0 w1 w2 w3 w4 w5 w6 w7 w8 w9 w10 w11 w12 w13 w14 w15 =
     (let w0 = w0 + (sha512_sigma1 w14 + w9 + sha512_sigma0 w1); (d, h) = sha512_Round a b c d e f g h 0x19a4c116b8d2d0c8 w0;
          w1 = w1 + (sha512_sigma1 w15 + w10 + sha512_sigma0 w2); (c, g) = sha512_Round h a b c d e f g 0x1e376c085141ab53 w1;
          w2 = w2 + (sha512_sigma1 w0 + w11 + sha512_sigma0 w3); (b, f) = sha512_Round g h a b c d e f 0x2748774cdf8eeb99 w2;
          w3 = w3 + (sha512_sigma1 w1 + w12 + sha512_sigma0 w4); (a, e) = sha512_Round f g h a b c d e 0x34b0bcb5e19b48a8 w3;
          w4 = w4 + (sha512_sigma1 w2 + w13 + sha512_sigma0 w5); (h, d) = sha512_Round e f g h a b c d 0x391c0cb3c5c95a63 w4;
          w5 = w5 + (sha512_sigma1 w3 + w14 + sha512_sigma0 w6); (g, c) = sha512_Round d e f g h a b c 0x4ed8aa4ae3418acb w5;
          w6 = w6 + (sha512_sigma1 w4 + w15 + sha512_sigma0 w7); (f, b) = sha512_Round c d e f g h a b 0x5b9cca4f7763e373 w6;
          w7 = w7 + (sha512_sigma1 w5 + w0 + sha512_sigma0 w8); (e, a) = sha512_Round b c d e f g h a 0x682e6ff3d6b2b8a3 w7;
          w8 = w8 + (sha512_sigma1 w6 + w1 + sha512_sigma0 w9); (d, h) = sha512_Round a b c d e f g h 0x748f82ee5defb2fc w8;
          w9 = w9 + (sha512_sigma1 w7 + w2 + sha512_sigma0 w10); (c, g) = sha512_Round h a b c d e f g 0x78a5636f43172f60 w9;
          w10 = w10 + (sha512_sigma1 w8 + w3 + sha512_sigma0 w11); (b, f) = sha512_Round g h a b c d e f 0x84c87814a1f0ab72 w10;
          w11 = w11 + (sha512_sigma1 w9 + w4 + sha512_sigma0 w12); (a, e) = sha512_Round f g h a b c d e 0x8cc702081a6439ec w11;
          w12 = w12 + (sha512_sigma1 w10 + w5 + sha512_sigma0 w13); (h, d) = sha512_Round e f g h a b c d 0x90befffa23631e28 w12;
          w13 = w13 + (sha512_sigma1 w11 + w6 + sha512_sigma0 w14); (g, c) = sha512_Round d e f g h a b c 0xa4506cebde82bde9 w13;
          w14 = w14 + (sha512_sigma1 w12 + w7 + sha512_sigma0 w15); (f, b) = sha512_Round c d e f g h a b 0xbef9a3f7b2c67915 w14;
          w15 = w15 + (sha512_sigma1 w13 + w8 + sha512_sigma0 w0); (e, a) = sha512_Round b c d e f g h a 0xc67178f2e372532b w15
      in (a, b, c, d, e, f, g, h, w0, w1, w2, w3, w4, w5, w6, w7, w8, w9, w10, w11, w12, w13, w14, w15))"

definition sha512_rounds4 ::
  "u64 \<Rightarrow> u64 \<Rightarrow> u64 \<Rightarrow> u64 \<Rightarrow> u64 \<Rightarrow> u64 \<Rightarrow> u64 \<Rightarrow> u64 \<Rightarrow> u64 \<Rightarrow> u64 \<Rightarrow> u64 \<Rightarrow> u64 \<Rightarrow> u64 \<Rightarrow> u64 \<Rightarrow> u64 \<Rightarrow> u64 \<Rightarrow> u64 \<Rightarrow> u64 \<Rightarrow> u64 \<Rightarrow> u64 \<Rightarrow> u64 \<Rightarrow> u64 \<Rightarrow> u64 \<Rightarrow> u64 \<Rightarrow> u64_8" where
  "sha512_rounds4 a b c d e f g h w0 w1 w2 w3 w4 w5 w6 w7 w8 w9 w10 w11 w12 w13 w14 w15 =
     (let w0 = w0 + (sha512_sigma1 w14 + w9 + sha512_sigma0 w1); (d, h) = sha512_Round a b c d e f g h 0xca273eceea26619c w0;
          w1 = w1 + (sha512_sigma1 w15 + w10 + sha512_sigma0 w2); (c, g) = sha512_Round h a b c d e f g 0xd186b8c721c0c207 w1;
          w2 = w2 + (sha512_sigma1 w0 + w11 + sha512_sigma0 w3); (b, f) = sha512_Round g h a b c d e f 0xeada7dd6cde0eb1e w2;
          w3 = w3 + (sha512_sigma1 w1 + w12 + sha512_sigma0 w4); (a, e) = sha512_Round f g h a b c d e 0xf57d4f7fee6ed178 w3;
          w4 = w4 + (sha512_sigma1 w2 + w13 + sha512_sigma0 w5); (h, d) = sha512_Round e f g h a b c d 0x06f067aa72176fba w4;
          w5 = w5 + (sha512_sigma1 w3 + w14 + sha512_sigma0 w6); (g, c) = sha512_Round d e f g h a b c 0x0a637dc5a2c898a6 w5;
          w6 = w6 + (sha512_sigma1 w4 + w15 + sha512_sigma0 w7); (f, b) = sha512_Round c d e f g h a b 0x113f9804bef90dae w6;
          w7 = w7 + (sha512_sigma1 w5 + w0 + sha512_sigma0 w8); (e, a) = sha512_Round b c d e f g h a 0x1b710b35131c471b w7;
          w8 = w8 + (sha512_sigma1 w6 + w1 + sha512_sigma0 w9); (d, h) = sha512_Round a b c d e f g h 0x28db77f523047d84 w8;
          w9 = w9 + (sha512_sigma1 w7 + w2 + sha512_sigma0 w10); (c, g) = sha512_Round h a b c d e f g 0x32caab7b40c72493 w9;
          w10 = w10 + (sha512_sigma1 w8 + w3 + sha512_sigma0 w11); (b, f) = sha512_Round g h a b c d e f 0x3c9ebe0a15c9bebc w10;
          w11 = w11 + (sha512_sigma1 w9 + w4 + sha512_sigma0 w12); (a, e) = sha512_Round f g h a b c d e 0x431d67c49c100d4c w11;
          w12 = w12 + (sha512_sigma1 w10 + w5 + sha512_sigma0 w13); (h, d) = sha512_Round e f g h a b c d 0x4cc5d4becb3e42b6 w12;
          w13 = w13 + (sha512_sigma1 w11 + w6 + sha512_sigma0 w14); (g, c) = sha512_Round d e f g h a b c 0x597f299cfc657e2a w13;
          (f, b) = sha512_Round c d e f g h a b 0x5fcb6fab3ad6faec (w14 + sha512_sigma1 w12 + w7 + sha512_sigma0 w15);
          (e, a) = sha512_Round b c d e f g h a 0x6c44198c4a475817 (w15 + sha512_sigma1 w13 + w8 + sha512_sigma0 w0)
      in (a, b, c, d, e, f, g, h))"

definition sha512_Transform :: "u64 list \<Rightarrow> bytes \<Rightarrow> u64 list" where
  "sha512_Transform s chunk =
     (let (a, b, c, d, e, f, g, h, w0, w1, w2, w3, w4, w5, w6, w7, w8, w9, w10, w11, w12, w13, w14, w15) = sha512_rounds0 (s ! 0) (s ! 1) (s ! 2) (s ! 3) (s ! 4) (s ! 5) (s ! 6) (s ! 7) chunk;
          (a, b, c, d, e, f, g, h, w0, w1, w2, w3, w4, w5, w6, w7, w8, w9, w10, w11, w12, w13, w14, w15) = sha512_rounds1 a b c d e f g h w0 w1 w2 w3 w4 w5 w6 w7 w8 w9 w10 w11 w12 w13 w14 w15;
          (a, b, c, d, e, f, g, h, w0, w1, w2, w3, w4, w5, w6, w7, w8, w9, w10, w11, w12, w13, w14, w15) = sha512_rounds2 a b c d e f g h w0 w1 w2 w3 w4 w5 w6 w7 w8 w9 w10 w11 w12 w13 w14 w15;
          (a, b, c, d, e, f, g, h, w0, w1, w2, w3, w4, w5, w6, w7, w8, w9, w10, w11, w12, w13, w14, w15) = sha512_rounds3 a b c d e f g h w0 w1 w2 w3 w4 w5 w6 w7 w8 w9 w10 w11 w12 w13 w14 w15;
          (a, b, c, d, e, f, g, h) = sha512_rounds4 a b c d e f g h w0 w1 w2 w3 w4 w5 w6 w7 w8 w9 w10 w11 w12 w13 w14 w15
      in [s ! 0 + a, s ! 1 + b, s ! 2 + c, s ! 3 + d, s ! 4 + e, s ! 5 + f, s ! 6 + g, s ! 7 + h])"

section \<open>The class\<close>

type_synonym CSHA512 = "u64 hash_ctx"

definition CSHA512_ctor :: CSHA512 where
  "CSHA512_ctor = \<lparr>ctx_s = sha512_Initialize, ctx_buf = replicate 128 0, ctx_bytes = 0\<rparr>"

definition CSHA512_Write :: "CSHA512 \<Rightarrow> bytes \<Rightarrow> CSHA512" where
  "CSHA512_Write = hash_Write 128 sha512_Transform"

definition CSHA512_Finalize :: "CSHA512 \<Rightarrow> CSHA512 \<times> bytes" where
  "CSHA512_Finalize ctx =
     (let pad = 0x80 # replicate 127 0;
          sizedesc = (replicate 8 0 @ WriteBE64 (push_bit 3 (ctx_bytes ctx)));
          ctx = CSHA512_Write ctx (take (1 + ((239 - unat (ctx_bytes ctx) mod 128) mod 128)) pad);
          ctx = CSHA512_Write ctx sizedesc
      in (ctx, concat (map (\<lambda>i. WriteBE64 (ctx_s ctx ! i)) [0, 1, 2, 3, 4, 5, 6, 7])))"

definition CSHA512_Reset :: "CSHA512 \<Rightarrow> CSHA512" where
  "CSHA512_Reset ctx = ctx\<lparr>ctx_bytes := 0, ctx_s := sha512_Initialize\<rparr>"

section \<open>The reference\<close>

text \<open>The round constants: the first 64 bits of the fractional parts of the cube roots of the first
  80 primes.\<close>

definition sha512_K :: "u64 list" where
  "sha512_K =
     map (cube_root_frac 64)
       [2, 3, 5, 7, 11, 13, 17, 19, 23, 29, 31, 37, 41, 43, 47, 53, 59, 61, 67, 71, 73, 79,
        83, 89, 97, 101, 103, 107, 109, 113, 127, 131, 137, 139, 149, 151, 157, 163, 167, 173,
        179, 181, 191, 193, 197, 199, 211, 223, 227, 229, 233, 239, 241, 251, 257, 263, 269,
        271, 277, 281, 283, 293, 307, 311, 313, 317, 331, 337, 347, 349, 353, 359, 367, 373,
        379, 383, 389, 397, 401, 409]"

lemma sha512_cube_roots:
  "cube_root_frac 64 2 = (of_int 0x1428a2f98d728ae22 :: u64)"
  "cube_root_frac 64 3 = (of_int 0x17137449123ef65cd :: u64)"
  "cube_root_frac 64 5 = (of_int 0x1b5c0fbcfec4d3b2f :: u64)"
  "cube_root_frac 64 7 = (of_int 0x1e9b5dba58189dbbc :: u64)"
  "cube_root_frac 64 11 = (of_int 0x23956c25bf348b538 :: u64)"
  "cube_root_frac 64 13 = (of_int 0x259f111f1b605d019 :: u64)"
  "cube_root_frac 64 17 = (of_int 0x2923f82a4af194f9b :: u64)"
  "cube_root_frac 64 19 = (of_int 0x2ab1c5ed5da6d8118 :: u64)"
  "cube_root_frac 64 23 = (of_int 0x2d807aa98a3030242 :: u64)"
  "cube_root_frac 64 29 = (of_int 0x312835b0145706fbe :: u64)"
  "cube_root_frac 64 31 = (of_int 0x3243185be4ee4b28c :: u64)"
  "cube_root_frac 64 37 = (of_int 0x3550c7dc3d5ffb4e2 :: u64)"
  "cube_root_frac 64 41 = (of_int 0x372be5d74f27b896f :: u64)"
  "cube_root_frac 64 43 = (of_int 0x380deb1fe3b1696b1 :: u64)"
  "cube_root_frac 64 47 = (of_int 0x39bdc06a725c71235 :: u64)"
  "cube_root_frac 64 53 = (of_int 0x3c19bf174cf692694 :: u64)"
  "cube_root_frac 64 59 = (of_int 0x3e49b69c19ef14ad2 :: u64)"
  "cube_root_frac 64 61 = (of_int 0x3efbe4786384f25e3 :: u64)"
  "cube_root_frac 64 67 = (of_int 0x40fc19dc68b8cd5b5 :: u64)"
  "cube_root_frac 64 71 = (of_int 0x4240ca1cc77ac9c65 :: u64)"
  "cube_root_frac 64 73 = (of_int 0x42de92c6f592b0275 :: u64)"
  "cube_root_frac 64 79 = (of_int 0x44a7484aa6ea6e483 :: u64)"
  "cube_root_frac 64 83 = (of_int 0x45cb0a9dcbd41fbd4 :: u64)"
  "cube_root_frac 64 89 = (of_int 0x476f988da831153b5 :: u64)"
  "cube_root_frac 64 97 = (of_int 0x4983e5152ee66dfab :: u64)"
  "cube_root_frac 64 101 = (of_int 0x4a831c66d2db43210 :: u64)"
  "cube_root_frac 64 103 = (of_int 0x4b00327c898fb213f :: u64)"
  "cube_root_frac 64 107 = (of_int 0x4bf597fc7beef0ee4 :: u64)"
  "cube_root_frac 64 109 = (of_int 0x4c6e00bf33da88fc2 :: u64)"
  "cube_root_frac 64 113 = (of_int 0x4d5a79147930aa725 :: u64)"
  "cube_root_frac 64 127 = (of_int 0x506ca6351e003826f :: u64)"
  "cube_root_frac 64 131 = (of_int 0x5142929670a0e6e70 :: u64)"
  "cube_root_frac 64 137 = (of_int 0x527b70a8546d22ffc :: u64)"
  "cube_root_frac 64 139 = (of_int 0x52e1b21385c26c926 :: u64)"
  "cube_root_frac 64 149 = (of_int 0x54d2c6dfc5ac42aed :: u64)"
  "cube_root_frac 64 151 = (of_int 0x553380d139d95b3df :: u64)"
  "cube_root_frac 64 157 = (of_int 0x5650a73548baf63de :: u64)"
  "cube_root_frac 64 163 = (of_int 0x5766a0abb3c77b2a8 :: u64)"
  "cube_root_frac 64 167 = (of_int 0x581c2c92e47edaee6 :: u64)"
  "cube_root_frac 64 173 = (of_int 0x592722c851482353b :: u64)"
  "cube_root_frac 64 179 = (of_int 0x5a2bfe8a14cf10364 :: u64)"
  "cube_root_frac 64 181 = (of_int 0x5a81a664bbc423001 :: u64)"
  "cube_root_frac 64 191 = (of_int 0x5c24b8b70d0f89791 :: u64)"
  "cube_root_frac 64 193 = (of_int 0x5c76c51a30654be30 :: u64)"
  "cube_root_frac 64 197 = (of_int 0x5d192e819d6ef5218 :: u64)"
  "cube_root_frac 64 199 = (of_int 0x5d69906245565a910 :: u64)"
  "cube_root_frac 64 211 = (of_int 0x5f40e35855771202a :: u64)"
  "cube_root_frac 64 223 = (of_int 0x6106aa07032bbd1b8 :: u64)"
  "cube_root_frac 64 227 = (of_int 0x619a4c116b8d2d0c8 :: u64)"
  "cube_root_frac 64 229 = (of_int 0x61e376c085141ab53 :: u64)"
  "cube_root_frac 64 233 = (of_int 0x62748774cdf8eeb99 :: u64)"
  "cube_root_frac 64 239 = (of_int 0x634b0bcb5e19b48a8 :: u64)"
  "cube_root_frac 64 241 = (of_int 0x6391c0cb3c5c95a63 :: u64)"
  "cube_root_frac 64 251 = (of_int 0x64ed8aa4ae3418acb :: u64)"
  "cube_root_frac 64 257 = (of_int 0x65b9cca4f7763e373 :: u64)"
  "cube_root_frac 64 263 = (of_int 0x6682e6ff3d6b2b8a3 :: u64)"
  "cube_root_frac 64 269 = (of_int 0x6748f82ee5defb2fc :: u64)"
  "cube_root_frac 64 271 = (of_int 0x678a5636f43172f60 :: u64)"
  "cube_root_frac 64 277 = (of_int 0x684c87814a1f0ab72 :: u64)"
  "cube_root_frac 64 281 = (of_int 0x68cc702081a6439ec :: u64)"
  "cube_root_frac 64 283 = (of_int 0x690befffa23631e28 :: u64)"
  "cube_root_frac 64 293 = (of_int 0x6a4506cebde82bde9 :: u64)"
  "cube_root_frac 64 307 = (of_int 0x6bef9a3f7b2c67915 :: u64)"
  "cube_root_frac 64 311 = (of_int 0x6c67178f2e372532b :: u64)"
  "cube_root_frac 64 313 = (of_int 0x6ca273eceea26619c :: u64)"
  "cube_root_frac 64 317 = (of_int 0x6d186b8c721c0c207 :: u64)"
  "cube_root_frac 64 331 = (of_int 0x6eada7dd6cde0eb1e :: u64)"
  "cube_root_frac 64 337 = (of_int 0x6f57d4f7fee6ed178 :: u64)"
  "cube_root_frac 64 347 = (of_int 0x706f067aa72176fba :: u64)"
  "cube_root_frac 64 349 = (of_int 0x70a637dc5a2c898a6 :: u64)"
  "cube_root_frac 64 353 = (of_int 0x7113f9804bef90dae :: u64)"
  "cube_root_frac 64 359 = (of_int 0x71b710b35131c471b :: u64)"
  "cube_root_frac 64 367 = (of_int 0x728db77f523047d84 :: u64)"
  "cube_root_frac 64 373 = (of_int 0x732caab7b40c72493 :: u64)"
  "cube_root_frac 64 379 = (of_int 0x73c9ebe0a15c9bebc :: u64)"
  "cube_root_frac 64 383 = (of_int 0x7431d67c49c100d4c :: u64)"
  "cube_root_frac 64 389 = (of_int 0x74cc5d4becb3e42b6 :: u64)"
  "cube_root_frac 64 397 = (of_int 0x7597f299cfc657e2a :: u64)"
  "cube_root_frac 64 401 = (of_int 0x75fcb6fab3ad6faec :: u64)"
  "cube_root_frac 64 409 = (of_int 0x76c44198c4a475817 :: u64)"
  by (rule cube_root_frac_eq; simp)+

lemma sha512_K_nth:
  "sha512_K ! 0 = 0x428a2f98d728ae22"
  "sha512_K ! (Suc 0) = 0x7137449123ef65cd"
  "sha512_K ! 2 = 0xb5c0fbcfec4d3b2f"
  "sha512_K ! 3 = 0xe9b5dba58189dbbc"
  "sha512_K ! 4 = 0x3956c25bf348b538"
  "sha512_K ! 5 = 0x59f111f1b605d019"
  "sha512_K ! 6 = 0x923f82a4af194f9b"
  "sha512_K ! 7 = 0xab1c5ed5da6d8118"
  "sha512_K ! 8 = 0xd807aa98a3030242"
  "sha512_K ! 9 = 0x12835b0145706fbe"
  "sha512_K ! 10 = 0x243185be4ee4b28c"
  "sha512_K ! 11 = 0x550c7dc3d5ffb4e2"
  "sha512_K ! 12 = 0x72be5d74f27b896f"
  "sha512_K ! 13 = 0x80deb1fe3b1696b1"
  "sha512_K ! 14 = 0x9bdc06a725c71235"
  "sha512_K ! 15 = 0xc19bf174cf692694"
  "sha512_K ! 16 = 0xe49b69c19ef14ad2"
  "sha512_K ! 17 = 0xefbe4786384f25e3"
  "sha512_K ! 18 = 0xfc19dc68b8cd5b5"
  "sha512_K ! 19 = 0x240ca1cc77ac9c65"
  "sha512_K ! 20 = 0x2de92c6f592b0275"
  "sha512_K ! 21 = 0x4a7484aa6ea6e483"
  "sha512_K ! 22 = 0x5cb0a9dcbd41fbd4"
  "sha512_K ! 23 = 0x76f988da831153b5"
  "sha512_K ! 24 = 0x983e5152ee66dfab"
  "sha512_K ! 25 = 0xa831c66d2db43210"
  "sha512_K ! 26 = 0xb00327c898fb213f"
  "sha512_K ! 27 = 0xbf597fc7beef0ee4"
  "sha512_K ! 28 = 0xc6e00bf33da88fc2"
  "sha512_K ! 29 = 0xd5a79147930aa725"
  "sha512_K ! 30 = 0x6ca6351e003826f"
  "sha512_K ! 31 = 0x142929670a0e6e70"
  "sha512_K ! 32 = 0x27b70a8546d22ffc"
  "sha512_K ! 33 = 0x2e1b21385c26c926"
  "sha512_K ! 34 = 0x4d2c6dfc5ac42aed"
  "sha512_K ! 35 = 0x53380d139d95b3df"
  "sha512_K ! 36 = 0x650a73548baf63de"
  "sha512_K ! 37 = 0x766a0abb3c77b2a8"
  "sha512_K ! 38 = 0x81c2c92e47edaee6"
  "sha512_K ! 39 = 0x92722c851482353b"
  "sha512_K ! 40 = 0xa2bfe8a14cf10364"
  "sha512_K ! 41 = 0xa81a664bbc423001"
  "sha512_K ! 42 = 0xc24b8b70d0f89791"
  "sha512_K ! 43 = 0xc76c51a30654be30"
  "sha512_K ! 44 = 0xd192e819d6ef5218"
  "sha512_K ! 45 = 0xd69906245565a910"
  "sha512_K ! 46 = 0xf40e35855771202a"
  "sha512_K ! 47 = 0x106aa07032bbd1b8"
  "sha512_K ! 48 = 0x19a4c116b8d2d0c8"
  "sha512_K ! 49 = 0x1e376c085141ab53"
  "sha512_K ! 50 = 0x2748774cdf8eeb99"
  "sha512_K ! 51 = 0x34b0bcb5e19b48a8"
  "sha512_K ! 52 = 0x391c0cb3c5c95a63"
  "sha512_K ! 53 = 0x4ed8aa4ae3418acb"
  "sha512_K ! 54 = 0x5b9cca4f7763e373"
  "sha512_K ! 55 = 0x682e6ff3d6b2b8a3"
  "sha512_K ! 56 = 0x748f82ee5defb2fc"
  "sha512_K ! 57 = 0x78a5636f43172f60"
  "sha512_K ! 58 = 0x84c87814a1f0ab72"
  "sha512_K ! 59 = 0x8cc702081a6439ec"
  "sha512_K ! 60 = 0x90befffa23631e28"
  "sha512_K ! 61 = 0xa4506cebde82bde9"
  "sha512_K ! 62 = 0xbef9a3f7b2c67915"
  "sha512_K ! 63 = 0xc67178f2e372532b"
  "sha512_K ! 64 = 0xca273eceea26619c"
  "sha512_K ! 65 = 0xd186b8c721c0c207"
  "sha512_K ! 66 = 0xeada7dd6cde0eb1e"
  "sha512_K ! 67 = 0xf57d4f7fee6ed178"
  "sha512_K ! 68 = 0x6f067aa72176fba"
  "sha512_K ! 69 = 0xa637dc5a2c898a6"
  "sha512_K ! 70 = 0x113f9804bef90dae"
  "sha512_K ! 71 = 0x1b710b35131c471b"
  "sha512_K ! 72 = 0x28db77f523047d84"
  "sha512_K ! 73 = 0x32caab7b40c72493"
  "sha512_K ! 74 = 0x3c9ebe0a15c9bebc"
  "sha512_K ! 75 = 0x431d67c49c100d4c"
  "sha512_K ! 76 = 0x4cc5d4becb3e42b6"
  "sha512_K ! 77 = 0x597f299cfc657e2a"
  "sha512_K ! 78 = 0x5fcb6fab3ad6faec"
  "sha512_K ! 79 = 0x6c44198c4a475817"
  by (simp_all add: sha512_K_def sha512_cube_roots)

definition sha512_ch_spec :: "u64 \<Rightarrow> u64 \<Rightarrow> u64 \<Rightarrow> u64" where
  "sha512_ch_spec x y z = (x AND y) XOR (NOT x AND z)"

definition sha512_maj_spec :: "u64 \<Rightarrow> u64 \<Rightarrow> u64 \<Rightarrow> u64" where
  "sha512_maj_spec x y z = (x AND y) XOR (x AND z) XOR (y AND z)"

fun sha512_step :: "u64_8 \<Rightarrow> u64 \<times> u64 \<Rightarrow> u64_8" where
  "sha512_step (a, b, c, d, e, f, g, h) (k, w) =
     (let t1 = h + (word_rotr 14 e XOR word_rotr 18 e XOR word_rotr 41 e) + sha512_ch_spec e f g + k + w;
          t2 = (word_rotr 28 a XOR word_rotr 34 a XOR word_rotr 39 a) + sha512_maj_spec a b c
      in (t1 + t2, a, b, c, d + t1, e, f, g))"

fun sha512_W :: "(nat \<Rightarrow> u64) \<Rightarrow> nat \<Rightarrow> u64" where
  "sha512_W M t =
     (if t < 16 then M t
      else let x = sha512_W M (t - 2); s1 = word_rotr 19 x XOR word_rotr 61 x XOR drop_bit 6 x;
               x = sha512_W M (t - 15); s0 = word_rotr 1 x XOR word_rotr 8 x XOR drop_bit 7 x
           in sha512_W M (t - 16) + (s1 + sha512_W M (t - 7) + s0))"

definition sha512_compress :: "u64 list \<Rightarrow> bytes \<Rightarrow> u64 list" where
  "sha512_compress s block =
     (let M = (\<lambda>t. ReadBE64 (drop (8 * t) block));
          (a, b, c, d, e, f, g, h) = foldl sha512_step (s ! 0, s ! 1, s ! 2, s ! 3, s ! 4, s ! 5, s ! 6, s ! 7)
            (map (\<lambda>t. (sha512_K ! t, sha512_W M t)) [0..<80])
      in [s ! 0 + a, s ! 1 + b, s ! 2 + c, s ! 3 + d, s ! 4 + e, s ! 5 + f, s ! 6 + g, s ! 7 + h])"

definition sha512 :: "bytes \<Rightarrow> bytes" where
  "sha512 m =
     concat (map WriteBE64
       (md_hash 128 sha512_compress sha512_Initialize
          (replicate 8 0 @ WriteBE64 (of_nat (8 * length m))) m))"

declare sha512_W.simps [simp del]

section \<open>The unrolled rounds follow the reference\<close>

lemma sha512_functions:
  "sha512_Sigma0 x = word_rotr 28 x XOR word_rotr 34 x XOR word_rotr 39 x"
  "sha512_Sigma1 x = word_rotr 14 x XOR word_rotr 18 x XOR word_rotr 41 x"
  "sha512_sigma0 x = word_rotr 1 x XOR word_rotr 8 x XOR drop_bit 7 x"
  "sha512_sigma1 x = word_rotr 19 x XOR word_rotr 61 x XOR drop_bit 6 x"
  "sha512_Ch x y z = sha512_ch_spec x y z"
  "sha512_Maj x y z = sha512_maj_spec x y z"
  by (simp_all add: sha512_Sigma0_def sha512_Sigma1_def sha512_sigma0_def sha512_sigma1_def rotr_shifts)
    (auto intro!: bit_word_eqI simp: sha512_Ch_def sha512_Maj_def sha512_ch_spec_def sha512_maj_spec_def bit_simps)

lemma sha512_step_Round:
  "sha512_step (a, b, c, d, e, f, g, h) (k, w) =
     (case sha512_Round a b c d e f g h k w of (d', h') \<Rightarrow> (h', a, b, c, d', e, f, g))"
  by (simp add: sha512_Round_def sha512_functions Let_def)

lemma sha512_step_case:
  "sha512_step (case p of (x, y) \<Rightarrow> f x y) kw = (case p of (x, y) \<Rightarrow> sha512_step (f x y) kw)"
  by (cases p) simp

lemma sha512_W_next:
  assumes "j = i + 14" "k = i + 9" "l = i + 1"
  shows "sha512_W M i + (sha512_sigma1 (sha512_W M j) + sha512_W M k + sha512_sigma0 (sha512_W M l)) = sha512_W M (i + 16)"
    and "sha512_W M i + sha512_sigma1 (sha512_W M j) + sha512_W M k + sha512_sigma0 (sha512_W M l) = sha512_W M (i + 16)"
  unfolding assms by (subst (5) sha512_W.simps, simp add: sha512_functions Let_def ac_simps)+

lemma sha512_W_block: "t < 16 \<Longrightarrow> sha512_W M t = M t"
  by (simp add: sha512_W.simps)

declare sha512_step.simps [simp del]

lemmas sha512_unroll = sha512_W_next sha512_step_Round sha512_step_case case_prod_case_prod Let_def


lemma sha512_rounds0_eq:
  assumes "M = (\<lambda>t. ReadBE64 (drop (8 * t) chunk))"
  shows "sha512_rounds0 a b c d e f g h chunk =
     (case foldl sha512_step (a, b, c, d, e, f, g, h) (map (\<lambda>t. (sha512_K ! t, sha512_W M t)) [0..<16]) of
        (a, b, c, d, e, f, g, h) \<Rightarrow> (a, b, c, d, e, f, g, h, sha512_W M 0, sha512_W M 1, sha512_W M 2, sha512_W M 3, sha512_W M 4, sha512_W M 5, sha512_W M 6, sha512_W M 7, sha512_W M 8, sha512_W M 9, sha512_W M 10, sha512_W M 11, sha512_W M 12, sha512_W M 13, sha512_W M 14, sha512_W M 15))"
  by (simp add: sha512_rounds0_def sha512_unroll sha512_W_block assms sha512_K_nth upt_0_16)

lemma sha512_rounds1_eq:
  "sha512_rounds1 a b c d e f g h (sha512_W M 0) (sha512_W M 1) (sha512_W M 2) (sha512_W M 3) (sha512_W M 4) (sha512_W M 5) (sha512_W M 6) (sha512_W M 7) (sha512_W M 8) (sha512_W M 9) (sha512_W M 10) (sha512_W M 11) (sha512_W M 12) (sha512_W M 13) (sha512_W M 14) (sha512_W M 15) =
     (case foldl sha512_step (a, b, c, d, e, f, g, h) (map (\<lambda>t. (sha512_K ! t, sha512_W M t)) [16..<32]) of
        (a, b, c, d, e, f, g, h) \<Rightarrow> (a, b, c, d, e, f, g, h, sha512_W M 16, sha512_W M 17, sha512_W M 18, sha512_W M 19, sha512_W M 20, sha512_W M 21, sha512_W M 22, sha512_W M 23, sha512_W M 24, sha512_W M 25, sha512_W M 26, sha512_W M 27, sha512_W M 28, sha512_W M 29, sha512_W M 30, sha512_W M 31))"
  by (simp add: sha512_rounds1_def sha512_unroll sha512_K_nth upt_rec_numeral)

lemma sha512_rounds2_eq:
  "sha512_rounds2 a b c d e f g h (sha512_W M 16) (sha512_W M 17) (sha512_W M 18) (sha512_W M 19) (sha512_W M 20) (sha512_W M 21) (sha512_W M 22) (sha512_W M 23) (sha512_W M 24) (sha512_W M 25) (sha512_W M 26) (sha512_W M 27) (sha512_W M 28) (sha512_W M 29) (sha512_W M 30) (sha512_W M 31) =
     (case foldl sha512_step (a, b, c, d, e, f, g, h) (map (\<lambda>t. (sha512_K ! t, sha512_W M t)) [32..<48]) of
        (a, b, c, d, e, f, g, h) \<Rightarrow> (a, b, c, d, e, f, g, h, sha512_W M 32, sha512_W M 33, sha512_W M 34, sha512_W M 35, sha512_W M 36, sha512_W M 37, sha512_W M 38, sha512_W M 39, sha512_W M 40, sha512_W M 41, sha512_W M 42, sha512_W M 43, sha512_W M 44, sha512_W M 45, sha512_W M 46, sha512_W M 47))"
  by (simp add: sha512_rounds2_def sha512_unroll sha512_K_nth upt_rec_numeral)

lemma sha512_rounds3_eq:
  "sha512_rounds3 a b c d e f g h (sha512_W M 32) (sha512_W M 33) (sha512_W M 34) (sha512_W M 35) (sha512_W M 36) (sha512_W M 37) (sha512_W M 38) (sha512_W M 39) (sha512_W M 40) (sha512_W M 41) (sha512_W M 42) (sha512_W M 43) (sha512_W M 44) (sha512_W M 45) (sha512_W M 46) (sha512_W M 47) =
     (case foldl sha512_step (a, b, c, d, e, f, g, h) (map (\<lambda>t. (sha512_K ! t, sha512_W M t)) [48..<64]) of
        (a, b, c, d, e, f, g, h) \<Rightarrow> (a, b, c, d, e, f, g, h, sha512_W M 48, sha512_W M 49, sha512_W M 50, sha512_W M 51, sha512_W M 52, sha512_W M 53, sha512_W M 54, sha512_W M 55, sha512_W M 56, sha512_W M 57, sha512_W M 58, sha512_W M 59, sha512_W M 60, sha512_W M 61, sha512_W M 62, sha512_W M 63))"
  by (simp add: sha512_rounds3_def sha512_unroll sha512_K_nth upt_rec_numeral)

lemma sha512_rounds4_eq:
  "sha512_rounds4 a b c d e f g h (sha512_W M 48) (sha512_W M 49) (sha512_W M 50) (sha512_W M 51) (sha512_W M 52) (sha512_W M 53) (sha512_W M 54) (sha512_W M 55) (sha512_W M 56) (sha512_W M 57) (sha512_W M 58) (sha512_W M 59) (sha512_W M 60) (sha512_W M 61) (sha512_W M 62) (sha512_W M 63) =
     (case foldl sha512_step (a, b, c, d, e, f, g, h) (map (\<lambda>t. (sha512_K ! t, sha512_W M t)) [64..<80]) of
        (a, b, c, d, e, f, g, h) \<Rightarrow> (a, b, c, d, e, f, g, h))"
  by (simp add: sha512_rounds4_def sha512_unroll sha512_K_nth upt_rec_numeral)

lemma sha512_Transform_eq: "sha512_Transform s chunk = sha512_compress s chunk"
proof -
  let ?M = "\<lambda>t. ReadBE64 (drop (8 * t) chunk)"
  let ?f = "\<lambda>t. (sha512_K ! t, sha512_W ?M t)"
  have u: "[0..<80] = [0..<16] @ [16..<32] @ [32..<48] @ [48..<64] @ [64..<80]"
    using upt_split16 [of 0 16] upt_split16 [of 0 32] upt_split16 [of 0 48] upt_split16 [of 0 64] by simp
  obtain a0 b0 c0 d0 e0 f0 g0 h0 where s0:
    "foldl sha512_step (s ! 0, s ! 1, s ! 2, s ! 3, s ! 4, s ! 5, s ! 6, s ! 7) (map ?f [0..<16]) = (a0, b0, c0, d0, e0, f0, g0, h0)"
    by (rule prod_cases8)
  obtain a1 b1 c1 d1 e1 f1 g1 h1 where s1:
    "foldl sha512_step (a0, b0, c0, d0, e0, f0, g0, h0) (map ?f [16..<32]) = (a1, b1, c1, d1, e1, f1, g1, h1)"
    by (rule prod_cases8)
  obtain a2 b2 c2 d2 e2 f2 g2 h2 where s2:
    "foldl sha512_step (a1, b1, c1, d1, e1, f1, g1, h1) (map ?f [32..<48]) = (a2, b2, c2, d2, e2, f2, g2, h2)"
    by (rule prod_cases8)
  obtain a3 b3 c3 d3 e3 f3 g3 h3 where s3:
    "foldl sha512_step (a2, b2, c2, d2, e2, f2, g2, h2) (map ?f [48..<64]) = (a3, b3, c3, d3, e3, f3, g3, h3)"
    by (rule prod_cases8)
  obtain a4 b4 c4 d4 e4 f4 g4 h4 where s4:
    "foldl sha512_step (a3, b3, c3, d3, e3, f3, g3, h3) (map ?f [64..<80]) = (a4, b4, c4, d4, e4, f4, g4, h4)"
    by (rule prod_cases8)
  show ?thesis
    unfolding sha512_Transform_def sha512_compress_def Let_def u map_append foldl_append s0 s1 s2 s3 s4
      sha512_rounds0_eq [OF refl] sha512_rounds1_eq sha512_rounds2_eq sha512_rounds3_eq sha512_rounds4_eq prod.case
    by (rule refl)
qed

interpretation sha512: block_hash 128 sha512_Transform
proof
  show "(0 :: nat) < 128" by simp
  show "(128 :: nat) dvd 2 ^ 64" by simp
  show "sha512_Transform s (take 128 d) = sha512_Transform s d" if "128 \<le> length d" for s d
  proof -
    have r: "ReadBE64 (drop k (take 128 d)) = ReadBE64 (drop k d)" if "k \<le> 120" for k
      using that \<open>128 \<le> length d\<close> by simp
    show ?thesis
      by (simp only: sha512_Transform_def sha512_rounds0_def r numeral_le_iff semiring_norm le0)
  qed
qed

lemma length_sha512_Transform [simp]: "length (sha512_Transform s chunk) = 8"
  unfolding sha512_Transform_eq sha512_compress_def Let_def by (simp split: prod.split)

lemma length_foldl_sha512: "length s = 8 \<Longrightarrow> length (foldl sha512_Transform s bs) = 8"
  by (induction bs arbitrary: s) simp_all

abbreviation CSHA512_rep :: "CSHA512 \<Rightarrow> bytes \<Rightarrow> bool" where
  "CSHA512_rep \<equiv> ctx_rep 128 sha512_Transform sha512_Initialize"

lemma length_sha512 [simp]: "length (sha512 m) = 64"
proof -
  have T: "sha512_Transform = sha512_compress" by (intro ext) (rule sha512_Transform_eq)
  have "length (md_hash 128 sha512_Transform sha512_Initialize z m) = 8" for z
    by (simp add: md_hash_def length_foldl_sha512 sha512_Initialize_def)
  moreover have "length (concat (map WriteBE64 xs)) = 64 div 8 * length xs" for xs
    by (induction xs) (simp_all add: WriteBE64_def)
  ultimately show ?thesis by (simp add: sha512_def T [symmetric])
qed

lemma CSHA512_ctor_rep: "CSHA512_rep CSHA512_ctor []"
  unfolding CSHA512_ctor_def by (rule ctx_rep_init) simp_all

lemma CSHA512_Write_rep: "CSHA512_rep ctx m \<Longrightarrow> CSHA512_rep (CSHA512_Write ctx d) (m @ d)"
  unfolding CSHA512_Write_def by (rule sha512.write_rep)

lemma CSHA512_Reset_rep: "CSHA512_rep ctx m \<Longrightarrow> CSHA512_rep (CSHA512_Reset ctx) []"
  by (simp add: CSHA512_Reset_def ctx_rep_def)

lemma CSHA512_Finalize_ctx: "CSHA512_rep ctx m \<Longrightarrow> \<exists>m'. CSHA512_rep (fst (CSHA512_Finalize ctx)) m'"
  unfolding CSHA512_Finalize_def Let_def fst_conv by (rule exI) (rule CSHA512_Write_rep [OF CSHA512_Write_rep])

lemma CSHA512_Finalize_rep:
  assumes rep: "CSHA512_rep ctx m"
  shows "snd (CSHA512_Finalize ctx) = sha512 m"
proof -
  have T: "sha512_Transform = sha512_compress" by (intro ext) (rule sha512_Transform_eq)
  have sz: "push_bit 3 (ctx_bytes ctx) = of_nat (8 * length m)"
    using rep by (simp add: ctx_rep_def push_bit_eq_mult)
  have list8: "[0, 1, 2, 3, 4, 5, 6, 7] = [0 :: nat..<8]" by code_simp
  let ?sz = "replicate 8 0 @ WriteBE64 (of_nat (8 * length m))"
  have "length ?sz < 128" by (simp add: WriteBE64_def)
  from sha512.pad_rep [OF rep this]
  have "ctx_s (hash_Write 128 sha512_Transform (hash_Write 128 sha512_Transform ctx
      (take (1 + ((239 - unat (ctx_bytes ctx) mod 128) mod 128)) (0x80 # replicate 127 0))) ?sz)
    = md_hash 128 sha512_Transform sha512_Initialize ?sz m" (is "?s = ?h")
    by (simp add: WriteBE64_def)
  note s = this
  have "length ?h = 8"
    by (simp add: md_hash_def length_foldl_sha512 sha512_Initialize_def)
  note h = map_nth_upt [OF this, of WriteBE64]
  show ?thesis
    unfolding CSHA512_Finalize_def CSHA512_Write_def [symmetric] Let_def sha512_def T [symmetric] sz list8
      s [folded CSHA512_Write_def] h
    by simp
qed

text \<open>
  Hashing a message with the class CSHA512, in whatever pieces it is written, gives the
  SHA-512 digest of the concatenation: the padded message is cut into blocks and each is
  compressed with the standard's rotating registers and recursive message schedule.
\<close>

lemma CSHA512_correct:
  "snd (CSHA512_Finalize (foldl CSHA512_Write CSHA512_ctor ds)) = sha512 (concat ds)"
  using CSHA512_Finalize_rep [OF sha512.writes_rep [OF CSHA512_ctor_rep]]
  by (simp add: CSHA512_Write_def)

end
