(* ===== verification/Sha1.thy ===== *)
theory Sha1
  imports Crypto_Common
begin

text \<open>
  SHA-1 of \<^verbatim>\<open>src/src/crypto/sha1.cpp\<close>: the unrolled transform against the standard's rotating
  registers and recursive schedule, and the class \<open>CSHA1\<close> against the digest of the whole
  message.
\<close>

section \<open>The transform\<close>

type_synonym u32_5 = "u32 \<times> u32 \<times> u32 \<times> u32 \<times> u32"
type_synonym u32_21 = "u32 \<times> u32 \<times> u32 \<times> u32 \<times> u32 \<times> u32 \<times> u32 \<times> u32 \<times> u32 \<times> u32 \<times> u32 \<times> u32 \<times> u32 \<times> u32 \<times> u32 \<times> u32 \<times> u32_5"

definition sha1_Round ::
  "u32 \<Rightarrow> u32 \<Rightarrow> u32 \<Rightarrow> u32 \<Rightarrow> u32 \<Rightarrow> u32 \<Rightarrow> u32 \<Rightarrow> u32 \<Rightarrow> u32 \<times> u32" where
  "sha1_Round a b c d e f k w =
     (push_bit 30 b OR drop_bit 2 b, e + ((push_bit 5 a OR drop_bit 27 a) + f + k + w))"

definition sha1_f1 :: "u32 \<Rightarrow> u32 \<Rightarrow> u32 \<Rightarrow> u32" where
  "sha1_f1 b c d = d XOR (b AND (c XOR d))"

definition sha1_f2 :: "u32 \<Rightarrow> u32 \<Rightarrow> u32 \<Rightarrow> u32" where
  "sha1_f2 b c d = b XOR c XOR d"

definition sha1_f3 :: "u32 \<Rightarrow> u32 \<Rightarrow> u32 \<Rightarrow> u32" where
  "sha1_f3 b c d = (b AND c) OR (d AND (b OR c))"

definition sha1_left :: "u32 \<Rightarrow> u32" where
  "sha1_left x = push_bit 1 x OR drop_bit 31 x"

definition sha1_Initialize :: "u32 list" where
  "sha1_Initialize = [0x67452301, 0xEFCDAB89, 0x98BADCFE, 0x10325476, 0xC3D2E1F0]"

definition sha1_k1 :: u32 where "sha1_k1 = 0x5A827999"
definition sha1_k2 :: u32 where "sha1_k2 = 0x6ED9EBA1"
definition sha1_k3 :: u32 where "sha1_k3 = 0x8F1BBCDC"
definition sha1_k4 :: u32 where "sha1_k4 = 0xCA62C1D6"

definition sha1_rounds0 ::
  "u32 \<Rightarrow> u32 \<Rightarrow> u32 \<Rightarrow> u32 \<Rightarrow> u32 \<Rightarrow> bytes \<Rightarrow> u32_21" where
  "sha1_rounds0 a b c d e chunk =
     (let w0 = ReadBE32 (drop 0 chunk); (b, e) = sha1_Round a b c d e (sha1_f1 b c d) sha1_k1 w0;
          w1 = ReadBE32 (drop 4 chunk); (a, d) = sha1_Round e a b c d (sha1_f1 a b c) sha1_k1 w1;
          w2 = ReadBE32 (drop 8 chunk); (e, c) = sha1_Round d e a b c (sha1_f1 e a b) sha1_k1 w2;
          w3 = ReadBE32 (drop 12 chunk); (d, b) = sha1_Round c d e a b (sha1_f1 d e a) sha1_k1 w3;
          w4 = ReadBE32 (drop 16 chunk); (c, a) = sha1_Round b c d e a (sha1_f1 c d e) sha1_k1 w4;
          w5 = ReadBE32 (drop 20 chunk); (b, e) = sha1_Round a b c d e (sha1_f1 b c d) sha1_k1 w5;
          w6 = ReadBE32 (drop 24 chunk); (a, d) = sha1_Round e a b c d (sha1_f1 a b c) sha1_k1 w6;
          w7 = ReadBE32 (drop 28 chunk); (e, c) = sha1_Round d e a b c (sha1_f1 e a b) sha1_k1 w7;
          w8 = ReadBE32 (drop 32 chunk); (d, b) = sha1_Round c d e a b (sha1_f1 d e a) sha1_k1 w8;
          w9 = ReadBE32 (drop 36 chunk); (c, a) = sha1_Round b c d e a (sha1_f1 c d e) sha1_k1 w9;
          w10 = ReadBE32 (drop 40 chunk); (b, e) = sha1_Round a b c d e (sha1_f1 b c d) sha1_k1 w10;
          w11 = ReadBE32 (drop 44 chunk); (a, d) = sha1_Round e a b c d (sha1_f1 a b c) sha1_k1 w11;
          w12 = ReadBE32 (drop 48 chunk); (e, c) = sha1_Round d e a b c (sha1_f1 e a b) sha1_k1 w12;
          w13 = ReadBE32 (drop 52 chunk); (d, b) = sha1_Round c d e a b (sha1_f1 d e a) sha1_k1 w13;
          w14 = ReadBE32 (drop 56 chunk); (c, a) = sha1_Round b c d e a (sha1_f1 c d e) sha1_k1 w14;
          w15 = ReadBE32 (drop 60 chunk); (b, e) = sha1_Round a b c d e (sha1_f1 b c d) sha1_k1 w15
      in (a, b, c, d, e, w0, w1, w2, w3, w4, w5, w6, w7, w8, w9, w10, w11, w12, w13, w14, w15))"

definition sha1_rounds1 ::
  "u32 \<Rightarrow> u32 \<Rightarrow> u32 \<Rightarrow> u32 \<Rightarrow> u32 \<Rightarrow> u32 \<Rightarrow> u32 \<Rightarrow> u32 \<Rightarrow> u32 \<Rightarrow> u32 \<Rightarrow> u32 \<Rightarrow> u32 \<Rightarrow> u32 \<Rightarrow> u32 \<Rightarrow> u32 \<Rightarrow> u32 \<Rightarrow> u32 \<Rightarrow> u32 \<Rightarrow> u32 \<Rightarrow> u32 \<Rightarrow> u32 \<Rightarrow> u32_21" where
  "sha1_rounds1 a b c d e w0 w1 w2 w3 w4 w5 w6 w7 w8 w9 w10 w11 w12 w13 w14 w15 =
     (let w0 = sha1_left (w0 XOR w13 XOR w8 XOR w2); (a, d) = sha1_Round e a b c d (sha1_f1 a b c) sha1_k1 w0;
          w1 = sha1_left (w1 XOR w14 XOR w9 XOR w3); (e, c) = sha1_Round d e a b c (sha1_f1 e a b) sha1_k1 w1;
          w2 = sha1_left (w2 XOR w15 XOR w10 XOR w4); (d, b) = sha1_Round c d e a b (sha1_f1 d e a) sha1_k1 w2;
          w3 = sha1_left (w3 XOR w0 XOR w11 XOR w5); (c, a) = sha1_Round b c d e a (sha1_f1 c d e) sha1_k1 w3;
          w4 = sha1_left (w4 XOR w1 XOR w12 XOR w6); (b, e) = sha1_Round a b c d e (sha1_f2 b c d) sha1_k2 w4;
          w5 = sha1_left (w5 XOR w2 XOR w13 XOR w7); (a, d) = sha1_Round e a b c d (sha1_f2 a b c) sha1_k2 w5;
          w6 = sha1_left (w6 XOR w3 XOR w14 XOR w8); (e, c) = sha1_Round d e a b c (sha1_f2 e a b) sha1_k2 w6;
          w7 = sha1_left (w7 XOR w4 XOR w15 XOR w9); (d, b) = sha1_Round c d e a b (sha1_f2 d e a) sha1_k2 w7;
          w8 = sha1_left (w8 XOR w5 XOR w0 XOR w10); (c, a) = sha1_Round b c d e a (sha1_f2 c d e) sha1_k2 w8;
          w9 = sha1_left (w9 XOR w6 XOR w1 XOR w11); (b, e) = sha1_Round a b c d e (sha1_f2 b c d) sha1_k2 w9;
          w10 = sha1_left (w10 XOR w7 XOR w2 XOR w12); (a, d) = sha1_Round e a b c d (sha1_f2 a b c) sha1_k2 w10;
          w11 = sha1_left (w11 XOR w8 XOR w3 XOR w13); (e, c) = sha1_Round d e a b c (sha1_f2 e a b) sha1_k2 w11;
          w12 = sha1_left (w12 XOR w9 XOR w4 XOR w14); (d, b) = sha1_Round c d e a b (sha1_f2 d e a) sha1_k2 w12;
          w13 = sha1_left (w13 XOR w10 XOR w5 XOR w15); (c, a) = sha1_Round b c d e a (sha1_f2 c d e) sha1_k2 w13;
          w14 = sha1_left (w14 XOR w11 XOR w6 XOR w0); (b, e) = sha1_Round a b c d e (sha1_f2 b c d) sha1_k2 w14;
          w15 = sha1_left (w15 XOR w12 XOR w7 XOR w1); (a, d) = sha1_Round e a b c d (sha1_f2 a b c) sha1_k2 w15
      in (a, b, c, d, e, w0, w1, w2, w3, w4, w5, w6, w7, w8, w9, w10, w11, w12, w13, w14, w15))"

definition sha1_rounds2 ::
  "u32 \<Rightarrow> u32 \<Rightarrow> u32 \<Rightarrow> u32 \<Rightarrow> u32 \<Rightarrow> u32 \<Rightarrow> u32 \<Rightarrow> u32 \<Rightarrow> u32 \<Rightarrow> u32 \<Rightarrow> u32 \<Rightarrow> u32 \<Rightarrow> u32 \<Rightarrow> u32 \<Rightarrow> u32 \<Rightarrow> u32 \<Rightarrow> u32 \<Rightarrow> u32 \<Rightarrow> u32 \<Rightarrow> u32 \<Rightarrow> u32 \<Rightarrow> u32_21" where
  "sha1_rounds2 a b c d e w0 w1 w2 w3 w4 w5 w6 w7 w8 w9 w10 w11 w12 w13 w14 w15 =
     (let w0 = sha1_left (w0 XOR w13 XOR w8 XOR w2); (e, c) = sha1_Round d e a b c (sha1_f2 e a b) sha1_k2 w0;
          w1 = sha1_left (w1 XOR w14 XOR w9 XOR w3); (d, b) = sha1_Round c d e a b (sha1_f2 d e a) sha1_k2 w1;
          w2 = sha1_left (w2 XOR w15 XOR w10 XOR w4); (c, a) = sha1_Round b c d e a (sha1_f2 c d e) sha1_k2 w2;
          w3 = sha1_left (w3 XOR w0 XOR w11 XOR w5); (b, e) = sha1_Round a b c d e (sha1_f2 b c d) sha1_k2 w3;
          w4 = sha1_left (w4 XOR w1 XOR w12 XOR w6); (a, d) = sha1_Round e a b c d (sha1_f2 a b c) sha1_k2 w4;
          w5 = sha1_left (w5 XOR w2 XOR w13 XOR w7); (e, c) = sha1_Round d e a b c (sha1_f2 e a b) sha1_k2 w5;
          w6 = sha1_left (w6 XOR w3 XOR w14 XOR w8); (d, b) = sha1_Round c d e a b (sha1_f2 d e a) sha1_k2 w6;
          w7 = sha1_left (w7 XOR w4 XOR w15 XOR w9); (c, a) = sha1_Round b c d e a (sha1_f2 c d e) sha1_k2 w7;
          w8 = sha1_left (w8 XOR w5 XOR w0 XOR w10); (b, e) = sha1_Round a b c d e (sha1_f3 b c d) sha1_k3 w8;
          w9 = sha1_left (w9 XOR w6 XOR w1 XOR w11); (a, d) = sha1_Round e a b c d (sha1_f3 a b c) sha1_k3 w9;
          w10 = sha1_left (w10 XOR w7 XOR w2 XOR w12); (e, c) = sha1_Round d e a b c (sha1_f3 e a b) sha1_k3 w10;
          w11 = sha1_left (w11 XOR w8 XOR w3 XOR w13); (d, b) = sha1_Round c d e a b (sha1_f3 d e a) sha1_k3 w11;
          w12 = sha1_left (w12 XOR w9 XOR w4 XOR w14); (c, a) = sha1_Round b c d e a (sha1_f3 c d e) sha1_k3 w12;
          w13 = sha1_left (w13 XOR w10 XOR w5 XOR w15); (b, e) = sha1_Round a b c d e (sha1_f3 b c d) sha1_k3 w13;
          w14 = sha1_left (w14 XOR w11 XOR w6 XOR w0); (a, d) = sha1_Round e a b c d (sha1_f3 a b c) sha1_k3 w14;
          w15 = sha1_left (w15 XOR w12 XOR w7 XOR w1); (e, c) = sha1_Round d e a b c (sha1_f3 e a b) sha1_k3 w15
      in (a, b, c, d, e, w0, w1, w2, w3, w4, w5, w6, w7, w8, w9, w10, w11, w12, w13, w14, w15))"

definition sha1_rounds3 ::
  "u32 \<Rightarrow> u32 \<Rightarrow> u32 \<Rightarrow> u32 \<Rightarrow> u32 \<Rightarrow> u32 \<Rightarrow> u32 \<Rightarrow> u32 \<Rightarrow> u32 \<Rightarrow> u32 \<Rightarrow> u32 \<Rightarrow> u32 \<Rightarrow> u32 \<Rightarrow> u32 \<Rightarrow> u32 \<Rightarrow> u32 \<Rightarrow> u32 \<Rightarrow> u32 \<Rightarrow> u32 \<Rightarrow> u32 \<Rightarrow> u32 \<Rightarrow> u32_21" where
  "sha1_rounds3 a b c d e w0 w1 w2 w3 w4 w5 w6 w7 w8 w9 w10 w11 w12 w13 w14 w15 =
     (let w0 = sha1_left (w0 XOR w13 XOR w8 XOR w2); (d, b) = sha1_Round c d e a b (sha1_f3 d e a) sha1_k3 w0;
          w1 = sha1_left (w1 XOR w14 XOR w9 XOR w3); (c, a) = sha1_Round b c d e a (sha1_f3 c d e) sha1_k3 w1;
          w2 = sha1_left (w2 XOR w15 XOR w10 XOR w4); (b, e) = sha1_Round a b c d e (sha1_f3 b c d) sha1_k3 w2;
          w3 = sha1_left (w3 XOR w0 XOR w11 XOR w5); (a, d) = sha1_Round e a b c d (sha1_f3 a b c) sha1_k3 w3;
          w4 = sha1_left (w4 XOR w1 XOR w12 XOR w6); (e, c) = sha1_Round d e a b c (sha1_f3 e a b) sha1_k3 w4;
          w5 = sha1_left (w5 XOR w2 XOR w13 XOR w7); (d, b) = sha1_Round c d e a b (sha1_f3 d e a) sha1_k3 w5;
          w6 = sha1_left (w6 XOR w3 XOR w14 XOR w8); (c, a) = sha1_Round b c d e a (sha1_f3 c d e) sha1_k3 w6;
          w7 = sha1_left (w7 XOR w4 XOR w15 XOR w9); (b, e) = sha1_Round a b c d e (sha1_f3 b c d) sha1_k3 w7;
          w8 = sha1_left (w8 XOR w5 XOR w0 XOR w10); (a, d) = sha1_Round e a b c d (sha1_f3 a b c) sha1_k3 w8;
          w9 = sha1_left (w9 XOR w6 XOR w1 XOR w11); (e, c) = sha1_Round d e a b c (sha1_f3 e a b) sha1_k3 w9;
          w10 = sha1_left (w10 XOR w7 XOR w2 XOR w12); (d, b) = sha1_Round c d e a b (sha1_f3 d e a) sha1_k3 w10;
          w11 = sha1_left (w11 XOR w8 XOR w3 XOR w13); (c, a) = sha1_Round b c d e a (sha1_f3 c d e) sha1_k3 w11;
          w12 = sha1_left (w12 XOR w9 XOR w4 XOR w14); (b, e) = sha1_Round a b c d e (sha1_f2 b c d) sha1_k4 w12;
          w13 = sha1_left (w13 XOR w10 XOR w5 XOR w15); (a, d) = sha1_Round e a b c d (sha1_f2 a b c) sha1_k4 w13;
          w14 = sha1_left (w14 XOR w11 XOR w6 XOR w0); (e, c) = sha1_Round d e a b c (sha1_f2 e a b) sha1_k4 w14;
          w15 = sha1_left (w15 XOR w12 XOR w7 XOR w1); (d, b) = sha1_Round c d e a b (sha1_f2 d e a) sha1_k4 w15
      in (a, b, c, d, e, w0, w1, w2, w3, w4, w5, w6, w7, w8, w9, w10, w11, w12, w13, w14, w15))"

definition sha1_rounds4 ::
  "u32 \<Rightarrow> u32 \<Rightarrow> u32 \<Rightarrow> u32 \<Rightarrow> u32 \<Rightarrow> u32 \<Rightarrow> u32 \<Rightarrow> u32 \<Rightarrow> u32 \<Rightarrow> u32 \<Rightarrow> u32 \<Rightarrow> u32 \<Rightarrow> u32 \<Rightarrow> u32 \<Rightarrow> u32 \<Rightarrow> u32 \<Rightarrow> u32 \<Rightarrow> u32 \<Rightarrow> u32 \<Rightarrow> u32 \<Rightarrow> u32 \<Rightarrow> u32_5" where
  "sha1_rounds4 a b c d e w0 w1 w2 w3 w4 w5 w6 w7 w8 w9 w10 w11 w12 w13 w14 w15 =
     (let w0 = sha1_left (w0 XOR w13 XOR w8 XOR w2); (c, a) = sha1_Round b c d e a (sha1_f2 c d e) sha1_k4 w0;
          w1 = sha1_left (w1 XOR w14 XOR w9 XOR w3); (b, e) = sha1_Round a b c d e (sha1_f2 b c d) sha1_k4 w1;
          w2 = sha1_left (w2 XOR w15 XOR w10 XOR w4); (a, d) = sha1_Round e a b c d (sha1_f2 a b c) sha1_k4 w2;
          w3 = sha1_left (w3 XOR w0 XOR w11 XOR w5); (e, c) = sha1_Round d e a b c (sha1_f2 e a b) sha1_k4 w3;
          w4 = sha1_left (w4 XOR w1 XOR w12 XOR w6); (d, b) = sha1_Round c d e a b (sha1_f2 d e a) sha1_k4 w4;
          w5 = sha1_left (w5 XOR w2 XOR w13 XOR w7); (c, a) = sha1_Round b c d e a (sha1_f2 c d e) sha1_k4 w5;
          w6 = sha1_left (w6 XOR w3 XOR w14 XOR w8); (b, e) = sha1_Round a b c d e (sha1_f2 b c d) sha1_k4 w6;
          w7 = sha1_left (w7 XOR w4 XOR w15 XOR w9); (a, d) = sha1_Round e a b c d (sha1_f2 a b c) sha1_k4 w7;
          w8 = sha1_left (w8 XOR w5 XOR w0 XOR w10); (e, c) = sha1_Round d e a b c (sha1_f2 e a b) sha1_k4 w8;
          w9 = sha1_left (w9 XOR w6 XOR w1 XOR w11); (d, b) = sha1_Round c d e a b (sha1_f2 d e a) sha1_k4 w9;
          w10 = sha1_left (w10 XOR w7 XOR w2 XOR w12); (c, a) = sha1_Round b c d e a (sha1_f2 c d e) sha1_k4 w10;
          w11 = sha1_left (w11 XOR w8 XOR w3 XOR w13); (b, e) = sha1_Round a b c d e (sha1_f2 b c d) sha1_k4 w11;
          w12 = sha1_left (w12 XOR w9 XOR w4 XOR w14); (a, d) = sha1_Round e a b c d (sha1_f2 a b c) sha1_k4 w12;
          (e, c) = sha1_Round d e a b c (sha1_f2 e a b) sha1_k4 (sha1_left (w13 XOR w10 XOR w5 XOR w15));
          (d, b) = sha1_Round c d e a b (sha1_f2 d e a) sha1_k4 (sha1_left (w14 XOR w11 XOR w6 XOR w0));
          (c, a) = sha1_Round b c d e a (sha1_f2 c d e) sha1_k4 (sha1_left (w15 XOR w12 XOR w7 XOR w1))
      in (a, b, c, d, e))"

definition sha1_Transform :: "u32 list \<Rightarrow> bytes \<Rightarrow> u32 list" where
  "sha1_Transform s chunk =
     (let (a, b, c, d, e, w0, w1, w2, w3, w4, w5, w6, w7, w8, w9, w10, w11, w12, w13, w14, w15) = sha1_rounds0 (s ! 0) (s ! 1) (s ! 2) (s ! 3) (s ! 4) chunk;
          (a, b, c, d, e, w0, w1, w2, w3, w4, w5, w6, w7, w8, w9, w10, w11, w12, w13, w14, w15) = sha1_rounds1 a b c d e w0 w1 w2 w3 w4 w5 w6 w7 w8 w9 w10 w11 w12 w13 w14 w15;
          (a, b, c, d, e, w0, w1, w2, w3, w4, w5, w6, w7, w8, w9, w10, w11, w12, w13, w14, w15) = sha1_rounds2 a b c d e w0 w1 w2 w3 w4 w5 w6 w7 w8 w9 w10 w11 w12 w13 w14 w15;
          (a, b, c, d, e, w0, w1, w2, w3, w4, w5, w6, w7, w8, w9, w10, w11, w12, w13, w14, w15) = sha1_rounds3 a b c d e w0 w1 w2 w3 w4 w5 w6 w7 w8 w9 w10 w11 w12 w13 w14 w15;
          (a, b, c, d, e) = sha1_rounds4 a b c d e w0 w1 w2 w3 w4 w5 w6 w7 w8 w9 w10 w11 w12 w13 w14 w15
      in [s ! 0 + a, s ! 1 + b, s ! 2 + c, s ! 3 + d, s ! 4 + e])"

section \<open>The class\<close>

type_synonym CSHA1 = "u32 hash_ctx"

definition CSHA1_ctor :: CSHA1 where
  "CSHA1_ctor = \<lparr>ctx_s = sha1_Initialize, ctx_buf = replicate 64 0, ctx_bytes = 0\<rparr>"

definition CSHA1_Write :: "CSHA1 \<Rightarrow> bytes \<Rightarrow> CSHA1" where
  "CSHA1_Write = hash_Write 64 sha1_Transform"

definition CSHA1_Finalize :: "CSHA1 \<Rightarrow> CSHA1 \<times> bytes" where
  "CSHA1_Finalize ctx =
     (let pad = 0x80 # replicate 63 0;
          sizedesc = WriteBE64 (push_bit 3 (ctx_bytes ctx));
          ctx = CSHA1_Write ctx (take (1 + ((119 - unat (ctx_bytes ctx) mod 64) mod 64)) pad);
          ctx = CSHA1_Write ctx sizedesc
      in (ctx, concat (map (\<lambda>i. WriteBE32 (ctx_s ctx ! i)) [0, 1, 2, 3, 4])))"

definition CSHA1_Reset :: "CSHA1 \<Rightarrow> CSHA1" where
  "CSHA1_Reset ctx = ctx\<lparr>ctx_bytes := 0, ctx_s := sha1_Initialize\<rparr>"

section \<open>The reference\<close>

definition sha1_f_spec :: "nat \<Rightarrow> u32 \<Rightarrow> u32 \<Rightarrow> u32 \<Rightarrow> u32" where
  "sha1_f_spec t x y z =
     (if t < 20 then (x AND y) XOR (NOT x AND z)
      else if t < 40 then x XOR y XOR z
      else if t < 60 then (x AND y) XOR (x AND z) XOR (y AND z)
      else x XOR y XOR z)"

definition sha1_K_spec :: "nat \<Rightarrow> u32" where
  "sha1_K_spec t =
     (if t < 20 then 0x5A827999 else if t < 40 then 0x6ED9EBA1
      else if t < 60 then 0x8F1BBCDC else 0xCA62C1D6)"

fun sha1_step :: "u32_5 \<Rightarrow> nat \<times> u32 \<Rightarrow> u32_5" where
  "sha1_step (a, b, c, d, e) (t, w) =
     (word_rotl 5 a + sha1_f_spec t b c d + e + sha1_K_spec t + w, a, word_rotl 30 b, c, d)"

fun sha1_W :: "(nat \<Rightarrow> u32) \<Rightarrow> nat \<Rightarrow> u32" where
  "sha1_W M t =
     (if t < 16 then M t
      else word_rotl 1 (sha1_W M (t - 3) XOR sha1_W M (t - 8) XOR sha1_W M (t - 14)
        XOR sha1_W M (t - 16)))"

definition sha1_compress :: "u32 list \<Rightarrow> bytes \<Rightarrow> u32 list" where
  "sha1_compress s block =
     (let M = (\<lambda>t. ReadBE32 (drop (4 * t) block));
          (a, b, c, d, e) = foldl sha1_step (s ! 0, s ! 1, s ! 2, s ! 3, s ! 4)
            (map (\<lambda>t. (t, sha1_W M t)) [0..<80])
      in [s ! 0 + a, s ! 1 + b, s ! 2 + c, s ! 3 + d, s ! 4 + e])"

definition sha1 :: "bytes \<Rightarrow> bytes" where
  "sha1 m =
     concat (map WriteBE32
       (md_hash 64 sha1_compress sha1_Initialize (WriteBE64 (of_nat (8 * length m))) m))"

declare sha1_W.simps [simp del]

section \<open>The unrolled rounds follow the reference\<close>

lemma sha1_functions:
  "t < 20 \<Longrightarrow> sha1_f_spec t b c d = sha1_f1 b c d"
  "20 \<le> t \<Longrightarrow> t < 40 \<Longrightarrow> sha1_f_spec t b c d = sha1_f2 b c d"
  "40 \<le> t \<Longrightarrow> t < 60 \<Longrightarrow> sha1_f_spec t b c d = sha1_f3 b c d"
  "60 \<le> t \<Longrightarrow> sha1_f_spec t b c d = sha1_f2 b c d"
  "t < 20 \<Longrightarrow> sha1_K_spec t = sha1_k1"
  "20 \<le> t \<Longrightarrow> t < 40 \<Longrightarrow> sha1_K_spec t = sha1_k2"
  "40 \<le> t \<Longrightarrow> t < 60 \<Longrightarrow> sha1_K_spec t = sha1_k3"
  "60 \<le> t \<Longrightarrow> sha1_K_spec t = sha1_k4"
  by (simp_all add: sha1_f_spec_def sha1_K_spec_def sha1_f2_def sha1_k1_def sha1_k2_def
      sha1_k3_def sha1_k4_def)
    (auto intro!: bit_word_eqI simp: sha1_f1_def sha1_f3_def bit_simps)

lemma sha1_step_Round:
  "sha1_step (a, b, c, d, e) (t, w) =
     (case sha1_Round a b c d e (sha1_f_spec t b c d) (sha1_K_spec t) w of
        (b', e') \<Rightarrow> (e', a, b', c, d))"
  by (simp add: sha1_Round_def rotl_shifts add.commute add.left_commute)

lemma sha1_step_case:
  "sha1_step (case p of (x, y) \<Rightarrow> f x y) kw = (case p of (x, y) \<Rightarrow> sha1_step (f x y) kw)"
  by (cases p) simp

lemma sha1_left_rotl: "sha1_left x = word_rotl 1 x"
  unfolding sha1_left_def by (rule rotl_shifts) simp_all

lemma sha1_W_next:
  assumes "j = i + 13" "k = i + 8" "l = i + 2"
  shows "sha1_left (sha1_W M i XOR sha1_W M j XOR sha1_W M k XOR sha1_W M l) = sha1_W M (i + 16)"
  unfolding assms
  by (subst (5) sha1_W.simps) (simp add: sha1_left_rotl ac_simps)

lemma sha1_W_block: "t < 16 \<Longrightarrow> sha1_W M t = M t"
  by (simp add: sha1_W.simps)

declare sha1_step.simps [simp del]

lemmas sha1_unroll =
  sha1_functions sha1_W_next sha1_step_Round sha1_step_case case_prod_case_prod Let_def

lemma sha1_rounds0_eq:
  assumes "M = (\<lambda>t. ReadBE32 (drop (4 * t) chunk))"
  shows "sha1_rounds0 a b c d e chunk =
     (case foldl sha1_step (a, b, c, d, e) (map (\<lambda>t. (t, sha1_W M t)) [0..<16]) of
        (e, a, b, c, d) \<Rightarrow> (a, b, c, d, e, sha1_W M 0, sha1_W M 1, sha1_W M 2, sha1_W M 3, sha1_W M 4, sha1_W M 5, sha1_W M 6, sha1_W M 7, sha1_W M 8, sha1_W M 9, sha1_W M 10, sha1_W M 11, sha1_W M 12, sha1_W M 13, sha1_W M 14, sha1_W M 15))"
  by (simp add: sha1_rounds0_def sha1_unroll sha1_W_block assms upt_0_16)

lemma sha1_rounds1_eq:
  "sha1_rounds1 a b c d e (sha1_W M 0) (sha1_W M 1) (sha1_W M 2) (sha1_W M 3) (sha1_W M 4) (sha1_W M 5) (sha1_W M 6) (sha1_W M 7) (sha1_W M 8) (sha1_W M 9) (sha1_W M 10) (sha1_W M 11) (sha1_W M 12) (sha1_W M 13) (sha1_W M 14) (sha1_W M 15) =
     (case foldl sha1_step (e, a, b, c, d) (map (\<lambda>t. (t, sha1_W M t)) [16..<32]) of
        (d, e, a, b, c) \<Rightarrow> (a, b, c, d, e, sha1_W M 16, sha1_W M 17, sha1_W M 18, sha1_W M 19, sha1_W M 20, sha1_W M 21, sha1_W M 22, sha1_W M 23, sha1_W M 24, sha1_W M 25, sha1_W M 26, sha1_W M 27, sha1_W M 28, sha1_W M 29, sha1_W M 30, sha1_W M 31))"
  by (simp add: sha1_rounds1_def sha1_unroll upt_rec_numeral)

lemma sha1_rounds2_eq:
  "sha1_rounds2 a b c d e (sha1_W M 16) (sha1_W M 17) (sha1_W M 18) (sha1_W M 19) (sha1_W M 20) (sha1_W M 21) (sha1_W M 22) (sha1_W M 23) (sha1_W M 24) (sha1_W M 25) (sha1_W M 26) (sha1_W M 27) (sha1_W M 28) (sha1_W M 29) (sha1_W M 30) (sha1_W M 31) =
     (case foldl sha1_step (d, e, a, b, c) (map (\<lambda>t. (t, sha1_W M t)) [32..<48]) of
        (c, d, e, a, b) \<Rightarrow> (a, b, c, d, e, sha1_W M 32, sha1_W M 33, sha1_W M 34, sha1_W M 35, sha1_W M 36, sha1_W M 37, sha1_W M 38, sha1_W M 39, sha1_W M 40, sha1_W M 41, sha1_W M 42, sha1_W M 43, sha1_W M 44, sha1_W M 45, sha1_W M 46, sha1_W M 47))"
  by (simp add: sha1_rounds2_def sha1_unroll upt_rec_numeral)

lemma sha1_rounds3_eq:
  "sha1_rounds3 a b c d e (sha1_W M 32) (sha1_W M 33) (sha1_W M 34) (sha1_W M 35) (sha1_W M 36) (sha1_W M 37) (sha1_W M 38) (sha1_W M 39) (sha1_W M 40) (sha1_W M 41) (sha1_W M 42) (sha1_W M 43) (sha1_W M 44) (sha1_W M 45) (sha1_W M 46) (sha1_W M 47) =
     (case foldl sha1_step (c, d, e, a, b) (map (\<lambda>t. (t, sha1_W M t)) [48..<64]) of
        (b, c, d, e, a) \<Rightarrow> (a, b, c, d, e, sha1_W M 48, sha1_W M 49, sha1_W M 50, sha1_W M 51, sha1_W M 52, sha1_W M 53, sha1_W M 54, sha1_W M 55, sha1_W M 56, sha1_W M 57, sha1_W M 58, sha1_W M 59, sha1_W M 60, sha1_W M 61, sha1_W M 62, sha1_W M 63))"
  by (simp add: sha1_rounds3_def sha1_unroll upt_rec_numeral)

lemma sha1_rounds4_eq:
  "sha1_rounds4 a b c d e (sha1_W M 48) (sha1_W M 49) (sha1_W M 50) (sha1_W M 51) (sha1_W M 52) (sha1_W M 53) (sha1_W M 54) (sha1_W M 55) (sha1_W M 56) (sha1_W M 57) (sha1_W M 58) (sha1_W M 59) (sha1_W M 60) (sha1_W M 61) (sha1_W M 62) (sha1_W M 63) =
     (case foldl sha1_step (b, c, d, e, a) (map (\<lambda>t. (t, sha1_W M t)) [64..<80]) of
        (a, b, c, d, e) \<Rightarrow> (a, b, c, d, e))"
  by (simp add: sha1_rounds4_def sha1_unroll upt_rec_numeral)

lemma sha1_Transform_eq: "sha1_Transform s chunk = sha1_compress s chunk"
proof -
  let ?M = "\<lambda>t. ReadBE32 (drop (4 * t) chunk)"
  let ?f = "\<lambda>t. (t, sha1_W ?M t)"
  have u: "[0..<80] = [0..<16] @ [16..<32] @ [32..<48] @ [48..<64] @ [64..<80]"
    using upt_split16 [of 0 16] upt_split16 [of 0 32] upt_split16 [of 0 48] upt_split16 [of 0 64] by simp
  obtain a0 b0 c0 d0 e0 where s0:
    "foldl sha1_step (s ! 0, s ! 1, s ! 2, s ! 3, s ! 4) (map ?f [0..<16]) = (e0, a0, b0, c0, d0)"
    by (rule prod_cases5)
  obtain a1 b1 c1 d1 e1 where s1:
    "foldl sha1_step (e0, a0, b0, c0, d0) (map ?f [16..<32]) = (d1, e1, a1, b1, c1)"
    by (rule prod_cases5)
  obtain a2 b2 c2 d2 e2 where s2:
    "foldl sha1_step (d1, e1, a1, b1, c1) (map ?f [32..<48]) = (c2, d2, e2, a2, b2)"
    by (rule prod_cases5)
  obtain a3 b3 c3 d3 e3 where s3:
    "foldl sha1_step (c2, d2, e2, a2, b2) (map ?f [48..<64]) = (b3, c3, d3, e3, a3)"
    by (rule prod_cases5)
  obtain a4 b4 c4 d4 e4 where s4:
    "foldl sha1_step (b3, c3, d3, e3, a3) (map ?f [64..<80]) = (a4, b4, c4, d4, e4)"
    by (rule prod_cases5)
  show ?thesis
    unfolding sha1_Transform_def sha1_compress_def Let_def u map_append foldl_append s0 s1 s2 s3 s4
      sha1_rounds0_eq [OF refl] sha1_rounds1_eq sha1_rounds2_eq sha1_rounds3_eq sha1_rounds4_eq
      prod.case
    by simp
qed

interpretation sha1: block_hash 64 sha1_Transform
proof
  show "(0 :: nat) < 64" by simp
  show "(64 :: nat) dvd 2 ^ 64" by simp
  show "sha1_Transform s (take 64 d) = sha1_Transform s d" if "64 \<le> length d" for s d
  proof -
    have r: "ReadBE32 (drop k (take 64 d)) = ReadBE32 (drop k d)" if "k \<le> 60" for k
      using that \<open>64 \<le> length d\<close> by simp
    show ?thesis
      by (simp only: sha1_Transform_def sha1_rounds0_def r numeral_le_iff semiring_norm le0)
  qed
qed

lemma length_sha1_Transform [simp]: "length (sha1_Transform s chunk) = 5"
  unfolding sha1_Transform_eq sha1_compress_def Let_def by (simp split: prod.split)

lemma length_foldl_sha1: "length s = 5 \<Longrightarrow> length (foldl sha1_Transform s bs) = 5"
  by (induction bs arbitrary: s) simp_all

abbreviation CSHA1_rep :: "CSHA1 \<Rightarrow> bytes \<Rightarrow> bool" where
  "CSHA1_rep \<equiv> ctx_rep 64 sha1_Transform sha1_Initialize"

lemma length_sha1 [simp]: "length (sha1 m) = 20"
proof -
  have T: "sha1_Transform = sha1_compress" by (intro ext) (rule sha1_Transform_eq)
  have "length (md_hash 64 sha1_Transform sha1_Initialize z m) = 5" for z
    by (simp add: md_hash_def length_foldl_sha1 sha1_Initialize_def)
  moreover have "length (concat (map WriteBE32 xs)) = 20 div 5 * length xs" for xs
    by (induction xs) (simp_all add: WriteBE32_def)
  ultimately show ?thesis by (simp add: sha1_def T [symmetric])
qed

lemma CSHA1_ctor_rep: "CSHA1_rep CSHA1_ctor []"
  unfolding CSHA1_ctor_def by (rule ctx_rep_init) simp_all

lemma CSHA1_Write_rep: "CSHA1_rep ctx m \<Longrightarrow> CSHA1_rep (CSHA1_Write ctx d) (m @ d)"
  unfolding CSHA1_Write_def by (rule sha1.write_rep)

lemma CSHA1_Reset_rep: "CSHA1_rep ctx m \<Longrightarrow> CSHA1_rep (CSHA1_Reset ctx) []"
  by (simp add: CSHA1_Reset_def ctx_rep_def)

lemma CSHA1_Finalize_ctx: "CSHA1_rep ctx m \<Longrightarrow> \<exists>m'. CSHA1_rep (fst (CSHA1_Finalize ctx)) m'"
  unfolding CSHA1_Finalize_def Let_def fst_conv by (rule exI) (rule CSHA1_Write_rep [OF CSHA1_Write_rep])

lemma CSHA1_Finalize_rep:
  assumes rep: "CSHA1_rep ctx m"
  shows "snd (CSHA1_Finalize ctx) = sha1 m"
proof -
  have T: "sha1_Transform = sha1_compress" by (intro ext) (rule sha1_Transform_eq)
  have sz: "push_bit 3 (ctx_bytes ctx) = of_nat (8 * length m)"
    using rep by (simp add: ctx_rep_def push_bit_eq_mult)
  have list5: "[0, 1, 2, 3, 4] = [0 :: nat..<5]" by code_simp
  let ?sz = "WriteBE64 (of_nat (8 * length m))"
  have "length ?sz < 64" by (simp add: WriteBE64_def)
  from sha1.pad_rep [OF rep this]
  have s: "ctx_s (hash_Write 64 sha1_Transform (hash_Write 64 sha1_Transform ctx
      (take (1 + ((119 - unat (ctx_bytes ctx) mod 64) mod 64)) (0x80 # replicate 63 0))) ?sz)
    = md_hash 64 sha1_Transform sha1_Initialize ?sz m" (is "_ = ?h")
    by (simp add: WriteBE64_def)
  have "length ?h = 5"
    by (simp add: md_hash_def length_foldl_sha1 sha1_Initialize_def)
  note h = map_nth_upt [OF this, of WriteBE32]
  show ?thesis
    unfolding CSHA1_Finalize_def CSHA1_Write_def [symmetric] Let_def sha1_def T [symmetric] sz list5
      s [folded CSHA1_Write_def] h
    by simp
qed

text \<open>
  The class \<open>CSHA1\<close>, fed a message in any pieces, returns the SHA-1 digest of their
  concatenation, computed with the standard's rotating registers and recursive schedule.
\<close>

lemma CSHA1_correct:
  "snd (CSHA1_Finalize (foldl CSHA1_Write CSHA1_ctor ds)) = sha1 (concat ds)"
  using CSHA1_Finalize_rep [OF sha1.writes_rep [OF CSHA1_ctor_rep]]
  by (simp add: CSHA1_Write_def)

end
