(* ===== verification/Ripemd160.thy ===== *)
theory Ripemd160
  imports Crypto_Common
begin

text \<open>
  RIPEMD-160 of \<^verbatim>\<open>src/src/crypto/ripemd160.cpp\<close>.  The two lines of the unrolled transform are
  interleaved; the reference runs both lines round by round from the word-order and rotation
  tables of the standard.
\<close>

section \<open>The transform\<close>

type_synonym u32_5 = "u32 \<times> u32 \<times> u32 \<times> u32 \<times> u32"
type_synonym u32_10 = "u32 \<times> u32 \<times> u32 \<times> u32 \<times> u32 \<times> u32 \<times> u32 \<times> u32 \<times> u32 \<times> u32"

definition ripemd160_f1 :: "u32 \<Rightarrow> u32 \<Rightarrow> u32 \<Rightarrow> u32" where
  "ripemd160_f1 x y z = x XOR y XOR z"

definition ripemd160_f2 :: "u32 \<Rightarrow> u32 \<Rightarrow> u32 \<Rightarrow> u32" where
  "ripemd160_f2 x y z = (x AND y) OR (NOT x AND z)"

definition ripemd160_f3 :: "u32 \<Rightarrow> u32 \<Rightarrow> u32 \<Rightarrow> u32" where
  "ripemd160_f3 x y z = (x OR NOT y) XOR z"

definition ripemd160_f4 :: "u32 \<Rightarrow> u32 \<Rightarrow> u32 \<Rightarrow> u32" where
  "ripemd160_f4 x y z = (x AND z) OR (y AND NOT z)"

definition ripemd160_f5 :: "u32 \<Rightarrow> u32 \<Rightarrow> u32 \<Rightarrow> u32" where
  "ripemd160_f5 x y z = x XOR (y OR NOT z)"

definition ripemd160_Initialize :: "u32 list" where
  "ripemd160_Initialize = [0x67452301, 0xEFCDAB89, 0x98BADCFE, 0x10325476, 0xC3D2E1F0]"

definition ripemd160_rol :: "u32 \<Rightarrow> nat \<Rightarrow> u32" where
  "ripemd160_rol x i = push_bit i x OR drop_bit (32 - i) x"

definition ripemd160_Round ::
  "u32 \<Rightarrow> u32 \<Rightarrow> u32 \<Rightarrow> u32 \<Rightarrow> u32 \<Rightarrow> u32 \<Rightarrow> u32 \<Rightarrow> u32 \<Rightarrow> nat \<Rightarrow> u32 \<times> u32" where
  "ripemd160_Round a b c d e f x k r =
     (ripemd160_rol (a + f + x + k) r + e, ripemd160_rol c 10)"

definition ripemd160_R11 ::
  "u32 \<Rightarrow> u32 \<Rightarrow> u32 \<Rightarrow> u32 \<Rightarrow> u32 \<Rightarrow> u32 \<Rightarrow> nat \<Rightarrow> u32 \<times> u32" where
  "ripemd160_R11 a b c d e x r = ripemd160_Round a b c d e (ripemd160_f1 b c d) x 0 r"

definition ripemd160_R21 ::
  "u32 \<Rightarrow> u32 \<Rightarrow> u32 \<Rightarrow> u32 \<Rightarrow> u32 \<Rightarrow> u32 \<Rightarrow> nat \<Rightarrow> u32 \<times> u32" where
  "ripemd160_R21 a b c d e x r = ripemd160_Round a b c d e (ripemd160_f2 b c d) x 0x5A827999 r"

definition ripemd160_R31 ::
  "u32 \<Rightarrow> u32 \<Rightarrow> u32 \<Rightarrow> u32 \<Rightarrow> u32 \<Rightarrow> u32 \<Rightarrow> nat \<Rightarrow> u32 \<times> u32" where
  "ripemd160_R31 a b c d e x r = ripemd160_Round a b c d e (ripemd160_f3 b c d) x 0x6ED9EBA1 r"

definition ripemd160_R41 ::
  "u32 \<Rightarrow> u32 \<Rightarrow> u32 \<Rightarrow> u32 \<Rightarrow> u32 \<Rightarrow> u32 \<Rightarrow> nat \<Rightarrow> u32 \<times> u32" where
  "ripemd160_R41 a b c d e x r = ripemd160_Round a b c d e (ripemd160_f4 b c d) x 0x8F1BBCDC r"

definition ripemd160_R51 ::
  "u32 \<Rightarrow> u32 \<Rightarrow> u32 \<Rightarrow> u32 \<Rightarrow> u32 \<Rightarrow> u32 \<Rightarrow> nat \<Rightarrow> u32 \<times> u32" where
  "ripemd160_R51 a b c d e x r = ripemd160_Round a b c d e (ripemd160_f5 b c d) x 0xA953FD4E r"

definition ripemd160_R12 ::
  "u32 \<Rightarrow> u32 \<Rightarrow> u32 \<Rightarrow> u32 \<Rightarrow> u32 \<Rightarrow> u32 \<Rightarrow> nat \<Rightarrow> u32 \<times> u32" where
  "ripemd160_R12 a b c d e x r = ripemd160_Round a b c d e (ripemd160_f5 b c d) x 0x50A28BE6 r"

definition ripemd160_R22 ::
  "u32 \<Rightarrow> u32 \<Rightarrow> u32 \<Rightarrow> u32 \<Rightarrow> u32 \<Rightarrow> u32 \<Rightarrow> nat \<Rightarrow> u32 \<times> u32" where
  "ripemd160_R22 a b c d e x r = ripemd160_Round a b c d e (ripemd160_f4 b c d) x 0x5C4DD124 r"

definition ripemd160_R32 ::
  "u32 \<Rightarrow> u32 \<Rightarrow> u32 \<Rightarrow> u32 \<Rightarrow> u32 \<Rightarrow> u32 \<Rightarrow> nat \<Rightarrow> u32 \<times> u32" where
  "ripemd160_R32 a b c d e x r = ripemd160_Round a b c d e (ripemd160_f3 b c d) x 0x6D703EF3 r"

definition ripemd160_R42 ::
  "u32 \<Rightarrow> u32 \<Rightarrow> u32 \<Rightarrow> u32 \<Rightarrow> u32 \<Rightarrow> u32 \<Rightarrow> nat \<Rightarrow> u32 \<times> u32" where
  "ripemd160_R42 a b c d e x r = ripemd160_Round a b c d e (ripemd160_f2 b c d) x 0x7A6D76E9 r"

definition ripemd160_R52 ::
  "u32 \<Rightarrow> u32 \<Rightarrow> u32 \<Rightarrow> u32 \<Rightarrow> u32 \<Rightarrow> u32 \<Rightarrow> nat \<Rightarrow> u32 \<times> u32" where
  "ripemd160_R52 a b c d e x r = ripemd160_Round a b c d e (ripemd160_f1 b c d) x 0 r"

definition ripemd160_rounds0 ::
  "u32 \<Rightarrow> u32 \<Rightarrow> u32 \<Rightarrow> u32 \<Rightarrow> u32 \<Rightarrow> u32 \<Rightarrow> u32 \<Rightarrow> u32 \<Rightarrow> u32 \<Rightarrow> u32 \<Rightarrow> (nat \<Rightarrow> u32) \<Rightarrow> u32_10" where
  "ripemd160_rounds0 a1 b1 c1 d1 e1 a2 b2 c2 d2 e2 w =
     (let (a1, c1) = ripemd160_R11 a1 b1 c1 d1 e1 (w 0) 11;
          (a2, c2) = ripemd160_R12 a2 b2 c2 d2 e2 (w 5) 8;
          (e1, b1) = ripemd160_R11 e1 a1 b1 c1 d1 (w 1) 14;
          (e2, b2) = ripemd160_R12 e2 a2 b2 c2 d2 (w 14) 9;
          (d1, a1) = ripemd160_R11 d1 e1 a1 b1 c1 (w 2) 15;
          (d2, a2) = ripemd160_R12 d2 e2 a2 b2 c2 (w 7) 9;
          (c1, e1) = ripemd160_R11 c1 d1 e1 a1 b1 (w 3) 12;
          (c2, e2) = ripemd160_R12 c2 d2 e2 a2 b2 (w 0) 11;
          (b1, d1) = ripemd160_R11 b1 c1 d1 e1 a1 (w 4) 5;
          (b2, d2) = ripemd160_R12 b2 c2 d2 e2 a2 (w 9) 13;
          (a1, c1) = ripemd160_R11 a1 b1 c1 d1 e1 (w 5) 8;
          (a2, c2) = ripemd160_R12 a2 b2 c2 d2 e2 (w 2) 15;
          (e1, b1) = ripemd160_R11 e1 a1 b1 c1 d1 (w 6) 7;
          (e2, b2) = ripemd160_R12 e2 a2 b2 c2 d2 (w 11) 15;
          (d1, a1) = ripemd160_R11 d1 e1 a1 b1 c1 (w 7) 9;
          (d2, a2) = ripemd160_R12 d2 e2 a2 b2 c2 (w 4) 5;
          (c1, e1) = ripemd160_R11 c1 d1 e1 a1 b1 (w 8) 11;
          (c2, e2) = ripemd160_R12 c2 d2 e2 a2 b2 (w 13) 7;
          (b1, d1) = ripemd160_R11 b1 c1 d1 e1 a1 (w 9) 13;
          (b2, d2) = ripemd160_R12 b2 c2 d2 e2 a2 (w 6) 7;
          (a1, c1) = ripemd160_R11 a1 b1 c1 d1 e1 (w 10) 14;
          (a2, c2) = ripemd160_R12 a2 b2 c2 d2 e2 (w 15) 8;
          (e1, b1) = ripemd160_R11 e1 a1 b1 c1 d1 (w 11) 15;
          (e2, b2) = ripemd160_R12 e2 a2 b2 c2 d2 (w 8) 11;
          (d1, a1) = ripemd160_R11 d1 e1 a1 b1 c1 (w 12) 6;
          (d2, a2) = ripemd160_R12 d2 e2 a2 b2 c2 (w 1) 14;
          (c1, e1) = ripemd160_R11 c1 d1 e1 a1 b1 (w 13) 7;
          (c2, e2) = ripemd160_R12 c2 d2 e2 a2 b2 (w 10) 14;
          (b1, d1) = ripemd160_R11 b1 c1 d1 e1 a1 (w 14) 9;
          (b2, d2) = ripemd160_R12 b2 c2 d2 e2 a2 (w 3) 12;
          (a1, c1) = ripemd160_R11 a1 b1 c1 d1 e1 (w 15) 8;
          (a2, c2) = ripemd160_R12 a2 b2 c2 d2 e2 (w 12) 6
      in (a1, b1, c1, d1, e1, a2, b2, c2, d2, e2))"

definition ripemd160_rounds1 ::
  "u32 \<Rightarrow> u32 \<Rightarrow> u32 \<Rightarrow> u32 \<Rightarrow> u32 \<Rightarrow> u32 \<Rightarrow> u32 \<Rightarrow> u32 \<Rightarrow> u32 \<Rightarrow> u32 \<Rightarrow> (nat \<Rightarrow> u32) \<Rightarrow> u32_10" where
  "ripemd160_rounds1 a1 b1 c1 d1 e1 a2 b2 c2 d2 e2 w =
     (let (e1, b1) = ripemd160_R21 e1 a1 b1 c1 d1 (w 7) 7;
          (e2, b2) = ripemd160_R22 e2 a2 b2 c2 d2 (w 6) 9;
          (d1, a1) = ripemd160_R21 d1 e1 a1 b1 c1 (w 4) 6;
          (d2, a2) = ripemd160_R22 d2 e2 a2 b2 c2 (w 11) 13;
          (c1, e1) = ripemd160_R21 c1 d1 e1 a1 b1 (w 13) 8;
          (c2, e2) = ripemd160_R22 c2 d2 e2 a2 b2 (w 3) 15;
          (b1, d1) = ripemd160_R21 b1 c1 d1 e1 a1 (w 1) 13;
          (b2, d2) = ripemd160_R22 b2 c2 d2 e2 a2 (w 7) 7;
          (a1, c1) = ripemd160_R21 a1 b1 c1 d1 e1 (w 10) 11;
          (a2, c2) = ripemd160_R22 a2 b2 c2 d2 e2 (w 0) 12;
          (e1, b1) = ripemd160_R21 e1 a1 b1 c1 d1 (w 6) 9;
          (e2, b2) = ripemd160_R22 e2 a2 b2 c2 d2 (w 13) 8;
          (d1, a1) = ripemd160_R21 d1 e1 a1 b1 c1 (w 15) 7;
          (d2, a2) = ripemd160_R22 d2 e2 a2 b2 c2 (w 5) 9;
          (c1, e1) = ripemd160_R21 c1 d1 e1 a1 b1 (w 3) 15;
          (c2, e2) = ripemd160_R22 c2 d2 e2 a2 b2 (w 10) 11;
          (b1, d1) = ripemd160_R21 b1 c1 d1 e1 a1 (w 12) 7;
          (b2, d2) = ripemd160_R22 b2 c2 d2 e2 a2 (w 14) 7;
          (a1, c1) = ripemd160_R21 a1 b1 c1 d1 e1 (w 0) 12;
          (a2, c2) = ripemd160_R22 a2 b2 c2 d2 e2 (w 15) 7;
          (e1, b1) = ripemd160_R21 e1 a1 b1 c1 d1 (w 9) 15;
          (e2, b2) = ripemd160_R22 e2 a2 b2 c2 d2 (w 8) 12;
          (d1, a1) = ripemd160_R21 d1 e1 a1 b1 c1 (w 5) 9;
          (d2, a2) = ripemd160_R22 d2 e2 a2 b2 c2 (w 12) 7;
          (c1, e1) = ripemd160_R21 c1 d1 e1 a1 b1 (w 2) 11;
          (c2, e2) = ripemd160_R22 c2 d2 e2 a2 b2 (w 4) 6;
          (b1, d1) = ripemd160_R21 b1 c1 d1 e1 a1 (w 14) 7;
          (b2, d2) = ripemd160_R22 b2 c2 d2 e2 a2 (w 9) 15;
          (a1, c1) = ripemd160_R21 a1 b1 c1 d1 e1 (w 11) 13;
          (a2, c2) = ripemd160_R22 a2 b2 c2 d2 e2 (w 1) 13;
          (e1, b1) = ripemd160_R21 e1 a1 b1 c1 d1 (w 8) 12;
          (e2, b2) = ripemd160_R22 e2 a2 b2 c2 d2 (w 2) 11
      in (a1, b1, c1, d1, e1, a2, b2, c2, d2, e2))"

definition ripemd160_rounds2 ::
  "u32 \<Rightarrow> u32 \<Rightarrow> u32 \<Rightarrow> u32 \<Rightarrow> u32 \<Rightarrow> u32 \<Rightarrow> u32 \<Rightarrow> u32 \<Rightarrow> u32 \<Rightarrow> u32 \<Rightarrow> (nat \<Rightarrow> u32) \<Rightarrow> u32_10" where
  "ripemd160_rounds2 a1 b1 c1 d1 e1 a2 b2 c2 d2 e2 w =
     (let (d1, a1) = ripemd160_R31 d1 e1 a1 b1 c1 (w 3) 11;
          (d2, a2) = ripemd160_R32 d2 e2 a2 b2 c2 (w 15) 9;
          (c1, e1) = ripemd160_R31 c1 d1 e1 a1 b1 (w 10) 13;
          (c2, e2) = ripemd160_R32 c2 d2 e2 a2 b2 (w 5) 7;
          (b1, d1) = ripemd160_R31 b1 c1 d1 e1 a1 (w 14) 6;
          (b2, d2) = ripemd160_R32 b2 c2 d2 e2 a2 (w 1) 15;
          (a1, c1) = ripemd160_R31 a1 b1 c1 d1 e1 (w 4) 7;
          (a2, c2) = ripemd160_R32 a2 b2 c2 d2 e2 (w 3) 11;
          (e1, b1) = ripemd160_R31 e1 a1 b1 c1 d1 (w 9) 14;
          (e2, b2) = ripemd160_R32 e2 a2 b2 c2 d2 (w 7) 8;
          (d1, a1) = ripemd160_R31 d1 e1 a1 b1 c1 (w 15) 9;
          (d2, a2) = ripemd160_R32 d2 e2 a2 b2 c2 (w 14) 6;
          (c1, e1) = ripemd160_R31 c1 d1 e1 a1 b1 (w 8) 13;
          (c2, e2) = ripemd160_R32 c2 d2 e2 a2 b2 (w 6) 6;
          (b1, d1) = ripemd160_R31 b1 c1 d1 e1 a1 (w 1) 15;
          (b2, d2) = ripemd160_R32 b2 c2 d2 e2 a2 (w 9) 14;
          (a1, c1) = ripemd160_R31 a1 b1 c1 d1 e1 (w 2) 14;
          (a2, c2) = ripemd160_R32 a2 b2 c2 d2 e2 (w 11) 12;
          (e1, b1) = ripemd160_R31 e1 a1 b1 c1 d1 (w 7) 8;
          (e2, b2) = ripemd160_R32 e2 a2 b2 c2 d2 (w 8) 13;
          (d1, a1) = ripemd160_R31 d1 e1 a1 b1 c1 (w 0) 13;
          (d2, a2) = ripemd160_R32 d2 e2 a2 b2 c2 (w 12) 5;
          (c1, e1) = ripemd160_R31 c1 d1 e1 a1 b1 (w 6) 6;
          (c2, e2) = ripemd160_R32 c2 d2 e2 a2 b2 (w 2) 14;
          (b1, d1) = ripemd160_R31 b1 c1 d1 e1 a1 (w 13) 5;
          (b2, d2) = ripemd160_R32 b2 c2 d2 e2 a2 (w 10) 13;
          (a1, c1) = ripemd160_R31 a1 b1 c1 d1 e1 (w 11) 12;
          (a2, c2) = ripemd160_R32 a2 b2 c2 d2 e2 (w 0) 13;
          (e1, b1) = ripemd160_R31 e1 a1 b1 c1 d1 (w 5) 7;
          (e2, b2) = ripemd160_R32 e2 a2 b2 c2 d2 (w 4) 7;
          (d1, a1) = ripemd160_R31 d1 e1 a1 b1 c1 (w 12) 5;
          (d2, a2) = ripemd160_R32 d2 e2 a2 b2 c2 (w 13) 5
      in (a1, b1, c1, d1, e1, a2, b2, c2, d2, e2))"

definition ripemd160_rounds3 ::
  "u32 \<Rightarrow> u32 \<Rightarrow> u32 \<Rightarrow> u32 \<Rightarrow> u32 \<Rightarrow> u32 \<Rightarrow> u32 \<Rightarrow> u32 \<Rightarrow> u32 \<Rightarrow> u32 \<Rightarrow> (nat \<Rightarrow> u32) \<Rightarrow> u32_10" where
  "ripemd160_rounds3 a1 b1 c1 d1 e1 a2 b2 c2 d2 e2 w =
     (let (c1, e1) = ripemd160_R41 c1 d1 e1 a1 b1 (w 1) 11;
          (c2, e2) = ripemd160_R42 c2 d2 e2 a2 b2 (w 8) 15;
          (b1, d1) = ripemd160_R41 b1 c1 d1 e1 a1 (w 9) 12;
          (b2, d2) = ripemd160_R42 b2 c2 d2 e2 a2 (w 6) 5;
          (a1, c1) = ripemd160_R41 a1 b1 c1 d1 e1 (w 11) 14;
          (a2, c2) = ripemd160_R42 a2 b2 c2 d2 e2 (w 4) 8;
          (e1, b1) = ripemd160_R41 e1 a1 b1 c1 d1 (w 10) 15;
          (e2, b2) = ripemd160_R42 e2 a2 b2 c2 d2 (w 1) 11;
          (d1, a1) = ripemd160_R41 d1 e1 a1 b1 c1 (w 0) 14;
          (d2, a2) = ripemd160_R42 d2 e2 a2 b2 c2 (w 3) 14;
          (c1, e1) = ripemd160_R41 c1 d1 e1 a1 b1 (w 8) 15;
          (c2, e2) = ripemd160_R42 c2 d2 e2 a2 b2 (w 11) 14;
          (b1, d1) = ripemd160_R41 b1 c1 d1 e1 a1 (w 12) 9;
          (b2, d2) = ripemd160_R42 b2 c2 d2 e2 a2 (w 15) 6;
          (a1, c1) = ripemd160_R41 a1 b1 c1 d1 e1 (w 4) 8;
          (a2, c2) = ripemd160_R42 a2 b2 c2 d2 e2 (w 0) 14;
          (e1, b1) = ripemd160_R41 e1 a1 b1 c1 d1 (w 13) 9;
          (e2, b2) = ripemd160_R42 e2 a2 b2 c2 d2 (w 5) 6;
          (d1, a1) = ripemd160_R41 d1 e1 a1 b1 c1 (w 3) 14;
          (d2, a2) = ripemd160_R42 d2 e2 a2 b2 c2 (w 12) 9;
          (c1, e1) = ripemd160_R41 c1 d1 e1 a1 b1 (w 7) 5;
          (c2, e2) = ripemd160_R42 c2 d2 e2 a2 b2 (w 2) 12;
          (b1, d1) = ripemd160_R41 b1 c1 d1 e1 a1 (w 15) 6;
          (b2, d2) = ripemd160_R42 b2 c2 d2 e2 a2 (w 13) 9;
          (a1, c1) = ripemd160_R41 a1 b1 c1 d1 e1 (w 14) 8;
          (a2, c2) = ripemd160_R42 a2 b2 c2 d2 e2 (w 9) 12;
          (e1, b1) = ripemd160_R41 e1 a1 b1 c1 d1 (w 5) 6;
          (e2, b2) = ripemd160_R42 e2 a2 b2 c2 d2 (w 7) 5;
          (d1, a1) = ripemd160_R41 d1 e1 a1 b1 c1 (w 6) 5;
          (d2, a2) = ripemd160_R42 d2 e2 a2 b2 c2 (w 10) 15;
          (c1, e1) = ripemd160_R41 c1 d1 e1 a1 b1 (w 2) 12;
          (c2, e2) = ripemd160_R42 c2 d2 e2 a2 b2 (w 14) 8
      in (a1, b1, c1, d1, e1, a2, b2, c2, d2, e2))"

definition ripemd160_rounds4 ::
  "u32 \<Rightarrow> u32 \<Rightarrow> u32 \<Rightarrow> u32 \<Rightarrow> u32 \<Rightarrow> u32 \<Rightarrow> u32 \<Rightarrow> u32 \<Rightarrow> u32 \<Rightarrow> u32 \<Rightarrow> (nat \<Rightarrow> u32) \<Rightarrow> u32_10" where
  "ripemd160_rounds4 a1 b1 c1 d1 e1 a2 b2 c2 d2 e2 w =
     (let (b1, d1) = ripemd160_R51 b1 c1 d1 e1 a1 (w 4) 9;
          (b2, d2) = ripemd160_R52 b2 c2 d2 e2 a2 (w 12) 8;
          (a1, c1) = ripemd160_R51 a1 b1 c1 d1 e1 (w 0) 15;
          (a2, c2) = ripemd160_R52 a2 b2 c2 d2 e2 (w 15) 5;
          (e1, b1) = ripemd160_R51 e1 a1 b1 c1 d1 (w 5) 5;
          (e2, b2) = ripemd160_R52 e2 a2 b2 c2 d2 (w 10) 12;
          (d1, a1) = ripemd160_R51 d1 e1 a1 b1 c1 (w 9) 11;
          (d2, a2) = ripemd160_R52 d2 e2 a2 b2 c2 (w 4) 9;
          (c1, e1) = ripemd160_R51 c1 d1 e1 a1 b1 (w 7) 6;
          (c2, e2) = ripemd160_R52 c2 d2 e2 a2 b2 (w 1) 12;
          (b1, d1) = ripemd160_R51 b1 c1 d1 e1 a1 (w 12) 8;
          (b2, d2) = ripemd160_R52 b2 c2 d2 e2 a2 (w 5) 5;
          (a1, c1) = ripemd160_R51 a1 b1 c1 d1 e1 (w 2) 13;
          (a2, c2) = ripemd160_R52 a2 b2 c2 d2 e2 (w 8) 14;
          (e1, b1) = ripemd160_R51 e1 a1 b1 c1 d1 (w 10) 12;
          (e2, b2) = ripemd160_R52 e2 a2 b2 c2 d2 (w 7) 6;
          (d1, a1) = ripemd160_R51 d1 e1 a1 b1 c1 (w 14) 5;
          (d2, a2) = ripemd160_R52 d2 e2 a2 b2 c2 (w 6) 8;
          (c1, e1) = ripemd160_R51 c1 d1 e1 a1 b1 (w 1) 12;
          (c2, e2) = ripemd160_R52 c2 d2 e2 a2 b2 (w 2) 13;
          (b1, d1) = ripemd160_R51 b1 c1 d1 e1 a1 (w 3) 13;
          (b2, d2) = ripemd160_R52 b2 c2 d2 e2 a2 (w 13) 6;
          (a1, c1) = ripemd160_R51 a1 b1 c1 d1 e1 (w 8) 14;
          (a2, c2) = ripemd160_R52 a2 b2 c2 d2 e2 (w 14) 5;
          (e1, b1) = ripemd160_R51 e1 a1 b1 c1 d1 (w 11) 11;
          (e2, b2) = ripemd160_R52 e2 a2 b2 c2 d2 (w 0) 15;
          (d1, a1) = ripemd160_R51 d1 e1 a1 b1 c1 (w 6) 8;
          (d2, a2) = ripemd160_R52 d2 e2 a2 b2 c2 (w 3) 13;
          (c1, e1) = ripemd160_R51 c1 d1 e1 a1 b1 (w 15) 5;
          (c2, e2) = ripemd160_R52 c2 d2 e2 a2 b2 (w 9) 11;
          (b1, d1) = ripemd160_R51 b1 c1 d1 e1 a1 (w 13) 6;
          (b2, d2) = ripemd160_R52 b2 c2 d2 e2 a2 (w 11) 11
      in (a1, b1, c1, d1, e1, a2, b2, c2, d2, e2))"

definition ripemd160_Transform :: "u32 list \<Rightarrow> bytes \<Rightarrow> u32 list" where
  "ripemd160_Transform s chunk =
     (let w = (\<lambda>i. ReadLE32 (drop (4 * i) chunk));
          (a1, b1, c1, d1, e1, a2, b2, c2, d2, e2) = ripemd160_rounds0 (s ! 0) (s ! 1) (s ! 2) (s ! 3) (s ! 4) (s ! 0) (s ! 1) (s ! 2) (s ! 3) (s ! 4) w;
          (a1, b1, c1, d1, e1, a2, b2, c2, d2, e2) = ripemd160_rounds1 a1 b1 c1 d1 e1 a2 b2 c2 d2 e2 w;
          (a1, b1, c1, d1, e1, a2, b2, c2, d2, e2) = ripemd160_rounds2 a1 b1 c1 d1 e1 a2 b2 c2 d2 e2 w;
          (a1, b1, c1, d1, e1, a2, b2, c2, d2, e2) = ripemd160_rounds3 a1 b1 c1 d1 e1 a2 b2 c2 d2 e2 w;
          (a1, b1, c1, d1, e1, a2, b2, c2, d2, e2) = ripemd160_rounds4 a1 b1 c1 d1 e1 a2 b2 c2 d2 e2 w
      in [s ! 1 + c1 + d2, s ! 2 + d1 + e2, s ! 3 + e1 + a2, s ! 4 + a1 + b2, s ! 0 + b1 + c2])"

section \<open>The class\<close>

type_synonym CRIPEMD160 = "u32 hash_ctx"

definition CRIPEMD160_ctor :: CRIPEMD160 where
  "CRIPEMD160_ctor = \<lparr>ctx_s = ripemd160_Initialize, ctx_buf = replicate 64 0, ctx_bytes = 0\<rparr>"

definition CRIPEMD160_Write :: "CRIPEMD160 \<Rightarrow> bytes \<Rightarrow> CRIPEMD160" where
  "CRIPEMD160_Write = hash_Write 64 ripemd160_Transform"

definition CRIPEMD160_Finalize :: "CRIPEMD160 \<Rightarrow> CRIPEMD160 \<times> bytes" where
  "CRIPEMD160_Finalize ctx =
     (let pad = 0x80 # replicate 63 0;
          sizedesc = WriteLE64 (push_bit 3 (ctx_bytes ctx));
          ctx = CRIPEMD160_Write ctx (take (1 + ((119 - unat (ctx_bytes ctx) mod 64) mod 64)) pad);
          ctx = CRIPEMD160_Write ctx sizedesc
      in (ctx, concat (map (\<lambda>i. WriteLE32 (ctx_s ctx ! i)) [0, 1, 2, 3, 4])))"

definition CRIPEMD160_Reset :: "CRIPEMD160 \<Rightarrow> CRIPEMD160" where
  "CRIPEMD160_Reset ctx = ctx\<lparr>ctx_bytes := 0, ctx_s := ripemd160_Initialize\<rparr>"

section \<open>The reference\<close>

definition ripemd160_r :: "nat list" where
  "ripemd160_r =
     [0, 1, 2, 3, 4, 5, 6, 7, 8, 9, 10, 11, 12, 13, 14, 15,
      7, 4, 13, 1, 10, 6, 15, 3, 12, 0, 9, 5, 2, 14, 11, 8,
      3, 10, 14, 4, 9, 15, 8, 1, 2, 7, 0, 6, 13, 11, 5, 12,
      1, 9, 11, 10, 0, 8, 12, 4, 13, 3, 7, 15, 14, 5, 6, 2,
      4, 0, 5, 9, 7, 12, 2, 10, 14, 1, 3, 8, 11, 6, 15, 13]"

definition ripemd160_r' :: "nat list" where
  "ripemd160_r' =
     [5, 14, 7, 0, 9, 2, 11, 4, 13, 6, 15, 8, 1, 10, 3, 12,
      6, 11, 3, 7, 0, 13, 5, 10, 14, 15, 8, 12, 4, 9, 1, 2,
      15, 5, 1, 3, 7, 14, 6, 9, 11, 8, 12, 2, 10, 0, 4, 13,
      8, 6, 4, 1, 3, 11, 15, 0, 5, 12, 2, 13, 9, 7, 10, 14,
      12, 15, 10, 4, 1, 5, 8, 7, 6, 2, 13, 14, 0, 3, 9, 11]"

definition ripemd160_s :: "nat list" where
  "ripemd160_s =
     [11, 14, 15, 12, 5, 8, 7, 9, 11, 13, 14, 15, 6, 7, 9, 8,
      7, 6, 8, 13, 11, 9, 7, 15, 7, 12, 15, 9, 11, 7, 13, 12,
      11, 13, 6, 7, 14, 9, 13, 15, 14, 8, 13, 6, 5, 12, 7, 5,
      11, 12, 14, 15, 14, 15, 9, 8, 9, 14, 5, 6, 8, 6, 5, 12,
      9, 15, 5, 11, 6, 8, 13, 12, 5, 12, 13, 14, 11, 8, 5, 6]"

definition ripemd160_s' :: "nat list" where
  "ripemd160_s' =
     [8, 9, 9, 11, 13, 15, 15, 5, 7, 7, 8, 11, 14, 14, 12, 6,
      9, 13, 15, 7, 12, 8, 9, 11, 7, 7, 12, 7, 6, 15, 13, 11,
      9, 7, 15, 11, 8, 6, 6, 14, 12, 13, 5, 14, 13, 13, 7, 5,
      15, 5, 8, 11, 14, 14, 6, 14, 6, 9, 12, 9, 12, 5, 15, 8,
      8, 5, 12, 9, 12, 5, 14, 6, 8, 13, 6, 5, 15, 13, 11, 11]"

definition ripemd160_f_spec :: "nat \<Rightarrow> u32 \<Rightarrow> u32 \<Rightarrow> u32 \<Rightarrow> u32" where
  "ripemd160_f_spec j x y z =
     (if j < 16 then x XOR y XOR z
      else if j < 32 then (x AND y) OR (NOT x AND z)
      else if j < 48 then (x OR NOT y) XOR z
      else if j < 64 then (x AND z) OR (y AND NOT z)
      else x XOR (y OR NOT z))"

definition ripemd160_K :: "nat \<Rightarrow> u32" where
  "ripemd160_K j =
     (if j < 16 then 0 else if j < 32 then 0x5A827999 else if j < 48 then 0x6ED9EBA1
      else if j < 64 then 0x8F1BBCDC else 0xA953FD4E)"

definition ripemd160_K' :: "nat \<Rightarrow> u32" where
  "ripemd160_K' j =
     (if j < 16 then 0x50A28BE6 else if j < 32 then 0x5C4DD124 else if j < 48 then 0x6D703EF3
      else if j < 64 then 0x7A6D76E9 else 0)"

fun ripemd160_line :: "u32_5 \<Rightarrow> (u32 \<Rightarrow> u32 \<Rightarrow> u32 \<Rightarrow> u32) \<Rightarrow> u32 \<Rightarrow> u32 \<Rightarrow> nat \<Rightarrow> u32_5" where
  "ripemd160_line (a, b, c, d, e) f x k r =
     (e, word_rotl r (a + f b c d + x + k) + e, b, word_rotl 10 c, d)"

definition ripemd160_step :: "(nat \<Rightarrow> u32) \<Rightarrow> u32_5 \<times> u32_5 \<Rightarrow> nat \<Rightarrow> u32_5 \<times> u32_5" where
  "ripemd160_step M lr j =
     (ripemd160_line (fst lr) (ripemd160_f_spec j) (M (ripemd160_r ! j)) (ripemd160_K j) (ripemd160_s ! j),
      ripemd160_line (snd lr) (ripemd160_f_spec (79 - j)) (M (ripemd160_r' ! j)) (ripemd160_K' j) (ripemd160_s' ! j))"

definition ripemd160_compress :: "u32 list \<Rightarrow> bytes \<Rightarrow> u32 list" where
  "ripemd160_compress s block =
     (let M = (\<lambda>t. ReadLE32 (drop (4 * t) block));
          s0 = (s ! 0, s ! 1, s ! 2, s ! 3, s ! 4);
          ((a, b, c, d, e), (a', b', c', d', e')) = foldl (ripemd160_step M) (s0, s0) [0..<80]
      in [s ! 1 + c + d', s ! 2 + d + e', s ! 3 + e + a', s ! 4 + a + b', s ! 0 + b + c'])"

definition ripemd160 :: "bytes \<Rightarrow> bytes" where
  "ripemd160 m =
     concat (map WriteLE32
       (md_hash 64 ripemd160_compress ripemd160_Initialize (WriteLE64 (of_nat (8 * length m))) m))"

section \<open>The unrolled rounds follow the reference\<close>

lemma ripemd160_functions:
  "j < 16 \<Longrightarrow> ripemd160_f_spec j = ripemd160_f1"
  "16 \<le> j \<Longrightarrow> j < 32 \<Longrightarrow> ripemd160_f_spec j = ripemd160_f2"
  "32 \<le> j \<Longrightarrow> j < 48 \<Longrightarrow> ripemd160_f_spec j = ripemd160_f3"
  "48 \<le> j \<Longrightarrow> j < 64 \<Longrightarrow> ripemd160_f_spec j = ripemd160_f4"
  "64 \<le> j \<Longrightarrow> ripemd160_f_spec j = ripemd160_f5"
  by (simp_all add: fun_eq_iff ripemd160_f_spec_def ripemd160_f1_def ripemd160_f2_def
      ripemd160_f3_def ripemd160_f4_def ripemd160_f5_def)

lemma ripemd160_line_Round:
  assumes "0 < r" "r < 32"
  shows "ripemd160_line (a, b, c, d, e) f x k r =
     (case ripemd160_Round a b c d e (f b c d) x k r of (a', c') \<Rightarrow> (e, a', b, c', d))"
  using assms by (simp add: ripemd160_Round_def ripemd160_rol_def rotl_shifts)

lemma ripemd160_step_line:
  assumes "0 < ripemd160_s ! j" "ripemd160_s ! j < 32" "0 < ripemd160_s' ! j" "ripemd160_s' ! j < 32"
  shows "ripemd160_step M ((a, b, c, d, e), (a2, b2, c2, d2, e2)) j =
     (case ripemd160_Round a b c d e (ripemd160_f_spec j b c d) (M (ripemd160_r ! j)) (ripemd160_K j)
        (ripemd160_s ! j) of (a', c') \<Rightarrow>
      case ripemd160_Round a2 b2 c2 d2 e2 (ripemd160_f_spec (79 - j) b2 c2 d2) (M (ripemd160_r' ! j))
        (ripemd160_K' j) (ripemd160_s' ! j) of (a2', c2') \<Rightarrow>
      ((e, a', b, c', d), (e2, a2', b2, c2', d2)))"
  unfolding ripemd160_step_def fst_conv snd_conv
    ripemd160_line_Round [OF assms(1,2)] ripemd160_line_Round [OF assms(3,4)]
  by (simp split: prod.split)

lemma ripemd160_step_case:
  "ripemd160_step M (case p of (x, y) \<Rightarrow> f x y) j = (case p of (x, y) \<Rightarrow> ripemd160_step M (f x y) j)"
  by (cases p) simp

lemmas ripemd160_tables = ripemd160_r_def ripemd160_r'_def ripemd160_s_def ripemd160_s'_def
  ripemd160_K_def ripemd160_K'_def ripemd160_functions

lemmas ripemd160_calls = ripemd160_R11_def ripemd160_R21_def ripemd160_R31_def ripemd160_R41_def ripemd160_R51_def ripemd160_R12_def ripemd160_R22_def ripemd160_R32_def ripemd160_R42_def ripemd160_R52_def

lemmas ripemd160_unroll =
  ripemd160_calls ripemd160_step_line ripemd160_step_case case_prod_case_prod Let_def ripemd160_tables

lemma ripemd160_rounds0_eq:
  "ripemd160_rounds0 a1 b1 c1 d1 e1 a2 b2 c2 d2 e2 M =
     (case foldl (ripemd160_step M) ((a1, b1, c1, d1, e1), (a2, b2, c2, d2, e2)) [0..<16] of
        ((e1, a1, b1, c1, d1), (e2, a2, b2, c2, d2)) \<Rightarrow> (a1, b1, c1, d1, e1, a2, b2, c2, d2, e2))"
  by (simp add: ripemd160_rounds0_def ripemd160_unroll upt_0_16)

lemma ripemd160_rounds1_eq:
  "ripemd160_rounds1 a1 b1 c1 d1 e1 a2 b2 c2 d2 e2 M =
     (case foldl (ripemd160_step M) ((e1, a1, b1, c1, d1), (e2, a2, b2, c2, d2)) [16..<32] of
        ((d1, e1, a1, b1, c1), (d2, e2, a2, b2, c2)) \<Rightarrow> (a1, b1, c1, d1, e1, a2, b2, c2, d2, e2))"
  by (simp add: ripemd160_rounds1_def ripemd160_unroll upt_rec_numeral)

lemma ripemd160_rounds2_eq:
  "ripemd160_rounds2 a1 b1 c1 d1 e1 a2 b2 c2 d2 e2 M =
     (case foldl (ripemd160_step M) ((d1, e1, a1, b1, c1), (d2, e2, a2, b2, c2)) [32..<48] of
        ((c1, d1, e1, a1, b1), (c2, d2, e2, a2, b2)) \<Rightarrow> (a1, b1, c1, d1, e1, a2, b2, c2, d2, e2))"
  by (simp add: ripemd160_rounds2_def ripemd160_unroll upt_rec_numeral)

lemma ripemd160_rounds3_eq:
  "ripemd160_rounds3 a1 b1 c1 d1 e1 a2 b2 c2 d2 e2 M =
     (case foldl (ripemd160_step M) ((c1, d1, e1, a1, b1), (c2, d2, e2, a2, b2)) [48..<64] of
        ((b1, c1, d1, e1, a1), (b2, c2, d2, e2, a2)) \<Rightarrow> (a1, b1, c1, d1, e1, a2, b2, c2, d2, e2))"
  by (simp add: ripemd160_rounds3_def ripemd160_unroll upt_rec_numeral)

lemma ripemd160_rounds4_eq:
  "ripemd160_rounds4 a1 b1 c1 d1 e1 a2 b2 c2 d2 e2 M =
     (case foldl (ripemd160_step M) ((b1, c1, d1, e1, a1), (b2, c2, d2, e2, a2)) [64..<80] of
        ((a1, b1, c1, d1, e1), (a2, b2, c2, d2, e2)) \<Rightarrow> (a1, b1, c1, d1, e1, a2, b2, c2, d2, e2))"
  by (simp add: ripemd160_rounds4_def ripemd160_unroll upt_rec_numeral)

lemma prod_cases5x5:
  obtains a b c d e a' b' c' d' e' where "p = ((a, b, c, d, e), (a', b', c', d', e'))"
  by (cases p) auto

lemma ripemd160_Transform_eq: "ripemd160_Transform s chunk = ripemd160_compress s chunk"
proof -
  let ?M = "\<lambda>t. ReadLE32 (drop (4 * t) chunk)"
  have u: "[0..<80] = [0..<16] @ [16..<32] @ [32..<48] @ [48..<64] @ [64..<80]"
    using upt_split16 [of 0 16] upt_split16 [of 0 32] upt_split16 [of 0 48] upt_split16 [of 0 64] by simp
  obtain a10 b10 c10 d10 e10 a20 b20 c20 d20 e20 where s0:
    "foldl (ripemd160_step ?M) ((s ! 0, s ! 1, s ! 2, s ! 3, s ! 4), (s ! 0, s ! 1, s ! 2, s ! 3, s ! 4)) [0..<16] = ((e10, a10, b10, c10, d10), (e20, a20, b20, c20, d20))"
    by (rule prod_cases5x5)
  obtain a11 b11 c11 d11 e11 a21 b21 c21 d21 e21 where s1:
    "foldl (ripemd160_step ?M) ((e10, a10, b10, c10, d10), (e20, a20, b20, c20, d20)) [16..<32] = ((d11, e11, a11, b11, c11), (d21, e21, a21, b21, c21))"
    by (rule prod_cases5x5)
  obtain a12 b12 c12 d12 e12 a22 b22 c22 d22 e22 where s2:
    "foldl (ripemd160_step ?M) ((d11, e11, a11, b11, c11), (d21, e21, a21, b21, c21)) [32..<48] = ((c12, d12, e12, a12, b12), (c22, d22, e22, a22, b22))"
    by (rule prod_cases5x5)
  obtain a13 b13 c13 d13 e13 a23 b23 c23 d23 e23 where s3:
    "foldl (ripemd160_step ?M) ((c12, d12, e12, a12, b12), (c22, d22, e22, a22, b22)) [48..<64] = ((b13, c13, d13, e13, a13), (b23, c23, d23, e23, a23))"
    by (rule prod_cases5x5)
  obtain a14 b14 c14 d14 e14 a24 b24 c24 d24 e24 where s4:
    "foldl (ripemd160_step ?M) ((b13, c13, d13, e13, a13), (b23, c23, d23, e23, a23)) [64..<80] = ((a14, b14, c14, d14, e14), (a24, b24, c24, d24, e24))"
    by (rule prod_cases5x5)
  show ?thesis
    unfolding ripemd160_Transform_def ripemd160_compress_def Let_def u foldl_append s0 s1 s2 s3 s4
      ripemd160_rounds0_eq ripemd160_rounds1_eq ripemd160_rounds2_eq ripemd160_rounds3_eq
      ripemd160_rounds4_eq prod.case
    by simp
qed

lemma ripemd160_r_bound: "j < 80 \<Longrightarrow> ripemd160_r ! j \<le> 15 \<and> ripemd160_r' ! j \<le> 15"
proof -
  have "\<forall>x\<in>set (ripemd160_r @ ripemd160_r'). x \<le> 15" by (simp add: ripemd160_r_def ripemd160_r'_def)
  moreover have "length ripemd160_r = 80" "length ripemd160_r' = 80"
    by (simp_all add: ripemd160_r_def ripemd160_r'_def)
  ultimately show "j < 80 \<Longrightarrow> ?thesis" by (metis UnCI nth_mem set_append)
qed

lemma ripemd160_foldl_cong:
  assumes "\<And>i. i \<le> 15 \<Longrightarrow> M i = M' i" "\<And>j. j \<in> set js \<Longrightarrow> j < 80"
  shows "foldl (ripemd160_step M) lr js = foldl (ripemd160_step M') lr js"
  using assms(2)
proof (induction js arbitrary: lr)
  case (Cons j js)
  then have "j < 80" by simp
  from ripemd160_r_bound [OF this] have "ripemd160_step M lr j = ripemd160_step M' lr j"
    by (simp add: ripemd160_step_def assms(1))
  with Cons show ?case by simp
qed simp

interpretation ripemd160: block_hash 64 ripemd160_Transform
proof
  show "(0 :: nat) < 64" by simp
  show "(64 :: nat) dvd 2 ^ 64" by simp
  show "ripemd160_Transform s (take 64 d) = ripemd160_Transform s d" if "64 \<le> length d" for s d
  proof -
    have "ReadLE32 (drop (4 * i) (take 64 d)) = ReadLE32 (drop (4 * i) d)" if "i \<le> 15" for i
      using that \<open>64 \<le> length d\<close> by simp
    then show ?thesis
      unfolding ripemd160_Transform_eq ripemd160_compress_def Let_def
      by (subst ripemd160_foldl_cong) simp_all
  qed
qed

lemma length_ripemd160_Transform [simp]: "length (ripemd160_Transform s chunk) = 5"
  unfolding ripemd160_Transform_eq ripemd160_compress_def Let_def by (simp split: prod.split)

lemma length_foldl_ripemd160: "length s = 5 \<Longrightarrow> length (foldl ripemd160_Transform s bs) = 5"
  by (induction bs arbitrary: s) simp_all

abbreviation CRIPEMD160_rep :: "CRIPEMD160 \<Rightarrow> bytes \<Rightarrow> bool" where
  "CRIPEMD160_rep \<equiv> ctx_rep 64 ripemd160_Transform ripemd160_Initialize"

lemma length_ripemd160 [simp]: "length (ripemd160 m) = 20"
proof -
  have T: "ripemd160_Transform = ripemd160_compress" by (intro ext) (rule ripemd160_Transform_eq)
  have "length (md_hash 64 ripemd160_Transform ripemd160_Initialize z m) = 5" for z
    by (simp add: md_hash_def length_foldl_ripemd160 ripemd160_Initialize_def)
  moreover have "length (concat (map WriteLE32 xs)) = 20 div 5 * length xs" for xs
    by (induction xs) (simp_all add: WriteLE32_def)
  ultimately show ?thesis by (simp add: ripemd160_def T [symmetric])
qed

lemma CRIPEMD160_ctor_rep: "CRIPEMD160_rep CRIPEMD160_ctor []"
  unfolding CRIPEMD160_ctor_def by (rule ctx_rep_init) simp_all

lemma CRIPEMD160_Write_rep: "CRIPEMD160_rep ctx m \<Longrightarrow> CRIPEMD160_rep (CRIPEMD160_Write ctx d) (m @ d)"
  unfolding CRIPEMD160_Write_def by (rule ripemd160.write_rep)

lemma CRIPEMD160_Reset_rep: "CRIPEMD160_rep ctx m \<Longrightarrow> CRIPEMD160_rep (CRIPEMD160_Reset ctx) []"
  by (simp add: CRIPEMD160_Reset_def ctx_rep_def)

lemma CRIPEMD160_Finalize_ctx: "CRIPEMD160_rep ctx m \<Longrightarrow> \<exists>m'. CRIPEMD160_rep (fst (CRIPEMD160_Finalize ctx)) m'"
  unfolding CRIPEMD160_Finalize_def Let_def fst_conv by (rule exI) (rule CRIPEMD160_Write_rep [OF CRIPEMD160_Write_rep])

lemma CRIPEMD160_Finalize_rep:
  assumes rep: "CRIPEMD160_rep ctx m"
  shows "snd (CRIPEMD160_Finalize ctx) = ripemd160 m"
proof -
  have T: "ripemd160_Transform = ripemd160_compress" by (intro ext) (rule ripemd160_Transform_eq)
  have sz: "push_bit 3 (ctx_bytes ctx) = of_nat (8 * length m)"
    using rep by (simp add: ctx_rep_def push_bit_eq_mult)
  have list5: "[0, 1, 2, 3, 4] = [0 :: nat..<5]" by code_simp
  let ?sz = "WriteLE64 (of_nat (8 * length m))"
  have "length ?sz < 64" by (simp add: WriteLE64_def)
  from ripemd160.pad_rep [OF rep this]
  have s: "ctx_s (hash_Write 64 ripemd160_Transform (hash_Write 64 ripemd160_Transform ctx
      (take (1 + ((119 - unat (ctx_bytes ctx) mod 64) mod 64)) (0x80 # replicate 63 0))) ?sz)
    = md_hash 64 ripemd160_Transform ripemd160_Initialize ?sz m" (is "_ = ?h")
    by (simp add: WriteLE64_def)
  have "length ?h = 5"
    by (simp add: md_hash_def length_foldl_ripemd160 ripemd160_Initialize_def)
  note h = map_nth_upt [OF this, of WriteLE32]
  show ?thesis
    unfolding CRIPEMD160_Finalize_def CRIPEMD160_Write_def [symmetric] Let_def ripemd160_def
      T [symmetric] sz list5 s [folded CRIPEMD160_Write_def] h
    by simp
qed

text \<open>
  C32: the class \<open>CRIPEMD160\<close>, fed a message in any pieces, returns the RIPEMD-160 digest of
  their concatenation, computed from the standard's tables with both lines in step.
\<close>

theorem CRIPEMD160_correct:
  "snd (CRIPEMD160_Finalize (foldl CRIPEMD160_Write CRIPEMD160_ctor ds)) = ripemd160 (concat ds)"
  using CRIPEMD160_Finalize_rep [OF ripemd160.writes_rep [OF CRIPEMD160_ctor_rep]]
  by (simp add: CRIPEMD160_Write_def)

end
