(* ===== verification/Hash.thy ===== *)
theory Hash
  imports Sha256 Sha512 Sha1 Ripemd160
begin

text \<open>
  The keyed and composed hashes built on the block hashes: HMAC
  (\<^verbatim>\<open>crypto/hmac_sha256.cpp\<close>, \<^verbatim>\<open>crypto/hmac_sha512.cpp\<close>), double SHA-256 and
  RIPEMD-160 of SHA-256 (\<^verbatim>\<open>hash.h\<close>), MurmurHash3, the BIP32 child hash and SipHash-2-4
  (\<^verbatim>\<open>hash.cpp\<close>).  A \<open>uint256\<close> is the list of its 32 bytes.
\<close>

type_synonym uint256 = bytes
type_synonym uint160 = bytes

section \<open>HMAC\<close>

record CHMAC_SHA256 =
  hm256_outer :: CSHA256
  hm256_inner :: CSHA256

definition CHMAC_SHA256_ctor :: "bytes \<Rightarrow> CHMAC_SHA256" where
  "CHMAC_SHA256_ctor key =
     (let rkey = (if length key \<le> 64 then key @ replicate (64 - length key) 0
                  else snd (CSHA256_Finalize (CSHA256_Write CSHA256_ctor key)) @ replicate 32 0);
          rkey = map (\<lambda>b. b XOR 0x5c) rkey;
          outer = CSHA256_Write CSHA256_ctor rkey;
          rkey = map (\<lambda>b. b XOR (0x5c XOR 0x36)) rkey;
          inner = CSHA256_Write CSHA256_ctor rkey
      in \<lparr>hm256_outer = outer, hm256_inner = inner\<rparr>)"

definition CHMAC_SHA256_Write :: "CHMAC_SHA256 \<Rightarrow> bytes \<Rightarrow> CHMAC_SHA256" where
  "CHMAC_SHA256_Write h data = h\<lparr>hm256_inner := CSHA256_Write (hm256_inner h) data\<rparr>"

definition CHMAC_SHA256_Finalize :: "CHMAC_SHA256 \<Rightarrow> bytes" where
  "CHMAC_SHA256_Finalize h =
     (let temp = snd (CSHA256_Finalize (hm256_inner h))
      in snd (CSHA256_Finalize (CSHA256_Write (hm256_outer h) temp)))"

record CHMAC_SHA512 =
  hm512_outer :: CSHA512
  hm512_inner :: CSHA512

definition CHMAC_SHA512_ctor :: "bytes \<Rightarrow> CHMAC_SHA512" where
  "CHMAC_SHA512_ctor key =
     (let rkey = (if length key \<le> 128 then key @ replicate (128 - length key) 0
                  else snd (CSHA512_Finalize (CSHA512_Write CSHA512_ctor key)) @ replicate 64 0);
          rkey = map (\<lambda>b. b XOR 0x5c) rkey;
          outer = CSHA512_Write CSHA512_ctor rkey;
          rkey = map (\<lambda>b. b XOR (0x5c XOR 0x36)) rkey;
          inner = CSHA512_Write CSHA512_ctor rkey
      in \<lparr>hm512_outer = outer, hm512_inner = inner\<rparr>)"

definition CHMAC_SHA512_Write :: "CHMAC_SHA512 \<Rightarrow> bytes \<Rightarrow> CHMAC_SHA512" where
  "CHMAC_SHA512_Write h data = h\<lparr>hm512_inner := CSHA512_Write (hm512_inner h) data\<rparr>"

definition CHMAC_SHA512_Finalize :: "CHMAC_SHA512 \<Rightarrow> bytes" where
  "CHMAC_SHA512_Finalize h =
     (let temp = snd (CSHA512_Finalize (hm512_inner h))
      in snd (CSHA512_Finalize (CSHA512_Write (hm512_outer h) temp)))"

section \<open>Double hashes\<close>

type_synonym CHash256 = CSHA256
type_synonym CHash160 = CSHA256

definition CHash256_Finalize :: "CHash256 \<Rightarrow> bytes" where
  "CHash256_Finalize sha =
     (let (sha, buf) = CSHA256_Finalize sha
      in snd (CSHA256_Finalize (CSHA256_Write (CSHA256_Reset sha) buf)))"

definition CHash256_Write :: "CHash256 \<Rightarrow> bytes \<Rightarrow> CHash256" where
  "CHash256_Write sha data = CSHA256_Write sha data"

definition CHash256_Reset :: "CHash256 \<Rightarrow> CHash256" where
  "CHash256_Reset sha = CSHA256_Reset sha"

definition CHash160_Finalize :: "CHash160 \<Rightarrow> bytes" where
  "CHash160_Finalize sha =
     (let (sha, buf) = CSHA256_Finalize sha
      in snd (CRIPEMD160_Finalize (CRIPEMD160_Write CRIPEMD160_ctor buf)))"

definition CHash160_Write :: "CHash160 \<Rightarrow> bytes \<Rightarrow> CHash160" where
  "CHash160_Write sha data = CSHA256_Write sha data"

definition CHash160_Reset :: "CHash160 \<Rightarrow> CHash160" where
  "CHash160_Reset sha = CSHA256_Reset sha"

definition Hash1 :: "bytes \<Rightarrow> uint256" where
  "Hash1 p1 = CHash256_Finalize (CHash256_Write CSHA256_ctor p1)"

definition Hash2 :: "bytes \<Rightarrow> bytes \<Rightarrow> uint256" where
  "Hash2 p1 p2 = CHash256_Finalize (CHash256_Write (CHash256_Write CSHA256_ctor p1) p2)"

definition Hash3 :: "bytes \<Rightarrow> bytes \<Rightarrow> bytes \<Rightarrow> uint256" where
  "Hash3 p1 p2 p3 =
     CHash256_Finalize (CHash256_Write (CHash256_Write (CHash256_Write CSHA256_ctor p1) p2) p3)"

definition Hash160 :: "bytes \<Rightarrow> uint160" where
  "Hash160 vch = CHash160_Finalize (CHash160_Write CSHA256_ctor vch)"

type_synonym CHashWriter = CHash256

definition CHashWriter_ctor :: CHashWriter where
  "CHashWriter_ctor = CSHA256_ctor"

definition CHashWriter_write :: "CHashWriter \<Rightarrow> bytes \<Rightarrow> CHashWriter" where
  "CHashWriter_write ctx pch = CHash256_Write ctx pch"

definition CHashWriter_GetHash :: "CHashWriter \<Rightarrow> uint256" where
  "CHashWriter_GetHash ctx = CHash256_Finalize ctx"

section \<open>MurmurHash3\<close>

definition ROTL32 :: "u32 \<Rightarrow> nat \<Rightarrow> u32" where
  "ROTL32 x r = push_bit r x OR drop_bit (32 - r) x"

fun murmur_body :: "u32 \<Rightarrow> bytes \<Rightarrow> u32" where
  "murmur_body h1 (b0 # b1 # b2 # b3 # rest) =
     (let k1 = ReadLE32 [b0, b1, b2, b3];
          k1 = k1 * 0xcc9e2d51;
          k1 = ROTL32 k1 15;
          k1 = k1 * 0x1b873593;
          h1 = h1 XOR k1;
          h1 = ROTL32 h1 13;
          h1 = h1 * 5 + 0xe6546b64
      in murmur_body h1 rest)"
| "murmur_body h1 rest = h1"

definition murmur_tail :: "u32 \<Rightarrow> bytes \<Rightarrow> u32" where
  "murmur_tail h1 tail =
     (let n = length tail;
          k1 = 0;
          k1 = (if n = 3 then k1 XOR push_bit 16 (ucast (tail ! 2)) else k1);
          k1 = (if n = 3 \<or> n = 2 then k1 XOR push_bit 8 (ucast (tail ! 1)) else k1)
      in if n = 3 \<or> n = 2 \<or> n = 1
         then let k1 = k1 XOR ucast (tail ! 0);
                  k1 = k1 * 0xcc9e2d51;
                  k1 = ROTL32 k1 15;
                  k1 = k1 * 0x1b873593
              in h1 XOR k1
         else h1)"

definition MurmurHash3 :: "u32 \<Rightarrow> bytes \<Rightarrow> u32" where
  "MurmurHash3 nHashSeed vDataToHash =
     (let h1 = nHashSeed;
          nblocks = length vDataToHash div 4;
          h1 = (if 0 < length vDataToHash
                then murmur_tail (murmur_body h1 vDataToHash) (drop (nblocks * 4) vDataToHash)
                else h1);
          h1 = h1 XOR of_nat (length vDataToHash);
          h1 = h1 XOR drop_bit 16 h1;
          h1 = h1 * 0x85ebca6b;
          h1 = h1 XOR drop_bit 13 h1;
          h1 = h1 * 0xc2b2ae35;
          h1 = h1 XOR drop_bit 16 h1
      in h1)"

definition BIP32Hash :: "uint256 \<Rightarrow> u32 \<Rightarrow> u8 \<Rightarrow> bytes \<Rightarrow> bytes" where
  "BIP32Hash chainCode nChild header data =
     (let num = [ucast (drop_bit 24 nChild AND 0xFF), ucast (drop_bit 16 nChild AND 0xFF),
                 ucast (drop_bit 8 nChild AND 0xFF), ucast (drop_bit 0 nChild AND 0xFF)]
      in CHMAC_SHA512_Finalize (CHMAC_SHA512_Write (CHMAC_SHA512_Write
           (CHMAC_SHA512_Write (CHMAC_SHA512_ctor chainCode) [header]) data) num))"

section \<open>SipHash\<close>

definition ROTL :: "u64 \<Rightarrow> nat \<Rightarrow> u64" where
  "ROTL x b = push_bit b x OR drop_bit (64 - b) x"

type_synonym sip_v = "u64 \<times> u64 \<times> u64 \<times> u64"

fun SIPROUND :: "sip_v \<Rightarrow> sip_v" where
  "SIPROUND (v0, v1, v2, v3) =
     (let v0 = v0 + v1; v1 = ROTL v1 13; v1 = v1 XOR v0;
          v0 = ROTL v0 32;
          v2 = v2 + v3; v3 = ROTL v3 16; v3 = v3 XOR v2;
          v0 = v0 + v3; v3 = ROTL v3 21; v3 = v3 XOR v0;
          v2 = v2 + v1; v1 = ROTL v1 17; v1 = v1 XOR v2;
          v2 = ROTL v2 32
      in (v0, v1, v2, v3))"

record CSipHasher =
  sip_state :: sip_v
  sip_tmp :: u64
  sip_count :: nat

definition CSipHasher_ctor :: "u64 \<Rightarrow> u64 \<Rightarrow> CSipHasher" where
  "CSipHasher_ctor k0 k1 =
     \<lparr>sip_state = (0x736f6d6570736575 XOR k0, 0x646f72616e646f6d XOR k1,
                   0x6c7967656e657261 XOR k0, 0x7465646279746573 XOR k1),
      sip_tmp = 0, sip_count = 0\<rparr>"

fun sip_absorb :: "sip_v \<Rightarrow> u64 \<Rightarrow> sip_v" where
  "sip_absorb (v0, v1, v2, v3) d =
     (let v3 = v3 XOR d;
          (v0, v1, v2, v3) = SIPROUND (SIPROUND (v0, v1, v2, v3));
          v0 = v0 XOR d
      in (v0, v1, v2, v3))"

definition CSipHasher_Write64 :: "CSipHasher \<Rightarrow> u64 \<Rightarrow> CSipHasher option" where
  "CSipHasher_Write64 h data =
     (if sip_count h mod 8 \<noteq> 0 then None
      else Some (h\<lparr>sip_state := sip_absorb (sip_state h) data, sip_count := sip_count h + 8\<rparr>))"

fun sip_bytes :: "sip_v \<Rightarrow> u64 \<Rightarrow> nat \<Rightarrow> bytes \<Rightarrow> sip_v \<times> u64 \<times> nat" where
  "sip_bytes v t c [] = (v, t, c)"
| "sip_bytes v t c (b # bs) =
     (let t = t OR push_bit (8 * (c mod 8)) (ucast b);
          c = c + 1
      in if c mod 8 = 0 then sip_bytes (sip_absorb v t) 0 c bs else sip_bytes v t c bs)"

definition CSipHasher_Write :: "CSipHasher \<Rightarrow> bytes \<Rightarrow> CSipHasher" where
  "CSipHasher_Write h data =
     (let (v, t, c) = sip_bytes (sip_state h) (sip_tmp h) (sip_count h) data
      in \<lparr>sip_state = v, sip_tmp = t, sip_count = c\<rparr>)"

definition CSipHasher_Finalize :: "CSipHasher \<Rightarrow> u64" where
  "CSipHasher_Finalize h =
     (let t = sip_tmp h OR push_bit 56 (of_nat (sip_count h));
          (v0, v1, v2, v3) = sip_absorb (sip_state h) t;
          v2 = v2 XOR 0xFF;
          (v0, v1, v2, v3) = SIPROUND (SIPROUND (SIPROUND (SIPROUND (v0, v1, v2, v3))))
      in v0 XOR v1 XOR v2 XOR v3)"

definition GetUint64 :: "uint256 \<Rightarrow> nat \<Rightarrow> u64" where
  "GetUint64 val pos =
     (let ptr = drop (pos * 8) val
      in ucast (ptr ! 0) OR push_bit 8 (ucast (ptr ! 1)) OR push_bit 16 (ucast (ptr ! 2))
         OR push_bit 24 (ucast (ptr ! 3)) OR push_bit 32 (ucast (ptr ! 4))
         OR push_bit 40 (ucast (ptr ! 5)) OR push_bit 48 (ucast (ptr ! 6))
         OR push_bit 56 (ucast (ptr ! 7)))"

definition SipHashUint256 :: "u64 \<Rightarrow> u64 \<Rightarrow> uint256 \<Rightarrow> u64" where
  "SipHashUint256 k0 k1 val =
     (let d = GetUint64 val 0;
          v0 = 0x736f6d6570736575 XOR k0;
          v1 = 0x646f72616e646f6d XOR k1;
          v2 = 0x6c7967656e657261 XOR k0;
          v3 = (0x7465646279746573 XOR k1) XOR d;
          (v0, v1, v2, v3) = SIPROUND (SIPROUND (v0, v1, v2, v3));
          v0 = v0 XOR d;
          d = GetUint64 val 1;
          v3 = v3 XOR d;
          (v0, v1, v2, v3) = SIPROUND (SIPROUND (v0, v1, v2, v3));
          v0 = v0 XOR d;
          d = GetUint64 val 2;
          v3 = v3 XOR d;
          (v0, v1, v2, v3) = SIPROUND (SIPROUND (v0, v1, v2, v3));
          v0 = v0 XOR d;
          d = GetUint64 val 3;
          v3 = v3 XOR d;
          (v0, v1, v2, v3) = SIPROUND (SIPROUND (v0, v1, v2, v3));
          v0 = v0 XOR d;
          v3 = v3 XOR push_bit 59 4;
          (v0, v1, v2, v3) = SIPROUND (SIPROUND (v0, v1, v2, v3));
          v0 = v0 XOR push_bit 59 4;
          v2 = v2 XOR 0xFF;
          (v0, v1, v2, v3) = SIPROUND (SIPROUND (SIPROUND (SIPROUND (v0, v1, v2, v3))))
      in v0 XOR v1 XOR v2 XOR v3)"

section \<open>References and correctness\<close>

definition hmac :: "(bytes \<Rightarrow> bytes) \<Rightarrow> nat \<Rightarrow> bytes \<Rightarrow> bytes \<Rightarrow> bytes" where
  "hmac H B key m =
     (let k = (if length key \<le> B then key else H key);
          k = k @ replicate (B - length k) 0
      in H (map (\<lambda>b. b XOR 0x5c) k @ H (map (\<lambda>b. b XOR 0x36) k @ m)))"

lemma ipad_from_opad: "map (\<lambda>b. b XOR (0x5c XOR 0x36)) (map (\<lambda>b :: u8. b XOR 0x5c) k) = map (\<lambda>b. b XOR 0x36) k"
  by (simp add: xor.assoc)

lemma CSHA256_one [simp]: "snd (CSHA256_Finalize (CSHA256_Write CSHA256_ctor m)) = sha256 m"
  using CSHA256_Finalize_rep [OF CSHA256_Write_rep [OF CSHA256_ctor_rep]] by simp

lemma CSHA512_one [simp]: "snd (CSHA512_Finalize (CSHA512_Write CSHA512_ctor m)) = sha512 m"
  using CSHA512_Finalize_rep [OF CSHA512_Write_rep [OF CSHA512_ctor_rep]] by simp

lemma CRIPEMD160_one [simp]:
  "snd (CRIPEMD160_Finalize (CRIPEMD160_Write CRIPEMD160_ctor m)) = ripemd160 m"
  using CRIPEMD160_Finalize_rep [OF CRIPEMD160_Write_rep [OF CRIPEMD160_ctor_rep]] by simp

lemma CSHA1_one [simp]: "snd (CSHA1_Finalize (CSHA1_Write CSHA1_ctor m)) = sha1 m"
  using CSHA1_Finalize_rep [OF CSHA1_Write_rep [OF CSHA1_ctor_rep]] by simp

lemma CHMAC_SHA256_writes:
  "hm256_outer (foldl CHMAC_SHA256_Write h ds) = hm256_outer h"
  "CSHA256_rep (hm256_inner h) m \<Longrightarrow>
     CSHA256_rep (hm256_inner (foldl CHMAC_SHA256_Write h ds)) (m @ concat ds)"
  by (induction ds arbitrary: h m)
    (simp_all add: CHMAC_SHA256_Write_def CSHA256_Write_rep flip: append_assoc)

lemma CHMAC_SHA512_writes:
  "hm512_outer (foldl CHMAC_SHA512_Write h ds) = hm512_outer h"
  "CSHA512_rep (hm512_inner h) m \<Longrightarrow>
     CSHA512_rep (hm512_inner (foldl CHMAC_SHA512_Write h ds)) (m @ concat ds)"
  by (induction ds arbitrary: h m)
    (simp_all add: CHMAC_SHA512_Write_def CSHA512_Write_rep flip: append_assoc)

lemma CHMAC_SHA256_ctor_rep:
  assumes "k = (if length key \<le> 64 then key else sha256 key)"
    and "k' = k @ replicate (64 - length k) 0"
  shows "CSHA256_rep (hm256_outer (CHMAC_SHA256_ctor key)) (map (\<lambda>b. b XOR 0x5c) k')"
    and "CSHA256_rep (hm256_inner (CHMAC_SHA256_ctor key)) (map (\<lambda>b. b XOR 0x36) k')"
  unfolding CHMAC_SHA256_ctor_def Let_def ipad_from_opad CSHA256_one
  using CSHA256_Write_rep [OF CSHA256_ctor_rep] by (simp_all add: assms)

lemma CHMAC_SHA512_ctor_rep:
  assumes "k = (if length key \<le> 128 then key else sha512 key)"
    and "k' = k @ replicate (128 - length k) 0"
  shows "CSHA512_rep (hm512_outer (CHMAC_SHA512_ctor key)) (map (\<lambda>b. b XOR 0x5c) k')"
    and "CSHA512_rep (hm512_inner (CHMAC_SHA512_ctor key)) (map (\<lambda>b. b XOR 0x36) k')"
  unfolding CHMAC_SHA512_ctor_def Let_def ipad_from_opad CSHA512_one
  using CSHA512_Write_rep [OF CSHA512_ctor_rep] by (simp_all add: assms)

text \<open>
  Both HMAC classes compute RFC 2104: with the key shortened by the hash when it is longer
  than a block and padded with zeros, the digest of any sequence of writes is
  \<open>H (K xor opad, H (K xor ipad, message))\<close>.
\<close>

lemma hmac_correct:
  "CHMAC_SHA256_Finalize (foldl CHMAC_SHA256_Write (CHMAC_SHA256_ctor key) ds)
     = hmac sha256 64 key (concat ds) \<and>
   CHMAC_SHA512_Finalize (foldl CHMAC_SHA512_Write (CHMAC_SHA512_ctor key) ds)
     = hmac sha512 128 key (concat ds)"
  unfolding hmac_def Let_def CHMAC_SHA256_Finalize_def CHMAC_SHA512_Finalize_def
    CHMAC_SHA256_writes(1) CHMAC_SHA512_writes(1)
    CSHA256_Finalize_rep [OF CHMAC_SHA256_writes(2) [OF CHMAC_SHA256_ctor_rep(2) [OF refl refl]]]
    CSHA512_Finalize_rep [OF CHMAC_SHA512_writes(2) [OF CHMAC_SHA512_ctor_rep(2) [OF refl refl]]]
    CSHA256_Finalize_rep [OF CSHA256_Write_rep [OF CHMAC_SHA256_ctor_rep(1) [OF refl refl]]]
    CSHA512_Finalize_rep [OF CSHA512_Write_rep [OF CHMAC_SHA512_ctor_rep(1) [OF refl refl]]]
  by simp

lemma CHash256_Finalize_rep:
  assumes "CSHA256_rep sha m"
  shows "CHash256_Finalize sha = sha256 (sha256 m)"
proof -
  obtain m' where "CSHA256_rep (fst (CSHA256_Finalize sha)) m'"
    using CSHA256_Finalize_ctx [OF assms] by blast
  from CSHA256_Finalize_rep [OF CSHA256_Write_rep [OF CSHA256_Reset_rep [OF this]]]
  show ?thesis
    by (simp add: CHash256_Finalize_def CSHA256_Finalize_rep [OF assms] split_beta)
qed

lemma CHash160_Finalize_rep: "CSHA256_rep sha m \<Longrightarrow> CHash160_Finalize sha = ripemd160 (sha256 m)"
  by (simp add: CHash160_Finalize_def CSHA256_Finalize_rep split_beta)

lemmas hash_write_rep =
  CSHA256_Write_rep [OF CSHA256_ctor_rep]
  CSHA256_Write_rep [OF CSHA256_Write_rep [OF CSHA256_ctor_rep]]
  CSHA256_Write_rep [OF CSHA256_Write_rep [OF CSHA256_Write_rep [OF CSHA256_ctor_rep]]]

text \<open>
  The hash functions of \<^verbatim>\<open>hash.h\<close> are functions of the concatenation of their arguments
  only: \<open>Hash\<close> of one, two or three ranges is the double SHA-256 of the joined bytes and
  \<open>Hash160\<close> is RIPEMD-160 of SHA-256, with digests of 32 and 20 bytes.
\<close>

lemma hash_functions_correct:
  "Hash1 a = sha256 (sha256 a) \<and> Hash2 a b = Hash1 (a @ b) \<and> Hash3 a b c = Hash1 (a @ b @ c) \<and>
   Hash160 a = ripemd160 (sha256 a) \<and> length (Hash1 a) = 32 \<and> length (Hash160 a) = 20"
  using hash_write_rep [THEN CHash256_Finalize_rep] CHash160_Finalize_rep [OF hash_write_rep(1)]
  by (simp add: Hash1_def Hash2_def Hash3_def Hash160_def CHash256_Write_def CHash160_Write_def)

section \<open>The specialised SipHash\<close>

lemma sip_absorb_expand:
  "sip_absorb (v0, v1, v2, v3) d =
     (case SIPROUND (SIPROUND (v0, v1, v2, v3 XOR d)) of (v0, v1, v2, v3) \<Rightarrow> (v0 XOR d, v1, v2, v3))"
  by (simp only: sip_absorb.simps Let_def)

lemma GetUint64_bytes:
  "GetUint64 (xs @ [b0, b1, b2, b3, b4, b5, b6, b7] @ ys) n =
     ucast b0 OR push_bit 8 (ucast b1) OR push_bit 16 (ucast b2) OR push_bit 24 (ucast b3)
       OR push_bit 32 (ucast b4) OR push_bit 40 (ucast b5) OR push_bit 48 (ucast b6)
       OR push_bit 56 (ucast b7)" if "length xs = n * 8"
  using that by (simp add: GetUint64_def)

fun or_bytes :: "nat \<Rightarrow> bytes \<Rightarrow> u64" where
  "or_bytes k [] = 0"
| "or_bytes k (b # bs) = push_bit (8 * k) (ucast b) OR or_bytes (k + 1) bs"

lemma sip_bytes_partial:
  assumes "k + length xs \<le> 7"
  shows "sip_bytes v t (8 * q + k) (xs @ bs) =
     sip_bytes v (t OR or_bytes k xs) (8 * q + k + length xs) bs"
  using assms
proof (induction xs arbitrary: t k)
  case (Cons x xs)
  have "(8 * q + k) mod 8 = k" "(8 * q + (k + 1)) mod 8 = k + 1"
    using Cons.prems by (simp_all del: add_Suc_right)
  with Cons.IH [of "k + 1" "t OR push_bit (8 * k) (ucast x)"] Cons.prems
  show ?case by (simp add: Let_def or.assoc)
qed simp

lemma sip_bytes_eight:
  assumes "length xs = 7"
  shows "sip_bytes v 0 (8 * q) (xs @ b # bs) =
     sip_bytes (sip_absorb v (or_bytes 0 (xs @ [b]))) 0 (8 * (q + 1)) bs"
proof -
  have app: "or_bytes k (ys @ [b]) = or_bytes k ys OR push_bit (8 * (k + length ys)) (ucast b)" for k ys
    by (induction ys arbitrary: k) (simp_all add: or.assoc add.assoc)
  have "sip_bytes v 0 (8 * q) (xs @ b # bs) = sip_bytes v (or_bytes 0 xs) (8 * q + 7) (b # bs)"
    using sip_bytes_partial [of 0 xs v 0 q "b # bs"] assms by simp
  also have "\<dots> = sip_bytes (sip_absorb v (or_bytes 0 xs OR push_bit 56 (ucast b))) 0 (8 * (q + 1)) bs"
  proof -
    have "(8 * q + 7) mod 8 = 7" "(8 * q + 7 + 1) mod 8 = 0" by simp_all
    then show ?thesis by (simp add: Let_def del: mod_mult_self4)
  qed
  finally show ?thesis using app [of 0 xs] assms by simp
qed

lemma GetUint64_or_bytes:
  assumes "n * 8 + 8 \<le> length val"
  shows "GetUint64 val n = or_bytes 0 (take 7 (drop (n * 8) val) @ [val ! (n * 8 + 7)])"
proof -
  define p where "p = drop (n * 8) val"
  have "8 \<le> length p" using assms by (simp add: p_def)
  then obtain b0 b1 b2 b3 b4 b5 b6 b7 r where p: "p = b0 # b1 # b2 # b3 # b4 # b5 # b6 # b7 # r"
    by (auto simp: numeral_eq_Suc Suc_le_length_iff)
  have "val ! (n * 8 + 7) = p ! 7" using assms by (simp add: p_def)
  then show ?thesis by (simp add: GetUint64_def Let_def p_def [symmetric] p or.assoc)
qed

lemma sip_bytes_uint64:
  assumes "q * 8 + 8 \<le> length val"
  shows "sip_bytes v 0 (8 * q) (drop (q * 8) val) =
     sip_bytes (sip_absorb v (GetUint64 val q)) 0 (8 * (q + 1)) (drop ((q + 1) * 8) val)"
proof -
  have d: "drop (q * 8) val = take 7 (drop (q * 8) val) @ val ! (q * 8 + 7) # drop ((q + 1) * 8) val"
    using id_take_nth_drop [of 7 "drop (q * 8) val"] assms by (simp add: add.commute)
  have "length (take 7 (drop (q * 8) val)) = 7" using assms by simp
  from sip_bytes_eight [OF this] show ?thesis
    unfolding GetUint64_or_bytes [OF assms] by (subst d) simp
qed

text \<open>
  C33: the hand-specialised \<open>SipHashUint256\<close> returns exactly what the general hasher returns when
  the 256-bit value is written to it, whether as its four little-endian 64-bit words (no
  assertion fails) or as its 32 bytes.
\<close>

theorem SipHashUint256_correct:
  assumes "length val = 32"
  shows "SipHashUint256 k0 k1 val =
      CSipHasher_Finalize (CSipHasher_Write (CSipHasher_ctor k0 k1) val) \<and>
    Option.bind (CSipHasher_Write64 (CSipHasher_ctor k0 k1) (GetUint64 val 0)) (\<lambda>h.
    Option.bind (CSipHasher_Write64 h (GetUint64 val 1)) (\<lambda>h.
    Option.bind (CSipHasher_Write64 h (GetUint64 val 2)) (\<lambda>h.
    Option.bind (CSipHasher_Write64 h (GetUint64 val 3)) (\<lambda>h.
    Some (CSipHasher_Finalize h))))) = Some (SipHashUint256 k0 k1 val)"
proof -
  define v where "v = (0x736f6d6570736575 XOR k0, 0x646f72616e646f6d XOR k1,
    0x6c7967656e657261 XOR k0, 0x7465646279746573 XOR k1)"
  define s where "s = sip_absorb (sip_absorb (sip_absorb (sip_absorb v (GetUint64 val 0))
    (GetUint64 val 1)) (GetUint64 val 2)) (GetUint64 val 3)"
  have b: "sip_bytes v 0 0 val = (s, 0, 32)"
    using sip_bytes_uint64 [of 0 val v] sip_bytes_uint64 [of 1 val] sip_bytes_uint64 [of 2 val]
      sip_bytes_uint64 [of 3 val] assms by (simp add: s_def)
  obtain a0 b0 c0 d0 where 0: "SIPROUND (SIPROUND (0x736f6d6570736575 XOR k0,
      0x646f72616e646f6d XOR k1, 0x6c7967656e657261 XOR k0,
      (0x7465646279746573 XOR k1) XOR GetUint64 val 0)) = (a0, b0, c0, d0)" by (rule prod_cases4)
  obtain a1 b1 c1 d1 where 1: "SIPROUND (SIPROUND (a0 XOR GetUint64 val 0, b0, c0,
      d0 XOR GetUint64 val 1)) = (a1, b1, c1, d1)" by (rule prod_cases4)
  obtain a2 b2 c2 d2 where 2: "SIPROUND (SIPROUND (a1 XOR GetUint64 val 1, b1, c1,
      d1 XOR GetUint64 val 2)) = (a2, b2, c2, d2)" by (rule prod_cases4)
  obtain a3 b3 c3 d3 where 3: "SIPROUND (SIPROUND (a2 XOR GetUint64 val 2, b2, c2,
      d2 XOR GetUint64 val 3)) = (a3, b3, c3, d3)" by (rule prod_cases4)
  have s: "s = (a3 XOR GetUint64 val 3, b3, c3, d3)"
    unfolding s_def v_def sip_absorb_expand 0 1 2 3 prod.case by (rule refl)
  have c: "0 OR push_bit 56 (of_nat 32 :: u64) = push_bit 59 4" by simp
  obtain a4 b4 c4 d4 where 4: "SIPROUND (SIPROUND (a3 XOR GetUint64 val 3, b3, c3,
      d3 XOR push_bit 59 4)) = (a4, b4, c4, d4)" by (rule prod_cases4)
  have "CSipHasher_Finalize \<lparr>sip_state = s, sip_tmp = 0, sip_count = 32\<rparr> = SipHashUint256 k0 k1 val"
    unfolding CSipHasher_Finalize_def SipHashUint256_def s Let_def CSipHasher.select_convs c
      sip_absorb_expand 0 1 2 3 4 prod.case
    by (rule refl)
  then show ?thesis
    using b by (simp add: CSipHasher_Write_def CSipHasher_ctor_def v_def [symmetric]
        CSipHasher_Write64_def s_def)
qed

theorem SipHashUint256_correct_witness:
  "length (replicate 32 7 :: bytes) = 32 \<and>
   SipHashUint256 1 2 (replicate 32 7) =
     CSipHasher_Finalize (CSipHasher_Write (CSipHasher_ctor 1 2) (replicate 32 7))"
  using SipHashUint256_correct [of "replicate 32 7" 1 2] by simp

end
