(* ===== verification/Interpreter.thy ===== *)
theory Interpreter
  imports Script
begin

text \<open>
  The script interpreter, \<^verbatim>\<open>src/src/script/interpreter.cpp\<close> up to \<open>EvalScript\<close>.  The stacks are
  lists whose head is the top of the C++ vector (\<open>stacktop(-1)\<close>), \<open>vfExec\<close> likewise.  Each \<open>case\<close>
  of the opcode switch is one definition from the state to an outcome.  A failing \<open>return
  set_error\<close> is \<open>Inl (ScriptFail e)\<close>; an exception thrown inside the \<open>try\<close> is caught and
  becomes \<open>SCRIPT_ERR_UNKNOWN_ERROR\<close>; an assertion that does not hold is \<open>Inl AssertFail\<close>.
  The signature checker is the virtual class \<open>BaseSignatureChecker\<close>, a record of functions, and
  the low-S test of the elliptic-curve library is the field \<open>ev_CheckLowS\<close>.
\<close>

section \<open>Errors, flags and environment\<close>

datatype ScriptError =
    SCRIPT_ERR_OK
  | SCRIPT_ERR_UNKNOWN_ERROR
  | SCRIPT_ERR_EVAL_FALSE
  | SCRIPT_ERR_OP_RETURN
  | SCRIPT_ERR_SCRIPT_SIZE
  | SCRIPT_ERR_PUSH_SIZE
  | SCRIPT_ERR_OP_COUNT
  | SCRIPT_ERR_STACK_SIZE
  | SCRIPT_ERR_SIG_COUNT
  | SCRIPT_ERR_PUBKEY_COUNT
  | SCRIPT_ERR_VERIFY
  | SCRIPT_ERR_EQUALVERIFY
  | SCRIPT_ERR_CHECKMULTISIGVERIFY
  | SCRIPT_ERR_CHECKSIGVERIFY
  | SCRIPT_ERR_NUMEQUALVERIFY
  | SCRIPT_ERR_BAD_OPCODE
  | SCRIPT_ERR_DISABLED_OPCODE
  | SCRIPT_ERR_INVALID_STACK_OPERATION
  | SCRIPT_ERR_INVALID_ALTSTACK_OPERATION
  | SCRIPT_ERR_UNBALANCED_CONDITIONAL
  | SCRIPT_ERR_NEGATIVE_LOCKTIME
  | SCRIPT_ERR_UNSATISFIED_LOCKTIME
  | SCRIPT_ERR_SIG_HASHTYPE
  | SCRIPT_ERR_SIG_DER
  | SCRIPT_ERR_MINIMALDATA
  | SCRIPT_ERR_SIG_PUSHONLY
  | SCRIPT_ERR_SIG_HIGH_S
  | SCRIPT_ERR_SIG_NULLDUMMY
  | SCRIPT_ERR_PUBKEYTYPE
  | SCRIPT_ERR_CLEANSTACK
  | SCRIPT_ERR_MINIMALIF
  | SCRIPT_ERR_SIG_NULLFAIL
  | SCRIPT_ERR_DISCOURAGE_UPGRADABLE_NOPS
  | SCRIPT_ERR_DISCOURAGE_UPGRADABLE_WITNESS_PROGRAM
  | SCRIPT_ERR_WITNESS_PROGRAM_WRONG_LENGTH
  | SCRIPT_ERR_WITNESS_PROGRAM_WITNESS_EMPTY
  | SCRIPT_ERR_WITNESS_PROGRAM_MISMATCH
  | SCRIPT_ERR_WITNESS_MALLEATED
  | SCRIPT_ERR_WITNESS_MALLEATED_P2SH
  | SCRIPT_ERR_WITNESS_UNEXPECTED
  | SCRIPT_ERR_WITNESS_PUBKEYTYPE

datatype eval_abort = ScriptFail ScriptError | AssertFail

abbreviation (input) SCRIPT_VERIFY_P2SH :: u32 where "SCRIPT_VERIFY_P2SH \<equiv> 0x1"
abbreviation (input) SCRIPT_VERIFY_STRICTENC :: u32 where "SCRIPT_VERIFY_STRICTENC \<equiv> 0x2"
abbreviation (input) SCRIPT_VERIFY_DERSIG :: u32 where "SCRIPT_VERIFY_DERSIG \<equiv> 0x4"
abbreviation (input) SCRIPT_VERIFY_LOW_S :: u32 where "SCRIPT_VERIFY_LOW_S \<equiv> 0x8"
abbreviation (input) SCRIPT_VERIFY_NULLDUMMY :: u32 where "SCRIPT_VERIFY_NULLDUMMY \<equiv> 0x10"
abbreviation (input) SCRIPT_VERIFY_SIGPUSHONLY :: u32 where "SCRIPT_VERIFY_SIGPUSHONLY \<equiv> 0x20"
abbreviation (input) SCRIPT_VERIFY_MINIMALDATA :: u32 where "SCRIPT_VERIFY_MINIMALDATA \<equiv> 0x40"
abbreviation (input) SCRIPT_VERIFY_DISCOURAGE_UPGRADABLE_NOPS :: u32 where "SCRIPT_VERIFY_DISCOURAGE_UPGRADABLE_NOPS \<equiv> 0x80"
abbreviation (input) SCRIPT_VERIFY_CLEANSTACK :: u32 where "SCRIPT_VERIFY_CLEANSTACK \<equiv> 0x100"
abbreviation (input) SCRIPT_VERIFY_CHECKLOCKTIMEVERIFY :: u32 where "SCRIPT_VERIFY_CHECKLOCKTIMEVERIFY \<equiv> 0x200"
abbreviation (input) SCRIPT_VERIFY_CHECKSEQUENCEVERIFY :: u32 where "SCRIPT_VERIFY_CHECKSEQUENCEVERIFY \<equiv> 0x400"
abbreviation (input) SCRIPT_VERIFY_WITNESS :: u32 where "SCRIPT_VERIFY_WITNESS \<equiv> 0x800"
abbreviation (input) SCRIPT_VERIFY_DISCOURAGE_UPGRADABLE_WITNESS_PROGRAM :: u32 where "SCRIPT_VERIFY_DISCOURAGE_UPGRADABLE_WITNESS_PROGRAM \<equiv> 0x1000"
abbreviation (input) SCRIPT_VERIFY_MINIMALIF :: u32 where "SCRIPT_VERIFY_MINIMALIF \<equiv> 0x2000"
abbreviation (input) SCRIPT_VERIFY_NULLFAIL :: u32 where "SCRIPT_VERIFY_NULLFAIL \<equiv> 0x4000"
abbreviation (input) SCRIPT_VERIFY_WITNESS_PUBKEYTYPE :: u32 where "SCRIPT_VERIFY_WITNESS_PUBKEYTYPE \<equiv> 0x8000"

abbreviation (input) SIGHASH_ALL :: nat where "SIGHASH_ALL \<equiv> 1"
abbreviation (input) SIGHASH_NONE :: nat where "SIGHASH_NONE \<equiv> 2"
abbreviation (input) SIGHASH_SINGLE :: nat where "SIGHASH_SINGLE \<equiv> 3"
abbreviation (input) SIGHASH_ANYONECANPAY :: nat where "SIGHASH_ANYONECANPAY \<equiv> 0x80"

definition flag_set :: "u32 \<Rightarrow> u32 \<Rightarrow> bool" where
  "flag_set flags m \<longleftrightarrow> flags AND m \<noteq> 0"

datatype SigVersion = SIGVERSION_BASE | SIGVERSION_WITNESS_V0

record BaseSignatureChecker =
  CheckSig :: "bytes \<Rightarrow> bytes \<Rightarrow> CScript \<Rightarrow> SigVersion \<Rightarrow> bool"
  CheckLockTime :: "int \<Rightarrow> bool"
  CheckSequence :: "int \<Rightarrow> bool"

record eval_env =
  ev_flags :: u32
  ev_checker :: BaseSignatureChecker
  ev_sigversion :: SigVersion
  ev_CheckLowS :: "bytes \<Rightarrow> bool"

record eval_state =
  es_stack :: "bytes list"
  es_altstack :: "bytes list"
  es_vfExec :: "bool list"
  es_nOpCount :: int
  es_codehash :: bytes

type_synonym 'a eval_result = "eval_abort + 'a"

definition set_error :: "ScriptError \<Rightarrow> 'a eval_result" where
  "set_error e = Inl (ScriptFail e)"

definition rbind :: "'a eval_result \<Rightarrow> ('a \<Rightarrow> 'b eval_result) \<Rightarrow> 'b eval_result" where
  "rbind r f = (case r of Inl e \<Rightarrow> Inl e | Inr x \<Rightarrow> f x)"

abbreviation (input) ev_flag :: "eval_env \<Rightarrow> u32 \<Rightarrow> bool" where
  "ev_flag env m \<equiv> flag_set (ev_flags env) m"

definition num_arg :: "eval_env \<Rightarrow> nat \<Rightarrow> bytes \<Rightarrow> int eval_result" where
  "num_arg env nMaxNumSize vch =
     (case CScriptNum vch (ev_flag env SCRIPT_VERIFY_MINIMALDATA) nMaxNumSize of
        None \<Rightarrow> set_error SCRIPT_ERR_UNKNOWN_ERROR
      | Some n \<Rightarrow> Inr n)"

definition assert_some :: "'a option \<Rightarrow> 'a eval_result" where
  "assert_some x = (case x of None \<Rightarrow> Inl AssertFail | Some y \<Rightarrow> Inr y)"

abbreviation (input) vchFalse :: bytes where "vchFalse \<equiv> []"
abbreviation (input) vchTrue :: bytes where "vchTrue \<equiv> [1]"

section \<open>Encodings\<close>

fun CastToBool :: "bytes \<Rightarrow> bool" where
  "CastToBool [] = False"
| "CastToBool (b # vch) =
     (if b \<noteq> 0 then \<not> (vch = [] \<and> b = 0x80) else CastToBool vch)"

definition IsCompressedOrUncompressedPubKey :: "bytes \<Rightarrow> bool" where
  "IsCompressedOrUncompressedPubKey vchPubKey =
     (if length vchPubKey < 33 then False
      else if vchPubKey ! 0 = 0x04 then length vchPubKey = 65
      else if vchPubKey ! 0 = 0x02 \<or> vchPubKey ! 0 = 0x03 then length vchPubKey = 33
      else False)"

definition IsCompressedPubKey :: "bytes \<Rightarrow> bool" where
  "IsCompressedPubKey vchPubKey =
     (if length vchPubKey \<noteq> 33 then False
      else if vchPubKey ! 0 \<noteq> 0x02 \<and> vchPubKey ! 0 \<noteq> 0x03 then False
      else True)"

definition IsValidSignatureEncoding :: "bytes \<Rightarrow> bool" where
  "IsValidSignatureEncoding sig =
     (if length sig < 9 then False
      else if 73 < length sig then False
      else if sig ! 0 \<noteq> 0x30 then False
      else if unat (sig ! 1) \<noteq> length sig - 3 then False
      else let lenR = unat (sig ! 3) in
        if length sig \<le> 5 + lenR then False
        else let lenS = unat (sig ! (5 + lenR)) in
          if lenR + lenS + 7 \<noteq> length sig then False
          else if sig ! 2 \<noteq> 0x02 then False
          else if lenR = 0 then False
          else if sig ! 4 AND 0x80 \<noteq> 0 then False
          else if 1 < lenR \<and> sig ! 4 = 0x00 \<and> sig ! 5 AND 0x80 = 0 then False
          else if sig ! (lenR + 4) \<noteq> 0x02 then False
          else if lenS = 0 then False
          else if sig ! (lenR + 6) AND 0x80 \<noteq> 0 then False
          else if 1 < lenS \<and> sig ! (lenR + 6) = 0x00 \<and> sig ! (lenR + 7) AND 0x80 = 0 then False
          else True)"

text \<open>The error these tests set, or \<open>None\<close> when they pass.\<close>

definition IsLowDERSignature :: "(bytes \<Rightarrow> bool) \<Rightarrow> bytes \<Rightarrow> ScriptError option" where
  "IsLowDERSignature CheckLowS vchSig =
     (if \<not> IsValidSignatureEncoding vchSig then Some SCRIPT_ERR_SIG_DER
      else if \<not> CheckLowS (take (length vchSig - 1) vchSig) then Some SCRIPT_ERR_SIG_HIGH_S
      else None)"

definition IsDefinedHashtypeSignature :: "bytes \<Rightarrow> bool" where
  "IsDefinedHashtypeSignature vchSig =
     (if length vchSig = 0 then False
      else let nHashType = unat ((vchSig ! (length vchSig - 1)) AND NOT (of_nat SIGHASH_ANYONECANPAY))
           in \<not> (nHashType < SIGHASH_ALL \<or> SIGHASH_SINGLE < nHashType))"

definition CheckSignatureEncoding :: "(bytes \<Rightarrow> bool) \<Rightarrow> bytes \<Rightarrow> u32 \<Rightarrow> ScriptError option" where
  "CheckSignatureEncoding CheckLowS vchSig flags =
     (if length vchSig = 0 then None
      else if flag_set flags (SCRIPT_VERIFY_DERSIG OR SCRIPT_VERIFY_LOW_S OR SCRIPT_VERIFY_STRICTENC)
              \<and> \<not> IsValidSignatureEncoding vchSig
      then Some SCRIPT_ERR_SIG_DER
      else if flag_set flags SCRIPT_VERIFY_LOW_S \<and> IsLowDERSignature CheckLowS vchSig \<noteq> None
      then IsLowDERSignature CheckLowS vchSig
      else if flag_set flags SCRIPT_VERIFY_STRICTENC \<and> \<not> IsDefinedHashtypeSignature vchSig
      then Some SCRIPT_ERR_SIG_HASHTYPE
      else None)"

definition CheckPubKeyEncoding :: "bytes \<Rightarrow> u32 \<Rightarrow> SigVersion \<Rightarrow> ScriptError option" where
  "CheckPubKeyEncoding vchPubKey flags sigversion =
     (if flag_set flags SCRIPT_VERIFY_STRICTENC \<and> \<not> IsCompressedOrUncompressedPubKey vchPubKey
      then Some SCRIPT_ERR_PUBKEYTYPE
      else if flag_set flags SCRIPT_VERIFY_WITNESS_PUBKEYTYPE \<and> sigversion = SIGVERSION_WITNESS_V0
              \<and> \<not> IsCompressedPubKey vchPubKey
      then Some SCRIPT_ERR_WITNESS_PUBKEYTYPE
      else None)"

definition CheckMinimalPush :: "bytes \<Rightarrow> opcodetype \<Rightarrow> bool" where
  "CheckMinimalPush data opcode =
     (if length data = 0 then opcode = OP_0
      else if length data = 1 \<and> 1 \<le> unat (data ! 0) \<and> unat (data ! 0) \<le> 16
      then opcode = OP_1 + (unat (data ! 0) - 1)
      else if length data = 1 \<and> data ! 0 = 0x81 then opcode = OP_1NEGATE
      else if length data \<le> 75 then opcode = length data
      else if length data \<le> 255 then opcode = OP_PUSHDATA1
      else if length data \<le> 65535 then opcode = OP_PUSHDATA2
      else True)"

section \<open>The opcodes\<close>

definition op_small_num :: "opcodetype \<Rightarrow> eval_state \<Rightarrow> eval_state eval_result" where
  "op_small_num opcode st =
     (let bn = int opcode - (int OP_1 - 1) in Inr (st\<lparr>es_stack := serialize bn # es_stack st\<rparr>))"

definition op_checklocktimeverify :: "eval_env \<Rightarrow> eval_state \<Rightarrow> eval_state eval_result" where
  "op_checklocktimeverify env st =
     (if \<not> ev_flag env SCRIPT_VERIFY_CHECKLOCKTIMEVERIFY
      then if ev_flag env SCRIPT_VERIFY_DISCOURAGE_UPGRADABLE_NOPS
           then set_error SCRIPT_ERR_DISCOURAGE_UPGRADABLE_NOPS else Inr st
      else case es_stack st of
             [] \<Rightarrow> set_error SCRIPT_ERR_INVALID_STACK_OPERATION
           | v # _ \<Rightarrow>
               rbind (num_arg env 5 v) (\<lambda>nLockTime.
                 if nLockTime < 0 then set_error SCRIPT_ERR_NEGATIVE_LOCKTIME
                 else if \<not> CheckLockTime (ev_checker env) nLockTime
                 then set_error SCRIPT_ERR_UNSATISFIED_LOCKTIME
                 else Inr st))"

definition op_checksequenceverify :: "eval_env \<Rightarrow> eval_state \<Rightarrow> eval_state eval_result" where
  "op_checksequenceverify env st =
     (if \<not> ev_flag env SCRIPT_VERIFY_CHECKSEQUENCEVERIFY
      then if ev_flag env SCRIPT_VERIFY_DISCOURAGE_UPGRADABLE_NOPS
           then set_error SCRIPT_ERR_DISCOURAGE_UPGRADABLE_NOPS else Inr st
      else case es_stack st of
             [] \<Rightarrow> set_error SCRIPT_ERR_INVALID_STACK_OPERATION
           | v # _ \<Rightarrow>
               rbind (num_arg env 5 v) (\<lambda>nSequence.
                 if nSequence < 0 then set_error SCRIPT_ERR_NEGATIVE_LOCKTIME
                 else if nSequence AND 2 ^ 31 \<noteq> 0 then Inr st
                 else if \<not> CheckSequence (ev_checker env) nSequence
                 then set_error SCRIPT_ERR_UNSATISFIED_LOCKTIME
                 else Inr st))"

definition op_upgradable_nop :: "eval_env \<Rightarrow> eval_state \<Rightarrow> eval_state eval_result" where
  "op_upgradable_nop env st =
     (if ev_flag env SCRIPT_VERIFY_DISCOURAGE_UPGRADABLE_NOPS
      then set_error SCRIPT_ERR_DISCOURAGE_UPGRADABLE_NOPS else Inr st)"

definition op_if :: "eval_env \<Rightarrow> bool \<Rightarrow> opcodetype \<Rightarrow> eval_state \<Rightarrow> eval_state eval_result" where
  "op_if env fExec opcode st =
     (if fExec
      then case es_stack st of
             [] \<Rightarrow> set_error SCRIPT_ERR_UNBALANCED_CONDITIONAL
           | vch # stack \<Rightarrow>
               if ev_sigversion env = SIGVERSION_WITNESS_V0 \<and> ev_flag env SCRIPT_VERIFY_MINIMALIF \<and>
                  (1 < length vch \<or> (length vch = 1 \<and> vch ! 0 \<noteq> 1))
               then set_error SCRIPT_ERR_MINIMALIF
               else let fValue = CastToBool vch;
                        fValue = (if opcode = OP_NOTIF then \<not> fValue else fValue)
                    in Inr (st\<lparr>es_stack := stack, es_vfExec := fValue # es_vfExec st\<rparr>)
      else Inr (st\<lparr>es_vfExec := False # es_vfExec st\<rparr>))"

definition op_else :: "eval_state \<Rightarrow> eval_state eval_result" where
  "op_else st =
     (case es_vfExec st of
        [] \<Rightarrow> set_error SCRIPT_ERR_UNBALANCED_CONDITIONAL
      | v # vs \<Rightarrow> Inr (st\<lparr>es_vfExec := (\<not> v) # vs\<rparr>))"

definition op_endif :: "eval_state \<Rightarrow> eval_state eval_result" where
  "op_endif st =
     (case es_vfExec st of
        [] \<Rightarrow> set_error SCRIPT_ERR_UNBALANCED_CONDITIONAL
      | v # vs \<Rightarrow> Inr (st\<lparr>es_vfExec := vs\<rparr>))"

definition op_verify :: "eval_state \<Rightarrow> eval_state eval_result" where
  "op_verify st =
     (case es_stack st of
        [] \<Rightarrow> set_error SCRIPT_ERR_INVALID_STACK_OPERATION
      | v # stack \<Rightarrow>
          if CastToBool v then Inr (st\<lparr>es_stack := stack\<rparr>) else set_error SCRIPT_ERR_VERIFY)"

definition op_return :: "eval_state \<Rightarrow> eval_state eval_result" where
  "op_return st = set_error SCRIPT_ERR_OP_RETURN"

definition op_toaltstack :: "eval_state \<Rightarrow> eval_state eval_result" where
  "op_toaltstack st =
     (case es_stack st of
        [] \<Rightarrow> set_error SCRIPT_ERR_INVALID_STACK_OPERATION
      | v # stack \<Rightarrow> Inr (st\<lparr>es_altstack := v # es_altstack st, es_stack := stack\<rparr>))"

definition op_fromaltstack :: "eval_state \<Rightarrow> eval_state eval_result" where
  "op_fromaltstack st =
     (case es_altstack st of
        [] \<Rightarrow> set_error SCRIPT_ERR_INVALID_ALTSTACK_OPERATION
      | v # altstack \<Rightarrow> Inr (st\<lparr>es_stack := v # es_stack st, es_altstack := altstack\<rparr>))"

text \<open>An operation that only rearranges the main stack.\<close>

definition stack_op :: "(bytes list \<Rightarrow> bytes list option) \<Rightarrow> eval_state \<Rightarrow> eval_state eval_result" where
  "stack_op f st =
     (case f (es_stack st) of
        None \<Rightarrow> set_error SCRIPT_ERR_INVALID_STACK_OPERATION
      | Some stack \<Rightarrow> Inr (st\<lparr>es_stack := stack\<rparr>))"

fun op_2drop :: "bytes list \<Rightarrow> bytes list option" where
  "op_2drop (x2 # x1 # s) = Some s"
| "op_2drop _ = None"

fun op_2dup :: "bytes list \<Rightarrow> bytes list option" where
  "op_2dup (x2 # x1 # s) = Some (x2 # x1 # x2 # x1 # s)"
| "op_2dup _ = None"

fun op_3dup :: "bytes list \<Rightarrow> bytes list option" where
  "op_3dup (x3 # x2 # x1 # s) = Some (x3 # x2 # x1 # x3 # x2 # x1 # s)"
| "op_3dup _ = None"

fun op_2over :: "bytes list \<Rightarrow> bytes list option" where
  "op_2over (x4 # x3 # x2 # x1 # s) = Some (x2 # x1 # x4 # x3 # x2 # x1 # s)"
| "op_2over _ = None"

fun op_2rot :: "bytes list \<Rightarrow> bytes list option" where
  "op_2rot (x6 # x5 # x4 # x3 # x2 # x1 # s) = Some (x2 # x1 # x6 # x5 # x4 # x3 # s)"
| "op_2rot _ = None"

fun op_2swap :: "bytes list \<Rightarrow> bytes list option" where
  "op_2swap (x4 # x3 # x2 # x1 # s) = Some (x2 # x1 # x4 # x3 # s)"
| "op_2swap _ = None"

fun op_ifdup :: "bytes list \<Rightarrow> bytes list option" where
  "op_ifdup (x # s) = Some (if CastToBool x then x # x # s else x # s)"
| "op_ifdup _ = None"

definition op_depth :: "bytes list \<Rightarrow> bytes list option" where
  "op_depth s = Some (serialize (int (length s)) # s)"

fun op_drop :: "bytes list \<Rightarrow> bytes list option" where
  "op_drop (x # s) = Some s"
| "op_drop _ = None"

fun op_dup :: "bytes list \<Rightarrow> bytes list option" where
  "op_dup (x # s) = Some (x # x # s)"
| "op_dup _ = None"

fun op_nip :: "bytes list \<Rightarrow> bytes list option" where
  "op_nip (x2 # x1 # s) = Some (x2 # s)"
| "op_nip _ = None"

fun op_over :: "bytes list \<Rightarrow> bytes list option" where
  "op_over (x2 # x1 # s) = Some (x1 # x2 # x1 # s)"
| "op_over _ = None"

definition op_pick_roll :: "eval_env \<Rightarrow> opcodetype \<Rightarrow> eval_state \<Rightarrow> eval_state eval_result" where
  "op_pick_roll env opcode st =
     (if length (es_stack st) < 2 then set_error SCRIPT_ERR_INVALID_STACK_OPERATION
      else rbind (num_arg env nDefaultMaxNumSize (hd (es_stack st))) (\<lambda>bn.
        let n = getint bn;
            stack = tl (es_stack st)
        in if n < 0 \<or> int (length stack) \<le> n then set_error SCRIPT_ERR_INVALID_STACK_OPERATION
           else let vch = stack ! nat n;
                    stack = (if opcode = OP_ROLL
                             then take (nat n) stack @ drop (nat n + 1) stack else stack)
                in Inr (st\<lparr>es_stack := vch # stack\<rparr>)))"

fun op_rot :: "bytes list \<Rightarrow> bytes list option" where
  "op_rot (x3 # x2 # x1 # s) = Some (x1 # x3 # x2 # s)"
| "op_rot _ = None"

fun op_swap :: "bytes list \<Rightarrow> bytes list option" where
  "op_swap (x2 # x1 # s) = Some (x1 # x2 # s)"
| "op_swap _ = None"

fun op_tuck :: "bytes list \<Rightarrow> bytes list option" where
  "op_tuck (x2 # x1 # s) = Some (x2 # x1 # x2 # s)"
| "op_tuck _ = None"

fun op_size :: "bytes list \<Rightarrow> bytes list option" where
  "op_size (x # s) = Some (serialize (int (length x)) # x # s)"
| "op_size _ = None"

definition op_equal :: "opcodetype \<Rightarrow> eval_state \<Rightarrow> eval_state eval_result" where
  "op_equal opcode st =
     (case es_stack st of
        vch2 # vch1 # stack \<Rightarrow>
          let fEqual = (vch1 = vch2) in
          if opcode = OP_EQUALVERIFY
          then if fEqual then Inr (st\<lparr>es_stack := stack\<rparr>) else set_error SCRIPT_ERR_EQUALVERIFY
          else Inr (st\<lparr>es_stack := (if fEqual then vchTrue else vchFalse) # stack\<rparr>)
      | _ \<Rightarrow> set_error SCRIPT_ERR_INVALID_STACK_OPERATION)"

definition unary_num :: "opcodetype \<Rightarrow> int \<Rightarrow> int eval_result" where
  "unary_num opcode bn =
     (if opcode = OP_1ADD then assert_some (num_add_assign bn 1)
      else if opcode = OP_1SUB then assert_some (num_sub_assign bn 1)
      else if opcode = OP_NEGATE then assert_some (num_neg bn)
      else if opcode = OP_ABS then (if bn < 0 then assert_some (num_neg bn) else Inr bn)
      else if opcode = OP_NOT then Inr (of_bool (bn = 0))
      else if opcode = OP_0NOTEQUAL then Inr (of_bool (bn \<noteq> 0))
      else Inl AssertFail)"

definition op_unary :: "eval_env \<Rightarrow> opcodetype \<Rightarrow> eval_state \<Rightarrow> eval_state eval_result" where
  "op_unary env opcode st =
     (case es_stack st of
        [] \<Rightarrow> set_error SCRIPT_ERR_INVALID_STACK_OPERATION
      | v # stack \<Rightarrow>
          rbind (num_arg env nDefaultMaxNumSize v) (\<lambda>bn.
          rbind (unary_num opcode bn) (\<lambda>bn.
            Inr (st\<lparr>es_stack := serialize bn # stack\<rparr>))))"

definition binary_num :: "opcodetype \<Rightarrow> int \<Rightarrow> int \<Rightarrow> int eval_result" where
  "binary_num opcode bn1 bn2 =
     (if opcode = OP_ADD then Inr (bn1 + bn2)
      else if opcode = OP_SUB then Inr (bn1 - bn2)
      else if opcode = OP_BOOLAND then Inr (of_bool (bn1 \<noteq> 0 \<and> bn2 \<noteq> 0))
      else if opcode = OP_BOOLOR then Inr (of_bool (bn1 \<noteq> 0 \<or> bn2 \<noteq> 0))
      else if opcode = OP_NUMEQUAL then Inr (of_bool (bn1 = bn2))
      else if opcode = OP_NUMEQUALVERIFY then Inr (of_bool (bn1 = bn2))
      else if opcode = OP_NUMNOTEQUAL then Inr (of_bool (bn1 \<noteq> bn2))
      else if opcode = OP_LESSTHAN then Inr (of_bool (bn1 < bn2))
      else if opcode = OP_GREATERTHAN then Inr (of_bool (bn1 > bn2))
      else if opcode = OP_LESSTHANOREQUAL then Inr (of_bool (bn1 \<le> bn2))
      else if opcode = OP_GREATERTHANOREQUAL then Inr (of_bool (bn1 \<ge> bn2))
      else if opcode = OP_MIN then Inr (if bn1 < bn2 then bn1 else bn2)
      else if opcode = OP_MAX then Inr (if bn1 > bn2 then bn1 else bn2)
      else Inl AssertFail)"

definition op_binary :: "eval_env \<Rightarrow> opcodetype \<Rightarrow> eval_state \<Rightarrow> eval_state eval_result" where
  "op_binary env opcode st =
     (case es_stack st of
        v2 # v1 # stack \<Rightarrow>
          rbind (num_arg env nDefaultMaxNumSize v1) (\<lambda>bn1.
          rbind (num_arg env nDefaultMaxNumSize v2) (\<lambda>bn2.
          rbind (binary_num opcode bn1 bn2) (\<lambda>bn.
            if opcode = OP_NUMEQUALVERIFY
            then if CastToBool (serialize bn) then Inr (st\<lparr>es_stack := stack\<rparr>)
                 else set_error SCRIPT_ERR_NUMEQUALVERIFY
            else Inr (st\<lparr>es_stack := serialize bn # stack\<rparr>))))
      | _ \<Rightarrow> set_error SCRIPT_ERR_INVALID_STACK_OPERATION)"

definition op_within :: "eval_env \<Rightarrow> eval_state \<Rightarrow> eval_state eval_result" where
  "op_within env st =
     (case es_stack st of
        v3 # v2 # v1 # stack \<Rightarrow>
          rbind (num_arg env nDefaultMaxNumSize v1) (\<lambda>bn1.
          rbind (num_arg env nDefaultMaxNumSize v2) (\<lambda>bn2.
          rbind (num_arg env nDefaultMaxNumSize v3) (\<lambda>bn3.
            let fValue = (bn2 \<le> bn1 \<and> bn1 < bn3)
            in Inr (st\<lparr>es_stack := (if fValue then vchTrue else vchFalse) # stack\<rparr>))))
      | _ \<Rightarrow> set_error SCRIPT_ERR_INVALID_STACK_OPERATION)"

definition op_hash :: "opcodetype \<Rightarrow> eval_state \<Rightarrow> eval_state eval_result" where
  "op_hash opcode st =
     (case es_stack st of
        [] \<Rightarrow> set_error SCRIPT_ERR_INVALID_STACK_OPERATION
      | vch # stack \<Rightarrow>
          let vchHash =
            (if opcode = OP_RIPEMD160
             then snd (CRIPEMD160_Finalize (CRIPEMD160_Write CRIPEMD160_ctor vch))
             else if opcode = OP_SHA1 then snd (CSHA1_Finalize (CSHA1_Write CSHA1_ctor vch))
             else if opcode = OP_SHA256 then snd (CSHA256_Finalize (CSHA256_Write CSHA256_ctor vch))
             else if opcode = OP_HASH160 then CHash160_Finalize (CHash160_Write CSHA256_ctor vch)
             else CHash256_Finalize (CHash256_Write CSHA256_ctor vch))
          in Inr (st\<lparr>es_stack := vchHash # stack\<rparr>))"

definition op_codeseparator :: "bytes \<Rightarrow> eval_state \<Rightarrow> eval_state eval_result" where
  "op_codeseparator pc st = Inr (st\<lparr>es_codehash := pc\<rparr>)"

definition check_encodings :: "eval_env \<Rightarrow> bytes \<Rightarrow> bytes \<Rightarrow> unit eval_result" where
  "check_encodings env vchSig vchPubKey =
     (case CheckSignatureEncoding (ev_CheckLowS env) vchSig (ev_flags env) of
        Some e \<Rightarrow> set_error e
      | None \<Rightarrow>
          (case CheckPubKeyEncoding vchPubKey (ev_flags env) (ev_sigversion env) of
             Some e \<Rightarrow> set_error e
           | None \<Rightarrow> Inr ()))"

definition op_checksig :: "eval_env \<Rightarrow> opcodetype \<Rightarrow> eval_state \<Rightarrow> eval_state eval_result" where
  "op_checksig env opcode st =
     (case es_stack st of
        vchPubKey # vchSig # stack \<Rightarrow>
          let scriptCode = es_codehash st;
              scriptCode = (if ev_sigversion env = SIGVERSION_BASE
                            then fst (FindAndDelete scriptCode (push_vch [] vchSig)) else scriptCode)
          in rbind (check_encodings env vchSig vchPubKey) (\<lambda>_.
               let fSuccess = CheckSig (ev_checker env) vchSig vchPubKey scriptCode (ev_sigversion env)
               in if \<not> fSuccess \<and> ev_flag env SCRIPT_VERIFY_NULLFAIL \<and> 0 < length vchSig
                  then set_error SCRIPT_ERR_SIG_NULLFAIL
                  else if opcode = OP_CHECKSIGVERIFY
                  then if fSuccess then Inr (st\<lparr>es_stack := stack\<rparr>)
                       else set_error SCRIPT_ERR_CHECKSIGVERIFY
                  else Inr (st\<lparr>es_stack := (if fSuccess then vchTrue else vchFalse) # stack\<rparr>))
      | _ \<Rightarrow> set_error SCRIPT_ERR_INVALID_STACK_OPERATION)"

function multisig_loop ::
  "eval_env \<Rightarrow> CScript \<Rightarrow> bytes list \<Rightarrow> nat \<Rightarrow> int \<Rightarrow> nat \<Rightarrow> int \<Rightarrow> bool eval_result" where
  "multisig_loop env scriptCode stack isig nSigsCount ikey nKeysCount =
     (if nSigsCount \<le> 0 then Inr True
      else let vchSig = stack ! (isig - 1);
               vchPubKey = stack ! (ikey - 1)
           in case check_encodings env vchSig vchPubKey of
                Inl e \<Rightarrow> Inl e
              | Inr _ \<Rightarrow>
                  let fOk = CheckSig (ev_checker env) vchSig vchPubKey scriptCode (ev_sigversion env);
                      isig = (if fOk then isig + 1 else isig);
                      nSigsCount = (if fOk then nSigsCount - 1 else nSigsCount);
                      ikey = ikey + 1;
                      nKeysCount = nKeysCount - 1
                  in if nKeysCount < nSigsCount then Inr False
                     else multisig_loop env scriptCode stack isig nSigsCount ikey nKeysCount)"
  by pat_completeness auto
termination
  by (relation "measure (\<lambda>(env, sc, st, isig, ns, ikey, nk). nat nk)") (auto split: if_splits)

fun multisig_cleanup ::
  "eval_env \<Rightarrow> bool \<Rightarrow> nat \<Rightarrow> nat \<Rightarrow> bytes list \<Rightarrow> bytes list eval_result" where
  "multisig_cleanup env fSuccess 0 ikey2 stack = Inr stack"
| "multisig_cleanup env fSuccess (Suc i) ikey2 stack =
     (case stack of
        [] \<Rightarrow> set_error SCRIPT_ERR_UNKNOWN_ERROR
      | v # stack \<Rightarrow>
          if \<not> fSuccess \<and> ev_flag env SCRIPT_VERIFY_NULLFAIL \<and> ikey2 = 0 \<and> 0 < length v
          then set_error SCRIPT_ERR_SIG_NULLFAIL
          else multisig_cleanup env fSuccess i (if 0 < ikey2 then ikey2 - 1 else ikey2) stack)"

definition multisig_finish ::
  "eval_env \<Rightarrow> opcodetype \<Rightarrow> bool \<Rightarrow> bytes list \<Rightarrow> eval_state \<Rightarrow> eval_state eval_result" where
  "multisig_finish env opcode fSuccess stack st =
     (case stack of
        [] \<Rightarrow> set_error SCRIPT_ERR_INVALID_STACK_OPERATION
      | v # stack \<Rightarrow>
          if ev_flag env SCRIPT_VERIFY_NULLDUMMY \<and> 0 < length v
          then set_error SCRIPT_ERR_SIG_NULLDUMMY
          else if opcode = OP_CHECKMULTISIGVERIFY
          then if fSuccess then Inr (st\<lparr>es_stack := stack\<rparr>)
               else set_error SCRIPT_ERR_CHECKMULTISIGVERIFY
          else Inr (st\<lparr>es_stack := (if fSuccess then vchTrue else vchFalse) # stack\<rparr>))"

definition op_checkmultisig :: "eval_env \<Rightarrow> opcodetype \<Rightarrow> eval_state \<Rightarrow> eval_state eval_result" where
  "op_checkmultisig env opcode st =
     (let stack = es_stack st; i = 1 in
      if length stack < i then set_error SCRIPT_ERR_INVALID_STACK_OPERATION
      else rbind (num_arg env nDefaultMaxNumSize (stack ! (i - 1))) (\<lambda>bn.
        let nKeysCount = getint bn in
        if nKeysCount < 0 \<or> int MAX_PUBKEYS_PER_MULTISIG < nKeysCount
        then set_error SCRIPT_ERR_PUBKEY_COUNT
        else let st = st\<lparr>es_nOpCount := es_nOpCount st + nKeysCount\<rparr> in
        if MAX_OPS_PER_SCRIPT < es_nOpCount st then set_error SCRIPT_ERR_OP_COUNT
        else let i = i + 1;
                 ikey = i;
                 ikey2 = nat nKeysCount + 2;
                 i = i + nat nKeysCount in
        if length stack < i then set_error SCRIPT_ERR_INVALID_STACK_OPERATION
        else rbind (num_arg env nDefaultMaxNumSize (stack ! (i - 1))) (\<lambda>bn.
          let nSigsCount = getint bn in
          if nSigsCount < 0 \<or> nKeysCount < nSigsCount then set_error SCRIPT_ERR_SIG_COUNT
          else let i = i + 1;
                   isig = i;
                   i = i + nat nSigsCount in
          if length stack < i then set_error SCRIPT_ERR_INVALID_STACK_OPERATION
          else let scriptCode = es_codehash st;
                   scriptCode = foldl (\<lambda>sc k. if ev_sigversion env = SIGVERSION_BASE
                       then fst (FindAndDelete sc (push_vch [] (stack ! (isig + k - 1)))) else sc)
                     scriptCode [0..<nat nSigsCount] in
          rbind (multisig_loop env scriptCode stack isig nSigsCount ikey nKeysCount) (\<lambda>fSuccess.
          rbind (multisig_cleanup env fSuccess (i - 1) ikey2 stack) (\<lambda>stack.
            multisig_finish env opcode fSuccess stack st)))))"

section \<open>The switch and the loop\<close>

definition eval_switch ::
  "eval_env \<Rightarrow> bool \<Rightarrow> opcodetype \<Rightarrow> bytes \<Rightarrow> eval_state \<Rightarrow> eval_state eval_result" where
  "eval_switch env fExec opcode pc st =
     (if opcode = OP_1NEGATE \<or> (OP_1 \<le> opcode \<and> opcode \<le> OP_16) then op_small_num opcode st
      else if opcode = OP_NOP then Inr st
      else if opcode = OP_CHECKLOCKTIMEVERIFY then op_checklocktimeverify env st
      else if opcode = OP_CHECKSEQUENCEVERIFY then op_checksequenceverify env st
      else if opcode = OP_NOP1 \<or> (OP_NOP4 \<le> opcode \<and> opcode \<le> OP_NOP10) then op_upgradable_nop env st
      else if opcode = OP_IF \<or> opcode = OP_NOTIF then op_if env fExec opcode st
      else if opcode = OP_ELSE then op_else st
      else if opcode = OP_ENDIF then op_endif st
      else if opcode = OP_VERIFY then op_verify st
      else if opcode = OP_RETURN then op_return st
      else if opcode = OP_TOALTSTACK then op_toaltstack st
      else if opcode = OP_FROMALTSTACK then op_fromaltstack st
      else if opcode = OP_2DROP then stack_op op_2drop st
      else if opcode = OP_2DUP then stack_op op_2dup st
      else if opcode = OP_3DUP then stack_op op_3dup st
      else if opcode = OP_2OVER then stack_op op_2over st
      else if opcode = OP_2ROT then stack_op op_2rot st
      else if opcode = OP_2SWAP then stack_op op_2swap st
      else if opcode = OP_IFDUP then stack_op op_ifdup st
      else if opcode = OP_DEPTH then stack_op op_depth st
      else if opcode = OP_DROP then stack_op op_drop st
      else if opcode = OP_DUP then stack_op op_dup st
      else if opcode = OP_NIP then stack_op op_nip st
      else if opcode = OP_OVER then stack_op op_over st
      else if opcode = OP_PICK \<or> opcode = OP_ROLL then op_pick_roll env opcode st
      else if opcode = OP_ROT then stack_op op_rot st
      else if opcode = OP_SWAP then stack_op op_swap st
      else if opcode = OP_TUCK then stack_op op_tuck st
      else if opcode = OP_SIZE then stack_op op_size st
      else if opcode = OP_EQUAL \<or> opcode = OP_EQUALVERIFY then op_equal opcode st
      else if opcode = OP_1ADD \<or> opcode = OP_1SUB \<or> opcode = OP_NEGATE \<or> opcode = OP_ABS \<or>
              opcode = OP_NOT \<or> opcode = OP_0NOTEQUAL then op_unary env opcode st
      else if opcode = OP_ADD \<or> opcode = OP_SUB \<or> (OP_BOOLAND \<le> opcode \<and> opcode \<le> OP_MAX)
      then op_binary env opcode st
      else if opcode = OP_WITHIN then op_within env st
      else if opcode = OP_RIPEMD160 \<or> opcode = OP_SHA1 \<or> opcode = OP_SHA256 \<or> opcode = OP_HASH160 \<or>
              opcode = OP_HASH256 then op_hash opcode st
      else if opcode = OP_CODESEPARATOR then op_codeseparator pc st
      else if opcode = OP_CHECKSIG \<or> opcode = OP_CHECKSIGVERIFY then op_checksig env opcode st
      else if opcode = OP_CHECKMULTISIG \<or> opcode = OP_CHECKMULTISIGVERIFY
      then op_checkmultisig env opcode st
      else set_error SCRIPT_ERR_BAD_OPCODE)"

definition is_disabled :: "opcodetype \<Rightarrow> bool" where
  "is_disabled opcode \<longleftrightarrow>
     opcode = OP_CAT \<or> opcode = OP_SUBSTR \<or> opcode = OP_LEFT \<or> opcode = OP_RIGHT \<or>
     opcode = OP_INVERT \<or> opcode = OP_AND \<or> opcode = OP_OR \<or> opcode = OP_XOR \<or>
     opcode = OP_2MUL \<or> opcode = OP_2DIV \<or> opcode = OP_MUL \<or> opcode = OP_DIV \<or>
     opcode = OP_MOD \<or> opcode = OP_LSHIFT \<or> opcode = OP_RSHIFT"

definition eval_exec ::
  "eval_env \<Rightarrow> opcodetype \<Rightarrow> bytes \<Rightarrow> bytes \<Rightarrow> eval_state \<Rightarrow> eval_state eval_result" where
  "eval_exec env opcode vchPushValue pc st =
     (let fExec = list_all (\<lambda>b. b) (es_vfExec st) in
      if fExec \<and> opcode \<le> OP_PUSHDATA4
      then if ev_flag env SCRIPT_VERIFY_MINIMALDATA \<and> \<not> CheckMinimalPush vchPushValue opcode
           then set_error SCRIPT_ERR_MINIMALDATA
           else Inr (st\<lparr>es_stack := vchPushValue # es_stack st\<rparr>)
      else if fExec \<or> (OP_IF \<le> opcode \<and> opcode \<le> OP_ENDIF) then eval_switch env fExec opcode pc st
      else Inr st)"

definition eval_step ::
  "eval_env \<Rightarrow> opcodetype \<Rightarrow> bytes \<Rightarrow> bytes \<Rightarrow> eval_state \<Rightarrow> eval_state eval_result" where
  "eval_step env opcode vchPushValue pc st =
     (if MAX_SCRIPT_ELEMENT_SIZE < length vchPushValue then set_error SCRIPT_ERR_PUSH_SIZE
      else let st = (if OP_16 < opcode then st\<lparr>es_nOpCount := es_nOpCount st + 1\<rparr> else st) in
      if OP_16 < opcode \<and> MAX_OPS_PER_SCRIPT < es_nOpCount st then set_error SCRIPT_ERR_OP_COUNT
      else if is_disabled opcode then set_error SCRIPT_ERR_DISABLED_OPCODE
      else rbind (eval_exec env opcode vchPushValue pc st) (\<lambda>st.
        if 1000 < length (es_stack st) + length (es_altstack st)
        then set_error SCRIPT_ERR_STACK_SIZE else Inr st))"

function eval_loop :: "eval_env \<Rightarrow> bytes \<Rightarrow> eval_state \<Rightarrow> eval_state eval_result" where
  "eval_loop env pc st =
     (if pc = [] then Inr st
      else case GetOp2 pc of
             (ok, opcode, vchPushValue, pc') \<Rightarrow>
               if \<not> ok then set_error SCRIPT_ERR_BAD_OPCODE
               else (case eval_step env opcode vchPushValue pc' st of
                       Inl e \<Rightarrow> Inl e
                     | Inr st' \<Rightarrow> eval_loop env pc' st'))"
  by pat_completeness auto
termination
  by (relation "measure (\<lambda>(env, pc, st). length pc)") (auto dest: GetOp2_shorter_sym)

declare eval_loop.simps [simp del] multisig_loop.simps [simp del]

definition EvalScript :: "eval_env \<Rightarrow> bytes list \<Rightarrow> CScript \<Rightarrow> bytes list eval_result" where
  "EvalScript env stack script =
     (if MAX_SCRIPT_SIZE < length script then set_error SCRIPT_ERR_SCRIPT_SIZE
      else rbind (eval_loop env script
             \<lparr>es_stack = stack, es_altstack = [], es_vfExec = [], es_nOpCount = 0,
              es_codehash = script\<rparr>) (\<lambda>st.
        if es_vfExec st \<noteq> [] then set_error SCRIPT_ERR_UNBALANCED_CONDITIONAL
        else Inr (es_stack st)))"

section \<open>Witness programs and whole inputs\<close>

text \<open>A witness is the list of its stack items in the order of the C++ vector, bottom first.\<close>

type_synonym CScriptWitness = "bytes list"

definition witness_script ::
  "CScriptWitness \<Rightarrow> bytes \<Rightarrow> (bytes list \<times> CScript) eval_result" where
  "witness_script witness program =
     (if length program = 32
      then if length witness = 0 then set_error SCRIPT_ERR_WITNESS_PROGRAM_WITNESS_EMPTY
           else let scriptPubKey = last witness;
                    stack = rev (butlast witness);
                    hashScriptPubKey = snd (CSHA256_Finalize (CSHA256_Write CSHA256_ctor scriptPubKey))
                in if hashScriptPubKey \<noteq> program then set_error SCRIPT_ERR_WITNESS_PROGRAM_MISMATCH
                   else Inr (stack, scriptPubKey)
      else if length program = 20
      then if length witness \<noteq> 2 then set_error SCRIPT_ERR_WITNESS_PROGRAM_MISMATCH
           else Inr (rev witness,
                  push_opcode (push_opcode (push_vch (push_opcode (push_opcode [] OP_DUP) OP_HASH160) program)
                    OP_EQUALVERIFY) OP_CHECKSIG)
      else set_error SCRIPT_ERR_WITNESS_PROGRAM_WRONG_LENGTH)"

definition VerifyWitnessProgram ::
  "eval_env \<Rightarrow> CScriptWitness \<Rightarrow> nat \<Rightarrow> bytes \<Rightarrow> unit eval_result" where
  "VerifyWitnessProgram env witness witversion program =
     (if witversion = 0
      then rbind (witness_script witness program) (\<lambda>(stack, scriptPubKey).
        if list_ex (\<lambda>v. MAX_SCRIPT_ELEMENT_SIZE < length v) stack then set_error SCRIPT_ERR_PUSH_SIZE
        else rbind (EvalScript (env\<lparr>ev_sigversion := SIGVERSION_WITNESS_V0\<rparr>) stack scriptPubKey)
          (\<lambda>stack. if length stack \<noteq> 1 then set_error SCRIPT_ERR_EVAL_FALSE
                    else if \<not> CastToBool (hd stack) then set_error SCRIPT_ERR_EVAL_FALSE
                    else Inr ()))
      else if ev_flag env SCRIPT_VERIFY_DISCOURAGE_UPGRADABLE_WITNESS_PROGRAM
      then set_error SCRIPT_ERR_DISCOURAGE_UPGRADABLE_WITNESS_PROGRAM
      else Inr ())"

text \<open>\<open>stack.resize(1)\<close> keeps the bottom item, the last of the list.\<close>

definition resize1 :: "bytes list \<Rightarrow> bytes list" where
  "resize1 stack = (if stack = [] then [[]] else [last stack])"

definition eval_true :: "eval_env \<Rightarrow> bytes list \<Rightarrow> CScript \<Rightarrow> bytes list eval_result" where
  "eval_true env stack script =
     rbind (EvalScript env stack script) (\<lambda>stack.
       if stack = [] then set_error SCRIPT_ERR_EVAL_FALSE
       else if \<not> CastToBool (hd stack) then set_error SCRIPT_ERR_EVAL_FALSE
       else Inr stack)"

definition verify_bare_witness ::
  "eval_env \<Rightarrow> CScript \<Rightarrow> CScript \<Rightarrow> CScriptWitness \<Rightarrow> bytes list \<Rightarrow> (bool \<times> bytes list) eval_result" where
  "verify_bare_witness env scriptSig scriptPubKey witness stack =
     (if ev_flag env SCRIPT_VERIFY_WITNESS
      then case IsWitnessProgram scriptPubKey of
             None \<Rightarrow> Inr (False, stack)
           | Some (witnessversion, witnessprogram) \<Rightarrow>
               if length scriptSig \<noteq> 0 then set_error SCRIPT_ERR_WITNESS_MALLEATED
               else rbind (VerifyWitnessProgram env witness witnessversion witnessprogram)
                      (\<lambda>_. Inr (True, resize1 stack))
      else Inr (False, stack))"

definition verify_p2sh_witness ::
  "eval_env \<Rightarrow> CScript \<Rightarrow> CScript \<Rightarrow> CScriptWitness \<Rightarrow> bool \<Rightarrow> bytes list
     \<Rightarrow> (bool \<times> bytes list) eval_result" where
  "verify_p2sh_witness env scriptSig pubKey2 witness hadWitness stack =
     (if ev_flag env SCRIPT_VERIFY_WITNESS
      then case IsWitnessProgram pubKey2 of
             None \<Rightarrow> Inr (hadWitness, stack)
           | Some (witnessversion, witnessprogram) \<Rightarrow>
               if scriptSig \<noteq> push_vch [] pubKey2 then set_error SCRIPT_ERR_WITNESS_MALLEATED_P2SH
               else rbind (VerifyWitnessProgram env witness witnessversion witnessprogram)
                      (\<lambda>_. Inr (True, resize1 stack))
      else Inr (hadWitness, stack))"

definition verify_p2sh ::
  "eval_env \<Rightarrow> CScript \<Rightarrow> CScript \<Rightarrow> CScriptWitness \<Rightarrow> bytes list \<Rightarrow> bool \<Rightarrow> bytes list
     \<Rightarrow> (bool \<times> bytes list) eval_result" where
  "verify_p2sh env scriptSig scriptPubKey witness stackCopy hadWitness stack =
     (if ev_flag env SCRIPT_VERIFY_P2SH \<and> IsPayToScriptHash scriptPubKey
      then if \<not> IsPushOnly scriptSig then set_error SCRIPT_ERR_SIG_PUSHONLY
           else case stackCopy of
                  [] \<Rightarrow> Inl AssertFail
                | pubKey2 # stack \<Rightarrow>
                    rbind (eval_true env stack pubKey2)
                      (verify_p2sh_witness env scriptSig pubKey2 witness hadWitness)
      else Inr (hadWitness, stack))"

definition verify_final :: "eval_env \<Rightarrow> CScriptWitness \<Rightarrow> bool \<times> bytes list \<Rightarrow> unit eval_result" where
  "verify_final env witness = (\<lambda>(hadWitness, stack).
     rbind (if ev_flag env SCRIPT_VERIFY_CLEANSTACK
            then if \<not> ev_flag env SCRIPT_VERIFY_P2SH then Inl AssertFail
                 else if \<not> ev_flag env SCRIPT_VERIFY_WITNESS then Inl AssertFail
                 else if length stack \<noteq> 1 then set_error SCRIPT_ERR_CLEANSTACK
                 else Inr ()
            else Inr ()) (\<lambda>_.
       if ev_flag env SCRIPT_VERIFY_WITNESS
       then if \<not> ev_flag env SCRIPT_VERIFY_P2SH then Inl AssertFail
            else if \<not> hadWitness \<and> witness \<noteq> [] then set_error SCRIPT_ERR_WITNESS_UNEXPECTED
            else Inr ()
       else Inr ()))"

definition VerifyScript ::
  "eval_env \<Rightarrow> CScript \<Rightarrow> CScript \<Rightarrow> CScriptWitness option \<Rightarrow> unit eval_result" where
  "VerifyScript env scriptSig scriptPubKey witness =
     (let witness = (case witness of None \<Rightarrow> [] | Some w \<Rightarrow> w);
          env = env\<lparr>ev_sigversion := SIGVERSION_BASE\<rparr> in
      if ev_flag env SCRIPT_VERIFY_SIGPUSHONLY \<and> \<not> IsPushOnly scriptSig
      then set_error SCRIPT_ERR_SIG_PUSHONLY
      else rbind (EvalScript env [] scriptSig) (\<lambda>stackCopy.
           rbind (eval_true env stackCopy scriptPubKey) (\<lambda>stack.
           rbind (verify_bare_witness env scriptSig scriptPubKey witness stack) (\<lambda>(hadWitness, stack).
           rbind (verify_p2sh env scriptSig scriptPubKey witness stackCopy hadWitness stack)
             (verify_final env witness)))))"

section \<open>Witness signature operations\<close>

definition WitnessSigOps :: "nat \<Rightarrow> bytes \<Rightarrow> CScriptWitness \<Rightarrow> nat" where
  "WitnessSigOps witversion witprogram witness =
     (if witversion = 0 \<and> length witprogram = 20 then 1
      else if witversion = 0 \<and> length witprogram = 32 \<and> 0 < length witness
      then GetSigOpCount (last witness) True
      else 0)"

function last_data :: "bytes \<Rightarrow> bytes \<Rightarrow> bytes" where
  "last_data pc data =
     (if pc = [] then data
      else case GetOp2 pc of (ok, opcode, data', pc') \<Rightarrow> last_data pc' data')"
  by pat_completeness auto
termination
  by (relation "measure (\<lambda>(pc, data). length pc)") (auto dest: GetOp2_shorter_sym)

declare last_data.simps [simp del]

definition CountWitnessSigOps ::
  "CScript \<Rightarrow> CScript \<Rightarrow> CScriptWitness option \<Rightarrow> u32 \<Rightarrow> nat option" where
  "CountWitnessSigOps scriptSig scriptPubKey witness flags =
     (let witness = (case witness of None \<Rightarrow> [] | Some w \<Rightarrow> w) in
      if \<not> flag_set flags SCRIPT_VERIFY_WITNESS then Some 0
      else if \<not> flag_set flags SCRIPT_VERIFY_P2SH then None
      else case IsWitnessProgram scriptPubKey of
             Some (witnessversion, witnessprogram) \<Rightarrow>
               Some (WitnessSigOps witnessversion witnessprogram witness)
           | None \<Rightarrow>
               if IsPayToScriptHash scriptPubKey \<and> IsPushOnly scriptSig
               then case IsWitnessProgram (last_data scriptSig []) of
                      Some (witnessversion, witnessprogram) \<Rightarrow>
                        Some (WitnessSigOps witnessversion witnessprogram witness)
                    | None \<Rightarrow> Some 0
               else Some 0)"

end
