(* ===== verification/Script_Props.thy ===== *)
theory Script_Props
  imports Script
begin

text \<open>
  Facts about \<^verbatim>\<open>script.h\<close>: script numbers are in bijection with their minimal encodings, a
  pushed element is read back by \<open>GetOp\<close>, \<open>FindAndDelete\<close> removes every occurrence that
  starts at an opcode boundary and no other byte, and the signature-operation counts are bounded.
\<close>

section \<open>Bytes as numbers\<close>

fun bval :: "bytes \<Rightarrow> nat" where
  "bval [] = 0"
| "bval (b # bs) = unat b + 256 * bval bs"

lemma unat8_less [simp]: "unat (b :: u8) < 256"
  using unsigned_less [of b] by simp

lemma bval_less: "bval bs < 256 ^ length bs"
proof (induction bs)
  case (Cons b bs)
  have "unat b + 256 * bval bs < 256 + 256 * bval bs" by simp
  also have "\<dots> = 256 * Suc (bval bs)" by simp
  also have "\<dots> \<le> 256 * 256 ^ length bs" using Cons by (intro mult_le_mono2) simp
  finally show ?case by simp
qed simp

lemma bval_append: "bval (xs @ ys) = bval xs + 256 ^ length xs * bval ys"
  by (induction xs) (simp_all add: algebra_simps)

lemma bval_serialize_abs: "bval (serialize_abs n) = n"
proof (induction n rule: serialize_abs.induct)
  case (1 n)
  show ?case
  proof (cases "n = 0")
    case False
    have "unat (of_nat (n mod 256) :: u8) = n mod 256" by (simp add: unat_of_nat)
    then show ?thesis using 1 [OF False] False by (subst serialize_abs.simps) simp
  qed (simp add: serialize_abs.simps)
qed

lemma serialize_abs_nonempty [simp]: "serialize_abs n = [] \<longleftrightarrow> n = 0"
  by (subst serialize_abs.simps) simp

lemma last_serialize_abs: "n \<noteq> 0 \<Longrightarrow> last (serialize_abs n) \<noteq> 0"
proof (induction n rule: serialize_abs.induct)
  case (1 n)
  show ?case
  proof (cases "n div 256 = 0")
    case True
    then have "n < 256" by (simp add: div_eq_0_iff)
    then have "unat (of_nat n :: u8) = n" by (simp add: unat_of_nat)
    then have "(of_nat n :: u8) \<noteq> 0" using 1(2) by (metis unsigned_0)
    then show ?thesis using True \<open>n < 256\<close> 1(2) by (subst serialize_abs.simps) simp
  next
    case False
    then show ?thesis using 1 by (subst serialize_abs.simps) simp
  qed
qed

lemma bval_eq_0: "xs \<noteq> [] \<Longrightarrow> last xs \<noteq> 0 \<Longrightarrow> bval xs \<noteq> 0"
  by (induction xs) (auto split: if_splits simp: unat_eq_0)

lemma serialize_abs_bval: "xs = [] \<or> last xs \<noteq> 0 \<Longrightarrow> serialize_abs (bval xs) = xs"
proof (induction xs)
  case (Cons b bs)
  have m: "(unat b + 256 * bval bs) mod 256 = unat b" "(unat b + 256 * bval bs) div 256 = bval bs"
    by simp_all
  have n0: "unat b + 256 * bval bs \<noteq> 0" using bval_eq_0 [of "b # bs"] Cons.prems by simp
  have "bs = [] \<or> last bs \<noteq> 0" using Cons.prems by auto
  with Cons.IH show ?case by (subst serialize_abs.simps) (use m n0 in simp)
qed (simp add: serialize_abs.simps)

lemma int_or_push_bit:
  fixes r x :: int
  assumes "0 \<le> r" "r < 2 ^ k"
  shows "r OR push_bit k x = r + 2 ^ k * x"
proof -
  have t: "take_bit k r = r" using assms by (simp add: take_bit_int_eq_self_iff)
  then have low: "bit r i \<Longrightarrow> i < k" for i by (metis bit_take_bit_iff)
  have "r AND push_bit k x = 0" by (rule bit_eqI) (use low in \<open>force simp: bit_simps\<close>)
  then show ?thesis by (simp add: disjunctive_add_eq_or [symmetric] push_bit_eq_mult mult.commute)
qed

lemma set_vch_or_bval:
  "0 \<le> r \<Longrightarrow> r < 2 ^ (8 * i) \<Longrightarrow> set_vch_or i r bs = r + 2 ^ (8 * i) * int (bval bs)"
proof (induction bs arbitrary: i r)
  case (Cons b bs)
  define q where "q = (2 :: int) ^ (8 * i)"
  have e: "(2 :: int) ^ (8 * (i + 1)) = q * 256" by (simp add: q_def power_add)
  have b: "uint b \<le> 255" "0 \<le> uint b" using uint_lt2p [of b] by simp_all
  have q: "0 < q" "r < q" using Cons.prems(2) by (simp_all add: q_def)
  have "q * uint b \<le> q * 255" using b q by (intro mult_left_mono) simp_all
  then have "r + q * uint b < q * 256" using q by linarith
  moreover have "r OR push_bit (8 * i) (uint b) = r + q * uint b"
    unfolding q_def using Cons.prems by (rule int_or_push_bit)
  moreover have "0 \<le> r + q * uint b" using Cons.prems(1) q b by simp
  ultimately have "set_vch_or i r (b # bs) = r + q * uint b + q * 256 * int (bval bs)"
    using Cons.IH [of "r + q * uint b" "i + 1"] unfolding e by simp
  then show ?case unfolding q_def [symmetric] by (simp add: distrib_left)
qed simp

lemma set_vch_or_0: "set_vch_or 0 0 bs = int (bval bs)"
  using set_vch_or_bval [of 0 0 bs] by simp

section \<open>Sign bits\<close>

lemma byte_and_80: "(x :: u8) AND 0x80 = 0 \<longleftrightarrow> unat x < 128"
proof -
  have "x AND 0x80 = 0 \<longleftrightarrow> \<not> bit x 7"
    using and_exp_eq_0_iff_not_bit [of x 7] by simp
  also have "\<dots> \<longleftrightarrow> \<not> bit (unat x) 7" by (simp add: bit_unsigned_iff)
  also have "\<dots> \<longleftrightarrow> unat x < 128" using bit_top_iff [of "unat x" 7] unat8_less [of x] by (simp add: not_le)
  finally show ?thesis .
qed

lemma byte_and_7f: "unat ((x :: u8) AND 0x7f) = unat x mod 128"
  using unat_and_mask [of x 7] by (simp add: mask_eq_exp_minus_1)

lemma byte_or_80: "unat (x :: u8) < 128 \<Longrightarrow> unat (x OR 0x80) = unat x + 128"
  using unat_or_push_bit [of x 7 1] by simp

lemma set_vch_snoc:
  "set_vch (ys @ [x]) =
     (if unat x < 128 then int (bval ys + 256 ^ length ys * unat x)
      else - int (bval ys + 256 ^ length ys * (unat x - 128)))"
proof (cases "unat x < 128")
  case True
  then show ?thesis
    using byte_and_80 [of x] by (simp add: set_vch_def set_vch_or_0 bval_append)
next
  case False
  then obtain y where y: "unat x = y + 128" by (metis add.commute le_Suc_ex not_less)
  define k where "k = 8 * length ys + 7"
  define q where "q = (256 :: nat) ^ length ys"
  define a where "a = bval ys + q * y"
  have p: "(2 :: nat) ^ k = q * 128" by (simp add: k_def q_def power_add power_mult)
  have r: "bval (ys @ [x]) = a + 2 ^ k"
    unfolding p a_def bval_append q_def [symmetric] using y by (simp add: add_mult_distrib2)
  have "bval ys < q" unfolding q_def by (rule bval_less)
  moreover have "q * y \<le> q * 127" using unat8_less [of x] y by (intro mult_le_mono2) linarith
  ultimately have a: "a < 2 ^ k" unfolding p a_def by linarith
  have "bit (bval (ys @ [x])) k"
    using bit_top_iff [of "a + 2 ^ k" k] a unfolding r by simp
  then have "bit (int (bval (ys @ [x]))) k" by (simp add: bit_of_nat_iff_bit)
  then have "unset_bit k (int (bval (ys @ [x]))) = int a"
    unfolding unset_bit_eq r by simp
  moreover have "push_bit (8 * length ys) (0x80 :: int) = push_bit k 1"
    by (simp add: k_def push_bit_eq_mult power_add)
  ultimately show ?thesis
    using False byte_and_80 [of x]
    by (simp add: set_vch_def set_vch_or_0 unset_bit_eq_and_not a_def q_def y)
qed

section \<open>Minimal encodings\<close>

lemma serialize_snoc:
  assumes "n \<noteq> 0" "serialize_abs (nat \<bar>n\<bar>) = ys @ [x]"
  shows "serialize n =
     (if unat x < 128 then ys @ [if n < 0 then x OR 0x80 else x]
      else ys @ [x, if n < 0 then 0x80 else 0])"
  unfolding serialize_def Let_def assms(2) using assms(1) byte_and_80 [of x] by simp

lemma abs_snoc:
  assumes "serialize_abs m = ys @ [x]"
  shows "m = bval ys + 256 ^ length ys * unat x"
  using bval_serialize_abs [of m] unfolding assms bval_append by simp

lemma set_vch_serialize: "set_vch (serialize n) = n"
proof (cases "n = 0")
  case False
  then have "serialize_abs (nat \<bar>n\<bar>) \<noteq> []" by simp
  then obtain ys x where s: "serialize_abs (nat \<bar>n\<bar>) = ys @ [x]" by (metis rev_exhaust)
  have m: "nat \<bar>n\<bar> = bval ys + 256 ^ length ys * unat x" by (rule abs_snoc [OF s])
  show ?thesis
  proof (cases "unat x < 128")
    case True
    have "set_vch (ys @ [x OR 0x80]) = - int (nat \<bar>n\<bar>)" "set_vch (ys @ [x]) = int (nat \<bar>n\<bar>)"
      unfolding m set_vch_snoc using True by (simp_all only: byte_or_80 add_diff_cancel_right' if_True) simp
    then show ?thesis
      unfolding serialize_snoc [OF False s] using True by (cases "n < 0") simp_all
  next
    case ge: False
    have b: "bval (ys @ [x]) = nat \<bar>n\<bar>" unfolding bval_append using m by simp
    show ?thesis
      unfolding serialize_snoc [OF False s] using ge b set_vch_snoc [of "ys @ [x]" "0x80"]
        set_vch_snoc [of "ys @ [x]" 0]
      by (cases "n < 0") simp_all
  qed
qed (simp add: serialize_def set_vch_def)

lemma CScriptNum_snoc:
  "CScriptNum (ys @ [x]) True k = Some n \<longleftrightarrow>
     length ys < k \<and> n = set_vch (ys @ [x]) \<and>
     (unat x mod 128 \<noteq> 0 \<or> (ys \<noteq> [] \<and> 128 \<le> unat (last ys)))"
proof -
  have "x AND 0x7f = 0 \<longleftrightarrow> unat x mod 128 = 0"
    using byte_and_7f [of x] by (metis unat_eq_0)
  moreover have "ys \<noteq> [] \<Longrightarrow> (ys @ [x]) ! (length ys - 1) = last ys"
    by (simp add: last_conv_nth nth_append)
  ultimately show ?thesis
    using byte_and_80 [of "last ys"]
    by (cases "ys = []") (auto simp: CScriptNum_def not_less Suc_le_eq)
qed

lemma CScriptNum_serialize:
  assumes "length (serialize n) \<le> k"
  shows "CScriptNum (serialize n) True k = Some n"
proof (cases "n = 0")
  case False
  then have "serialize_abs (nat \<bar>n\<bar>) \<noteq> []" by simp
  then obtain ys x where s: "serialize_abs (nat \<bar>n\<bar>) = ys @ [x]" by (metis rev_exhaust)
  have x: "unat x \<noteq> 0" using last_serialize_abs [of "nat \<bar>n\<bar>"] False s by (simp add: unat_eq_0)
  show ?thesis
  proof (cases "unat x < 128")
    case True
    then obtain y where y: "serialize n = ys @ [y]" "unat y mod 128 = unat x"
      unfolding serialize_snoc [OF False s] using byte_or_80 by fastforce
    have "CScriptNum (ys @ [y]) True k = Some n"
      unfolding CScriptNum_snoc using assms x set_vch_serialize [of n] by (simp add: y)
    then show ?thesis by (simp add: y)
  next
    case ge: False
    obtain y where y: "serialize n = (ys @ [x]) @ [y]"
      unfolding serialize_snoc [OF False s] using ge by fastforce
    have "CScriptNum ((ys @ [x]) @ [y]) True k = Some n"
      unfolding CScriptNum_snoc using assms ge set_vch_serialize [of n] y by simp
    then show ?thesis by (simp add: y)
  qed
qed (simp add: serialize_def CScriptNum_def set_vch_def)

lemma serialize_of_bval:
  assumes "xs \<noteq> []" "last xs \<noteq> 0"
  shows "serialize_abs (nat \<bar>int (bval xs)\<bar>) = xs" "serialize_abs (nat \<bar>- int (bval xs)\<bar>) = xs"
    "int (bval xs) \<noteq> 0"
  using assms serialize_abs_bval [of xs] bval_eq_0 [of xs] by simp_all

lemma CScriptNum_minimal_unique:
  assumes "CScriptNum v True k = Some n"
  shows "v = serialize n"
proof (cases v rule: rev_cases)
  case Nil
  then show ?thesis using assms by (simp add: CScriptNum_def set_vch_def serialize_def)
next
  case (snoc ys x)
  from assms have n: "n = set_vch (ys @ [x])"
    and mn: "unat x mod 128 \<noteq> 0 \<or> (ys \<noteq> [] \<and> 128 \<le> unat (last ys))"
    by (simp_all add: snoc CScriptNum_snoc)
  show ?thesis
  proof (cases "unat x mod 128 = 0")
    case False
    define x' where "x' = x AND 0x7f"
    have x': "unat x' = unat x mod 128" by (simp add: x'_def byte_and_7f)
    then have x0: "x' \<noteq> 0" using False by (metis unsigned_0)
    have x128: "unat x' < 128" by (simp add: x')
    have cases: "unat x < 128 \<and> x' = x \<or> 128 \<le> unat x \<and> unat x' = unat x - 128 \<and> x' OR 0x80 = x"
    proof (cases "unat x < 128")
      case True
      then show ?thesis using x' by (simp add: word_unat_eq_iff)
    next
      case False
      then have "unat x' = unat x - 128" using x' unat8_less [of x] by (simp add: le_mod_geq)
      then show ?thesis using False byte_or_80 [OF x128] by (simp add: word_unat_eq_iff)
    qed
    have "ys @ [x'] \<noteq> []" "last (ys @ [x']) \<noteq> 0" using x0 by simp_all
    note b = serialize_of_bval [OF this]
    have v: "n = (if unat x < 128 then 1 else - 1) * int (bval (ys @ [x']))"
    proof -
      have e: "bval (ys @ [x']) = bval ys + 256 ^ length ys * unat x'" by (simp add: bval_append)
      show ?thesis unfolding n set_vch_snoc e using cases by (elim disjE conjE) simp_all
    qed
    show ?thesis unfolding snoc
      using serialize_snoc [of n ys x'] b v cases x128 by (auto simp: algebra_simps)
  next
    case True
    then have ys: "ys \<noteq> []" "128 \<le> unat (last ys)" using mn by simp_all
    have x: "x = 0 \<or> x = 0x80"
    proof -
      have "unat x = 0 \<or> unat x = 128" using True unat8_less [of x] by presburger
      then show ?thesis by (auto simp: word_unat_eq_iff)
    qed
    from ys have l: "last ys \<noteq> 0" by auto
    note b = serialize_of_bval [OF ys(1) l]
    obtain zs z where z: "ys = zs @ [z]" using ys(1) by (metis rev_exhaust)
    have v: "n = (if x = 0 then 1 else - 1) * int (bval ys)"
      unfolding n set_vch_snoc using x by auto
    show ?thesis unfolding snoc
      using serialize_snoc [of n zs z] b v x ys(2) unfolding z by auto
  qed
qed

lemma serialize_length_iff: "length (serialize n) \<le> Suc j \<longleftrightarrow> nat \<bar>n\<bar> < 128 * 256 ^ j"
proof (cases "n = 0")
  case False
  then have "serialize_abs (nat \<bar>n\<bar>) \<noteq> []" by simp
  then obtain ys x where s: "serialize_abs (nat \<bar>n\<bar>) = ys @ [x]" by (metis rev_exhaust)
  have x: "1 \<le> unat x"
    using last_serialize_abs [of "nat \<bar>n\<bar>"] False s by (simp add: Suc_le_eq unat_gt_0)
  define q where "q = (256 :: nat) ^ length ys"
  have m: "nat \<bar>n\<bar> = bval ys + q * unat x" unfolding q_def by (rule abs_snoc [OF s])
  have b: "bval ys < q" unfolding q_def by (rule bval_less)
  have mono: "a \<le> c \<Longrightarrow> (256 :: nat) ^ a \<le> 256 ^ c" for a c by (rule power_increasing) simp_all
  show ?thesis
  proof (cases "unat x < 128")
    case True
    then have len: "length (serialize n) = Suc (length ys)"
      unfolding serialize_snoc [OF False s] by simp
    have "q * 1 \<le> q * unat x" "q * unat x \<le> q * 127"
      using x True by (intro mult_le_mono2; simp)+
    then have N: "q \<le> nat \<bar>n\<bar>" "nat \<bar>n\<bar> < 128 * q" using m b by linarith+
    show ?thesis
    proof (cases "length ys \<le> j")
      case le: True
      have "q \<le> 256 ^ j" unfolding q_def by (rule mono [OF le])
      then have "nat \<bar>n\<bar> < 128 * 256 ^ j" using N by linarith
      then show ?thesis unfolding len using le by simp
    next
      case gt: False
      then have "256 ^ Suc j \<le> q" unfolding q_def by (intro mono) simp
      then have "\<not> nat \<bar>n\<bar> < 128 * 256 ^ j" using N unfolding power_Suc by linarith
      then show ?thesis unfolding len using gt by simp
    qed
  next
    case ge: False
    then have len: "length (serialize n) = Suc (Suc (length ys))"
      unfolding serialize_snoc [OF False s] by simp
    have "q * 128 \<le> q * unat x" "q * unat x \<le> q * 255"
      using ge unat8_less [of x] by (intro mult_le_mono2; linarith)+
    then have N: "128 * q \<le> nat \<bar>n\<bar>" "nat \<bar>n\<bar> < 256 * q" using m b by linarith+
    show ?thesis
    proof (cases "length ys < j")
      case lt: True
      have "256 ^ Suc (length ys) \<le> (256 :: nat) ^ j" by (rule mono) (use lt in simp)
      then have "nat \<bar>n\<bar> < 128 * 256 ^ j" using N unfolding q_def power_Suc by linarith
      then show ?thesis unfolding len using lt by simp
    next
      case ge: False
      then have "256 ^ j \<le> q" unfolding q_def by (intro mono) simp
      then have "\<not> nat \<bar>n\<bar> < 128 * 256 ^ j" using N by linarith
      then show ?thesis unfolding len using ge by simp
    qed
  qed
qed (simp add: serialize_def)

lemma set_vch_abs_less: "length v \<le> Suc j \<Longrightarrow> \<bar>set_vch v\<bar> < 128 * 256 ^ j"
proof (cases v rule: rev_cases)
  case (snoc ys x)
  assume "length v \<le> Suc j"
  then have l: "length ys \<le> j" using snoc by simp
  define q where "q = (256 :: nat) ^ length ys"
  have b: "bval ys < q" unfolding q_def by (rule bval_less)
  define y where "y = (if unat x < 128 then unat x else unat x - 128)"
  have y: "y \<le> 127" unfolding y_def using unat8_less [of x] by (split if_split) linarith
  have v: "\<bar>set_vch v\<bar> = int (bval ys + q * y)"
    unfolding snoc set_vch_snoc q_def y_def
    by (cases "unat x < 128") (simp_all only: if_True if_False abs_minus_cancel abs_of_nat)
  have "q * y \<le> q * 127" using y by (intro mult_le_mono2)
  then have "bval ys + q * y < 128 * q" using b by linarith
  also have "\<dots> \<le> 128 * 256 ^ j" unfolding q_def using l by (intro mult_le_mono2 power_increasing) simp_all
  finally have "int (bval ys + q * y) < int (128 * 256 ^ j)" by (simp only: of_nat_less_iff)
  then show ?thesis unfolding v by simp
qed (simp add: set_vch_def)

text \<open>
  C34: script numbers and their minimal encodings are in bijection.  The constructor with the
  minimality rule returns \<open>n\<close> exactly on \<open>serialize n\<close>, when that fits the size limit; the
  encoding of \<open>n\<close> fits \<open>j + 1\<close> bytes exactly when \<open>\<bar>n\<bar> < 128 * 256 ^ j\<close>; and dropping the
  minimality rule never changes the value read.
\<close>

theorem scriptnum_bijection:
  "(CScriptNum v True k = Some n \<longleftrightarrow> v = serialize n \<and> length v \<le> k) \<and>
   (length (serialize n) \<le> Suc j \<longleftrightarrow> \<bar>n\<bar> < 128 * 256 ^ j) \<and>
   CScriptNum (serialize n) False (length (serialize n)) = Some n"
proof (intro conjI)
  show "CScriptNum v True k = Some n \<longleftrightarrow> v = serialize n \<and> length v \<le> k"
  proof
    assume c: "CScriptNum v True k = Some n"
    then have "length v \<le> k" by (simp add: CScriptNum_def split: if_splits)
    with CScriptNum_minimal_unique [OF c] show "v = serialize n \<and> length v \<le> k" by simp
  qed (auto intro: CScriptNum_serialize)
  have "nat \<bar>n\<bar> < 128 * 256 ^ j \<longleftrightarrow> \<bar>n\<bar> < 128 * 256 ^ j"
    using nat_less_iff [of "\<bar>n\<bar>" "128 * 256 ^ j"] by simp
  then show "length (serialize n) \<le> Suc j \<longleftrightarrow> \<bar>n\<bar> < 128 * 256 ^ j"
    unfolding serialize_length_iff .
  show "CScriptNum (serialize n) False (length (serialize n)) = Some n"
    by (simp add: CScriptNum_def set_vch_serialize)
qed

section \<open>Reading what was pushed\<close>

lemma ReadLE16_WriteLE16: "ReadLE16 (WriteLE16 x @ r) = x"
proof (rule bit_word_eqI)
  fix n :: nat
  assume "n < LENGTH(16)"
  then show "bit (ReadLE16 (WriteLE16 x @ r)) n = bit x n"
    by (cases "n < 8") (auto simp: ReadLE16_def WriteLE16_def bit_simps)
qed

lemma ReadLE32_WriteLE32: "ReadLE32 (WriteLE32 x @ r) = x"
proof (rule bit_word_eqI)
  fix n :: nat
  assume "n < LENGTH(32)"
  then show "bit (ReadLE32 (WriteLE32 x @ r)) n = bit x n"
    by (cases "n < 8"; cases "n < 16"; cases "n < 24")
      (auto simp: ReadLE32_def WriteLE32_def bit_simps numeral_2_eq_2 numeral_3_eq_3)
qed

lemma length_WriteLE [simp]: "length (WriteLE16 x) = 2" "length (WriteLE32 y) = 4" "length (WriteLE64 z) = 8"
  by (simp_all add: WriteLE16_def WriteLE32_def WriteLE64_def)

lemma GetOp2_push_vch:
  assumes "length b < 2 ^ 32"
  shows "\<exists>op\<le>OP_PUSHDATA4. GetOp2 (push_vch [] b @ rest) = (True, op, b, rest)"
proof -
  consider (1) "length b < 76" | (2) "76 \<le> length b" "length b \<le> 255"
    | (3) "255 < length b" "length b \<le> 65535" | (4) "65535 < length b" by linarith
  then show ?thesis
  proof cases
    case 1
    then have "unat (of_nat (length b) :: u8) = length b" by (simp add: unat_of_nat)
    with 1 show ?thesis by (simp add: push_vch_def GetOp2_def getop_size_def Let_def)
  next
    case 2
    then have "unat (of_nat (length b) :: u8) = length b" by (simp add: unat_of_nat)
    with 2 show ?thesis by (simp add: push_vch_def GetOp2_def getop_size_def Let_def)
  next
    case 3
    then have "unat (of_nat (length b) :: u16) = length b" by (simp add: unat_of_nat)
    with 3 show ?thesis
      by (simp add: push_vch_def GetOp2_def getop_size_def Let_def ReadLE16_WriteLE16)
  next
    case 4
    then have "unat (of_nat (length b) :: u32) = length b" using assms by (simp add: unat_of_nat)
    with 4 show ?thesis
      by (simp add: push_vch_def GetOp2_def getop_size_def Let_def ReadLE32_WriteLE32)
  qed
qed

lemma push_vch_append: "push_vch s b = s @ push_vch [] b"
  by (simp add: push_vch_def)

lemma GetOp2_suffix: "GetOp2 pc = (ok, opcode, vch, pc') \<Longrightarrow> \<exists>x. pc = x @ pc'"
proof -
  have d: "\<exists>x. b # xs = x @ drop n xs" for b n and xs :: bytes
    by (metis append_Cons append_take_drop_id)
  have d2: "\<exists>x. b # xs = x @ drop m (drop n xs)" for b n m and xs :: bytes
    by (metis d drop_drop)
  show "GetOp2 pc = (ok, opcode, vch, pc') \<Longrightarrow> ?thesis"
    using d [where n = 0] d [where n = 1] d [where n = 2] d [where n = 4] d d2 [where n = 1] d2 [where n = 2] d2 [where n = 4]
    by (cases pc) (auto simp: GetOp2_def getop_size_def Let_def split: if_splits)
qed

section \<open>Find and delete\<close>

text \<open>
  \<open>op_deleted b s r n\<close>: reading \<open>s\<close> opcode by opcode and cutting the pattern \<open>b\<close> wherever
  the unread rest starts with it leaves \<open>r\<close> after \<open>n\<close> cuts.  An opcode is kept only when the
  rest does not start with \<open>b\<close>, and reading stops where no opcode can be decoded.
\<close>

inductive op_deleted :: "bytes \<Rightarrow> bytes \<Rightarrow> bytes \<Rightarrow> nat \<Rightarrow> bool" for b where
  op_cut: "op_deleted b s r n \<Longrightarrow> op_deleted b (b @ s) r (Suc n)"
| op_keep: "take (length b) (x @ s) \<noteq> b \<Longrightarrow> GetOp2 (x @ s) = (True, opc, vch, s) \<Longrightarrow>
    op_deleted b s r n \<Longrightarrow> op_deleted b (x @ s) (x @ r) n"
| op_stop: "take (length b) s \<noteq> b \<Longrightarrow> \<not> fst (GetOp2 s) \<Longrightarrow> op_deleted b s s 0"

lemma op_deleted_length: "op_deleted b s r n \<Longrightarrow> length s = length r + n * length b"
  by (induction rule: op_deleted.induct) simp_all

lemma op_deleted_none: "op_deleted b s r n \<Longrightarrow> n = 0 \<Longrightarrow> r = s"
  by (induction rule: op_deleted.induct) simp_all

inductive_cases op_deletedE: "op_deleted b s r n"

lemma op_deleted_cut_inv:
  assumes "op_deleted b (b @ s) r n"
  shows "\<exists>m. n = Suc m \<and> op_deleted b s r m"
proof -
  have "take (length b) (b @ s) = b" by simp
  show ?thesis using assms
  proof (cases rule: op_deleted.cases)
    case (op_keep x t opc vch q)
    then show ?thesis using \<open>take (length b) (b @ s) = b\<close> by simp
  qed (use \<open>take (length b) (b @ s) = b\<close> in simp_all)
qed

lemma op_deleted_keep_inv:
  assumes "op_deleted b (x @ s) r n" "take (length b) (x @ s) \<noteq> b"
    "GetOp2 (x @ s) = (True, opc, vch, s)"
  shows "\<exists>q. r = x @ q \<and> op_deleted b s q n"
  using assms(1) by (rule op_deletedE) (use assms(2,3) in auto)

lemma op_deleted_stop_inv:
  assumes "op_deleted b s r n" "take (length b) s \<noteq> b" "\<not> fst (GetOp2 s)"
  shows "r = s \<and> n = 0"
  using assms(1) by (rule op_deletedE) (use assms(2,3) in auto)

lemma op_deleted_unique: "op_deleted b s r n \<Longrightarrow> op_deleted b s r' n' \<Longrightarrow> r' = r \<and> n' = n"
proof (induction arbitrary: r' n' rule: op_deleted.induct)
  case (op_cut s r n)
  then show ?case using op_deleted_cut_inv by blast
next
  case (op_keep x s opc vch r n)
  then show ?case using op_deleted_keep_inv by blast
next
  case (op_stop s)
  then show ?case using op_deleted_stop_inv by blast
qed

lemma fad_skip_deleted:
  "fad_skip b pc n = (pc', n') \<Longrightarrow> b \<noteq> [] \<Longrightarrow>
     n \<le> n' \<and> take (length b) pc' \<noteq> b
     \<and> (\<forall>r m. op_deleted b pc' r m \<longrightarrow> op_deleted b pc r (n' - n + m))"
proof (induction b pc n arbitrary: pc' n' rule: fad_skip.induct)
  case (1 b pc n)
  show ?case
  proof (cases "b \<noteq> [] \<and> length b \<le> length pc \<and> take (length b) pc = b")
    case True
    then have pc: "pc = b @ drop (length b) pc" by (metis append_take_drop_id)
    have "fad_skip b (drop (length b) pc) (n + 1) = (pc', n')"
      using "1.prems" True by (subst (asm) fad_skip.simps) simp
    from "1.IH" [OF True this "1.prems"(2)]
    have ih: "n + 1 \<le> n'" "take (length b) pc' \<noteq> b"
      "op_deleted b pc' r m \<Longrightarrow> op_deleted b (drop (length b) pc) r (n' - (n + 1) + m)" for r m
      by auto
    have "op_deleted b pc r (n' - n + m)" if "op_deleted b pc' r m" for r m
    proof -
      have "op_deleted b (b @ drop (length b) pc) r (Suc (n' - (n + 1) + m))"
        by (rule op_cut [OF ih(3) [OF that]])
      moreover have "Suc (n' - (n + 1) + m) = n' - n + m" using ih(1) by linarith
      ultimately show ?thesis using pc by metis
    qed
    then show ?thesis using ih by simp
  next
    case False
    then have "take (length b) pc \<noteq> b" using "1.prems"(2) by (metis length_take min.cobounded1)
    then show ?thesis using "1.prems" False by (subst (asm) fad_skip.simps) auto
  qed
qed

lemma fad_loop_deleted:
  "fad_loop b result (x @ pc) pc n = (r, e, n') \<Longrightarrow> b \<noteq> [] \<Longrightarrow>
     n \<le> n' \<and> (\<exists>mid. r = result @ x @ mid \<and> op_deleted b pc (mid @ e) (n' - n))"
proof (induction b result "x @ pc" pc n arbitrary: x r e n' rule: fad_loop.induct)
  case (1 b result pc n)
  obtain pc1 n1 where sk: "fad_skip b pc n = (pc1, n1)" by fastforce
  obtain ok opc vch pc3 where g: "GetOp2 pc1 = (ok, opc, vch, pc3)" by (metis prod_cases4)
  obtain y where y: "pc1 = y @ pc3" using GetOp2_suffix [OF g] by blast
  have s: "n \<le> n1" "take (length b) pc1 \<noteq> b"
    "op_deleted b pc1 t m \<Longrightarrow> op_deleted b pc t (n1 - n + m)" for t m
    using fad_skip_deleted [OF sk "1.prems"(2)] by auto
  show ?case
  proof (cases ok)
    case True
    have l: "fad_loop b (result @ x) (y @ pc3) pc3 n1 = (r, e, n')"
      using "1.prems"(1) True sk g y by (subst (asm) fad_loop.simps) simp
    have "n1 \<le> n' \<and> (\<exists>mid. r = (result @ x) @ y @ mid \<and> op_deleted b pc3 (mid @ e) (n' - n1))"
      by (rule "1.hyps" [OF _ sk [symmetric] _ y [symmetric] g [symmetric] _ _ True l "1.prems"(2)]) simp_all
    then obtain mid where n': "n1 \<le> n'" and r: "r = result @ x @ y @ mid"
      and d: "op_deleted b pc3 (mid @ e) (n' - n1)" by auto
    have "op_deleted b pc1 (y @ mid @ e) (n' - n1)"
      unfolding y using s(2) g True d by (intro op_keep) (simp_all add: y)
    then have "op_deleted b pc (y @ mid @ e) (n1 - n + (n' - n1))" by (rule s(3))
    then show ?thesis using n' s(1) r by (intro conjI exI [of _ "y @ mid"]) simp_all
  next
    case False
    have "(r, e, n') = (result @ x, pc1, n1)"
      using "1.prems"(1) False sk g by (subst (asm) fad_loop.simps) simp
    moreover have "op_deleted b pc pc1 (n1 - n)"
      using s(3) [OF op_stop [OF s(2)]] g False by simp
    ultimately show ?thesis using s(1) by simp
  qed
qed

lemma FindAndDelete_deleted:
  assumes "b \<noteq> []"
  shows "op_deleted b script (fst (FindAndDelete script b)) (snd (FindAndDelete script b))"
proof -
  obtain r e n where l: "fad_loop b [] script script 0 = (r, e, n)" by (metis prod_cases3)
  have d: "op_deleted b script (r @ e) n" using fad_loop_deleted [of b "[]" "[]" script 0] l assms by simp
  then have "n = 0 \<Longrightarrow> r @ e = script" by (rule op_deleted_none)
  then show ?thesis using assms l d by (auto simp: FindAndDelete_def)
qed

text \<open>
  C35: \<open>FindAndDelete\<close> returns exactly what the opcode-by-opcode deletion specifies: the
  pattern is cut wherever the unread rest starts with it, at opcode boundaries only, every other
  opcode is kept in order, and from the first byte that decodes to no opcode on the rest is
  kept.  The empty pattern leaves the script alone.  The length drops by the reported number of
  cuts times the pattern's length.
\<close>

theorem FindAndDelete_correct:
  "(FindAndDelete script b = (r, n)
      \<longleftrightarrow> (if b = [] then r = script \<and> n = 0 else op_deleted b script r n))
   \<and> length script = length (fst (FindAndDelete script b)) + snd (FindAndDelete script b) * length b"
proof (cases "b = []")
  case False
  note d = FindAndDelete_deleted [OF False, of script]
  show ?thesis using False op_deleted_length [OF d] op_deleted_unique [OF d, of r n] d
    by (cases "FindAndDelete script b") auto
qed (auto simp: FindAndDelete_def)

section \<open>Signature operations\<close>

lemma sigop_loop_mono: "n \<le> m \<Longrightarrow> sigop_loop True pc l n \<le> sigop_loop False pc l' m"
proof (induction "length pc" arbitrary: pc l l' n m rule: less_induct)
  case less
  obtain ok opc vch pc' where g: "GetOp2 pc = (ok, opc, vch, pc')" by (metis prod_cases4)
  show ?case
    using less GetOp2_shorter [OF g] g
    by (subst (1 2) sigop_loop.simps) (auto intro!: less.hyps)
qed

lemma sigop_loop_bound: "sigop_loop f pc l n \<le> n + 20 * length pc"
proof (induction "length pc" arbitrary: pc l n rule: less_induct)
  case less
  obtain ok opc vch pc' where g: "GetOp2 pc = (ok, opc, vch, pc')" by (metis prod_cases4)
  show ?case
  proof (cases "pc = []")
    case False
    then have lt: "length pc' < length pc" by (rule GetOp2_shorter [OF g])
    have "sigop_loop f pc' opc k \<le> n + 20 * length pc" if "k \<le> n + 20" for k
      using less.hyps [OF lt, of opc k] that lt by linarith
    then show ?thesis using False g by (subst sigop_loop.simps) auto
  qed (simp add: sigop_loop.simps)
qed

text \<open>
  Counting signature operations accurately never counts more than the legacy count, and
  either count is at most twenty per script byte.
\<close>

lemma sigop_counts:
  "GetSigOpCount script True \<le> GetSigOpCount script False \<and>
   GetSigOpCount script f \<le> 20 * length script"
  using sigop_loop_bound [of f script OP_INVALIDOPCODE 0]
  by (simp add: GetSigOpCount_def sigop_loop_mono)

end
