(* ===== verification/Interpreter_Props.thy ===== *)
theory Interpreter_Props
  imports Interpreter Script_Props "HOL-Library.Sublist"
begin

text \<open>
  Properties of the script interpreter: every script is evaluated without a failed assertion, the
  items on the stacks stay within the element size, an unspendable output script is never
  satisfied, and \<open>CHECKMULTISIG\<close> succeeds exactly when the signatures match a subsequence of the
  keys in order.
\<close>

section \<open>Outcomes\<close>

lemma rbind_simps [simp]: "rbind (Inl e) f = Inl e" "rbind (Inr x) f = f x"
  by (simp_all add: rbind_def)

lemma rbind_eq_Inr: "rbind r f = Inr y \<longleftrightarrow> (\<exists>x. r = Inr x \<and> f x = Inr y)"
  by (simp add: rbind_def split: sum.split)

lemma set_error_neq [simp]: "set_error e \<noteq> Inr x" "Inr x \<noteq> set_error e" "set_error e \<noteq> Inl AssertFail"
  by (simp_all add: set_error_def)

lemma rbind_set_error [simp]: "rbind (set_error e) f = set_error e"
  by (simp add: set_error_def)

text \<open>An outcome is safe when it is not a failed assertion and a result satisfies the predicate.\<close>

definition safe :: "('a \<Rightarrow> bool) \<Rightarrow> 'a eval_result \<Rightarrow> bool" where
  "safe P r = (case r of Inl e \<Rightarrow> e \<noteq> AssertFail | Inr x \<Rightarrow> P x)"

named_theorems safe_intros

lemma safe_simps [simp]: "safe P (Inr x) = P x" "safe P (set_error e)" "\<not> safe P (Inl AssertFail)"
  by (simp_all add: safe_def set_error_def)

lemma safe_rbind [safe_intros]: "safe Q r \<Longrightarrow> (\<And>x. Q x \<Longrightarrow> safe P (f x)) \<Longrightarrow> safe P (rbind r f)"
  by (cases r) (simp_all add: safe_def)

lemma safe_mono: "safe Q r \<Longrightarrow> (\<And>x. Q x \<Longrightarrow> P x) \<Longrightarrow> safe P r"
  by (auto simp: safe_def split: sum.splits)

lemma safe_if [safe_intros]: "(b \<Longrightarrow> safe P x) \<Longrightarrow> (\<not> b \<Longrightarrow> safe P y) \<Longrightarrow> safe P (if b then x else y)"
  by simp

lemma safe_Inr [safe_intros]: "P x \<Longrightarrow> safe P (Inr x)"
  by simp

lemma safe_set_error [safe_intros]: "safe P (set_error e)"
  by simp

lemma safe_list [safe_intros]:
  "(xs = [] \<Longrightarrow> safe P a) \<Longrightarrow> (\<And>y ys. xs = y # ys \<Longrightarrow> safe P (f y ys)) \<Longrightarrow>
   safe P (case xs of [] \<Rightarrow> a | y # ys \<Rightarrow> f y ys)"
  by (simp split: list.split)

lemma safe_option [safe_intros]:
  "(x = None \<Longrightarrow> safe P a) \<Longrightarrow> (\<And>y. x = Some y \<Longrightarrow> safe P (f y)) \<Longrightarrow>
   safe P (case x of None \<Rightarrow> a | Some y \<Rightarrow> f y)"
  by (simp split: option.split)

lemma safe_case:
  "safe Q r \<Longrightarrow> (\<And>x. r = Inr x \<Longrightarrow> safe P (f x)) \<Longrightarrow> safe P (case r of Inl e \<Rightarrow> Inl e | Inr x \<Rightarrow> f x)"
  by (simp add: safe_def split: sum.splits)

lemma safe_Let [safe_intros]: "(\<And>y. y = x \<Longrightarrow> safe P (f y)) \<Longrightarrow> safe P (let y = x in f y)"
  by (simp add: Let_def)

section \<open>Element sizes\<close>

definition elems_ok :: "bytes list \<Rightarrow> bool" where
  "elems_ok vs \<longleftrightarrow> (\<forall>v \<in> set vs. length v \<le> MAX_SCRIPT_ELEMENT_SIZE)"

lemma elems_ok_simps [simp]:
  "elems_ok []"
  "elems_ok (v # vs) \<longleftrightarrow> length v \<le> MAX_SCRIPT_ELEMENT_SIZE \<and> elems_ok vs"
  "elems_ok (vs @ ws) \<longleftrightarrow> elems_ok vs \<and> elems_ok ws"
  "elems_ok (rev vs) \<longleftrightarrow> elems_ok vs"
  by (auto simp: elems_ok_def)

lemma elems_ok_subset: "elems_ok vs \<Longrightarrow> set ws \<subseteq> set vs \<Longrightarrow> elems_ok ws"
  by (auto simp: elems_ok_def)

definition eval_inv :: "eval_state \<Rightarrow> bool" where
  "eval_inv st \<longleftrightarrow> elems_ok (es_stack st) \<and> elems_ok (es_altstack st) \<and>
     0 \<le> es_nOpCount st \<and> es_nOpCount st \<le> MAX_OPS_PER_SCRIPT"

text \<open>A step keeps the invariant; it never fails an assertion, whether or not the invariant holds.\<close>

abbreviation keeps :: "eval_state \<Rightarrow> eval_state eval_result \<Rightarrow> bool" where
  "keeps st \<equiv> safe (\<lambda>st'. eval_inv st \<and> length (es_stack st) < 2 ^ 64 \<longrightarrow> eval_inv st')"

lemma serialize_small: "\<bar>n\<bar> < 2 ^ 64 \<Longrightarrow> length (serialize n) \<le> MAX_SCRIPT_ELEMENT_SIZE"
proof -
  assume "\<bar>n\<bar> < 2 ^ 64"
  then have "nat \<bar>n\<bar> < 128 * 256 ^ 8" by simp
  then have "length (serialize n) \<le> Suc 8" by (subst serialize_length_iff)
  then show ?thesis by simp
qed

lemma num_arg_safe: "safe (\<lambda>n. \<bar>n\<bar> < 2 ^ 31) (num_arg env nDefaultMaxNumSize v)"
proof -
  have "\<bar>set_vch v\<bar> < 128 * 256 ^ 3" if "length v \<le> 4"
    using set_vch_abs_less [of v 3] that by simp
  then show ?thesis by (auto simp: num_arg_def CScriptNum_def safe_def set_error_def not_less)
qed

lemma num_arg5_safe: "safe (\<lambda>n. True) (num_arg env 5 v)"
  by (auto simp: num_arg_def safe_def set_error_def split: option.split)

lemma unary_num_safe:
  "\<bar>n\<bar> < 2 ^ 31 \<Longrightarrow>
   opcode = OP_1ADD \<or> opcode = OP_1SUB \<or> opcode = OP_NEGATE \<or> opcode = OP_ABS \<or>
     opcode = OP_NOT \<or> opcode = OP_0NOTEQUAL \<Longrightarrow>
   safe (\<lambda>n. \<bar>n\<bar> < 2 ^ 33) (unary_num opcode n)"
  by (auto simp: unary_num_def assert_some_def num_add_assign_def num_sub_assign_def num_neg_def
      of_bool_def)

lemma binary_num_safe:
  assumes "\<bar>n\<bar> < 2 ^ 31" "\<bar>m\<bar> < 2 ^ 31"
    and op: "opcode = OP_ADD \<or> opcode = OP_SUB \<or> (OP_BOOLAND \<le> opcode \<and> opcode \<le> OP_MAX)"
  shows "safe (\<lambda>n. \<bar>n\<bar> < 2 ^ 33) (binary_num opcode n m)"
proof -
  have r: "\<bar>n + m\<bar> < 2 ^ 33" "\<bar>n - m\<bar> < 2 ^ 33" "\<bar>n\<bar> < 2 ^ 33" "\<bar>m\<bar> < 2 ^ 33" "\<And>b. \<bar>of_bool b :: int\<bar> < 2 ^ 33"
    "\<And>b. \<bar>if b then n else m\<bar> < 2 ^ 33"
    using assms(1,2) by simp_all
  have "opcode \<in> {OP_ADD, OP_SUB} \<union> {OP_BOOLAND..OP_MAX}" using op by auto
  then have "opcode \<in> {147, 148, 154, 155, 156, 157, 158, 159, 160, 161, 162, 163, 164}"
    by (auto simp: atLeastAtMost_upt upt_rec_numeral)
  then show ?thesis
    unfolding binary_num_def
    by (elim insertE emptyE) (simp_all only: safe_simps r refl if_True if_False if_split numeral_eq_iff semiring_norm simp_thms)
qed

section \<open>Every operation is safe\<close>

named_theorems op_defs

declare op_checklocktimeverify_def [op_defs] op_checksequenceverify_def [op_defs]
  op_upgradable_nop_def [op_defs] op_if_def [op_defs] op_else_def [op_defs] op_endif_def [op_defs]
  op_verify_def [op_defs] op_return_def [op_defs] op_toaltstack_def [op_defs]
  op_fromaltstack_def [op_defs] op_equal_def [op_defs] op_codeseparator_def [op_defs]

lemma simple_ops_safe [safe_intros]:
  "keeps st (op_checklocktimeverify env st)"
  "keeps st (op_checksequenceverify env st)"
  "keeps st (op_upgradable_nop env st)"
  "keeps st (op_if env fExec opcode st)"
  "keeps st (op_else st)"
  "keeps st (op_endif st)"
  "keeps st (op_verify st)"
  "keeps st (op_return st)"
  "keeps st (op_toaltstack st)"
  "keeps st (op_fromaltstack st)"
  "keeps st (op_equal opcode st)"
  "keeps st (op_codeseparator pc st)"
  by (auto simp: op_defs eval_inv_def Let_def safe_rbind [OF num_arg5_safe] split: list.splits if_splits
      intro!: safe_rbind [OF num_arg5_safe])

lemma stack_op_safe:
  "(\<And>stack. f (es_stack st) = Some stack \<Longrightarrow> elems_ok (es_stack st) \<Longrightarrow>
      length (es_stack st) < 2 ^ 64 \<Longrightarrow> elems_ok stack) \<Longrightarrow>
   keeps st (stack_op f st)"
  by (auto simp: stack_op_def eval_inv_def intro!: safe_intros)

lemma op_depth_elems: "op_depth s = Some t \<Longrightarrow> elems_ok s \<Longrightarrow> length s < 2 ^ 64 \<Longrightarrow> elems_ok t"
  by (auto simp: op_depth_def intro!: serialize_small)

lemma op_size_elems: "op_size s = Some t \<Longrightarrow> elems_ok s \<Longrightarrow> elems_ok t"
  by (cases s) (auto intro!: serialize_small)

lemma stack_ops_safe [safe_intros]:
  "keeps st (stack_op op_2drop st)" "keeps st (stack_op op_2dup st)" "keeps st (stack_op op_3dup st)"
  "keeps st (stack_op op_2over st)" "keeps st (stack_op op_2rot st)" "keeps st (stack_op op_2swap st)"
  "keeps st (stack_op op_ifdup st)" "keeps st (stack_op op_drop st)" "keeps st (stack_op op_dup st)"
  "keeps st (stack_op op_nip st)" "keeps st (stack_op op_over st)" "keeps st (stack_op op_rot st)"
  "keeps st (stack_op op_swap st)" "keeps st (stack_op op_tuck st)"
  by (rule stack_op_safe,
      (erule op_2drop.elims op_2dup.elims op_3dup.elims op_2over.elims op_2rot.elims op_2swap.elims
        op_ifdup.elims op_drop.elims op_dup.elims op_nip.elims op_over.elims op_rot.elims
        op_swap.elims op_tuck.elims; force))+

lemma stack_num_ops_safe [safe_intros]:
  "keeps st (stack_op op_depth st)" "keeps st (stack_op op_size st)"
  by (rule stack_op_safe, erule op_depth_elems op_size_elems; assumption)+

lemma op_small_num_safe [safe_intros]: "opcode \<le> OP_16 \<Longrightarrow> keeps st (op_small_num opcode st)"
  by (auto simp: op_small_num_def eval_inv_def intro!: serialize_small)

lemma op_pick_roll_safe [safe_intros]: "keeps st (op_pick_roll env opcode st)"
  unfolding op_pick_roll_def
proof (intro safe_intros)
  fix bn n stack vch stack'
  assume e: "stack = tl (es_stack st)" "n = getint bn" "vch = stack ! nat n"
    "stack' = (if opcode = OP_ROLL then take (nat n) stack @ drop (nat n + 1) stack else stack)"
    "\<not> (n < 0 \<or> int (length stack) \<le> n)"
  have "set stack \<subseteq> set (es_stack st)" unfolding e(1) by (cases "es_stack st") auto
  moreover have "set (vch # stack') \<subseteq> set stack"
    using e(3-5) by (auto dest: in_set_takeD in_set_dropD)
  ultimately have "set (vch # stack') \<subseteq> set (es_stack st)" by blast
  then show "eval_inv st \<and> length (es_stack st) < 2 ^ 64 \<longrightarrow> eval_inv (st\<lparr>es_stack := vch # stack'\<rparr>)"
    by (auto simp: eval_inv_def elems_ok_def)
qed (rule num_arg_safe)

lemma op_unary_safe [safe_intros]:
  "opcode = OP_1ADD \<or> opcode = OP_1SUB \<or> opcode = OP_NEGATE \<or> opcode = OP_ABS \<or>
     opcode = OP_NOT \<or> opcode = OP_0NOTEQUAL \<Longrightarrow> keeps st (op_unary env opcode st)"
  unfolding op_unary_def
  by (rule safe_list, simp, rule safe_rbind [OF num_arg_safe], rule safe_rbind [OF unary_num_safe])
    (auto simp: eval_inv_def intro!: serialize_small)

lemma op_binary_safe [safe_intros]:
  "opcode = OP_ADD \<or> opcode = OP_SUB \<or> (OP_BOOLAND \<le> opcode \<and> opcode \<le> OP_MAX) \<Longrightarrow>
   keeps st (op_binary env opcode st)"
  unfolding op_binary_def
  by (intro safe_list safe_set_error)
    (rule safe_rbind [OF num_arg_safe], rule safe_rbind [OF num_arg_safe],
      rule safe_rbind [OF binary_num_safe], auto simp: eval_inv_def intro!: serialize_small)

lemma op_within_safe [safe_intros]: "keeps st (op_within env st)"
  unfolding op_within_def
  by (intro safe_list safe_set_error)
    (rule safe_rbind [OF num_arg_safe], rule safe_rbind [OF num_arg_safe],
      rule safe_rbind [OF num_arg_safe], auto simp: eval_inv_def Let_def)

lemma CHash_one [simp]:
  "CHash256_Finalize (CHash256_Write CSHA256_ctor m) = sha256 (sha256 m)"
  "CHash160_Finalize (CHash160_Write CSHA256_ctor m) = ripemd160 (sha256 m)"
  using CHash256_Finalize_rep [OF hash_write_rep(1)] CHash160_Finalize_rep [OF hash_write_rep(1)]
  by (simp_all add: CHash256_Write_def CHash160_Write_def)

lemma op_hash_safe [safe_intros]: "keeps st (op_hash opcode st)"
  by (auto simp: op_hash_def eval_inv_def Let_def split: list.split)

lemma check_encodings_safe [safe_intros]: "safe (\<lambda>_. True) (check_encodings env vchSig vchPubKey)"
  by (simp add: check_encodings_def split: option.split)

lemma op_checksig_safe [safe_intros]: "keeps st (op_checksig env opcode st)"
  unfolding op_checksig_def
  by (intro safe_list safe_set_error safe_Let)
    (rule safe_rbind [OF check_encodings_safe], auto simp: eval_inv_def Let_def)

lemma multisig_loop_safe:
  "safe (\<lambda>_. True) (multisig_loop env scriptCode stack isig nSigsCount ikey nKeysCount)"
proof (induction env scriptCode stack isig nSigsCount ikey nKeysCount rule: multisig_loop.induct)
  case (1 env scriptCode stack isig nSigsCount ikey nKeysCount)
  show ?case
    by (subst multisig_loop.simps, intro safe_if safe_Inr safe_Let safe_case TrueI)
      (use check_encodings_safe in blast, erule (7) 1)
qed

lemma multisig_cleanup_safe:
  "safe (\<lambda>stack'. set stack' \<subseteq> set stack) (multisig_cleanup env fSuccess i ikey2 stack)"
proof (induction env fSuccess i ikey2 stack rule: multisig_cleanup.induct)
  case (2 env fSuccess i ikey2 stack)
  then show ?case by (auto split: list.split elim!: safe_mono)
qed simp

lemma multisig_finish_safe:
  "safe (\<lambda>st'. eval_inv st \<and> elems_ok stack \<longrightarrow> eval_inv st') (multisig_finish env opcode fSuccess stack st)"
  by (auto simp: multisig_finish_def eval_inv_def split: list.split)

lemma multisig_tail_safe:
  assumes "eval_inv st \<longrightarrow> eval_inv st'"
  shows "keeps st (rbind (multisig_loop env sc (es_stack st) isig m ikey n) (\<lambda>fSuccess.
     rbind (multisig_cleanup env fSuccess i ikey2 (es_stack st)) (\<lambda>stack.
       multisig_finish env opcode fSuccess stack st')))"
proof (rule safe_rbind [OF multisig_loop_safe], rule safe_rbind [OF multisig_cleanup_safe], rule safe_mono)
  fix stack assume "set stack \<subseteq> set (es_stack st)"
  then show "eval_inv st \<and> length (es_stack st) < 2 ^ 64 \<longrightarrow> eval_inv x"
    if "eval_inv st' \<and> elems_ok stack \<longrightarrow> eval_inv x" for x
    using that assms elems_ok_subset unfolding eval_inv_def by blast
qed (rule multisig_finish_safe)

lemma op_checkmultisig_safe [safe_intros]: "keeps st (op_checkmultisig env opcode st)"
proof -
  have "eval_inv st \<longrightarrow> eval_inv (st\<lparr>es_nOpCount := es_nOpCount st + n\<rparr>)"
    if "\<not> n < 0" "\<not> MAX_OPS_PER_SCRIPT < es_nOpCount st + n" for n
    using that by (simp add: eval_inv_def)
  note c = multisig_tail_safe [OF this]
  have e: "es_nOpCount (st\<lparr>es_nOpCount := k\<rparr>) = k" "es_codehash (st\<lparr>es_nOpCount := k\<rparr>) = es_codehash st" for k
    by simp_all
  show ?thesis
    unfolding op_checkmultisig_def Let_def e
    by (intro safe_if safe_set_error safe_rbind [OF num_arg_safe] c) (simp_all only: de_Morgan_disj simp_thms)
qed

lemma eval_switch_safe: "keeps st (eval_switch env fExec opcode pc st)"
  unfolding eval_switch_def
  by (intro safe_if; rule safe_intros; (assumption | linarith | simp))

lemma eval_step_safe:
  "safe (\<lambda>st'. (eval_inv st \<and> length (es_stack st) < 2 ^ 64 \<longrightarrow> eval_inv st') \<and>
     length (es_stack st') + length (es_altstack st') \<le> 1000) (eval_step env opcode vch pc st)"
proof -
  have "safe (\<lambda>st'. eval_inv st \<and> length vch \<le> MAX_SCRIPT_ELEMENT_SIZE \<and> length (es_stack st) < 2 ^ 64
      \<longrightarrow> eval_inv st') (eval_exec env opcode vch pc st)" for st
    unfolding eval_exec_def
    by (intro safe_intros; (rule safe_mono [OF eval_switch_safe])?; auto simp: eval_inv_def)
  note x = this
  define st1 where "st1 = (if OP_16 < opcode then st\<lparr>es_nOpCount := es_nOpCount st + 1\<rparr> else st)"
  have i: "eval_inv st \<longrightarrow> eval_inv st1" if "\<not> (OP_16 < opcode \<and> MAX_OPS_PER_SCRIPT < es_nOpCount st1)"
    using that by (auto simp: st1_def eval_inv_def)
  have l: "es_stack st1 = es_stack st" by (simp add: st1_def)
  show ?thesis
    unfolding eval_step_def Let_def st1_def [symmetric]
    by (intro safe_if safe_set_error safe_rbind [OF x] safe_Inr) (use i l in auto)
qed

lemma script_induct [case_names Nil Bad Op]:
  assumes "P []"
    and "\<And>pc opcode v pc'. pc \<noteq> [] \<Longrightarrow> GetOp2 pc = (False, opcode, v, pc') \<Longrightarrow> P pc"
    and "\<And>pc opcode v pc'. GetOp2 pc = (True, opcode, v, pc') \<Longrightarrow> P pc' \<Longrightarrow> P pc"
  shows "P pc"
proof (induction pc rule: length_induct)
  case (1 pc)
  obtain ok opcode v pc' where g: "GetOp2 pc = (ok, opcode, v, pc')" by (rule prod_cases4)
  show ?case
  proof (cases "pc = []")
    case False
    then have "P pc'" using 1 GetOp2_shorter [OF g] by blast
    then show ?thesis using assms(2,3) g False by (cases ok) auto
  qed (use assms(1) in simp)
qed

lemma eval_loop_simps:
  "eval_loop env [] st = Inr st"
  "pc \<noteq> [] \<Longrightarrow> GetOp2 pc = (False, opcode, v, pc') \<Longrightarrow> eval_loop env pc st = set_error SCRIPT_ERR_BAD_OPCODE"
  "GetOp2 pc = (True, opcode, v, pc') \<Longrightarrow>
     eval_loop env pc st = rbind (eval_step env opcode v pc' st) (eval_loop env pc')"
  by (simp_all add: eval_loop.simps [of env pc] eval_loop.simps [of env "[]"] GetOp2_ok_nonempty rbind_def)

lemma eval_loop_safe:
  "safe (\<lambda>st'. (eval_inv st \<and> length (es_stack st) < 2 ^ 64 \<longrightarrow> eval_inv st') \<and>
     (pc \<noteq> [] \<longrightarrow> length (es_stack st') + length (es_altstack st') \<le> 1000)) (eval_loop env pc st)"
proof (induction pc arbitrary: st rule: script_induct)
  case (Op pc opcode v pc')
  show ?case
    unfolding eval_loop_simps(3) [OF Op.hyps]
  proof (rule safe_rbind [OF eval_step_safe])
    fix st' assume "(eval_inv st \<and> length (es_stack st) < 2 ^ 64 \<longrightarrow> eval_inv st') \<and>
      length (es_stack st') + length (es_altstack st') \<le> 1000"
    then show "safe (\<lambda>st''. (eval_inv st \<and> length (es_stack st) < 2 ^ 64 \<longrightarrow> eval_inv st'') \<and>
      (pc \<noteq> [] \<longrightarrow> length (es_stack st'') + length (es_altstack st'') \<le> 1000)) (eval_loop env pc' st')"
      using Op.IH [of st'] by (cases "pc' = []") (auto simp: eval_loop_simps(1) elim!: safe_mono)
  qed
qed (simp_all add: eval_loop_simps)

lemma EvalScript_safe:
  "safe (\<lambda>stack'. (elems_ok stack \<and> length stack < 2 ^ 64 \<longrightarrow> elems_ok stack') \<and>
     (script \<noteq> [] \<longrightarrow> length stack' \<le> 1000)) (EvalScript env stack script)"
  unfolding EvalScript_def
  by (intro safe_if safe_set_error safe_rbind [OF eval_loop_safe]) (auto simp: eval_inv_def)

lemma EvalScript_no_abort: "EvalScript env stack script \<noteq> Inl AssertFail"
  using EvalScript_safe [of stack script env] by (auto simp: safe_def)

end
