(* ===== verification/Softfork.thy ===== *)
theory Softfork
  imports Interpreter_Props
begin

text \<open>
  Verification flags as soft forks.  An outcome refines another when every result it gives is
  also given by the other; each operation of the interpreter under a set of flags refines the
  same operation under fewer flags, so tightening the flags only rejects more inputs.
\<close>

section \<open>Fewer flags accept more\<close>

definition refines :: "'a eval_result \<Rightarrow> 'a eval_result \<Rightarrow> bool" where
  "refines r r' \<longleftrightarrow> (\<forall>x. r = Inr x \<longrightarrow> r' = Inr x)"

named_theorems refines_intros

lemma refines_refl [refines_intros]: "refines r r"
  by (simp add: refines_def)

lemma refines_error [refines_intros]: "refines (set_error e) r"
  by (simp add: refines_def)

lemma refines_rbind [refines_intros]:
  "refines r r' \<Longrightarrow> (\<And>x. r = Inr x \<Longrightarrow> refines (f x) (f' x)) \<Longrightarrow> refines (rbind r f) (rbind r' f')"
  by (auto simp: refines_def rbind_eq_Inr)

lemma refines_guard [refines_intros]:
  "(b' \<Longrightarrow> b) \<Longrightarrow> refines x x' \<Longrightarrow> refines (if b then set_error e else x) (if b' then set_error e' else x')"
  by (auto simp: refines_def)

lemma refines_if:
  "(b \<Longrightarrow> refines x x') \<Longrightarrow> (\<not> b \<Longrightarrow> refines y y') \<Longrightarrow> refines (if b then x else y) (if b then x' else y')"
  by simp

lemma refines_list [refines_intros]:
  "refines a a' \<Longrightarrow> (\<And>y ys. refines (f y ys) (f' y ys)) \<Longrightarrow>
   refines (case xs of [] \<Rightarrow> a | y # ys \<Rightarrow> f y ys) (case xs of [] \<Rightarrow> a' | y # ys \<Rightarrow> f' y ys)"
  by (simp split: list.split)

text \<open>
  A set of flags is softer than another when it has no flag the other lacks and does not
  discourage a lock-time opcode as a no-operation that the other executes.
\<close>

definition softer :: "u32 \<Rightarrow> u32 \<Rightarrow> bool" where
  "softer F F' \<longleftrightarrow> F' AND F = F' \<and>
     (flag_set F' SCRIPT_VERIFY_DISCOURAGE_UPGRADABLE_NOPS \<longrightarrow>
        (flag_set F SCRIPT_VERIFY_CHECKLOCKTIMEVERIFY \<longrightarrow> flag_set F' SCRIPT_VERIFY_CHECKLOCKTIMEVERIFY) \<and>
        (flag_set F SCRIPT_VERIFY_CHECKSEQUENCEVERIFY \<longrightarrow> flag_set F' SCRIPT_VERIFY_CHECKSEQUENCEVERIFY))"

lemma softer_flag: "softer F F' \<Longrightarrow> flag_set F' m \<Longrightarrow> flag_set F m"
  unfolding softer_def flag_set_def by (metis and.assoc and_zero_eq)

abbreviation soften :: "u32 \<Rightarrow> eval_env \<Rightarrow> eval_env" where
  "soften F' env \<equiv> env\<lparr>ev_flags := F'\<rparr>"

lemma soften_env:
  "ev_checker (soften F' env) = ev_checker env" "ev_sigversion (soften F' env) = ev_sigversion env"
  "ev_CheckLowS (soften F' env) = ev_CheckLowS env" "ev_flags (soften F' env) = F'"
  by simp_all

lemma num_arg_refines [refines_intros]:
  "softer (ev_flags env) F' \<Longrightarrow> refines (num_arg env k v) (num_arg (soften F' env) k v)"
  by (auto simp: refines_def num_arg_def CScriptNum_def split: if_splits dest: softer_flag)

lemma CheckSignatureEncoding_softer:
  "CheckSignatureEncoding low s F = None \<Longrightarrow> softer F F' \<Longrightarrow> CheckSignatureEncoding low s F' = None"
  unfolding CheckSignatureEncoding_def by (auto split: if_splits dest: softer_flag)

lemma CheckPubKeyEncoding_softer:
  "CheckPubKeyEncoding k F v = None \<Longrightarrow> softer F F' \<Longrightarrow> CheckPubKeyEncoding k F' v = None"
  unfolding CheckPubKeyEncoding_def by (auto split: if_splits dest: softer_flag)

lemma check_encodings_refines [refines_intros]:
  "softer (ev_flags env) F' \<Longrightarrow> refines (check_encodings env s k) (check_encodings (soften F' env) s k)"
  by (auto simp: refines_def check_encodings_def split: option.splits
      dest: CheckSignatureEncoding_softer CheckPubKeyEncoding_softer)

lemma locktime_refines [refines_intros]:
  assumes "softer (ev_flags env) F'"
  shows "refines (op_checklocktimeverify env st) (op_checklocktimeverify (soften F' env) st)"
    and "refines (op_checksequenceverify env st) (op_checksequenceverify (soften F' env) st)"
    and "refines (op_upgradable_nop env st) (op_upgradable_nop (soften F' env) st)"
proof -
  note n = num_arg_refines [OF assms, of 5, unfolded refines_def, rule_format]
  note f = softer_flag [OF assms]
  show "refines (op_upgradable_nop env st) (op_upgradable_nop (soften F' env) st)"
    by (auto simp: op_upgradable_nop_def refines_def dest: f)
  show "refines (op_checklocktimeverify env st) (op_checklocktimeverify (soften F' env) st)"
  proof (cases "flag_set F' SCRIPT_VERIFY_CHECKLOCKTIMEVERIFY")
    case True
    with f [OF True] show ?thesis
      unfolding op_checklocktimeverify_def by (auto intro!: refines_intros assms)
  next
    case False
    with assms show ?thesis
      by (auto simp: op_checklocktimeverify_def refines_def rbind_eq_Inr softer_def
          split: if_splits list.splits dest: f)
  qed
  show "refines (op_checksequenceverify env st) (op_checksequenceverify (soften F' env) st)"
  proof (cases "flag_set F' SCRIPT_VERIFY_CHECKSEQUENCEVERIFY")
    case True
    with f [OF True] show ?thesis
      unfolding op_checksequenceverify_def by (auto intro!: refines_intros assms)
  next
    case False
    with assms show ?thesis
      by (auto simp: op_checksequenceverify_def refines_def rbind_eq_Inr softer_def
          split: if_splits list.splits dest: f)
  qed
qed

lemma op_if_refines [refines_intros]:
  "softer (ev_flags env) F' \<Longrightarrow> refines (op_if env fExec opcode st) (op_if (soften F' env) fExec opcode st)"
  by (auto simp: op_if_def Let_def intro!: refines_intros dest: softer_flag)

lemma numeric_refines [refines_intros]:
  assumes "softer (ev_flags env) F'"
  shows "refines (op_pick_roll env opcode st) (op_pick_roll (soften F' env) opcode st)"
    and "refines (op_unary env opcode st) (op_unary (soften F' env) opcode st)"
    and "refines (op_binary env opcode st) (op_binary (soften F' env) opcode st)"
    and "refines (op_within env st) (op_within (soften F' env) st)"
  unfolding op_pick_roll_def op_unary_def op_binary_def op_within_def Let_def
  by (intro refines_intros assms; assumption)+

lemma op_checksig_refines [refines_intros]:
  "softer (ev_flags env) F' \<Longrightarrow> refines (op_checksig env opcode st) (op_checksig (soften F' env) opcode st)"
  unfolding op_checksig_def Let_def
  by (auto intro!: refines_intros dest: softer_flag)

lemma multisig_loop_rbind:
  "multisig_loop env sc stack isig m ikey n =
     (if m \<le> 0 then Inr True
      else rbind (check_encodings env (stack ! (isig - 1)) (stack ! (ikey - 1))) (\<lambda>_.
        let fOk = CheckSig (ev_checker env) (stack ! (isig - 1)) (stack ! (ikey - 1)) sc (ev_sigversion env);
            isig = (if fOk then isig + 1 else isig);
            m = (if fOk then m - 1 else m)
        in if n - 1 < m then Inr False else multisig_loop env sc stack isig m (ikey + 1) (n - 1)))"
  by (subst multisig_loop.simps) (simp add: rbind_def Let_def split: sum.split)

lemma multisig_loop_refines [refines_intros]:
  assumes "softer (ev_flags env) F'"
  shows "refines (multisig_loop env sc stack isig m ikey n) (multisig_loop (soften F' env) sc stack isig m ikey n)"
proof (induction "nat n" arbitrary: isig m ikey n rule: less_induct)
  case less
  have step: "refines (multisig_loop env sc stack i m' j (n - 1)) (multisig_loop (soften F' env) sc stack i m' j (n - 1))"
    if "0 \<le> m'" "\<not> n - 1 < m'" for i m' j
    using that by (intro less) simp
  show ?case
    unfolding multisig_loop_rbind [of _ _ _ _ m _ n] Let_def soften_env
    by (intro refines_if refines_rbind refines_refl check_encodings_refines assms)
      (auto simp: refines_refl split: if_splits intro!: step)
qed

lemma multisig_cleanup_refines [refines_intros]:
  "softer (ev_flags env) F' \<Longrightarrow>
   refines (multisig_cleanup env fSuccess i ikey2 stack) (multisig_cleanup (soften F' env) fSuccess i ikey2 stack)"
  by (induction i arbitrary: ikey2 stack) (auto intro!: refines_intros dest: softer_flag)

lemma multisig_finish_refines [refines_intros]:
  "softer (ev_flags env) F' \<Longrightarrow>
   refines (multisig_finish env opcode b stack st) (multisig_finish (soften F' env) opcode b stack st)"
  unfolding multisig_finish_def by (auto intro!: refines_intros dest: softer_flag)

lemma op_checkmultisig_refines [refines_intros]:
  "softer (ev_flags env) F' \<Longrightarrow>
   refines (op_checkmultisig env opcode st) (op_checkmultisig (soften F' env) opcode st)"
  unfolding op_checkmultisig_def Let_def soften_env by (intro refines_intros; assumption)

lemma eval_switch_refines:
  "softer (ev_flags env) F' \<Longrightarrow>
   refines (eval_switch env fExec opcode pc st) (eval_switch (soften F' env) fExec opcode pc st)"
  unfolding eval_switch_def
  by (intro refines_if; rule refines_intros; assumption?)

lemma eval_exec_refines:
  "softer (ev_flags env) F' \<Longrightarrow>
   refines (eval_exec env opcode v pc st) (eval_exec (soften F' env) opcode v pc st)"
  unfolding eval_exec_def Let_def soften_env
  by (intro refines_if refines_guard refines_refl eval_switch_refines) (auto dest: softer_flag)

lemma eval_step_refines:
  "softer (ev_flags env) F' \<Longrightarrow>
   refines (eval_step env opcode v pc st) (eval_step (soften F' env) opcode v pc st)"
  unfolding eval_step_def Let_def
  by (intro refines_guard refines_rbind refines_refl eval_exec_refines; assumption)

lemma eval_loop_refines:
  "softer (ev_flags env) F' \<Longrightarrow> refines (eval_loop env pc st) (eval_loop (soften F' env) pc st)"
  by (induction pc arbitrary: st rule: script_induct)
    (simp_all add: eval_loop_simps refines_refl refines_rbind eval_step_refines)

lemma EvalScript_refines:
  "softer (ev_flags env) F' \<Longrightarrow>
   refines (EvalScript env stack script) (EvalScript (soften F' env) stack script)"
  unfolding EvalScript_def
  by (intro refines_guard refines_rbind refines_refl eval_loop_refines; assumption)

end
