(* ===== verification/Verify_Props.thy ===== *)
theory Verify_Props
  imports Softfork
begin

text \<open>
  Properties of \<open>VerifyScript\<close>, the check of one transaction input: no assertion fails when the
  flags are consistent, tightening the flags is a soft fork, outputs that \<open>IsUnspendable\<close> reports
  can never be spent, and standard outputs are spent exactly by their keys.
\<close>

section \<open>The first instruction of a script\<close>

lemma GetOp2_nonpush: "OP_PUSHDATA4 < unat b \<Longrightarrow> GetOp2 (b # pc) = (True, unat b, [], pc)"
  by (simp add: GetOp2_def Let_def)

lemma EvalScript_first:
  assumes "OP_PUSHDATA4 < unat b" "\<And>st. es_vfExec st = [] \<Longrightarrow> es_stack st = stack \<Longrightarrow>
     \<exists>e. eval_step env (unat b) [] pc st = set_error e"
  shows "\<exists>e. EvalScript env stack (b # pc) = set_error e"
proof -
  obtain e where "eval_step env (unat b) [] pc \<lparr>es_stack = stack, es_altstack = [], es_vfExec = [],
      es_nOpCount = 0, es_codehash = b # pc\<rparr> = set_error e"
    using assms(2) by fastforce
  then show ?thesis
    by (auto simp: EvalScript_def eval_loop_simps(3) [OF GetOp2_nonpush [OF assms(1)]])
qed

lemma EvalScript_unspendable: "IsUnspendable script \<Longrightarrow> \<exists>e. EvalScript env stack script = set_error e"
proof (cases "MAX_SCRIPT_SIZE < length script")
  case False
  assume "IsUnspendable script"
  with False obtain b pc where s: "script = b # pc" "unat b = OP_RETURN"
    by (cases script) (auto simp: IsUnspendable_def)
  have "\<exists>e. eval_step env OP_RETURN [] pc st = set_error e" if "es_vfExec st = []" for st
    using that by (auto simp: eval_step_def is_disabled_def eval_exec_def eval_switch_def op_return_def)
  with s show ?thesis using EvalScript_first [of b stack env pc] by simp
qed (auto simp: EvalScript_def)

lemma EvalScript_p2sh_empty:
  assumes "IsPayToScriptHash script"
  shows "\<exists>e. EvalScript env [] script = set_error e"
proof -
  obtain b pc where s: "script = b # pc" "unat b = OP_HASH160"
    using assms by (cases script) (auto simp: IsPayToScriptHash_def)
  have "\<exists>e. eval_step env OP_HASH160 [] pc st = set_error e" if "es_vfExec st = []" "es_stack st = []" for st
    using that by (auto simp: eval_step_def is_disabled_def eval_exec_def eval_switch_def op_hash_def)
  with s show ?thesis using EvalScript_first [of b "[]" env pc] by simp
qed

section \<open>No assertion fails\<close>

definition flags_consistent :: "u32 \<Rightarrow> bool" where
  "flags_consistent F \<longleftrightarrow>
     (flag_set F SCRIPT_VERIFY_WITNESS \<longrightarrow> flag_set F SCRIPT_VERIFY_P2SH) \<and>
     (flag_set F SCRIPT_VERIFY_CLEANSTACK \<longrightarrow>
        flag_set F SCRIPT_VERIFY_P2SH \<and> flag_set F SCRIPT_VERIFY_WITNESS)"

lemma EvalScript_safe_True: "safe (\<lambda>_. True) (EvalScript env stack script)"
  by (rule safe_mono [OF EvalScript_safe]) simp

lemma witness_script_safe: "safe (\<lambda>_. True) (witness_script witness program)"
  by (simp add: witness_script_def Let_def)

lemma VerifyWitnessProgram_safe: "safe (\<lambda>_. True) (VerifyWitnessProgram env witness v program)"
  unfolding VerifyWitnessProgram_def
  by (intro safe_if safe_rbind [OF witness_script_safe])
    (auto simp: split_beta intro!: safe_if safe_rbind [OF EvalScript_safe_True])

lemma eval_true_safe:
  "safe (\<lambda>s. IsPayToScriptHash script \<longrightarrow> stack \<noteq> []) (eval_true env stack script)"
proof (cases "IsPayToScriptHash script \<and> stack = []")
  case True
  then show ?thesis using EvalScript_p2sh_empty [of script env] by (auto simp: eval_true_def)
qed (unfold eval_true_def, intro safe_rbind [OF EvalScript_safe_True], auto)

lemma verify_p2sh_witness_safe: "safe (\<lambda>_. True) (verify_p2sh_witness env s p w had stack)"
  unfolding verify_p2sh_witness_def
  by (auto intro!: safe_if safe_rbind [OF VerifyWitnessProgram_safe] split: option.split)

lemma verify_p2sh_safe:
  "(IsPayToScriptHash spk \<longrightarrow> stackCopy \<noteq> []) \<Longrightarrow> safe (\<lambda>_. True) (verify_p2sh env s spk w stackCopy had stack)"
  unfolding verify_p2sh_def
  by (auto simp: neq_Nil_conv intro!: safe_rbind [OF eval_true_safe] verify_p2sh_witness_safe)

lemma verify_bare_witness_safe: "safe (\<lambda>_. True) (verify_bare_witness env s spk w stack)"
  unfolding verify_bare_witness_def
  by (auto intro!: safe_if safe_rbind [OF VerifyWitnessProgram_safe] split: option.split)

lemma verify_final_safe: "flags_consistent (ev_flags env) \<Longrightarrow> safe (\<lambda>_. True) (verify_final env w r)"
  by (auto simp: verify_final_def flags_consistent_def split: prod.split)

lemma VerifyScript_safe: "flags_consistent (ev_flags env) \<Longrightarrow> safe (\<lambda>_. True) (VerifyScript env s spk w)"
  unfolding VerifyScript_def Let_def
  by (intro safe_if safe_set_error safe_rbind [OF EvalScript_safe_True] safe_rbind [OF eval_true_safe]
      safe_rbind [OF verify_bare_witness_safe])
    (auto intro!: safe_rbind [OF verify_p2sh_safe] verify_final_safe)

section \<open>Soft forks\<close>

lemma witness_env: "(soften F' env)\<lparr>ev_sigversion := v\<rparr> = soften F' (env\<lparr>ev_sigversion := v\<rparr>)"
  by simp

lemma VerifyWitnessProgram_refines [refines_intros]:
  assumes "softer (ev_flags env) F'"
  shows "refines (VerifyWitnessProgram env w v p) (VerifyWitnessProgram (soften F' env) w v p)"
proof -
  have "softer (ev_flags (env\<lparr>ev_sigversion := v\<rparr>)) F'" for v using assms by simp
  note e = EvalScript_refines [OF this]
  show ?thesis
    unfolding VerifyWitnessProgram_def witness_env soften_env split_beta
    by (intro refines_if refines_intros e) (use softer_flag [OF assms] in blast)+
qed

lemma eval_true_refines [refines_intros]:
  "softer (ev_flags env) F' \<Longrightarrow> refines (eval_true env stack script) (eval_true (soften F' env) stack script)"
  unfolding eval_true_def by (intro refines_intros EvalScript_refines; assumption)

lemma verify_bare_witness_refines:
  "softer (ev_flags env) F' \<Longrightarrow> flag_set F' SCRIPT_VERIFY_WITNESS \<Longrightarrow>
   refines (verify_bare_witness env s spk w stack) (verify_bare_witness (soften F' env) s spk w stack)"
  using softer_flag [of "ev_flags env" F' SCRIPT_VERIFY_WITNESS] unfolding verify_bare_witness_def
  by (auto split: option.split intro!: refines_intros)

lemma verify_p2sh_refines:
  "softer (ev_flags env) F' \<Longrightarrow> flags_consistent F' \<Longrightarrow> flag_set F' SCRIPT_VERIFY_WITNESS \<Longrightarrow>
   refines (verify_p2sh env s spk w sc had stack) (verify_p2sh (soften F' env) s spk w sc had stack)"
  using softer_flag [of "ev_flags env" F' SCRIPT_VERIFY_WITNESS] softer_flag [of "ev_flags env" F' SCRIPT_VERIFY_P2SH]
  unfolding verify_p2sh_def verify_p2sh_witness_def flags_consistent_def
  by (auto split: option.split intro!: refines_intros)

lemma verify_p2sh_no_witness:
  assumes "softer (ev_flags env) F'" "\<not> flag_set F' SCRIPT_VERIFY_WITNESS"
    and "verify_p2sh env s spk w sc had stack = Inr r"
  shows "\<exists>r'. verify_p2sh (soften F' env) s spk w sc had' stack' = Inr r'"
proof (cases "flag_set F' SCRIPT_VERIFY_P2SH \<and> IsPayToScriptHash spk")
  case True
  with softer_flag [OF assms(1)] assms(3) obtain p st st' where
    "IsPushOnly s" "sc = p # st" "eval_true env st p = Inr st'"
    by (auto simp: verify_p2sh_def rbind_eq_Inr split: if_splits list.splits)
  with eval_true_refines [OF assms(1), of st p] True assms(2) show ?thesis
    by (auto simp: verify_p2sh_def verify_p2sh_witness_def refines_def)
qed (auto simp: verify_p2sh_def)

lemma verify_final_refines:
  "softer (ev_flags env) F' \<Longrightarrow> flags_consistent F' \<Longrightarrow> flag_set F' SCRIPT_VERIFY_WITNESS \<Longrightarrow>
   refines (verify_final env w r) (verify_final (soften F' env) w r)"
  using softer_flag [of "ev_flags env" F' SCRIPT_VERIFY_WITNESS]
    softer_flag [of "ev_flags env" F' SCRIPT_VERIFY_CLEANSTACK]
  by (auto simp: verify_final_def flags_consistent_def refines_def rbind_eq_Inr split: prod.splits if_splits)

lemma VerifyScript_refines:
  assumes soft: "softer (ev_flags env) F'" and con: "flags_consistent F'"
  shows "refines (VerifyScript env s spk w) (VerifyScript (soften F' env) s spk w)"
proof -
  let ?env = "env\<lparr>ev_sigversion := SIGVERSION_BASE\<rparr>"
  let ?w = "case w of None \<Rightarrow> [] | Some w \<Rightarrow> w"
  have s: "softer (ev_flags ?env) F'" using soft by simp
  note f = softer_flag [OF s]
  show ?thesis
  proof (cases "flag_set F' SCRIPT_VERIFY_WITNESS")
    case True
    note stages = verify_bare_witness_refines [OF s True] verify_p2sh_refines [OF s con True]
      verify_final_refines [OF s con True]
    show ?thesis
      unfolding VerifyScript_def Let_def witness_env soften_env split_beta
      by (intro refines_guard refines_rbind EvalScript_refines [OF s] eval_true_refines [OF s] stages)
        (use f in auto)
  next
    case False
    have fin: "verify_final (soften F' ?env) ?w r = Inr ()" for r
      using con False by (simp add: verify_final_def flags_consistent_def split_beta)
    have bare: "verify_bare_witness (soften F' ?env) s spk ?w stack = Inr (False, stack)" for stack
      using False by (simp add: verify_bare_witness_def)
    have tail: "refines (rbind (verify_bare_witness ?env s spk ?w stack) (\<lambda>x.
          rbind (verify_p2sh ?env s spk ?w sc (fst x) (snd x)) (verify_final ?env ?w)))
        (rbind (verify_bare_witness (soften F' ?env) s spk ?w stack) (\<lambda>x.
          rbind (verify_p2sh (soften F' ?env) s spk ?w sc (fst x) (snd x)) (verify_final (soften F' ?env) ?w)))"
      for stack sc
      using verify_p2sh_no_witness [OF s False, of s spk ?w sc]
      by (fastforce simp: refines_def rbind_eq_Inr bare fin)
    show ?thesis
      unfolding VerifyScript_def Let_def witness_env soften_env split_beta
      by (intro refines_guard refines_rbind EvalScript_refines [OF s] eval_true_refines [OF s] tail)
        (use f in auto)
  qed
qed

section \<open>The properties\<close>

text \<open>An environment whose checker accepts every signature and lock time, for examples.\<close>

definition accepting_env :: "u32 \<Rightarrow> eval_env" where
  "accepting_env F =
     \<lparr>ev_flags = F,
      ev_checker = \<lparr>CheckSig = (\<lambda>_ _ _ _. True), CheckLockTime = (\<lambda>_. True), CheckSequence = (\<lambda>_. True)\<rparr>,
      ev_sigversion = SIGVERSION_BASE, ev_CheckLowS = (\<lambda>_. True)\<rparr>"

text \<open>
  C1: the verification flags are soft forks. An input that \<open>VerifyScript\<close> accepts under a set of
  flags is accepted under every smaller consistent set (that does not discourage as no-operations
  the lock-time opcodes the larger set executes): every flag, P2SH and segregated witness
  included, only rejects.
\<close>

theorem VerifyScript_softfork:
  assumes "softer (ev_flags env) F'" "flags_consistent F'"
    and "VerifyScript env scriptSig scriptPubKey witness = Inr ()"
  shows "VerifyScript (env\<lparr>ev_flags := F'\<rparr>) scriptSig scriptPubKey witness = Inr ()"
  using VerifyScript_refines [OF assms(1,2)] assms(3) by (simp add: refines_def)

text \<open>The output script \<open>OP_1\<close> under segregated-witness rules, and then with P2SH only.\<close>

lemma eval_empty: "EvalScript env stack [] = Inr stack"
  by (simp add: EvalScript_def eval_loop_simps)

lemma eval_op_1: "length stack < 1000 \<Longrightarrow> EvalScript env stack [0x51] = Inr ([1] # stack)"
proof -
  assume "length stack < 1000"
  moreover have g: "GetOp2 [0x51] = (True, 81, [], [])" by (simp add: GetOp2_def)
  moreover have "serialize 1 = [1]" by (simp add: serialize_def serialize_abs.simps)
  ultimately show ?thesis
    by (simp add: EvalScript_def eval_loop_simps(3) [OF g] eval_loop_simps(1) eval_step_def eval_exec_def
        is_disabled_def eval_switch_def op_small_num_def)
qed

lemma verify_op_1:
  "VerifyScript env [] [0x51] None = (if flags_consistent (ev_flags env) then Inr () else Inl AssertFail)"
  by (auto simp: VerifyScript_def Let_def eval_empty eval_true_def eval_op_1 verify_bare_witness_def verify_p2sh_def
      IsWitnessProgram_def IsPayToScriptHash_def IsPushOnly.simps verify_final_def flags_consistent_def)

theorem VerifyScript_softfork_witness:
  "softer 0x801 0x1 \<and> flags_consistent 0x1 \<and>
   VerifyScript (accepting_env 0x1) [] [0x51] None = Inr ()"
proof -
  have F: "softer 0x801 0x1" "flags_consistent 0x1" "flags_consistent 0x801"
    by (simp_all add: softer_def flags_consistent_def flag_set_def)
  have "VerifyScript ((accepting_env 0x801)\<lparr>ev_flags := 0x1\<rparr>) [] [0x51] None = Inr ()"
    using F verify_op_1 [of "accepting_env 0x801"] by (intro VerifyScript_softfork) (simp_all add: accepting_env_def)
  with F show ?thesis by (simp add: accepting_env_def)
qed

text \<open>
  C16: which assertions of the interpreter can fail. Evaluating any script on any stack ends with a
  result or with a script error, never with a failed assertion: the arithmetic opcodes never
  overflow and no switch falls through. Verifying an input can fail an assertion exactly when the
  caller's flags are inconsistent (segregated witness without P2SH, or the clean-stack rule without
  both): for consistent flags no input does, and for inconsistent flags some input does.
\<close>

theorem VerifyScript_no_abort:
  "EvalScript env stack script \<noteq> Inl AssertFail \<and>
   ((\<exists>scriptSig scriptPubKey witness. VerifyScript env scriptSig scriptPubKey witness = Inl AssertFail)
      \<longleftrightarrow> \<not> flags_consistent (ev_flags env))"
proof -
  have "flags_consistent (ev_flags env) \<Longrightarrow> VerifyScript env scriptSig scriptPubKey witness \<noteq> Inl AssertFail"
    for scriptSig scriptPubKey witness
    using VerifyScript_safe [of env scriptSig scriptPubKey witness] by (auto simp: safe_def)
  moreover have "\<not> flags_consistent (ev_flags env) \<Longrightarrow> VerifyScript env [] [0x51] None = Inl AssertFail"
    by (simp add: verify_op_1)
  ultimately show ?thesis using EvalScript_no_abort [of env stack script] by blast
qed

text \<open>
  C36: resource bounds. Evaluation started on items of at most 520 bytes leaves items of at most
  520 bytes, and at most 1000 of them when the script is not empty; the empty script leaves the
  stack as it was.
\<close>

theorem EvalScript_bounds:
  assumes "EvalScript env stack script = Inr stack'"
    and "list_all (\<lambda>v. length v \<le> MAX_SCRIPT_ELEMENT_SIZE) stack" "length stack < 2 ^ 64"
  shows "list_all (\<lambda>v. length v \<le> MAX_SCRIPT_ELEMENT_SIZE) stack' \<and>
    (if script = [] then stack' = stack else length stack' \<le> 1000)"
  using EvalScript_safe [of stack script env] assms by (auto simp: elems_ok_def list_all_iff eval_empty)

theorem EvalScript_bounds_witness:
  "EvalScript (accepting_env 0) [[1], [2]] [0x51] = Inr [[1], [1], [2]] \<and>
   list_all (\<lambda>v. length v \<le> MAX_SCRIPT_ELEMENT_SIZE) [[1 :: u8], [1], [2]] \<and>
   length [[1 :: u8], [1], [2]] \<le> 1000"
  using EvalScript_bounds [of "accepting_env 0" "[[1], [2]]" "[0x51]" "[[1], [1], [2]]"]
  by (simp add: eval_op_1)

text \<open>
  C37: outputs reported unspendable really are, and a contribution to the dividend fund is one of
  them: whatever the signature script, the witness, the flags and the checker, verification fails.
\<close>

theorem unspendable_never_spent:
  assumes "IsUnspendable scriptPubKey \<or> IsDividendContribution scriptPubKey"
  shows "VerifyScript env scriptSig scriptPubKey witness \<noteq> Inr ()"
proof -
  have "IsUnspendable scriptPubKey"
    using assms by (auto simp: IsUnspendable_def IsDividendContribution_def)
  then have "EvalScript env stack scriptPubKey \<noteq> Inr stack'" for env stack stack'
    using EvalScript_unspendable [of scriptPubKey env stack] by auto
  then show ?thesis
    by (auto simp: VerifyScript_def Let_def eval_true_def rbind_eq_Inr split: if_splits)
qed

theorem unspendable_never_spent_witness:
  "IsDividendContribution [0x6a, of_nat OP_DIVIDEND] \<and>
   VerifyScript (accepting_env 0) [0x51] [0x6a, of_nat OP_DIVIDEND] None \<noteq> Inr ()"
proof -
  have "IsDividendContribution [0x6a, of_nat OP_DIVIDEND]"
    by (simp add: IsDividendContribution_def)
  with unspendable_never_spent show ?thesis by blast
qed

end
