(* ===== verification/Multisig.thy ===== *)
theory Multisig
  imports Interpreter_Props
begin

text \<open>
  \<open>OP_CHECKMULTISIG\<close> against its specification: the loop that walks signatures and keys in
  parallel succeeds exactly when the signatures can be matched to a subsequence of the keys in
  order, which is \<open>list_emb\<close> of the library of sublists.
\<close>

lemma list_emb_greedy:
  "list_emb P (x # xs) (y # ys) \<longleftrightarrow> (if P x y then list_emb P xs ys else list_emb P (x # xs) ys)"
proof (cases "P x y")
  case True
  have "list_emb P xs ys" if "list_emb P (x # xs) (y # ys)"
    using that by (cases rule: list_emb.cases) (auto dest: list_emb_ConsD)
  with True show ?thesis by (auto intro: list_emb.intros)
next
  case False
  have "list_emb P (x # xs) ys" if "list_emb P (x # xs) (y # ys)"
    using that False by (cases rule: list_emb.cases) auto
  with False show ?thesis by (auto intro: list_emb.intros)
qed

lemma multisig_loop_emb:
  assumes "length sigs \<le> length keys" "1 \<le> isig" "1 \<le> ikey"
    and "\<forall>i < length sigs. stack ! (isig - 1 + i) = sigs ! i"
    and "\<forall>i < length keys. stack ! (ikey - 1 + i) = keys ! i"
    and "\<forall>s \<in> set sigs. \<forall>k \<in> set keys. check_encodings env s k = Inr ()"
  shows "multisig_loop env sc stack isig (int (length sigs)) ikey (int (length keys)) =
    Inr (list_emb (\<lambda>s k. CheckSig (ev_checker env) s k sc (ev_sigversion env)) sigs keys)"
  using assms
proof (induction keys arbitrary: sigs isig ikey)
  case Nil
  then show ?case by (simp add: multisig_loop.simps)
next
  case (Cons k keys)
  show ?case
  proof (cases sigs)
    case Nil
    then show ?thesis by (simp add: multisig_loop.simps)
  next
    case s: (Cons s sigs')
    let ?P = "\<lambda>s k. CheckSig (ev_checker env) s k sc (ev_sigversion env)"
    have heads: "stack ! (isig - 1) = s" "stack ! (ikey - 1) = k" "check_encodings env s k = Inr ()"
      using Cons.prems(4-6) s by (auto dest: spec [of _ 0])
    have keys: "\<forall>i < length keys. stack ! (ikey + 1 - 1 + i) = keys ! i"
    proof (intro allI impI)
      fix i assume "i < length keys"
      with Cons.prems(5) have "stack ! (ikey - 1 + Suc i) = (k # keys) ! Suc i" by auto
      with Cons.prems(3) show "stack ! (ikey + 1 - 1 + i) = keys ! i" by simp
    qed
    have sigs: "\<forall>i < length sigs'. stack ! (isig + 1 - 1 + i) = sigs' ! i"
    proof (intro allI impI)
      fix i assume "i < length sigs'"
      with Cons.prems(4) s have "stack ! (isig - 1 + Suc i) = (s # sigs') ! Suc i" by auto
      with Cons.prems(2) show "stack ! (isig + 1 - 1 + i) = sigs' ! i" by simp
    qed
    have len: "length sigs' \<le> length keys" using Cons.prems(1) s by simp
    have ok: "?P s k \<Longrightarrow> multisig_loop env sc stack (isig + 1) (int (length sigs')) (ikey + 1) (int (length keys))
        = Inr (list_emb ?P sigs' keys)"
      using len sigs keys Cons.prems(6) s by (intro Cons.IH) auto
    have no: "length sigs \<le> length keys \<Longrightarrow>
        multisig_loop env sc stack isig (int (length sigs)) (ikey + 1) (int (length keys)) = Inr (list_emb ?P sigs keys)"
      using keys Cons.prems by (intro Cons.IH) auto
    have short: "\<not> length sigs \<le> length keys \<Longrightarrow> \<not> list_emb ?P sigs keys"
      using list_emb_length by blast
    show ?thesis
      apply (subst multisig_loop.simps)
      using heads ok no short len unfolding s by (auto simp: Let_def list_emb_greedy)
  qed
qed

lemma cleanup_skip:
  "multisig_cleanup env b (length xs + i) (length xs) (xs @ ys) = multisig_cleanup env b i 0 ys"
  by (induction xs) simp_all

lemma cleanup_sigs:
  "multisig_cleanup env b (length ys) 0 (ys @ zs) =
     (if \<not> b \<and> ev_flag env SCRIPT_VERIFY_NULLFAIL \<and> (\<exists>v \<in> set ys. v \<noteq> []) then set_error SCRIPT_ERR_SIG_NULLFAIL
      else Inr zs)"
  by (induction ys) auto

lemma num_arg_count:
  assumes "n \<le> 20"
  shows "num_arg env nDefaultMaxNumSize (serialize (int n)) = Inr (int n)" "getint (int n) = int n"
proof -
  have "length (serialize (int n)) \<le> Suc 3" using assms by (subst serialize_length_iff) simp
  then have "CScriptNum (serialize (int n)) True 4 = Some (int n)" by (intro CScriptNum_serialize) simp
  then have "CScriptNum (serialize (int n)) b 4 = Some (int n)" for b
    by (auto simp: CScriptNum_def split: if_splits)
  then show "num_arg env nDefaultMaxNumSize (serialize (int n)) = Inr (int n)" by (simp add: num_arg_def)
qed (use assms in \<open>simp add: getint_def\<close>)

text \<open>The script code the signatures are checked against: before segregated witness every
  signature is deleted from it.\<close>

definition multisig_code :: "eval_env \<Rightarrow> CScript \<Rightarrow> bytes list \<Rightarrow> CScript" where
  "multisig_code env sc sigs =
     (if ev_sigversion env = SIGVERSION_BASE
      then foldl (\<lambda>sc s. fst (FindAndDelete sc (push_vch [] s))) sc sigs else sc)"

lemma multisig_code_indexed:
  assumes "\<forall>i < length sigs. stack ! (isig - 1 + i) = sigs ! i" "1 \<le> isig"
  shows "foldl (\<lambda>sc k. if ev_sigversion env = SIGVERSION_BASE
       then fst (FindAndDelete sc (push_vch [] (stack ! (isig + k - 1)))) else sc) sc [0..<length sigs]
     = multisig_code env sc sigs"
proof (cases "ev_sigversion env = SIGVERSION_BASE")
  case True
  have "map (\<lambda>k. stack ! (isig + k - 1)) [0..<length sigs] = sigs"
    using assms by (intro nth_equalityI) (auto simp: Nat.add_diff_assoc2)
  with foldl_map [of "\<lambda>sc s. fst (FindAndDelete sc (push_vch [] s))" sc "\<lambda>k. stack ! (isig + k - 1)" "[0..<length sigs]"]
    True show ?thesis by (simp add: multisig_code_def)
next
  case False
  have "foldl (\<lambda>sc k. sc) sc xs = sc" for xs :: "nat list" by (induction xs) auto
  with False show ?thesis by (simp add: multisig_code_def)
qed

text \<open>
  C10: \<open>OP_CHECKMULTISIG\<close> with \<open>m\<close> signatures and \<open>n\<close> keys succeeds exactly when the signatures match,
  in order, a subsequence of the keys. On a well-formed stack whose encodings are accepted it
  charges \<open>n\<close> operations, removes its arguments and the extra dummy item, and pushes the outcome;
  a failure with a non-empty signature, and a non-empty dummy, are rejected under their flags.
\<close>

theorem op_checkmultisig_emb:
  assumes stack: "es_stack st = serialize (int (length keys)) # keys @ serialize (int (length sigs)) # sigs @ dummy # rest"
    and counts: "length sigs \<le> length keys" "length keys \<le> MAX_PUBKEYS_PER_MULTISIG"
      "es_nOpCount st + int (length keys) \<le> MAX_OPS_PER_SCRIPT"
    and enc: "\<forall>s \<in> set sigs. \<forall>k \<in> set keys. check_encodings env s k = Inr ()"
    and b: "b = list_emb (\<lambda>s k. CheckSig (ev_checker env) s k (multisig_code env (es_codehash st) sigs)
                  (ev_sigversion env)) sigs keys"
  shows "op_checkmultisig env OP_CHECKMULTISIG st =
    (if \<not> b \<and> ev_flag env SCRIPT_VERIFY_NULLFAIL \<and> (\<exists>s \<in> set sigs. s \<noteq> []) then set_error SCRIPT_ERR_SIG_NULLFAIL
     else if ev_flag env SCRIPT_VERIFY_NULLDUMMY \<and> dummy \<noteq> [] then set_error SCRIPT_ERR_SIG_NULLDUMMY
     else Inr (st\<lparr>es_nOpCount := es_nOpCount st + int (length keys),
                  es_stack := (if b then vchTrue else vchFalse) # rest\<rparr>))"
proof -
  let ?n = "length keys" and ?m = "length sigs" and ?s = "es_stack st"
  let ?pre = "serialize (int ?n) # keys @ [serialize (int ?m)]"
  have s: "?s = ?pre @ sigs @ dummy # rest" by (simp add: stack)
  have at: "?s ! 0 = serialize (int ?n)" "?s ! (?n + 1) = serialize (int ?m)"
    by (simp_all add: stack nth_append)
  have keys: "\<forall>i < ?n. ?s ! (2 - 1 + i) = keys ! i" by (auto simp: stack nth_append)
  have sigs: "\<forall>i < ?m. ?s ! (?n + 3 - 1 + i) = sigs ! i" by (auto simp: stack nth_append)
  have len: "?n + 3 + ?m \<le> length ?s" by (simp add: stack)
  note loop = multisig_loop_emb [OF counts(1) _ _ sigs keys enc, of "multisig_code env (es_codehash st) sigs"]
  have clean: "multisig_cleanup env b (?n + 3 + ?m - 1) (?n + 2) ?s =
    (if \<not> b \<and> ev_flag env SCRIPT_VERIFY_NULLFAIL \<and> (\<exists>s \<in> set sigs. s \<noteq> []) then set_error SCRIPT_ERR_SIG_NULLFAIL
     else Inr (dummy # rest))"
    using cleanup_skip [of env b ?pre ?m "sigs @ dummy # rest"] cleanup_sigs [of env b sigs "dummy # rest"]
    unfolding s by simp
  note code = multisig_code_indexed [OF sigs, of env "es_codehash st"]
  have m: "?m \<le> 20" "?n \<le> 20" using counts(1,2) by simp_all
  have ix: "1 + 1 = (2 :: nat)" "1 - 1 = (0 :: nat)" "2 + ?n + 1 = ?n + 3" "2 + ?n - 1 = ?n + 1"
    and ie: "es_nOpCount (st\<lparr>es_nOpCount := k\<rparr>) = k" "es_codehash (st\<lparr>es_nOpCount := k\<rparr>) = es_codehash st" for k
    by simp_all
  have guards: "\<not> length ?s < 1" "\<not> length ?s < 2 + ?n" "\<not> length ?s < ?n + 3 + ?m"
    "\<not> (int ?n < 0 \<or> int MAX_PUBKEYS_PER_MULTISIG < int ?n)" "\<not> (int ?m < 0 \<or> int ?n < int ?m)"
    "\<not> MAX_OPS_PER_SCRIPT < es_nOpCount st + int ?n"
    using len counts by (simp_all add: stack)
  have "op_checkmultisig env OP_CHECKMULTISIG st =
    rbind (multisig_cleanup env b (?n + 3 + ?m - 1) (?n + 2) ?s) (\<lambda>stack.
      multisig_finish env OP_CHECKMULTISIG b stack (st\<lparr>es_nOpCount := es_nOpCount st + int ?n\<rparr>))"
    unfolding op_checkmultisig_def Let_def ix ie at num_arg_count [OF m(1)] num_arg_count [OF m(2)] rbind_simps nat_int
    using guards code loop b
    by (simp only: if_False rbind_simps ix at num_arg_count [OF m(1)] num_arg_count [OF m(2)] nat_int)
  note op = this
  show ?thesis
    unfolding op clean by (auto simp: multisig_finish_def)
qed

theorem op_checkmultisig_emb_witness:
  "op_checkmultisig
     \<lparr>ev_flags = 0x10,
      ev_checker = \<lparr>CheckSig = (\<lambda>s k _ _. s = k), CheckLockTime = (\<lambda>_. True), CheckSequence = (\<lambda>_. True)\<rparr>,
      ev_sigversion = SIGVERSION_WITNESS_V0, ev_CheckLowS = (\<lambda>_. True)\<rparr> OP_CHECKMULTISIG
     \<lparr>es_stack = [serialize 3, [7], [8], [9], serialize 2, [7], [9], []], es_altstack = [], es_vfExec = [],
      es_nOpCount = 1, es_codehash = []\<rparr>
   = Inr \<lparr>es_stack = [vchTrue], es_altstack = [], es_vfExec = [], es_nOpCount = 4, es_codehash = []\<rparr>"
proof -
  let ?env = "\<lparr>ev_flags = 0x10,
      ev_checker = \<lparr>CheckSig = (\<lambda>s k _ _. s = k), CheckLockTime = (\<lambda>_. True), CheckSequence = (\<lambda>_. True)\<rparr>,
      ev_sigversion = SIGVERSION_WITNESS_V0, ev_CheckLowS = (\<lambda>_. True)\<rparr>"
  let ?st = "\<lparr>es_stack = [serialize 3, [7], [8], [9], serialize 2, [7], [9], []], es_altstack = [], es_vfExec = [],
      es_nOpCount = 1, es_codehash = []\<rparr>"
  have "\<forall>s \<in> set [[7], [9]]. \<forall>k \<in> set [[7], [8], [9]]. check_encodings ?env s k = Inr ()"
    by (simp add: check_encodings_def CheckSignatureEncoding_def CheckPubKeyEncoding_def flag_set_def)
  moreover have "list_emb (\<lambda>s k. CheckSig (ev_checker ?env) s k sc v) [[7], [9]] [[7], [8], [9]]" for sc v
    by (simp add: list_emb_greedy)
  ultimately show ?thesis
    using op_checkmultisig_emb [of ?st "[[7], [8], [9]]" "[[7], [9]]" "[]" "[]" ?env True] by simp
qed

end
