(* ===== verification/Spend.thy ===== *)
theory Spend
  imports Verify_Props
begin

text \<open>
  Spending a pay-to-public-key-hash output, end to end: \<open>VerifyScript\<close> on the standard script and
  the standard signature script is evaluated symbolically, for every set of flags, every key, every
  signature and every signature checker.
\<close>

definition p2pkh_script :: "bytes \<Rightarrow> CScript" where
  "p2pkh_script h =
     push_opcode (push_opcode (push_vch (push_opcode (push_opcode [] OP_DUP) OP_HASH160) h) OP_EQUALVERIFY)
       OP_CHECKSIG"

definition p2pkh_sig :: "bytes \<Rightarrow> bytes \<Rightarrow> CScript" where
  "p2pkh_sig sig pubkey = push_vch (push_vch [] sig) pubkey"

lemma GetOp2_direct:
  "length d < 76 \<Longrightarrow> GetOp2 (of_nat (length d) # d @ rest) = (True, length d, d, rest)"
  by (simp add: GetOp2_def getop_size_def Let_def unat_of_nat)

lemma push_vch_direct: "length d < 76 \<Longrightarrow> push_vch s d = s @ of_nat (length d) # d"
  by (simp add: push_vch_def)

lemma eval_step_push:
  assumes "es_vfExec st = []" "2 \<le> length v" "length v < 76"
    "length (es_stack st) + length (es_altstack st) < 1000"
  shows "eval_step env (length v) v pc st = Inr (st\<lparr>es_stack := v # es_stack st\<rparr>)"
proof -
  have "CheckMinimalPush v (length v)" using assms by (simp add: CheckMinimalPush_def)
  with assms show ?thesis by (simp add: eval_step_def eval_exec_def is_disabled_def)
qed

lemma IsPushOnly_op:
  "GetOp2 pc = (True, opcode, v, pc') \<Longrightarrow> IsPushOnly pc \<longleftrightarrow> opcode \<le> OP_16 \<and> IsPushOnly pc'"
  by (subst IsPushOnly.simps) (simp add: GetOp2_ok_nonempty not_less)

lemma rbind_end: "rbind r (eval_loop env []) = r"
  by (simp add: rbind_def eval_loop_simps(1) split: sum.split)

lemma EvalScript_p2pkh_sig:
  assumes "2 \<le> length sig" "length sig < 76" "2 \<le> length pubkey" "length pubkey < 76"
  shows "EvalScript env [] (p2pkh_sig sig pubkey) = Inr [pubkey, sig]" "IsPushOnly (p2pkh_sig sig pubkey)"
proof -
  let ?s = "p2pkh_sig sig pubkey"
  have s: "?s = of_nat (length sig) # sig @ of_nat (length pubkey) # pubkey"
    using assms by (simp add: p2pkh_sig_def push_vch_direct)
  have g: "GetOp2 ?s = (True, length sig, sig, of_nat (length pubkey) # pubkey)"
    "GetOp2 (of_nat (length pubkey) # pubkey) = (True, length pubkey, pubkey, [])"
    unfolding s using assms GetOp2_direct [of pubkey "[]"] by (simp_all add: GetOp2_direct)
  show "EvalScript env [] ?s = Inr [pubkey, sig]"
    using assms
    by (simp add: EvalScript_def eval_loop_simps(3) [OF g(1)] eval_loop_simps(3) [OF g(2)] eval_step_push
        eval_loop_simps(1)) (simp add: s)
  show "IsPushOnly ?s"
    using assms by (simp add: IsPushOnly_op [OF g(1)] IsPushOnly_op [OF g(2)] IsPushOnly.simps [of "[]"])
qed

text \<open>The stack left by \<open>OP_CHECKSIG\<close> on a signature and a key, once their encodings are accepted.\<close>

definition checksig_result :: "eval_env \<Rightarrow> bytes \<Rightarrow> bytes \<Rightarrow> CScript \<Rightarrow> bytes list eval_result" where
  "checksig_result env sig pubkey script =
     (let code = (if ev_sigversion env = SIGVERSION_BASE then fst (FindAndDelete script (push_vch [] sig)) else script);
          ok = CheckSig (ev_checker env) sig pubkey code (ev_sigversion env)
      in if \<not> ok \<and> ev_flag env SCRIPT_VERIFY_NULLFAIL \<and> sig \<noteq> [] then set_error SCRIPT_ERR_SIG_NULLFAIL
         else Inr [if ok then vchTrue else vchFalse])"

text \<open>What the output script does with the signature script's two items.\<close>

lemma EvalScript_p2pkh:
  assumes "length h = 20" "length sig < 76" "length pubkey < 76"
  shows "EvalScript env [pubkey, sig] (p2pkh_script h) =
    (if ripemd160 (sha256 pubkey) \<noteq> h then set_error SCRIPT_ERR_EQUALVERIFY
     else rbind (check_encodings env sig pubkey) (\<lambda>_. checksig_result env sig pubkey (p2pkh_script h)))"
proof -
  let ?s = "p2pkh_script h"
  have s: "?s = 0x76 # 0xa9 # 0x14 # h @ [0x88, 0xac]"
    using assms by (simp add: p2pkh_script_def push_opcode_def push_vch_direct)
  have g: "GetOp2 ?s = (True, OP_DUP, [], 0xa9 # 0x14 # h @ [0x88, 0xac])"
    "GetOp2 (0xa9 # 0x14 # h @ [0x88, 0xac]) = (True, OP_HASH160, [], 0x14 # h @ [0x88, 0xac])"
    "GetOp2 (0x14 # h @ [0x88, 0xac]) = (True, 20, h, [0x88, 0xac])"
    "GetOp2 [0x88, 0xac] = (True, OP_EQUALVERIFY, [], [0xac])"
    "GetOp2 [0xac] = (True, OP_CHECKSIG, [], [])"
    unfolding s using assms GetOp2_direct [of h "[0x88, 0xac]"] by (simp_all add: GetOp2_def Let_def)
  note loop = g [THEN eval_loop_simps(3)]
  have push: "es_vfExec st = [] \<Longrightarrow> length (es_stack st) + length (es_altstack st) < 1000 \<Longrightarrow>
      eval_step env 20 h pc st = Inr (st\<lparr>es_stack := h # es_stack st\<rparr>)" for pc st
    using eval_step_push [of st h] assms(1) by simp
  note step = eval_step_def eval_exec_def is_disabled_def eval_switch_def Let_def
  have steps:
    "eval_step env OP_DUP [] pc \<lparr>es_stack = [pubkey, sig], es_altstack = [], es_vfExec = [], es_nOpCount = 0, es_codehash = c\<rparr>
      = Inr \<lparr>es_stack = [pubkey, pubkey, sig], es_altstack = [], es_vfExec = [], es_nOpCount = 1, es_codehash = c\<rparr>"
    "eval_step env OP_HASH160 [] pc \<lparr>es_stack = [pubkey, pubkey, sig], es_altstack = [], es_vfExec = [], es_nOpCount = 1, es_codehash = c\<rparr>
      = Inr \<lparr>es_stack = [ripemd160 (sha256 pubkey), pubkey, sig], es_altstack = [], es_vfExec = [], es_nOpCount = 2, es_codehash = c\<rparr>"
    "eval_step env OP_EQUALVERIFY [] pc \<lparr>es_stack = [h, h', pubkey, sig], es_altstack = [], es_vfExec = [], es_nOpCount = 2, es_codehash = c\<rparr>
      = (if h' = h then Inr \<lparr>es_stack = [pubkey, sig], es_altstack = [], es_vfExec = [], es_nOpCount = 3, es_codehash = c\<rparr>
         else set_error SCRIPT_ERR_EQUALVERIFY)"
    for pc c h' by (simp_all add: step stack_op_def op_hash_def op_equal_def)
  have last: "rbind (eval_step env OP_CHECKSIG [] pc \<lparr>es_stack = [pubkey, sig], es_altstack = [], es_vfExec = [], es_nOpCount = 3, es_codehash = c\<rparr>)
      (\<lambda>st. if es_vfExec st \<noteq> [] then set_error SCRIPT_ERR_UNBALANCED_CONDITIONAL else Inr (es_stack st))
    = rbind (check_encodings env sig pubkey) (\<lambda>_. checksig_result env sig pubkey c)" for pc c
    unfolding checksig_result_def op_checksig_def
    by (cases "check_encodings env sig pubkey") (auto simp: step op_checksig_def)
  show ?thesis
    using assms
    by (simp add: EvalScript_def loop push steps rbind_end last eval_loop_simps(1)) (simp add: s last)
qed

text \<open>
  C20: paying to a public key hash works, and only for the owner. Spending a standard
  pay-to-public-key-hash output with the standard two pushes succeeds exactly when the key hashes
  to the address, the signature and key encodings pass the flags, and the checker accepts the
  signature over the output script with the signature itself removed; each other case is
  rejected with its own error, under every consistent set of flags.
\<close>

theorem p2pkh_spend:
  assumes "flags_consistent (ev_flags env)" "ev_sigversion env = SIGVERSION_BASE"
    and "2 \<le> length sig" "length sig < 76" "2 \<le> length pubkey" "length pubkey < 76" "length h = 20"
  shows "VerifyScript env (p2pkh_sig sig pubkey) (p2pkh_script h) None =
    (if Hash160 pubkey \<noteq> h then set_error SCRIPT_ERR_EQUALVERIFY
     else rbind (check_encodings env sig pubkey) (\<lambda>_.
       if CheckSig (ev_checker env) sig pubkey (fst (FindAndDelete (p2pkh_script h) (push_vch [] sig))) SIGVERSION_BASE
       then Inr ()
       else if ev_flag env SCRIPT_VERIFY_NULLFAIL then set_error SCRIPT_ERR_SIG_NULLFAIL
       else set_error SCRIPT_ERR_EVAL_FALSE))"
proof -
  let ?spk = "p2pkh_script h"
  have s: "?spk = 0x76 # 0xa9 # 0x14 # h @ [0x88, 0xac]"
    using assms by (simp add: p2pkh_script_def push_opcode_def push_vch_direct)
  have spk: "\<not> IsPayToScriptHash ?spk" "IsWitnessProgram ?spk = None"
    using assms(7) by (simp_all add: s IsPayToScriptHash_def IsWitnessProgram_def)
  have env: "env\<lparr>ev_sigversion := SIGVERSION_BASE\<rparr> = env" using assms(2) by simp
  have h: "Hash160 pubkey = ripemd160 (sha256 pubkey)" by (simp add: Hash160_def)
  note eval = EvalScript_p2pkh_sig [OF assms(3-6)] EvalScript_p2pkh [OF assms(7,4,6)]
  have fin: "rbind (verify_bare_witness env ss ?spk [] [x]) (\<lambda>(had, st).
      rbind (verify_p2sh env ss ?spk [] sc had st) (verify_final env [])) = Inr ()" for ss sc x
    using assms(1) by (auto simp: verify_bare_witness_def verify_p2sh_def verify_final_def spk flags_consistent_def)
  show ?thesis
    unfolding VerifyScript_def env Let_def eval_true_def eval h option.case rbind_simps
    using assms(3)
    by (cases "check_encodings env sig pubkey")
      (auto simp: eval checksig_result_def assms(2) fin Let_def)
qed

theorem p2pkh_spend_witness:
  "VerifyScript (accepting_env 0x801) (p2pkh_sig [1, 2] [3, 4]) (p2pkh_script (Hash160 [3, 4])) None = Inr ()"
proof -
  have "length (Hash160 [3, 4]) = 20" by (simp add: Hash160_def)
  moreover have "flags_consistent 0x801" by (simp add: flags_consistent_def flag_set_def)
  ultimately show ?thesis
    using p2pkh_spend [of "accepting_env 0x801" "[1, 2]" "[3, 4]" "Hash160 [3, 4]"]
    by (simp add: accepting_env_def check_encodings_def CheckSignatureEncoding_def CheckPubKeyEncoding_def flag_set_def)
qed

end
