(* ===== verification/Serialize.thy ===== *)
theory Serialize
  imports Script_Props
begin

text \<open>
  The serialization templates of \<^verbatim>\<open>src/src/serialize.h\<close> over the stream of \<^verbatim>\<open>src/src/streams.h\<close>.
  Writing appends bytes; a reader takes the unread bytes of a stream and returns the value and
  the bytes left, or \<open>None\<close> for the exception \<open>std::ios_base::failure\<close>.  The locale \<open>codec\<close> is the
  contract of a serializable type; its lemmas on vectors are proved once and used by every
  type of the transaction format.
\<close>

type_synonym 'a reader = "bytes \<Rightarrow> ('a \<times> bytes) option"

definition read_bind :: "'a reader \<Rightarrow> ('a \<Rightarrow> 'b reader) \<Rightarrow> 'b reader" where
  "read_bind r f s = (case r s of None \<Rightarrow> None | Some (x, s') \<Rightarrow> f x s')"

definition read_return :: "'a \<Rightarrow> 'a reader" where
  "read_return x s = Some (x, s)"

lemma read_return_apply [simp]: "read_return x s = Some (x, s)"
  by (simp add: read_return_def)

lemma read_bind_Some: "r s = Some (x, s') \<Longrightarrow> read_bind r f s = f x s'"
  by (simp add: read_bind_def)

lemma read_bind_eq_Some:
  "read_bind r f s = Some (y, t) \<longleftrightarrow> (\<exists>x s'. r s = Some (x, s') \<and> f x s' = Some (y, t))"
  by (auto simp: read_bind_def split: option.split)

section \<open>Streams and integers\<close>

definition CDataStream_read :: "nat \<Rightarrow> bytes reader" where
  "CDataStream_read nSize vch =
     (if length vch < nSize then None else Some (take nSize vch, drop nSize vch))"

definition ser_writedata8 :: "u8 \<Rightarrow> bytes" where
  "ser_writedata8 obj = [obj]"

definition ser_writedata16 :: "u16 \<Rightarrow> bytes" where
  "ser_writedata16 obj = WriteLE16 obj"

definition ser_writedata32 :: "u32 \<Rightarrow> bytes" where
  "ser_writedata32 obj = WriteLE32 obj"

definition ser_writedata32be :: "u32 \<Rightarrow> bytes" where
  "ser_writedata32be obj = WriteBE32 obj"

definition ser_writedata64 :: "u64 \<Rightarrow> bytes" where
  "ser_writedata64 obj = WriteLE64 obj"

definition ser_readdata8 :: "u8 reader" where
  "ser_readdata8 = read_bind (CDataStream_read 1) (\<lambda>b. read_return (b ! 0))"

definition ser_readdata16 :: "u16 reader" where
  "ser_readdata16 = read_bind (CDataStream_read 2) (\<lambda>b. read_return (ReadLE16 b))"

definition ser_readdata32 :: "u32 reader" where
  "ser_readdata32 = read_bind (CDataStream_read 4) (\<lambda>b. read_return (ReadLE32 b))"

definition ser_readdata32be :: "u32 reader" where
  "ser_readdata32be = read_bind (CDataStream_read 4) (\<lambda>b. read_return (ReadBE32 b))"

definition ser_readdata64 :: "u64 reader" where
  "ser_readdata64 = read_bind (CDataStream_read 8) (\<lambda>b. read_return (ReadLE64 b))"

section \<open>Compact sizes\<close>

abbreviation (input) MAX_SIZE :: nat where "MAX_SIZE \<equiv> 0x02000000"

definition GetSizeOfCompactSize :: "u64 \<Rightarrow> nat" where
  "GetSizeOfCompactSize nSize =
     (if unat nSize < 253 then 1
      else if unat nSize \<le> 0xFFFF then 1 + 2
      else if unat nSize \<le> 0xFFFFFFFF then 1 + 4
      else 1 + 8)"

definition WriteCompactSize :: "u64 \<Rightarrow> bytes" where
  "WriteCompactSize nSize =
     (if unat nSize < 253 then ser_writedata8 (ucast nSize)
      else if unat nSize \<le> 0xFFFF then ser_writedata8 253 @ ser_writedata16 (ucast nSize)
      else if unat nSize \<le> 0xFFFFFFFF then ser_writedata8 254 @ ser_writedata32 (ucast nSize)
      else ser_writedata8 255 @ ser_writedata64 nSize)"

definition read_at_least :: "nat \<Rightarrow> u64 reader \<Rightarrow> u64 reader" where
  "read_at_least lo r = read_bind r (\<lambda>n s. if unat n < lo then None else Some (n, s))"

definition ReadCompactSize :: "u64 reader" where
  "ReadCompactSize =
     read_bind (read_bind ser_readdata8 (\<lambda>chSize.
       if unat chSize < 253 then read_return (ucast chSize)
       else if unat chSize = 253
       then read_at_least 253 (read_bind ser_readdata16 (\<lambda>n. read_return (ucast n)))
       else if unat chSize = 254
       then read_at_least 0x10000 (read_bind ser_readdata32 (\<lambda>n. read_return (ucast n)))
       else read_at_least 0x100000000 ser_readdata64))
     (\<lambda>nSizeRet s. if MAX_SIZE < unat nSizeRet then None else Some (nSizeRet, s))"

section \<open>Variable-length integers\<close>

function GetSizeOfVarInt :: "'w::len word \<Rightarrow> nat" where
  "GetSizeOfVarInt n = (if unat n \<le> 0x7F then 1 else 1 + GetSizeOfVarInt (drop_bit 7 n - 1))"
  by pat_completeness auto

lemma varint_step:
  assumes "0x7F < unat n"
  shows "unat (drop_bit 7 n - 1 :: 'w::len word) = unat n div 128 - 1"
proof -
  have "unat (drop_bit 7 n) = unat n div 128" by (simp add: unat_drop_bit_div)
  moreover have "1 \<le> unat n div 128" using assms by linarith
  ultimately show ?thesis by (subst unat_sub) (simp_all add: word_le_nat_alt)
qed

lemma varint_less: "0x7F < unat n \<Longrightarrow> unat (drop_bit 7 n - 1 :: 'w::len word) < unat n"
  by (simp add: varint_step)

termination GetSizeOfVarInt
  by (relation "measure unat") (simp_all add: varint_less not_le)

text \<open>The array \<open>tmp\<close> filled by the loop of \<open>WriteVarInt\<close>, index 0 first.\<close>

function varint_tmp :: "'w::len word \<Rightarrow> nat \<Rightarrow> bytes" where
  "varint_tmp n len =
     (let b = ucast (n AND 0x7F) OR (if 0 < len then 0x80 else 0x00) in
      if unat n \<le> 0x7F then [b] else b # varint_tmp (drop_bit 7 n - 1) (len + 1))"
  by pat_completeness auto
termination
  by (relation "measure (\<lambda>(n, len). unat n)") (simp_all add: varint_less not_le)

definition WriteVarInt :: "'w::len word \<Rightarrow> bytes" where
  "WriteVarInt n = concat (map ser_writedata8 (rev (varint_tmp n 0)))"

fun ReadVarInt_loop :: "'w::len word \<Rightarrow> bytes \<Rightarrow> ('w word \<times> bytes) option" where
  "ReadVarInt_loop n [] = None"
| "ReadVarInt_loop n (chData # is) =
     (let n = push_bit 7 n OR ucast (chData AND 0x7F) in
      if chData AND 0x80 \<noteq> 0 then ReadVarInt_loop (n + 1) is else Some (n, is))"

definition ReadVarInt :: "bytes \<Rightarrow> ('w::len word \<times> bytes) option" where
  "ReadVarInt is = ReadVarInt_loop 0 is"

declare GetSizeOfVarInt.simps [simp del] varint_tmp.simps [simp del]

section \<open>Byte strings and vectors\<close>

definition ser_bytes :: "bytes \<Rightarrow> bytes" where
  "ser_bytes v = WriteCompactSize (of_nat (length v)) @ v"

function read_blocks :: "nat \<Rightarrow> nat \<Rightarrow> bytes \<Rightarrow> bytes reader" where
  "read_blocks nSize i v s =
     (if i < nSize
      then let blk = min (nSize - i) (1 + 4999999 div 1)
           in case CDataStream_read blk s of
                None \<Rightarrow> None
              | Some (d, s') \<Rightarrow> read_blocks nSize (i + blk) (v @ d) s'
      else Some (v, s))"
  by pat_completeness auto
termination
  by (relation "measure (\<lambda>(nSize, i, v, s). nSize - i)") auto

declare read_blocks.simps [simp del]

definition unser_bytes :: "bytes reader" where
  "unser_bytes = read_bind ReadCompactSize (\<lambda>nSize. read_blocks (unat nSize) 0 [])"

definition unser_string :: "bytes reader" where
  "unser_string = read_bind ReadCompactSize (\<lambda>nSize.
     if unat nSize \<noteq> 0 then CDataStream_read (unat nSize) else read_return [])"

definition ser_vector :: "('a \<Rightarrow> bytes) \<Rightarrow> 'a list \<Rightarrow> bytes" where
  "ser_vector ser v = WriteCompactSize (of_nat (length v)) @ concat (map ser v)"

fun read_items :: "'a reader \<Rightarrow> nat \<Rightarrow> 'a list reader" where
  "read_items rd 0 = read_return []"
| "read_items rd (Suc n) = read_bind rd (\<lambda>x. read_bind (read_items rd n) (\<lambda>xs. read_return (x # xs)))"

definition unser_vector :: "'a reader \<Rightarrow> 'a list reader" where
  "unser_vector rd = read_bind ReadCompactSize (\<lambda>nSize. read_items rd (unat nSize))"

definition LimitedString_unser :: "nat \<Rightarrow> bytes reader" where
  "LimitedString_unser Limit = read_bind ReadCompactSize (\<lambda>size.
     if Limit < unat size then (\<lambda>s. None)
     else if unat size \<noteq> 0 then CDataStream_read (unat size) else read_return [])"

section \<open>Round trips\<close>

named_theorems ser_rt \<open>reading back what was written, with bytes left\<close>

lemma CDataStream_read_append [simp]:
  "length d = n \<Longrightarrow> CDataStream_read n (d @ r) = Some (d, r)"
  by (auto simp: CDataStream_read_def)

lemma ReadLE64_WriteLE64: "ReadLE64 (WriteLE64 x @ r) = x"
proof (rule bit_word_eqI)
  fix n assume "n < LENGTH(64)"
  then have "n < 8 \<or> (8 \<le> n \<and> n < 16) \<or> (16 \<le> n \<and> n < 24) \<or> (24 \<le> n \<and> n < 32) \<or> (32 \<le> n \<and> n < 40) \<or>
    (40 \<le> n \<and> n < 48) \<or> (48 \<le> n \<and> n < 56) \<or> (56 \<le> n \<and> n < 64)" by auto
  then show "bit (ReadLE64 (WriteLE64 x @ r)) n = bit x n"
    by (elim disjE) (auto simp: ReadLE64_def WriteLE64_def bit_simps)
qed

lemma ReadLE_WriteLE [simp]:
  "ReadLE16 (WriteLE16 x) = x" "ReadLE32 (WriteLE32 y) = y" "ReadLE64 (WriteLE64 z) = z"
  using ReadLE16_WriteLE16 [of x "[]"] ReadLE32_WriteLE32 [of y "[]"] ReadLE64_WriteLE64 [of z "[]"] by simp_all

lemma ser_readdata [ser_rt]:
  "ser_readdata8 (ser_writedata8 a @ r) = Some (a, r)"
  "ser_readdata16 (ser_writedata16 b @ r) = Some (b, r)"
  "ser_readdata32 (ser_writedata32 c @ r) = Some (c, r)"
  "ser_readdata64 (ser_writedata64 d @ r) = Some (d, r)"
  unfolding ser_readdata8_def ser_readdata16_def ser_readdata32_def ser_readdata64_def
    ser_writedata8_def ser_writedata16_def ser_writedata32_def ser_writedata64_def
  by (simp_all add: read_bind_def CDataStream_read_def)

lemma unat_ucast_small: "unat n < 2 ^ LENGTH('w) \<Longrightarrow> unat (ucast n :: 'w::len word) = unat n" for n :: u64
  by (simp add: unat_ucast_mod)

lemma ucast_ucast_small:
  "unat n < 2 ^ LENGTH('w) \<Longrightarrow> LENGTH('w) \<le> 64 \<Longrightarrow> ucast (ucast n :: 'w::len word) = n" for n :: u64
  by (simp add: word_unat_eq_iff unat_ucast_up unat_ucast_small)

lemma ReadCompactSize_write:
  assumes "unat n \<le> MAX_SIZE"
  shows "ReadCompactSize (WriteCompactSize n @ r) = Some (n, r)"
proof -
  consider "unat n < 253" | "253 \<le> unat n" "unat n \<le> 0xFFFF" | "0xFFFF < unat n" by linarith
  then show ?thesis
  proof cases
    case 1
    then show ?thesis using assms unat_ucast_small [where 'w = 8, of n] ucast_ucast_small [where 'w = 8, of n]
      by (simp add: ReadCompactSize_def WriteCompactSize_def read_bind_def ser_readdata)
  next
    case 2
    then show ?thesis using assms unat_ucast_small [where 'w = 16, of n] ucast_ucast_small [where 'w = 16, of n]
      by (simp add: ReadCompactSize_def WriteCompactSize_def read_bind_def ser_readdata read_at_least_def)
  next
    case 3
    then show ?thesis using assms unat_ucast_small [where 'w = 32, of n] ucast_ucast_small [where 'w = 32, of n]
      by (simp add: ReadCompactSize_def WriteCompactSize_def read_bind_def ser_readdata read_at_least_def)
  qed
qed

lemma length_WriteCompactSize: "length (WriteCompactSize n) = GetSizeOfCompactSize n"
  by (simp add: WriteCompactSize_def GetSizeOfCompactSize_def ser_writedata8_def ser_writedata16_def
      ser_writedata32_def ser_writedata64_def)

lemma WriteLE_ReadLE:
  "length b = 2 \<Longrightarrow> WriteLE16 (ReadLE16 b) = b"
  "length b = 4 \<Longrightarrow> WriteLE32 (ReadLE32 b) = b"
  "length b = 8 \<Longrightarrow> WriteLE64 (ReadLE64 b) = b"
proof -
  have h: "\<not> bit (x :: u8) n" if "8 \<le> n" for x n
    using that bit_imp_le_length [of x n] by auto
  have l: "WriteLE16 (ReadLE16 [a, b]) = [a, b]" "WriteLE32 (ReadLE32 [a, b, c, d]) = [a, b, c, d]"
    "WriteLE64 (ReadLE64 [a, b, c, d, e, f, g, i]) = [a, b, c, d, e, f, g, i]" for a b c d e f g i
    by (simp_all add: WriteLE16_def ReadLE16_def WriteLE32_def ReadLE32_def WriteLE64_def ReadLE64_def)
      (auto intro!: bit_word_eqI simp: bit_simps h)
  have n: "(2 :: nat) = Suc (Suc 0)" "(4 :: nat) = Suc (Suc (Suc (Suc 0)))"
    "(8 :: nat) = Suc (Suc (Suc (Suc (Suc (Suc (Suc (Suc 0)))))))" by simp_all
  show "length b = 2 \<Longrightarrow> WriteLE16 (ReadLE16 b) = b" "length b = 4 \<Longrightarrow> WriteLE32 (ReadLE32 b) = b"
    "length b = 8 \<Longrightarrow> WriteLE64 (ReadLE64 b) = b"
    unfolding n length_Suc_conv length_0_conv using l by blast+
qed

lemma word_nat_less: "unat (m :: 'w::len word) < 2 ^ LENGTH('w)"
  by simp

lemma CDataStream_read_Some:
  "CDataStream_read n s = Some (d, r) \<longleftrightarrow> s = d @ r \<and> length d = n"
  by (auto simp: CDataStream_read_def split: if_splits)

lemma ser_readdata_Some:
  "ser_readdata8 s = Some (a, r) \<longleftrightarrow> s = ser_writedata8 a @ r"
  "ser_readdata16 s = Some (b, r) \<longleftrightarrow> s = ser_writedata16 b @ r"
  "ser_readdata32 s = Some (c, r) \<longleftrightarrow> s = ser_writedata32 c @ r"
  "ser_readdata64 s = Some (d, r) \<longleftrightarrow> s = ser_writedata64 d @ r"
  by (auto simp: ser_readdata) (auto simp: ser_readdata8_def ser_readdata16_def ser_readdata32_def
      ser_readdata64_def read_bind_eq_Some CDataStream_read_Some ser_writedata8_def ser_writedata16_def
      ser_writedata32_def ser_writedata64_def WriteLE_ReadLE length_Suc_conv)

text \<open>
  C38: compact sizes are canonical. A value up to \<open>MAX_SIZE\<close> is read back from its encoding, whatever
  follows; conversely whatever is accepted is the encoding of the value returned, so every size
  has exactly one accepted encoding; the encoding has the length \<open>GetSizeOfCompactSize\<close> gives.
\<close>

theorem CompactSize_canonical:
  "(ReadCompactSize s = Some (n, r) \<longleftrightarrow> s = WriteCompactSize n @ r \<and> unat n \<le> MAX_SIZE) \<and>
   length (WriteCompactSize n) = GetSizeOfCompactSize n"
proof -
  have "s = WriteCompactSize n @ r \<and> unat n \<le> MAX_SIZE" if read: "ReadCompactSize s = Some (n, r)"
  proof -
    have le: "unat n \<le> MAX_SIZE"
      using read by (auto simp: ReadCompactSize_def read_bind_eq_Some split: if_splits)
    obtain ch t where ch: "s = ch # t" and body:
      "(if unat ch < 253 then read_return (ucast ch)
        else if unat ch = 253 then read_at_least 253 (read_bind ser_readdata16 (\<lambda>n. read_return (ucast n)))
        else if unat ch = 254 then read_at_least 0x10000 (read_bind ser_readdata32 (\<lambda>n. read_return (ucast n)))
        else read_at_least 0x100000000 ser_readdata64) t = Some (n, r)"
      using read unfolding ReadCompactSize_def
      by (auto simp: read_bind_eq_Some ser_readdata_Some(1) ser_writedata8_def split: if_splits)
    consider "unat ch < 253" | "unat ch = 253" | "unat ch = 254" | "254 < unat ch" by linarith
    then show ?thesis
    proof cases
      case 1
      with body le show ?thesis
        by (auto simp: ch WriteCompactSize_def ser_writedata8_def unat_ucast_up word_unat_eq_iff unat_ucast_mod)
    next
      case 2
      then obtain m where "t = ser_writedata16 m @ r" "n = ucast m" "253 \<le> unat n"
        using body by (auto simp: read_at_least_def read_bind_eq_Some ser_readdata_Some split: if_splits)
      moreover from 2 have "ch = 253" by (simp add: word_unat_eq_iff)
      moreover have "unat m \<le> 0xFFFF" "ucast (ucast m :: u64) = m" "unat (ucast m :: u64) = unat m"
        using word_nat_less [of m] by (simp_all add: unat_ucast_up word_unat_eq_iff unat_ucast_mod)
      ultimately show ?thesis using le by (simp add: ch WriteCompactSize_def ser_writedata8_def)
    next
      case 3
      then obtain m where "t = ser_writedata32 m @ r" "n = ucast m" "0x10000 \<le> unat n"
        using body by (auto simp: read_at_least_def read_bind_eq_Some ser_readdata_Some split: if_splits)
      moreover from 3 have "ch = 254" by (simp add: word_unat_eq_iff)
      moreover have "unat m \<le> 0xFFFFFFFF" "ucast (ucast m :: u64) = m" "unat (ucast m :: u64) = unat m"
        using word_nat_less [of m] by (simp_all add: unat_ucast_up word_unat_eq_iff unat_ucast_mod)
      ultimately show ?thesis using le by (simp add: ch WriteCompactSize_def ser_writedata8_def)
    next
      case 4
      then have "0x100000000 \<le> unat n"
        using body by (auto simp: read_at_least_def read_bind_eq_Some split: if_splits)
      with le show ?thesis by simp
    qed
  qed
  then show ?thesis using ReadCompactSize_write length_WriteCompactSize by auto
qed

section \<open>Variable-length integers are self-delimiting\<close>

lemma length_varint_tmp: "length (varint_tmp n len) = GetSizeOfVarInt n"
proof (induction n arbitrary: len rule: GetSizeOfVarInt.induct)
  case (1 n)
  then show ?case
    by (subst varint_tmp.simps, subst GetSizeOfVarInt.simps) (simp add: Let_def)
qed

lemma length_WriteVarInt: "length (WriteVarInt n) = GetSizeOfVarInt n"
proof -
  have "concat (map ser_writedata8 xs) = xs" for xs by (induction xs) (simp_all add: ser_writedata8_def)
  then show ?thesis by (simp add: WriteVarInt_def length_varint_tmp)
qed

lemma WriteVarInt_rev: "WriteVarInt n = rev (varint_tmp n 0)"
proof -
  have "concat (map ser_writedata8 xs) = xs" for xs by (induction xs) (simp_all add: ser_writedata8_def)
  then show ?thesis by (simp add: WriteVarInt_def)
qed

lemma bit_and_7F: "7 < LENGTH('w) \<Longrightarrow> bit (n AND 0x7F :: 'w::len word) j \<longleftrightarrow> bit n j \<and> j < 7"
proof -
  assume w: "7 < LENGTH('w)"
  have m: "(0x7F :: 'w word) = mask 7" by (simp add: mask_eq_exp_minus_1)
  show ?thesis unfolding m using w by (auto simp: bit_simps dest: bit_imp_le_length)
qed

lemma varint_digits:
  assumes "7 < LENGTH('w)"
  shows "push_bit 7 (drop_bit 7 n) OR ucast (ucast (n AND 0x7F :: 'w::len word) :: u8) = n"
proof (rule bit_word_eqI)
  fix i assume i: "i < LENGTH('w)"
  have c: "bit (ucast (ucast (n AND 0x7F) :: u8) :: 'w word) i \<longleftrightarrow> bit n i \<and> i < 7"
    unfolding bit_ucast_iff bit_and_7F [OF assms] using i by auto
  have p: "bit (push_bit 7 (drop_bit 7 n)) i \<longleftrightarrow> 7 \<le> i \<and> bit n i"
    using i by (auto simp: bit_push_bit_iff bit_drop_bit_eq)
  show "bit (push_bit 7 (drop_bit 7 n) OR ucast (ucast (n AND 0x7F) :: u8)) i = bit n i"
    unfolding bit_or_iff c p by auto
qed

lemma varint_byte:
  fixes n :: "'w::len word"
  assumes "7 < LENGTH('w)" "b = ucast (n AND 0x7F) OR (if c then 0x80 else 0x00 :: u8)"
  shows "b AND 0x7F = ucast (n AND 0x7F)" "b AND 0x80 \<noteq> 0 \<longleftrightarrow> c"
proof -
  have low: "bit (ucast (n AND 0x7F) :: u8) j \<longleftrightarrow> bit n j \<and> j < 7" for j
    unfolding bit_ucast_iff bit_and_7F [OF assms(1)] by auto
  have p: "(0x80 :: u8) = push_bit 7 1" by (simp add: push_bit_eq_mult)
  have h': "bit (0x80 :: u8) j \<longleftrightarrow> j = 7" for j
    unfolding p bit_push_bit_iff by (auto simp: bit_1_iff)
  have h: "bit (if c then 0x80 else 0x00 :: u8) j \<longleftrightarrow> c \<and> j = 7" for j
    using h' [of j] by (cases c) simp_all
  show "b AND 0x7F = ucast (n AND 0x7F)"
  proof (rule bit_word_eqI)
    fix j
    have "bit (b AND 0x7F) j \<longleftrightarrow> bit b j \<and> j < 7" by (rule bit_and_7F) simp
    then show "bit (b AND 0x7F) j = bit (ucast (n AND 0x7F) :: u8) j"
      unfolding low assms(2) bit_or_iff h by auto
  qed
  have "b AND 0x80 = (if c then 0x80 else 0)"
    by (rule bit_word_eqI) (auto simp only: assms(2) bit_and_iff bit_or_iff low h h')
  then show "b AND 0x80 \<noteq> 0 \<longleftrightarrow> c" by simp
qed

lemma ReadVarInt_digits:
  fixes n :: "'w::len word"
  assumes "7 < LENGTH('w)"
  shows "ReadVarInt_loop 0 (rev (varint_tmp n len) @ r) =
    (if 0 < len then ReadVarInt_loop (n + 1) r else Some (n, r))"
proof (induction n arbitrary: len r rule: GetSizeOfVarInt.induct)
  case (1 n)
  define b where "b = ucast (n AND 0x7F) OR (if 0 < len then 0x80 else 0x00 :: u8)"
  note b = varint_byte [OF assms b_def]
  show ?case
  proof (cases "unat n \<le> 0x7F")
    case True
    then have "drop_bit 7 n = 0" by (simp add: word_unat_eq_iff unat_drop_bit_div)
    with varint_digits [OF assms, of n] have "ucast (ucast (n AND 0x7F) :: u8) = n" by simp
    with True b show ?thesis by (subst varint_tmp.simps) (simp add: b_def [symmetric] Let_def)
  next
    case False
    then have "varint_tmp n len = b # varint_tmp (drop_bit 7 n - 1) (len + 1)"
      by (subst varint_tmp.simps) (simp add: b_def Let_def)
    with 1 False b varint_digits [OF assms, of n] show ?thesis by (simp add: Let_def)
  qed
qed

lemma GetSizeOfVarInt_bound:
  "unat n < 2 ^ k \<Longrightarrow> GetSizeOfVarInt n \<le> max 1 ((k + 6) div 7)"
proof (induction n arbitrary: k rule: GetSizeOfVarInt.induct)
  case (1 n)
  show ?case
  proof (cases "unat n \<le> 0x7F")
    case True
    then show ?thesis by (subst GetSizeOfVarInt.simps) simp
  next
    case False
    have "7 < k"
    proof (rule ccontr)
      assume "\<not> 7 < k"
      then have "(2 :: nat) ^ k \<le> 2 ^ 7" by (intro power_increasing) simp_all
      with 1(2) False show False by simp
    qed
    define j where "j = k - 8"
    with \<open>7 < k\<close> have j: "k = j + 8" by simp
    have "unat n < 128 * 2 ^ (j + 1)" using 1(2) by (simp add: j power_add)
    then have "unat n div 128 < 2 ^ (j + 1)" by (simp add: less_mult_imp_div_less mult.commute)
    then have "unat (drop_bit 7 n - 1) < 2 ^ (j + 1)" using False by (simp add: varint_step less_imp_diff_less)
    from 1(1) [OF False this] have "GetSizeOfVarInt (drop_bit 7 n - 1) \<le> max 1 ((j + 7) div 7)" by (simp add: add.commute)
    then show ?thesis using False by (subst GetSizeOfVarInt.simps) (simp add: j)
  qed
qed

text \<open>
  Variable-length integers of any width from 8 bits up. The encoding is read back whatever
  follows it, its length is the one \<open>GetSizeOfVarInt\<close> computes, and it never exceeds the
  \<open>(sizeof(n)*8+6)/7\<close> bytes of the buffer \<open>tmp\<close> of \<open>WriteVarInt\<close>.
\<close>

lemma VarInt_roundtrip:
  fixes n :: "'w::len word"
  assumes "8 \<le> LENGTH('w)"
  shows "ReadVarInt (WriteVarInt n @ r) = Some (n, r) \<and> length (WriteVarInt n) = GetSizeOfVarInt n \<and>
    length (varint_tmp n 0) \<le> (LENGTH('w) + 6) div 7"
proof -
  have "GetSizeOfVarInt n \<le> max 1 ((LENGTH('w) + 6) div 7)" by (rule GetSizeOfVarInt_bound) simp
  moreover have "1 \<le> (LENGTH('w) + 6) div 7" using assms by simp
  ultimately have "length (varint_tmp n 0) \<le> (LENGTH('w) + 6) div 7"
    unfolding length_varint_tmp by linarith
  then show ?thesis
    using assms ReadVarInt_digits [of n 0 r]
    by (simp add: ReadVarInt_def WriteVarInt_rev length_varint_tmp)
qed

section \<open>The contract of a serializable type\<close>

locale codec =
  fixes ser :: "'a \<Rightarrow> bytes" and unser :: "'a reader" and wf :: "'a \<Rightarrow> bool"
  assumes rt: "wf x \<Longrightarrow> unser (ser x @ r) = Some (x, r)"
begin

lemma prefix_free:
  assumes "wf x" "wf y" "ser x @ r = ser y @ r'"
  shows "x = y \<and> r = r'"
  using arg_cong [OF assms(3), of unser] unfolding rt [OF assms(1)] rt [OF assms(2)] by simp

lemma items_rt: "list_all wf xs \<Longrightarrow> read_items unser (length xs) (concat (map ser xs) @ r) = Some (xs, r)"
  by (induction xs) (simp_all add: read_bind_def rt)

lemma vector_rt:
  assumes "list_all wf xs" "length xs \<le> MAX_SIZE"
  shows "unser_vector unser (ser_vector ser xs @ r) = Some (xs, r)"
proof -
  have "unat (of_nat (length xs) :: u64) = length xs" using assms(2) by (simp add: unat_of_nat)
  then show ?thesis
    using assms ReadCompactSize_write [of "of_nat (length xs)"]
    by (simp add: unser_vector_def ser_vector_def read_bind_def items_rt)
qed

lemma vector_codec: "codec (ser_vector ser) (unser_vector unser) (\<lambda>xs. list_all wf xs \<and> length xs \<le> MAX_SIZE)"
  by unfold_locales (simp add: vector_rt)

end

lemma read_blocks_all:
  assumes "nSize = i + length d"
  shows "read_blocks nSize i v (d @ r) = Some (v @ d, r)"
  using assms
proof (induction "length d" arbitrary: d i v rule: less_induct)
  case less
  show ?case
  proof (cases "d = []")
    case False
    define blk where "blk = min (length d) 5000000"
    have blk: "0 < blk" "blk \<le> length d" using False less.prems by (auto simp: blk_def)
    have "CDataStream_read blk (d @ r) = Some (take blk d, drop blk d @ r)"
      using blk by (simp add: CDataStream_read_def)
    moreover have "read_blocks nSize (i + blk) (v @ take blk d) (drop blk d @ r) = Some ((v @ take blk d) @ drop blk d, r)"
      using blk less.prems by (intro less.hyps) auto
    ultimately show ?thesis
      using False less.prems by (subst read_blocks.simps) (simp add: blk_def [symmetric] Let_def)
  qed (simp add: read_blocks.simps less.prems)
qed

interpretation u32_codec: codec ser_writedata32 ser_readdata32 "\<lambda>_. True"
  by unfold_locales (simp add: ser_readdata)

interpretation u64_codec: codec ser_writedata64 ser_readdata64 "\<lambda>_. True"
  by unfold_locales (simp add: ser_readdata)

interpretation bytes_codec: codec ser_bytes unser_bytes "\<lambda>v. length v \<le> MAX_SIZE"
proof
  fix v r :: bytes assume "length v \<le> MAX_SIZE"
  moreover from this have "unat (of_nat (length v) :: u64) = length v" by (simp add: unat_of_nat)
  ultimately show "unser_bytes (ser_bytes v @ r) = Some (v, r)"
    using ReadCompactSize_write [of "of_nat (length v)"]
    by (simp add: unser_bytes_def ser_bytes_def read_bind_def read_blocks_all)
qed

interpretation string_codec: codec ser_bytes unser_string "\<lambda>v. length v \<le> MAX_SIZE"
proof
  fix v r :: bytes assume "length v \<le> MAX_SIZE"
  moreover from this have "unat (of_nat (length v) :: u64) = length v" by (simp add: unat_of_nat)
  ultimately show "unser_string (ser_bytes v @ r) = Some (v, r)"
    using ReadCompactSize_write [of "of_nat (length v)"]
    by (simp add: unser_string_def ser_bytes_def read_bind_def)
qed

interpretation stack_codec: codec "ser_vector ser_bytes" "unser_vector unser_bytes"
  "\<lambda>v. list_all (\<lambda>v. length v \<le> MAX_SIZE) v \<and> length v \<le> MAX_SIZE"
  by (rule bytes_codec.vector_codec)

end
