(* ===== verification/Transaction.thy ===== *)
theory Transaction
  imports Serialize "HOL-Library.Signed_Division"
begin

text \<open>
  Transactions: \<^verbatim>\<open>src/src/primitives/transaction.h\<close> and \<^verbatim>\<open>transaction.cpp\<close>, with the amounts and fee
  rates of \<^verbatim>\<open>src/src/amount.h\<close> and \<^verbatim>\<open>amount.cpp\<close>.  An \<open>int64_t\<close> or \<open>int32_t\<close> field is an integer within its
  range, a \<open>uint256\<close> is its 32 bytes, a witness is the list of its stacks.
\<close>

section \<open>Amounts\<close>

type_synonym CAmount = int

abbreviation (input) COIN :: CAmount where "COIN \<equiv> 100000000"
abbreviation (input) CENT :: CAmount where "CENT \<equiv> 1000000"
abbreviation (input) MAX_MONEY :: CAmount where "MAX_MONEY \<equiv> 31557600 * COIN"

definition MoneyRange :: "CAmount \<Rightarrow> bool" where
  "MoneyRange nValue \<longleftrightarrow> 0 \<le> nValue \<and> nValue \<le> MAX_MONEY"

record CFeeRate =
  nSatoshisPerK :: CAmount

text \<open>
  A product of two amounts of type \<open>int64_t\<close>; \<open>None\<close> is an overflow, which the language leaves undefined.
\<close>

definition int64_mult :: "int \<Rightarrow> int \<Rightarrow> int option" where
  "int64_mult a b = (if - (2 ^ 63) \<le> a * b \<and> a * b < 2 ^ 63 then Some (a * b) else None)"

text \<open>\<open>None\<close> is the failed assertion on the size or an overflow; the quotients are C++ division.\<close>

definition CFeeRate_ctor :: "CAmount \<Rightarrow> nat \<Rightarrow> CFeeRate option" where
  "CFeeRate_ctor nFeePaid nBytes =
     (if 2 ^ 63 - 1 < nBytes then None
      else let nSize = int nBytes
           in if 0 < nSize
              then map_option (\<lambda>p. \<lparr>nSatoshisPerK = p sdiv nSize\<rparr>) (int64_mult nFeePaid 1000)
              else Some \<lparr>nSatoshisPerK = 0\<rparr>)"

definition GetFee :: "CFeeRate \<Rightarrow> nat \<Rightarrow> CAmount option" where
  "GetFee rate nBytes =
     (if 2 ^ 63 - 1 < nBytes then None
      else let nSize = int nBytes
           in map_option (\<lambda>p.
                let nFee = p sdiv 1000
                in if nFee = 0 \<and> nSize \<noteq> 0
                   then if 0 < nSatoshisPerK rate then 1
                        else if nSatoshisPerK rate < 0 then - 1 else nFee
                   else nFee) (int64_mult (nSatoshisPerK rate) nSize))"

definition GetFeePerK :: "CFeeRate \<Rightarrow> CAmount option" where
  "GetFeePerK rate = GetFee rate 10000"

section \<open>Transactions\<close>

record COutPoint =
  op_hash :: uint256
  op_n :: u32

definition COutPoint_SetNull :: "COutPoint \<Rightarrow> COutPoint" where
  "COutPoint_SetNull op = \<lparr>op_hash = replicate 32 0, op_n = - 1\<rparr>"

definition COutPoint_IsNull :: "COutPoint \<Rightarrow> bool" where
  "COutPoint_IsNull op \<longleftrightarrow> list_all (\<lambda>b. b = 0) (op_hash op) \<and> op_n op = - 1"

abbreviation (input) SEQUENCE_FINAL :: u32 where "SEQUENCE_FINAL \<equiv> 0xffffffff"
abbreviation (input) SEQUENCE_LOCKTIME_DISABLE_FLAG :: u32 where "SEQUENCE_LOCKTIME_DISABLE_FLAG \<equiv> 0x80000000"
abbreviation (input) SEQUENCE_LOCKTIME_TYPE_FLAG :: u32 where "SEQUENCE_LOCKTIME_TYPE_FLAG \<equiv> 0x400000"
abbreviation (input) SEQUENCE_LOCKTIME_MASK :: u32 where "SEQUENCE_LOCKTIME_MASK \<equiv> 0xffff"
abbreviation (input) SEQUENCE_LOCKTIME_GRANULARITY :: nat where "SEQUENCE_LOCKTIME_GRANULARITY \<equiv> 9"
abbreviation (input) WITNESS_SCALE_FACTOR :: nat where "WITNESS_SCALE_FACTOR \<equiv> 4"

record CTxIn =
  prevout :: COutPoint
  scriptSig :: CScript
  nSequence :: u32

record CTxOut =
  nValue :: CAmount
  scriptPubKey :: CScript

definition CTxOut_SetNull :: "CTxOut" where
  "CTxOut_SetNull = \<lparr>nValue = - 1, scriptPubKey = []\<rparr>"

definition CTxOut_IsNull :: "CTxOut \<Rightarrow> bool" where
  "CTxOut_IsNull out \<longleftrightarrow> nValue out = - 1"

definition CTxOut_IsEmpty :: "CTxOut \<Rightarrow> bool" where
  "CTxOut_IsEmpty out \<longleftrightarrow> nValue out = 0 \<and> scriptPubKey out = []"

type_synonym CTxInWitness = "bytes list"
type_synonym CTxWitness = "CTxInWitness list"

definition CTxWitness_IsNull :: "CTxWitness \<Rightarrow> bool" where
  "CTxWitness_IsNull vtxinwit \<longleftrightarrow> list_all (\<lambda>w. w = []) vtxinwit"

record CTransaction =
  nVersion :: int
  nTime :: u32
  vin :: "CTxIn list"
  vout :: "CTxOut list"
  wit :: CTxWitness
  nLockTime :: u32
  strDZeel :: bytes

definition IsCoinBase :: "CTransaction \<Rightarrow> bool" where
  "IsCoinBase tx \<longleftrightarrow> length (vin tx) = 1 \<and> COutPoint_IsNull (prevout (vin tx ! 0))"

definition IsCoinStake :: "CTransaction \<Rightarrow> bool" where
  "IsCoinStake tx \<longleftrightarrow> 0 < length (vin tx) \<and> \<not> COutPoint_IsNull (prevout (vin tx ! 0)) \<and>
     2 \<le> length (vout tx) \<and> CTxOut_IsEmpty (vout tx ! 0)"

section \<open>Serialization\<close>

definition ser_outpoint :: "COutPoint \<Rightarrow> bytes" where
  "ser_outpoint op = op_hash op @ ser_writedata32 (op_n op)"

definition unser_outpoint :: "COutPoint reader" where
  "unser_outpoint = read_bind (CDataStream_read 32) (\<lambda>h. read_bind ser_readdata32 (\<lambda>n.
     read_return \<lparr>op_hash = h, op_n = n\<rparr>))"

definition ser_txin :: "CTxIn \<Rightarrow> bytes" where
  "ser_txin i = ser_outpoint (prevout i) @ ser_bytes (scriptSig i) @ ser_writedata32 (nSequence i)"

definition unser_txin :: "CTxIn reader" where
  "unser_txin = read_bind unser_outpoint (\<lambda>p. read_bind unser_bytes (\<lambda>s. read_bind ser_readdata32 (\<lambda>q.
     read_return \<lparr>prevout = p, scriptSig = s, nSequence = q\<rparr>)))"

definition ser_int64 :: "int \<Rightarrow> bytes" where
  "ser_int64 a = ser_writedata64 (word_of_int a)"

definition unser_int64 :: "int reader" where
  "unser_int64 = read_bind ser_readdata64 (\<lambda>w. read_return (sint w))"

definition ser_int32 :: "int \<Rightarrow> bytes" where
  "ser_int32 a = ser_writedata32 (word_of_int a)"

definition unser_int32 :: "int reader" where
  "unser_int32 = read_bind ser_readdata32 (\<lambda>w. read_return (sint w))"

definition ser_txout :: "CTxOut \<Rightarrow> bytes" where
  "ser_txout out = ser_int64 (nValue out) @ ser_bytes (scriptPubKey out)"

definition unser_txout :: "CTxOut reader" where
  "unser_txout = read_bind unser_int64 (\<lambda>v. read_bind unser_bytes (\<lambda>s.
     read_return \<lparr>nValue = v, scriptPubKey = s\<rparr>))"

definition ser_witness :: "CTxWitness \<Rightarrow> bytes" where
  "ser_witness vtxinwit = concat (map (ser_vector ser_bytes) vtxinwit)"

definition unser_witness :: "nat \<Rightarrow> CTxWitness reader" where
  "unser_witness n = read_bind (read_items (unser_vector unser_bytes) n) (\<lambda>vtxinwit s.
     if CTxWitness_IsNull vtxinwit then None else Some (vtxinwit, s))"

definition resize_witness :: "nat \<Rightarrow> CTxWitness \<Rightarrow> CTxWitness" where
  "resize_witness n vtxinwit = take n vtxinwit @ replicate (n - length vtxinwit) []"

text \<open>
  \<open>SerializeTransaction\<close> for writing; the first argument is the flag
  \<open>SERIALIZE_TRANSACTION_NO_WITNESS\<close> of the stream version, \<open>None\<close> the failed assertion.
\<close>

definition SerializeTransaction_write :: "bool \<Rightarrow> CTransaction \<Rightarrow> bytes option" where
  "SerializeTransaction_write no_witness tx =
     (if length (vin tx) < length (wit tx) then None
      else let flags = (if \<not> no_witness \<and> \<not> CTxWitness_IsNull (wit tx) then 1 else 0 :: u8) in
        Some (ser_int32 (nVersion tx) @ ser_writedata32 (nTime tx) @
          (if flags \<noteq> 0 then ser_vector ser_txin [] @ ser_writedata8 flags else []) @
          ser_vector ser_txin (vin tx) @ ser_vector ser_txout (vout tx) @
          (if flags AND 1 \<noteq> 0 then ser_witness (resize_witness (length (vin tx)) (wit tx)) else []) @
          ser_writedata32 (nLockTime tx) @
          (if 2 \<le> nVersion tx then ser_bytes (strDZeel tx) else [])))"

text \<open>The inputs and outputs, with the flags byte that an empty first vector announces.\<close>

definition unser_inputs_outputs :: "bool \<Rightarrow> (u8 \<times> CTxIn list \<times> CTxOut list) reader" where
  "unser_inputs_outputs no_witness = read_bind (unser_vector unser_txin) (\<lambda>ins.
     if length ins = 0 \<and> \<not> no_witness
     then read_bind ser_readdata8 (\<lambda>flags.
       if flags \<noteq> 0
       then read_bind (unser_vector unser_txin) (\<lambda>ins. read_bind (unser_vector unser_txout) (\<lambda>outs.
              read_return (flags, ins, outs)))
       else read_return (0, [], []))
     else read_bind (unser_vector unser_txout) (\<lambda>outs. read_return (0, ins, outs)))"

text \<open>Reading into an existing object: a version below 2 leaves its \<open>strDZeel\<close> as it was.\<close>

definition SerializeTransaction_read :: "bool \<Rightarrow> CTransaction \<Rightarrow> CTransaction reader" where
  "SerializeTransaction_read no_witness tx =
     read_bind unser_int32 (\<lambda>version. read_bind ser_readdata32 (\<lambda>time.
     read_bind (unser_inputs_outputs no_witness) (\<lambda>(flags, ins, outs).
     read_bind (if flags AND 1 \<noteq> 0 \<and> \<not> no_witness
                then read_bind (unser_witness (length ins)) (\<lambda>w. read_return (flags XOR 1, w))
                else read_return (flags, [])) (\<lambda>(flags, w).
     if flags \<noteq> 0 then (\<lambda>s. None)
     else read_bind ser_readdata32 (\<lambda>locktime.
       read_bind (if 2 \<le> version then unser_string else read_return (strDZeel tx)) (\<lambda>dzeel.
       read_return \<lparr>nVersion = version, nTime = time, vin = ins, vout = outs, wit = w,
                    nLockTime = locktime, strDZeel = dzeel\<rparr>))))))"

section \<open>Hashes, values and sizes\<close>

definition SerializeHash :: "bytes \<Rightarrow> uint256" where
  "SerializeHash obj = CHashWriter_GetHash (CHashWriter_write CHashWriter_ctor obj)"

definition GetHash :: "CTransaction \<Rightarrow> uint256 option" where
  "GetHash tx = map_option SerializeHash (SerializeTransaction_write True tx)"

definition GetWitnessHash :: "CTransaction \<Rightarrow> uint256 option" where
  "GetWitnessHash tx = map_option SerializeHash (SerializeTransaction_write False tx)"

fun value_out_loop :: "CAmount \<Rightarrow> CTxOut list \<Rightarrow> CAmount option" where
  "value_out_loop nValueOut [] = Some nValueOut"
| "value_out_loop nValueOut (out # outs) =
     (let nValueOut = nValueOut + nValue out in
      if \<not> MoneyRange (nValue out) \<or> \<not> MoneyRange nValueOut then None
      else value_out_loop nValueOut outs)"

definition GetValueOut :: "CTransaction \<Rightarrow> CAmount option" where
  "GetValueOut tx = value_out_loop 0 (vout tx)"

definition GetTransactionWeight :: "CTransaction \<Rightarrow> nat option" where
  "GetTransactionWeight tx =
     (case (SerializeTransaction_write True tx, SerializeTransaction_write False tx) of
        (Some a, Some b) \<Rightarrow> Some (length a * (WITNESS_SCALE_FACTOR - 1) + length b)
      | _ \<Rightarrow> None)"

definition modified_size_step :: "nat \<Rightarrow> CTxIn \<Rightarrow> nat" where
  "modified_size_step nTxSize i =
     (let offset = 41 + min 110 (length (scriptSig i))
      in if offset < nTxSize then nTxSize - offset else nTxSize)"

definition CalculateModifiedSize :: "CTransaction \<Rightarrow> nat \<Rightarrow> nat option" where
  "CalculateModifiedSize tx nTxSize =
     (case (if nTxSize = 0
            then map_option (\<lambda>w. (w + WITNESS_SCALE_FACTOR - 1) div WITNESS_SCALE_FACTOR) (GetTransactionWeight tx)
            else Some nTxSize) of
        None \<Rightarrow> None
      | Some n \<Rightarrow> Some (foldl modified_size_step n (vin tx)))"

definition GetDustThreshold :: "CTxOut \<Rightarrow> CFeeRate \<Rightarrow> CAmount option" where
  "GetDustThreshold out minRelayTxFee =
     (if IsUnspendable (scriptPubKey out) then Some 0
      else let nSize = length (ser_txout out);
               nSize = (case IsWitnessProgram (scriptPubKey out) of
                          Some _ \<Rightarrow> nSize + (32 + 4 + 1 + (107 div WITNESS_SCALE_FACTOR) + 4)
                        | None \<Rightarrow> nSize + (32 + 4 + 1 + 107 + 4))
           in case GetFee minRelayTxFee nSize of None \<Rightarrow> None | Some f \<Rightarrow> int64_mult 3 f)"

definition IsDust :: "CTxOut \<Rightarrow> CFeeRate \<Rightarrow> bool option" where
  "IsDust out minRelayTxFee = map_option (\<lambda>t. nValue out < t) (GetDustThreshold out minRelayTxFee)"

end
