(* ===== verification/Transaction_Props.thy ===== *)
theory Transaction_Props
  imports Transaction
begin

text \<open>
  The transaction format is self-delimiting and read back as written; the identifier commits to
  everything but the witness; values and fees stay within their bounds.
\<close>

section \<open>The parts are codecs\<close>

definition wf_txin :: "CTxIn \<Rightarrow> bool" where
  "wf_txin i \<longleftrightarrow> length (op_hash (prevout i)) = 32 \<and> length (scriptSig i) \<le> MAX_SIZE"

definition wf_txout :: "CTxOut \<Rightarrow> bool" where
  "wf_txout out \<longleftrightarrow> - (2 ^ 63) \<le> nValue out \<and> nValue out < 2 ^ 63 \<and> length (scriptPubKey out) \<le> MAX_SIZE"

definition wf_stack :: "bytes list \<Rightarrow> bool" where
  "wf_stack w \<longleftrightarrow> list_all (\<lambda>v. length v \<le> MAX_SIZE) w \<and> length w \<le> MAX_SIZE"

lemma unser_int64_rt: "- (2 ^ 63) \<le> a \<Longrightarrow> a < 2 ^ 63 \<Longrightarrow> unser_int64 (ser_int64 a @ r) = Some (a, r)"
  by (simp add: unser_int64_def ser_int64_def read_bind_def ser_readdata sint_sbintrunc' signed_take_bit_int_eq_self)

lemma unser_int32_rt: "- (2 ^ 31) \<le> a \<Longrightarrow> a < 2 ^ 31 \<Longrightarrow> unser_int32 (ser_int32 a @ r) = Some (a, r)"
  by (simp add: unser_int32_def ser_int32_def read_bind_def ser_readdata sint_sbintrunc' signed_take_bit_int_eq_self)

lemma unser_outpoint_rt: "length (op_hash p) = 32 \<Longrightarrow> unser_outpoint (ser_outpoint p @ r) = Some (p, r)"
  by (simp add: unser_outpoint_def ser_outpoint_def read_bind_def ser_readdata)

interpretation txin_codec: codec ser_txin unser_txin wf_txin
  by unfold_locales (simp add: wf_txin_def ser_txin_def unser_txin_def read_bind_def unser_outpoint_rt
      bytes_codec.rt ser_readdata)

interpretation txout_codec: codec ser_txout unser_txout wf_txout
  by unfold_locales (simp add: wf_txout_def ser_txout_def unser_txout_def read_bind_def unser_int64_rt
      bytes_codec.rt)

definition wf_tx :: "CTransaction \<Rightarrow> bool" where
  "wf_tx tx \<longleftrightarrow> - (2 ^ 31) \<le> nVersion tx \<and> nVersion tx < 2 ^ 31 \<and>
     list_all wf_txin (vin tx) \<and> length (vin tx) \<le> MAX_SIZE \<and>
     list_all wf_txout (vout tx) \<and> length (vout tx) \<le> MAX_SIZE \<and>
     list_all wf_stack (wit tx) \<and> length (wit tx) \<le> length (vin tx) \<and>
     length (strDZeel tx) \<le> MAX_SIZE"

lemma unser_witness_rt:
  assumes "list_all wf_stack w" "length w \<le> n" "\<not> CTxWitness_IsNull w"
  shows "unser_witness n (ser_witness (resize_witness n w) @ r) = Some (resize_witness n w, r)"
proof -
  have "length (resize_witness n w) = n" "list_all wf_stack (resize_witness n w)"
    "\<not> CTxWitness_IsNull (resize_witness n w)"
    using assms by (auto simp: resize_witness_def list_all_iff wf_stack_def CTxWitness_IsNull_def)
  then show ?thesis
    using stack_codec.items_rt [of "resize_witness n w" r]
    by (auto simp: unser_witness_def ser_witness_def read_bind_def wf_stack_def list_all_iff)
qed

text \<open>The object read back: no witness when none was written, and the old \<open>strDZeel\<close> for version 1.\<close>

definition tx_read_back :: "bool \<Rightarrow> CTransaction \<Rightarrow> CTransaction \<Rightarrow> CTransaction" where
  "tx_read_back no_witness old tx =
     tx\<lparr>wit := (if no_witness \<or> CTxWitness_IsNull (wit tx) then [] else resize_witness (length (vin tx)) (wit tx)),
        strDZeel := (if 2 \<le> nVersion tx then strDZeel tx else strDZeel old)\<rparr>"

lemma read_inputs_outputs:
  assumes "wf_tx tx" "no_witness \<or> vin tx \<noteq> [] \<or> vout tx = []" "no_witness \<or> CTxWitness_IsNull (wit tx)"
  shows "unser_inputs_outputs no_witness (ser_vector ser_txin (vin tx) @ ser_vector ser_txout (vout tx) @ r)
    = Some ((0, vin tx, vout tx), r)"
proof (cases "\<not> no_witness \<and> vin tx = []")
  case True
  then have e: "vin tx = []" "vout tx = []" "\<not> no_witness" using assms(2) by auto
  have 0: "ser_vector ser_txout [] = ser_writedata8 0"
    by (simp add: ser_vector_def WriteCompactSize_def)
  have "unser_vector unser_txin (ser_vector ser_txin [] @ s) = Some ([], s)" for s
    using txin_codec.vector_rt [of "[]"] by simp
  with e show ?thesis by (simp add: unser_inputs_outputs_def read_bind_def 0 ser_readdata)
next
  case False
  then show ?thesis
    using assms(1) txin_codec.vector_rt [of "vin tx"] txout_codec.vector_rt [of "vout tx"]
    by (auto simp: wf_tx_def unser_inputs_outputs_def read_bind_def)
qed

lemma read_extended:
  assumes "wf_tx tx"
  shows "unser_inputs_outputs False (ser_vector ser_txin [] @ ser_writedata8 1 @
      ser_vector ser_txin (vin tx) @ ser_vector ser_txout (vout tx) @ r) = Some ((1, vin tx, vout tx), r)"
proof -
  have "unser_vector unser_txin (ser_vector ser_txin [] @ s) = Some ([], s)" for s
    using txin_codec.vector_rt [of "[]"] by simp
  then show ?thesis
    using assms txin_codec.vector_rt [of "vin tx"] txout_codec.vector_rt [of "vout tx"]
    by (simp add: wf_tx_def unser_inputs_outputs_def read_bind_def ser_readdata)
qed

lemma SerializeTransaction_rt:
  assumes "wf_tx tx" "no_witness \<or> vin tx \<noteq> [] \<or> vout tx = []"
  shows "\<exists>bs. SerializeTransaction_write no_witness tx = Some bs \<and>
    SerializeTransaction_read no_witness old (bs @ r) = Some (tx_read_back no_witness old tx, r)"
proof -
  note parts = unser_int32_rt ser_readdata string_codec.rt
  show ?thesis
  proof (cases "no_witness \<or> CTxWitness_IsNull (wit tx)")
    case True
    then show ?thesis
      using assms(1) read_inputs_outputs [OF assms True]
      by (auto simp: wf_tx_def SerializeTransaction_write_def SerializeTransaction_read_def read_bind_def parts
          tx_read_back_def)
  next
    case False
    then show ?thesis
      using assms(1) read_extended [OF assms(1)] unser_witness_rt [of "wit tx" "length (vin tx)"]
      by (auto simp: wf_tx_def SerializeTransaction_write_def SerializeTransaction_read_def read_bind_def parts
          tx_read_back_def)
  qed
qed

section \<open>Properties\<close>

text \<open>
  C6: a transaction is read back as it was written, with or without witness data, and whatever
  follows it on the stream is left for the next reader. The one exception is a transaction with outputs but
  no inputs, whose empty input vector reads as the marker of the extended format. Below version 2 the
  reader keeps the \<open>strDZeel\<close> its object already had.
\<close>

theorem tx_roundtrip:
  assumes "wf_tx tx" "no_witness \<or> vin tx \<noteq> [] \<or> vout tx = []"
  shows "\<exists>bs. SerializeTransaction_write no_witness tx = Some bs \<and>
    SerializeTransaction_read no_witness old (bs @ r) =
      Some (tx\<lparr>wit := (if no_witness \<or> CTxWitness_IsNull (wit tx) then []
                       else resize_witness (length (vin tx)) (wit tx)),
               strDZeel := (if 2 \<le> nVersion tx then strDZeel tx else strDZeel old)\<rparr>, r)"
  using SerializeTransaction_rt [OF assms] by (simp add: tx_read_back_def)

lemma wf_tx_sample:
  "wf_tx \<lparr>nVersion = 2, nTime = 5, vin = [\<lparr>prevout = \<lparr>op_hash = replicate 32 7, op_n = 1\<rparr>, scriptSig = [0x51], nSequence = 9\<rparr>],
     vout = [\<lparr>nValue = 50, scriptPubKey = [0x51]\<rparr>], wit = [[[1, 2]]], nLockTime = 3, strDZeel = [65]\<rparr>"
  by (simp add: wf_tx_def wf_txin_def wf_txout_def wf_stack_def)

theorem tx_roundtrip_witness:
  "let tx = \<lparr>nVersion = 2, nTime = 5, vin = [\<lparr>prevout = \<lparr>op_hash = replicate 32 7, op_n = 1\<rparr>, scriptSig = [0x51], nSequence = 9\<rparr>],
     vout = [\<lparr>nValue = 50, scriptPubKey = [0x51]\<rparr>], wit = [[[1, 2]]], nLockTime = 3, strDZeel = [65]\<rparr>
   in \<exists>bs. SerializeTransaction_write False tx = Some bs \<and>
     SerializeTransaction_read False (tx\<lparr>strDZeel := []\<rparr>) (bs @ [8]) = Some (tx, [8])"
  using tx_roundtrip [OF wf_tx_sample, of False "\<lparr>nVersion = 2, nTime = 5, vin = [\<lparr>prevout = \<lparr>op_hash = replicate 32 7, op_n = 1\<rparr>, scriptSig = [0x51], nSequence = 9\<rparr>],
     vout = [\<lparr>nValue = 50, scriptPubKey = [0x51]\<rparr>], wit = [[[1, 2]]], nLockTime = 3, strDZeel = []\<rparr>" "[8]"]
  by (simp add: CTxWitness_IsNull_def resize_witness_def Let_def)

lemma tx_read_back_eq:
  "tx_read_back True old t1 = tx_read_back True old t2 \<longleftrightarrow>
    nVersion t1 = nVersion t2 \<and> nTime t1 = nTime t2 \<and> vin t1 = vin t2 \<and> vout t1 = vout t2 \<and>
    nLockTime t1 = nLockTime t2 \<and> (2 \<le> nVersion t1 \<longrightarrow> strDZeel t1 = strDZeel t2)"
  by (cases t1; cases t2) (auto simp: tx_read_back_def)

lemma write_no_witness_cong:
  assumes "tx_read_back True old t1 = tx_read_back True old t2" "wf_tx t1" "wf_tx t2"
  shows "SerializeTransaction_write True t1 = SerializeTransaction_write True t2"
  using assms unfolding tx_read_back_eq by (auto simp: SerializeTransaction_write_def wf_tx_def)

text \<open>
  C24: the transaction identifier commits to every field but the witness (and, below version 2,
  but \<open>strDZeel\<close>). Where the double SHA-256 does not collide on the two serializations, two transactions
  have the same identifier exactly when they agree on these fields.
\<close>

theorem txid_commits:
  assumes "wf_tx t1" "wf_tx t2"
    and collision_free: "\<And>a b. SerializeTransaction_write True t1 = Some a \<Longrightarrow> SerializeTransaction_write True t2 = Some b \<Longrightarrow>
      SerializeHash a = SerializeHash b \<Longrightarrow> a = b"
  shows "GetHash t1 = GetHash t2 \<longleftrightarrow>
    nVersion t1 = nVersion t2 \<and> nTime t1 = nTime t2 \<and> vin t1 = vin t2 \<and> vout t1 = vout t2 \<and>
    nLockTime t1 = nLockTime t2 \<and> (2 \<le> nVersion t1 \<longrightarrow> strDZeel t1 = strDZeel t2)"
proof -
  obtain a where a: "SerializeTransaction_write True t1 = Some a"
    "SerializeTransaction_read True t1 (a @ []) = Some (tx_read_back True t1 t1, [])"
    using SerializeTransaction_rt [OF assms(1), of True t1 "[]"] by blast
  obtain b where b: "SerializeTransaction_write True t2 = Some b"
    "SerializeTransaction_read True t1 (b @ []) = Some (tx_read_back True t1 t2, [])"
    using SerializeTransaction_rt [OF assms(2), of True t1 "[]"] by blast
  have "GetHash t1 = GetHash t2 \<longleftrightarrow> a = b"
    using collision_free [OF a(1) b(1)] a(1) b(1) by (auto simp: GetHash_def)
  also have "a = b \<longleftrightarrow> tx_read_back True t1 t1 = tx_read_back True t1 t2"
    using a b write_no_witness_cong [OF _ assms(1,2), of t1] by auto
  finally show ?thesis unfolding tx_read_back_eq .
qed

theorem txid_commits_witness:
  "let tx = \<lparr>nVersion = 2, nTime = 5, vin = [\<lparr>prevout = \<lparr>op_hash = replicate 32 7, op_n = 1\<rparr>, scriptSig = [0x51], nSequence = 9\<rparr>],
     vout = [\<lparr>nValue = 50, scriptPubKey = [0x51]\<rparr>], wit = [[[1, 2]]], nLockTime = 3, strDZeel = [65]\<rparr>
   in GetHash tx = GetHash (tx\<lparr>wit := []\<rparr>)"
proof -
  let ?tx = "\<lparr>nVersion = 2, nTime = 5, vin = [\<lparr>prevout = \<lparr>op_hash = replicate 32 7, op_n = 1\<rparr>, scriptSig = [0x51], nSequence = 9\<rparr>],
     vout = [\<lparr>nValue = 50, scriptPubKey = [0x51]\<rparr>], wit = [[[1, 2]]], nLockTime = 3, strDZeel = [65]\<rparr>"
  have w: "wf_tx (?tx\<lparr>wit := []\<rparr>)" using wf_tx_sample by (simp add: wf_tx_def)
  have "SerializeTransaction_write True ?tx = SerializeTransaction_write True (?tx\<lparr>wit := []\<rparr>)"
    by (simp add: SerializeTransaction_write_def)
  then show ?thesis
    using txid_commits [OF wf_tx_sample w] by (simp add: Let_def)
qed

lemma value_out_loop_eq:
  "MoneyRange v \<Longrightarrow> value_out_loop v outs =
    (if list_all (\<lambda>out. MoneyRange (nValue out)) outs \<and> v + sum_list (map nValue outs) \<le> MAX_MONEY
     then Some (v + sum_list (map nValue outs)) else None)"
proof (induction outs arbitrary: v)
  case (Cons out outs)
  have "list_all (\<lambda>out. MoneyRange (nValue out)) outs \<Longrightarrow> 0 \<le> sum_list (map nValue outs)"
    by (rule sum_list_nonneg) (auto simp: list_all_iff MoneyRange_def)
  then show ?case
    using Cons by (auto simp: Let_def MoneyRange_def algebra_simps)
qed (simp add: MoneyRange_def)

text \<open>
  \<open>GetValueOut\<close> returns the sum of the outputs exactly when every output is a valid amount and
  so is the sum; otherwise it throws. Checking each partial sum adds no further rejections.
\<close>

lemma GetValueOut_sum:
  "GetValueOut tx =
    (if list_all (\<lambda>out. MoneyRange (nValue out)) (vout tx) \<and> MoneyRange (sum_list (map nValue (vout tx)))
     then Some (sum_list (map nValue (vout tx))) else None)"
proof -
  have "list_all (\<lambda>out. MoneyRange (nValue out)) (vout tx) \<Longrightarrow> 0 \<le> sum_list (map nValue (vout tx))"
    by (rule sum_list_nonneg) (auto simp: list_all_iff MoneyRange_def)
  then show ?thesis
    using value_out_loop_eq [of 0 "vout tx"] by (auto simp: GetValueOut_def MoneyRange_def)
qed

text \<open>
  Fees round towards zero but never to zero. For a fee rate that is not negative, and a size whose product with it
  fits 64 bits, the fee of \<open>n\<close> bytes is the exact quotient rounded down, except that a positive rate never charges a nonempty
  transaction nothing; the fee grows with the size.
\<close>

lemma GetFee_bounds:
  assumes "0 \<le> nSatoshisPerK rate" "m \<le> n" "n < 2 ^ 63" "nSatoshisPerK rate * int n < 2 ^ 63"
  shows "\<exists>a b. GetFee rate m = Some a \<and> GetFee rate n = Some b \<and> a \<le> b \<and>
    b = (let q = nSatoshisPerK rate * int n div 1000
         in if q = 0 \<and> 0 < n \<and> 0 < nSatoshisPerK rate then 1 else q)"
proof -
  have sd: "0 \<le> x \<Longrightarrow> x sdiv 1000 = x div 1000" for x :: int by (cases "x = 0") (auto simp: signed_divide_int_def sgn_if)
  have mono: "nSatoshisPerK rate * int m div 1000 \<le> nSatoshisPerK rate * int n div 1000"
    using assms by (intro zdiv_mono1 mult_left_mono) auto
  have nn: "0 \<le> nSatoshisPerK rate * int m div 1000"
    using assms(1) by (simp add: pos_imp_zdiv_nonneg_iff)
  have "- (2 ^ 63) \<le> nSatoshisPerK rate * int k" for k
    using mult_nonneg_nonneg [OF assms(1), of "int k"] by simp
  then have i: "nSatoshisPerK rate * int k < 2 ^ 63 \<Longrightarrow> int64_mult (nSatoshisPerK rate) (int k) = Some (nSatoshisPerK rate * int k)" for k
    by (simp add: int64_mult_def)
  have "nSatoshisPerK rate * int m \<le> nSatoshisPerK rate * int n" using assms(1,2) by (intro mult_left_mono) auto
  then have "int64_mult (nSatoshisPerK rate) (int m) = Some (nSatoshisPerK rate * int m)" by (rule i [OF order_le_less_trans]) (rule assms(4))
  moreover have "int64_mult (nSatoshisPerK rate) (int n) = Some (nSatoshisPerK rate * int n)" by (rule i [OF assms(4)])
  ultimately show ?thesis
    using assms mono nn by (auto simp: GetFee_def sd Let_def)
qed

text \<open>
  The rate reported per kilobyte is ten times the rate: \<open>GetFeePerK\<close> asks for the fee of ten
  thousand bytes.
\<close>

lemma GetFeePerK_tenfold:
  "\<bar>nSatoshisPerK rate\<bar> < 2 ^ 49 \<Longrightarrow> GetFeePerK rate = Some (10 * nSatoshisPerK rate)"
proof -
  have "(nSatoshisPerK rate * 10000) sdiv 1000 = 10 * nSatoshisPerK rate"
    by (cases "nSatoshisPerK rate" "0 :: int" rule: linorder_cases) (auto simp: signed_divide_int_def abs_mult)
  then show "\<bar>nSatoshisPerK rate\<bar> < 2 ^ 49 \<Longrightarrow> ?thesis"
    by (auto simp: GetFeePerK_def GetFee_def int64_mult_def Let_def)
qed

end
