(* ===== verification/Wire_Types.thy ===== *)
theory Wire_Types
  imports Transaction_Props
begin

text \<open>
  Well-typed objects from untrusted bytes: whatever a reader of \<^verbatim>\<open>src/src/serialize.h\<close> or of
  \<^verbatim>\<open>src/src/primitives/transaction.h\<close> accepts lies within the ranges of its type.
\<close>

section \<open>What a reader can return\<close>

definition reads :: "'a reader \<Rightarrow> ('a \<Rightarrow> bool) \<Rightarrow> bool" where
  "reads rd P \<longleftrightarrow> (\<forall>s x r. rd s = Some (x, r) \<longrightarrow> P x)"

named_theorems reads_intros

lemma reads_bind [reads_intros]:
  "reads rd P \<Longrightarrow> (\<And>x. P x \<Longrightarrow> reads (f x) Q) \<Longrightarrow> reads (read_bind rd f) Q"
  unfolding reads_def by (simp add: read_bind_eq_Some) blast

lemma reads_return [reads_intros]: "P x \<Longrightarrow> reads (read_return x) P"
  by (simp add: reads_def read_return_def)

lemma reads_if [reads_intros]: "(b \<Longrightarrow> reads f P) \<Longrightarrow> (\<not> b \<Longrightarrow> reads g P) \<Longrightarrow> reads (if b then f else g) P"
  by simp

lemma reads_fail [reads_intros]: "reads (\<lambda>s. None) P"
  by (simp add: reads_def)

lemma reads_any: "reads rd (\<lambda>_. True)"
  by (simp add: reads_def)

lemma reads_weaken: "reads rd P \<Longrightarrow> (\<And>x. P x \<Longrightarrow> Q x) \<Longrightarrow> reads rd Q"
  by (auto simp: reads_def)

lemma reads_stream: "reads (CDataStream_read n) (\<lambda>b. length b = n)"
  by (auto simp: reads_def CDataStream_read_def)

lemma reads_CompactSize: "reads ReadCompactSize (\<lambda>n. unat n \<le> MAX_SIZE)"
  unfolding ReadCompactSize_def by (rule reads_bind [OF reads_any]) (auto simp: reads_def split: if_splits)

lemma reads_blocks: "reads (read_blocks n i v) (\<lambda>d. i \<le> n \<and> length v = i \<longrightarrow> length d = n)"
proof -
  have "read_blocks n i v s = Some (d, r) \<Longrightarrow> i \<le> n \<Longrightarrow> length v = i \<Longrightarrow> length d = n" for s d r
  proof (induction n i v s rule: read_blocks.induct)
    case (1 n i v s)
    show ?case
    proof (cases "i < n")
      case True
      define blk where "blk = min (n - i) (1 + 4999999 div 1)"
      obtain b s' where b: "CDataStream_read blk s = Some (b, s')" "read_blocks n (i + blk) (v @ b) s' = Some (d, r)"
        using "1.prems"(1) True unfolding read_blocks.simps [of n i v s] by (auto simp: blk_def Let_def split: option.splits)
      have "length b = blk" using reads_stream [of blk] b(1) by (auto simp: reads_def)
      then show ?thesis using "1.IH" [OF True blk_def b(1) refl b(2)] "1.prems"(2,3) True by (simp add: blk_def)
    next
      case False
      then have "d = v" using "1.prems"(1) unfolding read_blocks.simps [of n i v s] by simp
      then show ?thesis using False "1.prems"(2,3) by simp
    qed
  qed
  then show ?thesis by (auto simp: reads_def)
qed

lemma reads_bytes: "reads unser_bytes (\<lambda>v. length v \<le> MAX_SIZE)"
  unfolding unser_bytes_def
  by (rule reads_bind [OF reads_CompactSize], rule reads_weaken [OF reads_blocks]) simp

lemma reads_string: "reads unser_string (\<lambda>v. length v \<le> MAX_SIZE)"
  unfolding unser_string_def
  by (rule reads_bind [OF reads_CompactSize], rule reads_if)
    (auto intro: reads_weaken [OF reads_stream] reads_return)

lemma reads_items: "reads rd P \<Longrightarrow> reads (read_items rd n) (\<lambda>xs. length xs = n \<and> list_all P xs)"
proof (induction n)
  case (Suc n)
  show ?case unfolding read_items.simps
    by (rule reads_bind [OF Suc.prems], rule reads_bind [OF Suc.IH [OF Suc.prems]], rule reads_return) simp
qed (simp add: reads_return)

lemma reads_vector: "reads rd P \<Longrightarrow> reads (unser_vector rd) (\<lambda>xs. length xs \<le> MAX_SIZE \<and> list_all P xs)"
  unfolding unser_vector_def
  by (rule reads_bind [OF reads_CompactSize], rule reads_weaken [OF reads_items]) auto

section \<open>Transactions\<close>

lemma sint_range: "- (2 ^ 63) \<le> sint (w :: u64)" "sint w < 2 ^ 63" "- (2 ^ 31) \<le> sint (v :: u32)" "sint v < 2 ^ 31"
  using sint_greater_eq [of w] sint_less [of w] sint_greater_eq [of v] sint_less [of v] by simp_all

lemma reads_txin: "reads unser_txin wf_txin"
  unfolding unser_txin_def unser_outpoint_def
  by (rule reads_bind [where P = "\<lambda>p. length (op_hash p) = 32"], rule reads_bind [OF reads_stream],
      rule reads_bind [OF reads_any], rule reads_return, simp,
      rule reads_bind [OF reads_bytes], rule reads_bind [OF reads_any], rule reads_return, simp add: wf_txin_def)

lemma reads_txout: "reads unser_txout wf_txout"
  unfolding unser_txout_def unser_int64_def
  by (rule reads_bind [where P = "\<lambda>v. - (2 ^ 63) \<le> v \<and> v < 2 ^ 63"], rule reads_bind [OF reads_any],
      rule reads_return, use sint_range in simp,
      rule reads_bind [OF reads_bytes], rule reads_return, simp add: wf_txout_def)

lemma reads_int32: "reads unser_int32 (\<lambda>v. - (2 ^ 31) \<le> v \<and> v < 2 ^ 31)"
  unfolding unser_int32_def
  by (rule reads_bind [OF reads_any], rule reads_return) (use sint_range in simp)

lemma reads_witness: "reads (unser_witness n) (\<lambda>w. length w = n \<and> list_all wf_stack w)"
proof -
  have "reads (unser_vector unser_bytes) wf_stack"
    by (rule reads_weaken [OF reads_vector [OF reads_bytes]]) (simp add: wf_stack_def)
  then show ?thesis unfolding unser_witness_def
    by (intro reads_bind [OF reads_items]) (auto simp: reads_def split: if_splits)
qed

definition wf_io :: "u8 \<times> CTxIn list \<times> CTxOut list \<Rightarrow> bool" where
  "wf_io = (\<lambda>(fl, ins, outs). list_all wf_txin ins \<and> length ins \<le> MAX_SIZE \<and> list_all wf_txout outs \<and> length outs \<le> MAX_SIZE)"

lemma reads_io: "reads (unser_inputs_outputs no_witness) wf_io"
  unfolding unser_inputs_outputs_def
  by (rule reads_bind [OF reads_vector [OF reads_txin]], intro reads_if)
    (auto simp: wf_io_def intro!: reads_return reads_if reads_bind [OF reads_any] reads_bind [OF reads_vector [OF reads_txin]]
      reads_bind [OF reads_vector [OF reads_txout]])

lemma read_tx_wf:
  assumes "length (strDZeel old) \<le> MAX_SIZE"
  shows "reads (SerializeTransaction_read no_witness old) wf_tx"
proof -
  have wits: "reads (if fl AND 1 \<noteq> 0 \<and> \<not> no_witness
      then read_bind (unser_witness n) (\<lambda>w. read_return (fl XOR 1, w)) else read_return (fl, []))
    (\<lambda>(fl, w). length w \<le> n \<and> list_all wf_stack w)" for fl :: u8 and n
    by (intro reads_if reads_bind [OF reads_witness] reads_return) auto
  have dzeel: "reads (if b then unser_string else read_return (strDZeel old)) (\<lambda>v. length v \<le> MAX_SIZE)" for b
    using assms by (intro reads_if reads_string reads_return)
  show ?thesis unfolding SerializeTransaction_read_def
  proof (rule reads_bind [OF reads_int32], rule reads_bind [OF reads_any], rule reads_bind [OF reads_io], clarify,
      rule reads_bind [OF wits], clarify, rule reads_if [OF reads_fail], rule reads_bind [OF reads_any], rule reads_bind [OF dzeel],
      rule reads_return, goal_cases)
    case 1
    then show ?case by (auto simp: wf_tx_def wf_io_def)
  qed
qed

lemma SerializeHash_Hash1: "SerializeHash obj = Hash1 obj"
  by (simp add: SerializeHash_def Hash1_def CHashWriter_GetHash_def CHashWriter_write_def CHashWriter_ctor_def)

text \<open>
  C23: no bytes from the network make an ill-typed transaction. Whatever bytes \<open>SerializeTransaction\<close> reads, if it accepts them,
  then the version is a 32-bit integer, every amount a 64-bit integer, every outpoint has a 32-byte hash, every
  script, string and vector respects \<open>MAX_SIZE\<close> and there are no more witness stacks than inputs.  Hence writing the
  transaction in either format cannot fail an assertion, and it has an identifier.
\<close>

theorem tx_read_typed:
  assumes "SerializeTransaction_read no_witness old s = Some (tx, r)" "length (strDZeel old) \<le> MAX_SIZE"
  shows "wf_tx tx \<and> (\<exists>d. SerializeTransaction_write w tx = Some d) \<and> (\<exists>h. GetHash tx = Some h \<and> length h = 32)"
proof -
  have wf: "wf_tx tx" using read_tx_wf [OF assms(2), of no_witness] assms(1) by (auto simp: reads_def)
  then have "\<exists>d. SerializeTransaction_write b tx = Some d" for b by (simp add: wf_tx_def SerializeTransaction_write_def Let_def)
  moreover from this [of True] obtain d where "SerializeTransaction_write True tx = Some d" by blast
  ultimately show ?thesis using wf hash_functions_correct [of d d d] by (auto simp: GetHash_def SerializeHash_Hash1)
qed

definition sample_wire :: CTransaction where
  "sample_wire = \<lparr>nVersion = 2, nTime = 5, vin = [\<lparr>prevout = \<lparr>op_hash = replicate 32 7, op_n = 1\<rparr>, scriptSig = [0x51], nSequence = 9\<rparr>],
     vout = [\<lparr>nValue = 50, scriptPubKey = [0x51]\<rparr>], wit = [[[1, 2]]], nLockTime = 3, strDZeel = [65]\<rparr>"

theorem tx_read_typed_witness:
  "\<exists>s tx. SerializeTransaction_write False sample_wire = Some s \<and>
    SerializeTransaction_read False sample_wire (s @ [8]) = Some (tx, [8]) \<and> vout tx = vout sample_wire \<and>
    wf_tx tx \<and> (\<exists>h. GetHash tx = Some h \<and> length h = 32)"
proof -
  obtain s where s: "SerializeTransaction_write False sample_wire = Some s"
    "SerializeTransaction_read False sample_wire (s @ [8]) = Some (tx_read_back False sample_wire sample_wire, [8])"
    using SerializeTransaction_rt [OF wf_tx_sample, of False sample_wire "[8]"] by (auto simp: sample_wire_def)
  then show ?thesis using tx_read_typed [OF s(2)] by (auto simp: sample_wire_def tx_read_back_def)
qed

end
