(* ===== verification/Pubkey.thy ===== *)
theory Pubkey
  imports Serialize Interpreter
begin

text \<open>
  Public keys: \<^verbatim>\<open>src/src/pubkey.h\<close> and \<^verbatim>\<open>src/src/pubkey.cpp\<close>.  The elliptic-curve library libsecp256k1 is a
  record of functions, the calls this code makes; what it computes is not modelled.  A \<open>CPubKey\<close> is
  its array of 65 bytes, of which the header byte says how many count.
\<close>

record ('pk, 'sig) secp256k1 =
  ec_pubkey_parse :: "bytes \<Rightarrow> 'pk option"
  signature_parse_compact :: "bytes \<Rightarrow> bool \<times> 'sig"
  signature_normalize :: "'sig \<Rightarrow> bool \<times> 'sig"
  ecdsa_verify :: "'sig \<Rightarrow> uint256 \<Rightarrow> 'pk \<Rightarrow> bool"
  ec_pubkey_serialize :: "'pk \<Rightarrow> bool \<Rightarrow> bytes"
  ec_pubkey_tweak_add :: "'pk \<Rightarrow> bytes \<Rightarrow> 'pk option"
  ecdsa_recover_compact :: "bytes \<Rightarrow> nat \<Rightarrow> uint256 \<Rightarrow> 'pk option"

section \<open>Key data\<close>

type_synonym CPubKey = bytes

definition GetLen :: "u8 \<Rightarrow> nat" where
  "GetLen chHeader =
     (if chHeader = 2 \<or> chHeader = 3 then 33
      else if chHeader = 4 \<or> chHeader = 6 \<or> chHeader = 7 then 65
      else 0)"

definition Invalidate :: "CPubKey \<Rightarrow> CPubKey" where
  "Invalidate vch = vch[0 := 0xFF]"

definition CPubKey_Set :: "CPubKey \<Rightarrow> bytes \<Rightarrow> CPubKey" where
  "CPubKey_Set vch p =
     (let len = (if p = [] then 0 else GetLen (p ! 0))
      in if len \<noteq> 0 \<and> len = length p then p @ drop len vch else Invalidate vch)"

definition CPubKey_size :: "CPubKey \<Rightarrow> nat" where
  "CPubKey_size vch = GetLen (vch ! 0)"

definition CPubKey_bytes :: "CPubKey \<Rightarrow> bytes" where
  "CPubKey_bytes vch = take (CPubKey_size vch) vch"

definition CPubKey_IsValid :: "CPubKey \<Rightarrow> bool" where
  "CPubKey_IsValid vch \<longleftrightarrow> 0 < CPubKey_size vch"

definition CPubKey_IsCompressed :: "CPubKey \<Rightarrow> bool" where
  "CPubKey_IsCompressed vch \<longleftrightarrow> CPubKey_size vch = 33"

definition CPubKey_eq :: "CPubKey \<Rightarrow> CPubKey \<Rightarrow> bool" where
  "CPubKey_eq a b \<longleftrightarrow> a ! 0 = b ! 0 \<and> take (CPubKey_size a) a = take (CPubKey_size a) b"

definition CPubKey_Serialize :: "CPubKey \<Rightarrow> bytes" where
  "CPubKey_Serialize vch = WriteCompactSize (of_nat (CPubKey_size vch)) @ CPubKey_bytes vch"

definition CPubKey_Unserialize :: "CPubKey \<Rightarrow> CPubKey reader" where
  "CPubKey_Unserialize vch = read_bind ReadCompactSize (\<lambda>len.
     if unat len \<le> 65
     then read_bind (CDataStream_read (unat len)) (\<lambda>d. read_return (d @ drop (unat len) vch))
     else read_bind (read_items (CDataStream_read 1) (unat len)) (\<lambda>_. read_return (Invalidate vch)))"

definition CPubKey_GetID :: "CPubKey \<Rightarrow> uint160" where
  "CPubKey_GetID vch = Hash160 (CPubKey_bytes vch)"

definition CPubKey_GetHash :: "CPubKey \<Rightarrow> uint256" where
  "CPubKey_GetHash vch = Hash1 (CPubKey_bytes vch)"

section \<open>The lax DER parser\<close>

fun der_skip_zeros :: "bytes \<Rightarrow> nat \<Rightarrow> nat \<Rightarrow> nat \<times> nat" where
  "der_skip_zeros input pos 0 = (pos, 0)"
| "der_skip_zeros input pos (Suc lenbyte) =
     (if input ! pos = 0 then der_skip_zeros input (pos + 1) lenbyte else (pos, Suc lenbyte))"

fun der_long_length :: "bytes \<Rightarrow> nat \<Rightarrow> nat \<Rightarrow> nat \<Rightarrow> nat \<times> nat" where
  "der_long_length input pos rlen 0 = (pos, rlen)"
| "der_long_length input pos rlen (Suc lenbyte) =
     der_long_length input (pos + 1) (rlen * 256 + unat (input ! pos)) lenbyte"

text \<open>An integer: its tag, its length in either form, and the position and length of its content.\<close>

definition der_integer :: "bytes \<Rightarrow> nat \<Rightarrow> (nat \<times> nat) option" where
  "der_integer input pos =
     (let inputlen = length input in
      if pos = inputlen \<or> input ! pos \<noteq> 0x02 then None
      else let pos = pos + 1 in
      if pos = inputlen then None
      else let lenbyte = unat (input ! pos); pos = pos + 1 in
      case (if lenbyte \<ge> 0x80
            then let lenbyte = lenbyte - 0x80 in
                 if inputlen < pos + lenbyte then None
                 else let (pos, lenbyte) = der_skip_zeros input pos lenbyte in
                      if 8 \<le> lenbyte then None else Some (der_long_length input pos 0 lenbyte)
            else Some (pos, lenbyte)) of
        None \<Rightarrow> None
      | Some (pos, rlen) \<Rightarrow> if inputlen - pos < rlen then None else Some (pos, rlen))"

text \<open>The contents of \<open>R\<close> and \<open>S\<close>, or \<open>None\<close> when the parser returns 0.\<close>

definition der_lax_parse :: "bytes \<Rightarrow> (bytes \<times> bytes) option" where
  "der_lax_parse input =
     (let inputlen = length input; pos = 0 in
      if pos = inputlen \<or> input ! pos \<noteq> 0x30 then None
      else let pos = pos + 1 in
      if pos = inputlen then None
      else let lenbyte = unat (input ! pos); pos = pos + 1 in
      if lenbyte \<ge> 0x80 \<and> inputlen < pos + (lenbyte - 0x80) then None
      else let pos = (if lenbyte \<ge> 0x80 then pos + (lenbyte - 0x80) else pos) in
      case der_integer input pos of
        None \<Rightarrow> None
      | Some (rpos, rlen) \<Rightarrow>
          (case der_integer input (rpos + rlen) of
             None \<Rightarrow> None
           | Some (spos, slen) \<Rightarrow> Some (take rlen (drop rpos input), take slen (drop spos input))))"

definition strip_zeros :: "bytes \<Rightarrow> bytes" where
  "strip_zeros v = dropWhile (\<lambda>b. b = 0) v"

definition der_tmpsig :: "bytes \<Rightarrow> bytes \<Rightarrow> bytes option" where
  "der_tmpsig r s =
     (let r = strip_zeros r; s = strip_zeros s in
      if 32 < length r \<or> 32 < length s then None
      else Some (replicate (32 - length r) 0 @ r @ replicate (32 - length s) 0 @ s))"

definition ecdsa_signature_parse_der_lax :: "('pk, 'sig) secp256k1 \<Rightarrow> bytes \<Rightarrow> 'sig option" where
  "ecdsa_signature_parse_der_lax ctx input =
     (case der_lax_parse input of
        None \<Rightarrow> None
      | Some (r, s) \<Rightarrow>
          (let invalid = snd (signature_parse_compact ctx (replicate 64 0)) in
           case der_tmpsig r s of
             None \<Rightarrow> Some invalid
           | Some tmpsig \<Rightarrow>
               (case signature_parse_compact ctx tmpsig of
                  (ok, sig) \<Rightarrow> Some (if ok then sig else invalid))))"

section \<open>Verification\<close>

definition CPubKey_Verify :: "('pk, 'sig) secp256k1 \<Rightarrow> CPubKey \<Rightarrow> uint256 \<Rightarrow> bytes \<Rightarrow> bool" where
  "CPubKey_Verify ctx vch hash vchSig =
     (if \<not> CPubKey_IsValid vch then False
      else case ec_pubkey_parse ctx (CPubKey_bytes vch) of
             None \<Rightarrow> False
           | Some pubkey \<Rightarrow>
               if length vchSig = 0 then False
               else case ecdsa_signature_parse_der_lax ctx vchSig of
                      None \<Rightarrow> False
                    | Some sig \<Rightarrow> ecdsa_verify ctx (snd (signature_normalize ctx sig)) hash pubkey)"

definition CheckLowS :: "('pk, 'sig) secp256k1 \<Rightarrow> bytes \<Rightarrow> bool" where
  "CheckLowS ctx vchSig =
     (case ecdsa_signature_parse_der_lax ctx vchSig of
        None \<Rightarrow> False
      | Some sig \<Rightarrow> \<not> fst (signature_normalize ctx sig))"

definition CPubKey_IsFullyValid :: "('pk, 'sig) secp256k1 \<Rightarrow> CPubKey \<Rightarrow> bool" where
  "CPubKey_IsFullyValid ctx vch =
     (if \<not> CPubKey_IsValid vch then False else ec_pubkey_parse ctx (CPubKey_bytes vch) \<noteq> None)"

definition Decompress :: "('pk, 'sig) secp256k1 \<Rightarrow> CPubKey \<Rightarrow> bool \<times> CPubKey" where
  "Decompress ctx vch =
     (if \<not> CPubKey_IsValid vch then (False, vch)
      else case ec_pubkey_parse ctx (CPubKey_bytes vch) of
             None \<Rightarrow> (False, vch)
           | Some pubkey \<Rightarrow> (True, CPubKey_Set vch (ec_pubkey_serialize ctx pubkey False)))"

definition RecoverCompact :: "('pk, 'sig) secp256k1 \<Rightarrow> CPubKey \<Rightarrow> uint256 \<Rightarrow> bytes \<Rightarrow> bool \<times> CPubKey" where
  "RecoverCompact ctx vch hash vchSig =
     (if length vchSig \<noteq> 65 then (False, vch)
      else let recid = nat ((uint (vchSig ! 0) - 27) AND 3);
               fComp = (uint (vchSig ! 0) - 27) AND 4 \<noteq> 0
           in case ecdsa_recover_compact ctx (drop 1 vchSig) recid hash of
                None \<Rightarrow> (False, vch)
              | Some pubkey \<Rightarrow> (True, CPubKey_Set vch (ec_pubkey_serialize ctx pubkey fComp)))"

section \<open>Extended keys\<close>

abbreviation (input) BIP32_EXTKEY_SIZE :: nat where "BIP32_EXTKEY_SIZE \<equiv> 74"

record CExtPubKey =
  nDepth :: u8
  vchFingerprint :: bytes
  nChild :: u32
  chaincode :: uint256
  ext_pubkey :: CPubKey

text \<open>The child key, the chain code and the result; \<open>None\<close> is a failed assertion.\<close>

definition CPubKey_Derive ::
  "('pk, 'sig) secp256k1 \<Rightarrow> CPubKey \<Rightarrow> CPubKey \<Rightarrow> u32 \<Rightarrow> uint256 \<Rightarrow> (bool \<times> CPubKey \<times> uint256) option" where
  "CPubKey_Derive ctx vch pubkeyChild n cc =
     (if \<not> CPubKey_IsValid vch \<or> drop_bit 31 n \<noteq> 0 \<or> CPubKey_size vch \<noteq> 33 then None
      else let out = BIP32Hash cc n (vch ! 0) (take 32 (drop 1 vch));
               ccChild = drop 32 out
           in case ec_pubkey_parse ctx (CPubKey_bytes vch) of
                None \<Rightarrow> Some (False, pubkeyChild, ccChild)
              | Some pubkey \<Rightarrow>
                  (case ec_pubkey_tweak_add ctx pubkey (take 32 out) of
                     None \<Rightarrow> Some (False, pubkeyChild, ccChild)
                   | Some pubkey \<Rightarrow>
                       Some (True, CPubKey_Set pubkeyChild (ec_pubkey_serialize ctx pubkey True), ccChild)))"

definition CExtPubKey_Encode :: "CExtPubKey \<Rightarrow> bytes option" where
  "CExtPubKey_Encode k =
     (if CPubKey_size (ext_pubkey k) \<noteq> 33 then None
      else Some (nDepth k # vchFingerprint k @
             [ucast (drop_bit 24 (nChild k) AND 0xFF), ucast (drop_bit 16 (nChild k) AND 0xFF),
              ucast (drop_bit 8 (nChild k) AND 0xFF), ucast (drop_bit 0 (nChild k) AND 0xFF)] @
             chaincode k @ take 33 (ext_pubkey k)))"

definition CExtPubKey_Decode :: "CExtPubKey \<Rightarrow> bytes \<Rightarrow> CExtPubKey" where
  "CExtPubKey_Decode k code =
     \<lparr>nDepth = code ! 0,
      vchFingerprint = take 4 (drop 1 code),
      nChild = push_bit 24 (ucast (code ! 5)) OR push_bit 16 (ucast (code ! 6)) OR
               push_bit 8 (ucast (code ! 7)) OR ucast (code ! 8),
      chaincode = take 32 (drop 9 code),
      ext_pubkey = CPubKey_Set (ext_pubkey k) (take (BIP32_EXTKEY_SIZE - 41) (drop 41 code))\<rparr>"

definition CExtPubKey_Derive ::
  "('pk, 'sig) secp256k1 \<Rightarrow> CExtPubKey \<Rightarrow> CExtPubKey \<Rightarrow> u32 \<Rightarrow> (bool \<times> CExtPubKey) option" where
  "CExtPubKey_Derive ctx k out n =
     (case CPubKey_Derive ctx (ext_pubkey k) (ext_pubkey out) n (chaincode k) of
        None \<Rightarrow> None
      | Some (ok, child, cc) \<Rightarrow>
          Some (ok, \<lparr>nDepth = nDepth k + 1, vchFingerprint = take 4 (CPubKey_GetID (ext_pubkey k)),
                     nChild = n, chaincode = cc, ext_pubkey = child\<rparr>))"

end
