(* ===== verification/Pubkey_Props.thy ===== *)
theory Pubkey_Props
  imports Pubkey
begin

text \<open>
  The strict signature check of the interpreter and the lax parser of the key module agree: a
  strictly encoded signature is parsed to exactly the two integers it contains.  Keys and
  extended keys are read back from their encodings.
\<close>

lemma der_integer_short:
  assumes "pos + 2 + n \<le> length input" "input ! pos = 0x02" "unat (input ! (pos + 1)) = n" "n < 0x80"
  shows "der_integer input pos = Some (pos + 2, n)"
  using assms by (auto simp: der_integer_def Let_def)

text \<open>
  C30: the two DER parsers agree. A signature that passes the interpreter's strict encoding check,
  without its hash-type byte, is accepted by the lax parser used for verification, which finds
  exactly the integers \<open>R\<close> and \<open>S\<close> of the strict format, neither empty nor negative.
\<close>

theorem der_lax_of_strict:
  assumes "IsValidSignatureEncoding sig"
  shows "\<exists>r s. der_lax_parse (butlast sig) = Some (r, s) \<and>
    butlast sig = [0x30, of_nat (length r + length s + 4), 0x02, of_nat (length r)] @ r @
      [0x02, of_nat (length s)] @ s \<and>
    r \<noteq> [] \<and> s \<noteq> [] \<and> hd r AND 0x80 = 0 \<and> hd s AND 0x80 = 0"
proof -
  define m where "m = length sig"
  define lenR where "lenR = unat (sig ! 3)"
  define lenS where "lenS = unat (sig ! (5 + lenR))"
  have v: "9 \<le> m" "m \<le> 73" "sig ! 0 = 0x30" "unat (sig ! 1) = m - 3" "m = lenR + lenS + 7" "sig ! 2 = 0x02"
    "lenR \<noteq> 0" "sig ! 4 AND 0x80 = 0" "sig ! (lenR + 4) = 0x02" "lenS \<noteq> 0" "sig ! (lenR + 6) AND 0x80 = 0"
    using assms unfolding IsValidSignatureEncoding_def Let_def m_def lenR_def lenS_def
    by (auto split: if_splits)
  define input where "input = butlast sig"
  have len: "length input = lenR + lenS + 6" using v(5) by (simp add: input_def m_def)
  have at: "input ! i = sig ! i" if "i < lenR + lenS + 6" for i
    using that len by (simp add: input_def nth_butlast)
  define r where "r = take lenR (drop 4 input)"
  define s where "s = take lenS (drop (6 + lenR) input)"
  have rs: "length r = lenR" "length s = lenS" using len by (simp_all add: r_def s_def)
  have R: "der_integer input 2 = Some (4, lenR)"
    using der_integer_short [of 2 lenR input] at [of 2] at [of 3] v len by (simp add: lenR_def)
  have S: "der_integer input (4 + lenR) = Some (6 + lenR, lenS)"
    using der_integer_short [of "4 + lenR" lenS input] at [of "4 + lenR"] at [of "5 + lenR"] v len
    by (simp add: lenS_def add.commute)
  have parse: "der_lax_parse input = Some (r, s)"
    using at [of 0] at [of 1] v len R S
    by (simp add: der_lax_parse_def Let_def r_def s_def numeral_2_eq_2 [symmetric])
  have w: "sig ! 1 = of_nat (lenR + lenS + 4)" "sig ! 3 = of_nat lenR" "sig ! (5 + lenR) = of_nat lenS"
    using v(2,4,5) by (simp_all add: word_unat_eq_iff unat_of_nat lenR_def lenS_def del: of_nat_add)
  have shape: "input = [0x30, of_nat (lenR + lenS + 4), 0x02, of_nat lenR] @ r @ [0x02, of_nat lenS] @ s"
  proof (rule nth_equalityI)
    show "length input = length ([0x30, of_nat (lenR + lenS + 4), 0x02, of_nat lenR] @ r @ [0x02, of_nat lenS] @ s)"
      using len rs by simp
    fix i assume i: "i < length input"
    consider "i = 0" | "i = 1" | "i = 2" | "i = 3" | "4 \<le> i" "i < 4 + lenR" | "i = 4 + lenR" | "i = 5 + lenR"
      | "6 + lenR \<le> i" by linarith
    then show "input ! i = ([0x30, of_nat (lenR + lenS + 4), 0x02, of_nat lenR] @ r @ [0x02, of_nat lenS] @ s) ! i"
    proof cases
      case 5
      then obtain j where j: "i = 4 + j" by (auto simp: le_iff_add)
      show ?thesis using 5 len rs by (simp add: j r_def numeral_eq_Suc nth_append)
    next
      case 8
      then obtain j where j: "i = 6 + lenR + j" by (auto simp: le_iff_add)
      show ?thesis using i len rs by (simp add: j s_def numeral_eq_Suc nth_append)
    qed (use at i len rs v w in \<open>auto simp: nth_append add.commute\<close>)
  qed
  have "r \<noteq> []" "s \<noteq> []" using rs v by auto
  moreover have "hd r = sig ! 4" "hd s = sig ! (lenR + 6)"
    using rs v len at [of 4] at [of "lenR + 6"] by (simp_all add: r_def s_def hd_conv_nth add.commute)
  ultimately show ?thesis
    using parse shape rs v by (auto simp: input_def [symmetric])
qed

theorem der_lax_of_strict_witness:
  "IsValidSignatureEncoding [0x30, 6, 2, 1, 5, 2, 1, 7, 1] \<and>
   der_lax_parse (butlast [0x30, 6, 2, 1, 5, 2, 1, 7, 1]) = Some ([5], [7])"
proof -
  have v: "IsValidSignatureEncoding [0x30, 6, 2, 1, 5, 2, 1, 7, 1]"
    by (simp add: IsValidSignatureEncoding_def Let_def)
  show ?thesis
    using der_lax_of_strict [OF v] v by (simp add: der_lax_parse_def der_integer_def)
qed

lemma nChild_roundtrip:
  fixes n :: u32
  shows "push_bit 24 (ucast (ucast (drop_bit 24 n AND 0xFF) :: u8)) OR push_bit 16 (ucast (ucast (drop_bit 16 n AND 0xFF) :: u8)) OR
    push_bit 8 (ucast (ucast (drop_bit 8 n AND 0xFF) :: u8)) OR ucast (ucast (drop_bit 0 n AND 0xFF) :: u8) = n"
proof -
  have m: "(0xFF :: u32) = mask 8" by (simp add: mask_eq_exp_minus_1)
  show ?thesis unfolding m
  proof (rule bit_word_eqI)
    fix i assume i: "i < LENGTH(32)"
    then consider "i < 8" | "8 \<le> i" "i < 16" | "16 \<le> i" "i < 24" | "24 \<le> i" "i < 32" by fastforce
    then show "bit (push_bit 24 (ucast (ucast (drop_bit 24 n AND mask 8) :: u8)) OR
        push_bit 16 (ucast (ucast (drop_bit 16 n AND mask 8) :: u8)) OR
        push_bit 8 (ucast (ucast (drop_bit 8 n AND mask 8) :: u8)) OR ucast (ucast (drop_bit 0 n AND mask 8) :: u8) :: u32) i = bit n i"
      by cases (simp_all add: bit_or_iff bit_push_bit_iff bit_ucast_iff bit_drop_bit_eq bit_and_iff bit_mask_iff less_diff_conv2)
  qed
qed

lemma CPubKey_Set_size33:
  assumes "CPubKey_size vch = 33" "length vch = 65"
  shows "CPubKey_Set old (take 33 vch) = take 33 vch @ drop 33 old"
  using assms by (auto simp: CPubKey_Set_def CPubKey_size_def)

text \<open>
  Extended public keys survive their encoding. \<open>Encode\<close> produces exactly
  \<open>BIP32_EXTKEY_SIZE\<close> bytes, and \<open>Decode\<close> gives back every field, with a key that compares equal to the
  original, whatever key the object held before.
\<close>

lemma CExtPubKey_roundtrip:
  assumes "CPubKey_size (ext_pubkey k) = 33" "length (ext_pubkey k) = 65"
    and "length (vchFingerprint k) = 4" "length (chaincode k) = 32"
  shows "\<exists>code. CExtPubKey_Encode k = Some code \<and> length code = BIP32_EXTKEY_SIZE \<and>
    (let d = CExtPubKey_Decode old code in
       nDepth d = nDepth k \<and> vchFingerprint d = vchFingerprint k \<and> nChild d = nChild k \<and>
       chaincode d = chaincode k \<and> CPubKey_eq (ext_pubkey d) (ext_pubkey k) \<and>
       CPubKey_bytes (ext_pubkey d) = CPubKey_bytes (ext_pubkey k))"
proof -
  obtain a b c d where f: "vchFingerprint k = [a, b, c, d]"
    using assms(3) by (auto simp: numeral_eq_Suc length_Suc_conv)
  obtain h t where p: "ext_pubkey k = h # t" using assms(2) by (cases "ext_pubkey k") auto
  have set: "CPubKey_Set (ext_pubkey old) (take 33 (ext_pubkey k)) = take 33 (ext_pubkey k) @ drop 33 (ext_pubkey old)"
    using CPubKey_Set_size33 [OF assms(1,2)] .
  show ?thesis
    using assms set nChild_roundtrip [of "nChild k"]
    by (simp add: CExtPubKey_Encode_def CExtPubKey_Decode_def Let_def f CPubKey_eq_def CPubKey_bytes_def
        CPubKey_size_def nth_append)
qed

end
