(* ===== verification/Sighash.thy ===== *)
theory Sighash
  imports Transaction Pubkey
begin

text \<open>
  Signature hashes and the checker of a transaction: the part of
  \<^verbatim>\<open>src/src/script/interpreter.cpp\<close> from \<open>CTransactionSignatureSerializer\<close> to
  \<open>TransactionSignatureChecker::CheckSequence\<close>.  The hash type is the \<open>int\<close> of the code, the input index a
  natural number; \<open>one\<close> is the 256-bit number 1 in memory order.
\<close>

section \<open>The original signature format\<close>

record CTransactionSignatureSerializer =
  sg_txTo :: CTransaction
  sg_scriptCode :: CScript
  sg_nIn :: nat
  sg_fAnyoneCanPay :: bool
  sg_fHashSingle :: bool
  sg_fHashNone :: bool

definition CTransactionSignatureSerializer_ctor ::
  "CTransaction \<Rightarrow> CScript \<Rightarrow> nat \<Rightarrow> int \<Rightarrow> CTransactionSignatureSerializer" where
  "CTransactionSignatureSerializer_ctor txToIn scriptCodeIn nInIn nHashTypeIn =
     \<lparr>sg_txTo = txToIn, sg_scriptCode = scriptCodeIn, sg_nIn = nInIn,
      sg_fAnyoneCanPay = (nHashTypeIn AND int SIGHASH_ANYONECANPAY \<noteq> 0),
      sg_fHashSingle = (nHashTypeIn AND 0x1f = int SIGHASH_SINGLE),
      sg_fHashNone = (nHashTypeIn AND 0x1f = int SIGHASH_NONE)\<rparr>"

lemma GetOp2_ok_shorter: "(True, opcode, vch, it') = GetOp2 it \<Longrightarrow> length it' < length it"
  using GetOp2_shorter_sym GetOp2_ok_nonempty by metis

text \<open>The first loop counts the separators; iterators are suffixes of the script.\<close>

function count_separators :: "bytes \<Rightarrow> nat \<Rightarrow> nat" where
  "count_separators it nCodeSeparators =
     (case GetOp2 it of
        (ok, opcode, vch, it') \<Rightarrow>
          if ok then count_separators it' (if opcode = OP_CODESEPARATOR then nCodeSeparators + 1 else nCodeSeparators)
          else nCodeSeparators)"
  by pat_completeness auto
termination
  by (relation "measure (\<lambda>(it, n). length it)") (auto dest: GetOp2_ok_shorter)

declare count_separators.simps [simp del]

text \<open>
  The second loop writes each piece before a separator, and returns the bytes written, the start of
  the last piece and the iterator left by the call that failed.
\<close>

function write_pieces :: "bytes \<Rightarrow> bytes \<Rightarrow> bytes \<Rightarrow> bytes \<times> bytes \<times> bytes" where
  "write_pieces s itBegin it =
     (case GetOp2 it of
        (ok, opcode, vch, it') \<Rightarrow>
          if ok
          then if opcode = OP_CODESEPARATOR
               then write_pieces (s @ take (length itBegin - length it' - 1) itBegin) it' it'
               else write_pieces s itBegin it'
          else (s, itBegin, it'))"
  by pat_completeness auto
termination
  by (relation "measure (\<lambda>(s, b, it). length it)") (auto dest: GetOp2_ok_shorter)

declare write_pieces.simps [simp del]

definition SerializeScriptCode :: "CScript \<Rightarrow> bytes" where
  "SerializeScriptCode scriptCode =
     (let nCodeSeparators = count_separators scriptCode 0;
          (s, itBegin, it) = write_pieces [] scriptCode scriptCode
      in WriteCompactSize (of_nat (length scriptCode - nCodeSeparators)) @
         s @ (if itBegin \<noteq> [] then take (length itBegin - length it) itBegin else []))"

definition SerializeInput :: "CTransactionSignatureSerializer \<Rightarrow> nat \<Rightarrow> bytes" where
  "SerializeInput sg nInput =
     (let nInput = (if sg_fAnyoneCanPay sg then sg_nIn sg else nInput)
      in ser_outpoint (prevout (vin (sg_txTo sg) ! nInput)) @
         (if nInput \<noteq> sg_nIn sg then ser_bytes [] else SerializeScriptCode (sg_scriptCode sg)) @
         (if nInput \<noteq> sg_nIn sg \<and> (sg_fHashSingle sg \<or> sg_fHashNone sg) then ser_int32 0
          else ser_writedata32 (nSequence (vin (sg_txTo sg) ! nInput))))"

definition SerializeOutput :: "CTransactionSignatureSerializer \<Rightarrow> nat \<Rightarrow> bytes" where
  "SerializeOutput sg nOutput =
     (if sg_fHashSingle sg \<and> nOutput \<noteq> sg_nIn sg then ser_txout CTxOut_SetNull
      else ser_txout (vout (sg_txTo sg) ! nOutput))"

definition sg_Serialize :: "CTransactionSignatureSerializer \<Rightarrow> bytes" where
  "sg_Serialize sg =
     (let txTo = sg_txTo sg;
          nInputs = (if sg_fAnyoneCanPay sg then 1 else length (vin txTo));
          nOutputs = (if sg_fHashNone sg then 0 else if sg_fHashSingle sg then sg_nIn sg + 1 else length (vout txTo))
      in ser_int32 (nVersion txTo) @ ser_writedata32 (nTime txTo) @
         WriteCompactSize (of_nat nInputs) @ concat (map (SerializeInput sg) [0..<nInputs]) @
         WriteCompactSize (of_nat nOutputs) @ concat (map (SerializeOutput sg) [0..<nOutputs]) @
         ser_writedata32 (nLockTime txTo) @ ser_bytes (strDZeel txTo))"

section \<open>The witness signature format\<close>

definition GetPrevoutHash :: "CTransaction \<Rightarrow> uint256" where
  "GetPrevoutHash txTo =
     CHashWriter_GetHash (foldl (\<lambda>ss i. CHashWriter_write ss (ser_outpoint (prevout i))) CHashWriter_ctor (vin txTo))"

definition GetSequenceHash :: "CTransaction \<Rightarrow> uint256" where
  "GetSequenceHash txTo =
     CHashWriter_GetHash (foldl (\<lambda>ss i. CHashWriter_write ss (ser_writedata32 (nSequence i))) CHashWriter_ctor (vin txTo))"

definition GetOutputsHash :: "CTransaction \<Rightarrow> uint256" where
  "GetOutputsHash txTo =
     CHashWriter_GetHash (foldl (\<lambda>ss out. CHashWriter_write ss (ser_txout out)) CHashWriter_ctor (vout txTo))"

record PrecomputedTransactionData =
  hashPrevouts :: uint256
  hashSequence :: uint256
  hashOutputs :: uint256

definition PrecomputedTransactionData_ctor :: "CTransaction \<Rightarrow> PrecomputedTransactionData" where
  "PrecomputedTransactionData_ctor txTo =
     \<lparr>hashPrevouts = GetPrevoutHash txTo, hashSequence = GetSequenceHash txTo, hashOutputs = GetOutputsHash txTo\<rparr>"

definition uint256_null :: uint256 where
  "uint256_null = replicate 32 0"

definition uint256_one :: uint256 where
  "uint256_one = 1 # replicate 31 0"

definition witness_hashPrevouts :: "CTransaction \<Rightarrow> int \<Rightarrow> PrecomputedTransactionData option \<Rightarrow> uint256" where
  "witness_hashPrevouts txTo nHashType cache =
     (if nHashType AND int SIGHASH_ANYONECANPAY = 0
      then case cache of Some c \<Rightarrow> hashPrevouts c | None \<Rightarrow> GetPrevoutHash txTo
      else uint256_null)"

definition witness_hashSequence :: "CTransaction \<Rightarrow> int \<Rightarrow> PrecomputedTransactionData option \<Rightarrow> uint256" where
  "witness_hashSequence txTo nHashType cache =
     (if nHashType AND int SIGHASH_ANYONECANPAY = 0 \<and> nHashType AND 0x1f \<noteq> int SIGHASH_SINGLE \<and>
         nHashType AND 0x1f \<noteq> int SIGHASH_NONE
      then case cache of Some c \<Rightarrow> hashSequence c | None \<Rightarrow> GetSequenceHash txTo
      else uint256_null)"

definition witness_hashOutputs ::
  "CTransaction \<Rightarrow> nat \<Rightarrow> int \<Rightarrow> PrecomputedTransactionData option \<Rightarrow> uint256" where
  "witness_hashOutputs txTo nIn nHashType cache =
     (if nHashType AND 0x1f \<noteq> int SIGHASH_SINGLE \<and> nHashType AND 0x1f \<noteq> int SIGHASH_NONE
      then case cache of Some c \<Rightarrow> hashOutputs c | None \<Rightarrow> GetOutputsHash txTo
      else if nHashType AND 0x1f = int SIGHASH_SINGLE \<and> nIn < length (vout txTo)
      then CHashWriter_GetHash (CHashWriter_write CHashWriter_ctor (ser_txout (vout txTo ! nIn)))
      else uint256_null)"

definition SignatureHash ::
  "CScript \<Rightarrow> CTransaction \<Rightarrow> nat \<Rightarrow> int \<Rightarrow> CAmount \<Rightarrow> SigVersion \<Rightarrow> PrecomputedTransactionData option \<Rightarrow> uint256" where
  "SignatureHash scriptCode txTo nIn nHashType amount sigversion cache =
     (if sigversion = SIGVERSION_WITNESS_V0
      then CHashWriter_GetHash (foldl CHashWriter_write CHashWriter_ctor
             [ser_int32 (nVersion txTo),
              witness_hashPrevouts txTo nHashType cache,
              witness_hashSequence txTo nHashType cache,
              ser_outpoint (prevout (vin txTo ! nIn)),
              ser_bytes scriptCode,
              ser_int64 amount,
              ser_writedata32 (nSequence (vin txTo ! nIn)),
              witness_hashOutputs txTo nIn nHashType cache,
              ser_writedata32 (nLockTime txTo),
              ser_int32 nHashType])
      else if length (vin txTo) \<le> nIn then uint256_one
      else if nHashType AND 0x1f = int SIGHASH_SINGLE \<and> length (vout txTo) \<le> nIn then uint256_one
      else CHashWriter_GetHash (foldl CHashWriter_write CHashWriter_ctor
             [sg_Serialize (CTransactionSignatureSerializer_ctor txTo scriptCode nIn nHashType),
              ser_int32 nHashType]))"

section \<open>The signature checker of a transaction\<close>

definition VerifySignature :: "('pk, 'sig) secp256k1 \<Rightarrow> bytes \<Rightarrow> CPubKey \<Rightarrow> uint256 \<Rightarrow> bool" where
  "VerifySignature ctx vchSig pubkey sighash = CPubKey_Verify ctx pubkey sighash vchSig"

text \<open>
  \<open>verify\<close> is the virtual member \<open>VerifySignature\<close>.  A fresh key object holds arbitrary bytes, which
  \<open>Set\<close> overwrites or invalidates; here they are zero.
\<close>

definition tx_CheckSig ::
  "(bytes \<Rightarrow> CPubKey \<Rightarrow> uint256 \<Rightarrow> bool) \<Rightarrow> CTransaction \<Rightarrow> nat \<Rightarrow> CAmount \<Rightarrow> PrecomputedTransactionData option \<Rightarrow>
   bytes \<Rightarrow> bytes \<Rightarrow> CScript \<Rightarrow> SigVersion \<Rightarrow> bool" where
  "tx_CheckSig verify txTo nIn amount txdata vchSigIn vchPubKey scriptCode sigversion =
     (let pubkey = CPubKey_Set (replicate 65 0) vchPubKey in
      if \<not> CPubKey_IsValid pubkey then False
      else if vchSigIn = [] then False
      else let nHashType = uint (last vchSigIn);
               vchSig = butlast vchSigIn;
               sighash = SignatureHash scriptCode txTo nIn nHashType amount sigversion txdata
           in verify vchSig pubkey sighash)"

definition tx_CheckLockTime :: "CTransaction \<Rightarrow> nat \<Rightarrow> int \<Rightarrow> bool" where
  "tx_CheckLockTime txTo nIn n =
     (let t = uint (nLockTime txTo) in
      if \<not> ((t < LOCKTIME_THRESHOLD \<and> n < LOCKTIME_THRESHOLD) \<or> (LOCKTIME_THRESHOLD \<le> t \<and> LOCKTIME_THRESHOLD \<le> n)) then False
      else if t < n then False
      else if SEQUENCE_FINAL = nSequence (vin txTo ! nIn) then False
      else True)"

definition tx_CheckSequence :: "CTransaction \<Rightarrow> nat \<Rightarrow> int \<Rightarrow> bool" where
  "tx_CheckSequence txTo nIn n =
     (let txToSequence = uint (nSequence (vin txTo ! nIn)) in
      if (word_of_int (nVersion txTo) :: u32) < 2 then False
      else if txToSequence AND uint SEQUENCE_LOCKTIME_DISABLE_FLAG \<noteq> 0 then False
      else let nLockTimeMask = uint (SEQUENCE_LOCKTIME_TYPE_FLAG OR SEQUENCE_LOCKTIME_MASK);
               txToSequenceMasked = txToSequence AND nLockTimeMask;
               nSequenceMasked = n AND nLockTimeMask in
      if \<not> ((txToSequenceMasked < uint SEQUENCE_LOCKTIME_TYPE_FLAG \<and> nSequenceMasked < uint SEQUENCE_LOCKTIME_TYPE_FLAG) \<or>
             (uint SEQUENCE_LOCKTIME_TYPE_FLAG \<le> txToSequenceMasked \<and> uint SEQUENCE_LOCKTIME_TYPE_FLAG \<le> nSequenceMasked)) then False
      else if txToSequenceMasked < nSequenceMasked then False
      else True)"

definition TransactionSignatureChecker ::
  "('pk, 'sig) secp256k1 \<Rightarrow> CTransaction \<Rightarrow> nat \<Rightarrow> CAmount \<Rightarrow> PrecomputedTransactionData option \<Rightarrow> BaseSignatureChecker" where
  "TransactionSignatureChecker ctx txTo nIn amount txdata =
     \<lparr>CheckSig = tx_CheckSig (VerifySignature ctx) txTo nIn amount txdata,
      CheckLockTime = tx_CheckLockTime txTo nIn,
      CheckSequence = tx_CheckSequence txTo nIn\<rparr>"

end
