(* ===== verification/Sighash_Props.thy ===== *)
theory Sighash_Props
  imports Sighash Transaction_Props Interpreter_Props
begin

text \<open>
  The serializer that blanks a transaction in place is compared with \<open>SignatureHashOld\<close> of
  \<^verbatim>\<open>src/src/test/sighash_tests.cpp\<close>, which builds the blanked transaction and serializes it; a hash over all
  inputs and outputs commits to every field, and the witness format leaves out two fields.
\<close>

section \<open>Hash writers\<close>

lemma CHashWriter_pieces:
  "CHashWriter_GetHash (foldl CHashWriter_write CHashWriter_ctor ps) = sha256 (sha256 (concat ps))"
proof -
  have "CSHA256_rep (foldl CHashWriter_write CHashWriter_ctor ps) (concat ps)"
  proof (induction ps rule: rev_induct)
    case Nil show ?case by (simp add: CHashWriter_ctor_def CSHA256_ctor_rep)
  next
    case (snoc p ps) then show ?case
      by (simp add: CHashWriter_write_def CHash256_Write_def CSHA256_Write_rep)
  qed
  then show ?thesis by (simp add: CHashWriter_GetHash_def CHash256_Finalize_rep)
qed

lemma SerializeHash_sha256: "SerializeHash b = sha256 (sha256 b)"
  using CHashWriter_pieces [of "[b]"] by (simp add: SerializeHash_def)

section \<open>Script code without separators\<close>

function strip_separators :: "bytes \<Rightarrow> bytes" where
  "strip_separators it =
     (case GetOp2 it of
        (ok, opcode, vch, it') \<Rightarrow>
          (if ok \<and> opcode = OP_CODESEPARATOR then [] else take (length it - length it') it) @
          (if ok then strip_separators it' else []))"
  by pat_completeness auto
termination
  by (relation "measure length") (auto dest: GetOp2_ok_shorter)

declare strip_separators.simps [simp del]

function decodable :: "bytes \<Rightarrow> bool" where
  "decodable it =
     (if it = [] then True
      else case GetOp2 it of (ok, opcode, vch, it') \<Rightarrow> if ok then decodable it' else False)"
  by pat_completeness auto
termination
  by (relation "measure length") (auto dest: GetOp2_ok_shorter)

declare decodable.simps [simp del]

lemma GetOp2_separator: "GetOp2 it = (True, OP_CODESEPARATOR, v, it') \<Longrightarrow> \<exists>b. it = b # it'"
  by (auto simp: GetOp2_def Let_def split: list.splits if_splits prod.splits option.splits)

lemma write_pieces_strip:
  "write_pieces s (mid @ it) it = (s', b, e) \<Longrightarrow>
    s' @ (if b \<noteq> [] then take (length b - length e) b else []) = s @ mid @ strip_separators it"
proof (induction it arbitrary: s mid rule: script_induct)
  case Nil
  then show ?case by (simp add: write_pieces.simps strip_separators.simps [of "[]"] GetOp2_def)
next
  case (Bad pc opcode v pc')
  then have "length pc' \<le> length pc" using GetOp2_shorter [OF Bad.hyps(2,1)] by simp
  with Bad show ?case
    by (auto simp: write_pieces.simps [of _ _ pc] strip_separators.simps [of pc])
next
  case (Op pc opcode v pc')
  obtain c where c: "pc = c @ pc'" using GetOp2_suffix [OF Op.hyps(1)] by auto
  show ?case
  proof (cases "opcode = OP_CODESEPARATOR")
    case True
    then obtain b0 where "pc = b0 # pc'" using GetOp2_separator Op.hyps(1) by blast
    with Op.prems Op.hyps(1) True Op.IH [of "s @ mid" "[]"] show ?thesis
      by (simp add: write_pieces.simps [of _ _ "b0 # pc'"] strip_separators.simps [of "b0 # pc'"])
  next
    case False
    with Op.prems Op.hyps(1) Op.IH [of s "mid @ c"] c show ?thesis
      by (simp add: write_pieces.simps [of _ _ "c @ pc'"] strip_separators.simps [of "c @ pc'"])
  qed
qed

lemma count_separators_strip:
  "decodable it \<Longrightarrow> length (strip_separators it) + count_separators it n = length it + n"
proof (induction it arbitrary: n rule: script_induct)
  case Nil
  then show ?case by (simp add: strip_separators.simps [of "[]"] count_separators.simps [of "[]"] GetOp2_def)
next
  case (Bad pc opcode v pc')
  then show ?case by (simp add: decodable.simps [of pc])
next
  case (Op pc opcode v pc')
  then have d: "decodable pc'" using GetOp2_ok_nonempty [OF Op.hyps(1)] by (auto simp: decodable.simps [of pc])
  obtain c where c: "pc = c @ pc'" using GetOp2_suffix [OF Op.hyps(1)] by auto
  show ?case
  proof (cases "opcode = OP_CODESEPARATOR")
    case True
    then obtain b0 where "pc = b0 # pc'" using GetOp2_separator Op.hyps(1) by blast
    with Op.hyps(1) Op.IH [OF d, of "Suc n"] True show ?thesis
      by (simp add: count_separators.simps [of "b0 # pc'"] strip_separators.simps [of "b0 # pc'"])
  next
    case False
    with Op.hyps(1) Op.IH [OF d, of n] c show ?thesis
      by (simp add: count_separators.simps [of "c @ pc'"] strip_separators.simps [of "c @ pc'"])
  qed
qed

lemma SerializeScriptCode_strip:
  assumes "decodable s"
  shows "SerializeScriptCode s = ser_bytes (strip_separators s)"
proof -
  obtain s' b e where w: "write_pieces [] s s = (s', b, e)" by (rule prod_cases3)
  have "length s - count_separators s 0 = length (strip_separators s)"
    using count_separators_strip [OF assms, of 0] by simp
  then show ?thesis
    using write_pieces_strip [of "[]" "[]" s] w by (simp add: SerializeScriptCode_def ser_bytes_def)
qed

section \<open>The blanked transaction\<close>

abbreviation (input) hash_single :: "int \<Rightarrow> bool" where "hash_single ht \<equiv> ht AND 0x1f = int SIGHASH_SINGLE"
abbreviation (input) hash_none :: "int \<Rightarrow> bool" where "hash_none ht \<equiv> ht AND 0x1f = int SIGHASH_NONE"
abbreviation (input) anyone_can_pay :: "int \<Rightarrow> bool" where "anyone_can_pay ht \<equiv> ht AND int SIGHASH_ANYONECANPAY \<noteq> 0"

definition blank_input :: "CScript \<Rightarrow> CTransaction \<Rightarrow> nat \<Rightarrow> int \<Rightarrow> nat \<Rightarrow> CTxIn" where
  "blank_input sc tx nIn ht i =
     \<lparr>prevout = prevout (vin tx ! i),
      scriptSig = (if i = nIn then strip_separators sc else []),
      nSequence = (if i \<noteq> nIn \<and> (hash_single ht \<or> hash_none ht) then 0 else nSequence (vin tx ! i))\<rparr>"

definition sighash_tx :: "CScript \<Rightarrow> CTransaction \<Rightarrow> nat \<Rightarrow> int \<Rightarrow> CTransaction" where
  "sighash_tx sc tx nIn ht =
     tx\<lparr>vin := (if anyone_can_pay ht then [blank_input sc tx nIn ht nIn]
                else map (blank_input sc tx nIn ht) [0..<length (vin tx)]),
        vout := (if hash_none ht then []
                 else if hash_single ht then replicate nIn CTxOut_SetNull @ [vout tx ! nIn]
                 else vout tx)\<rparr>"

definition signed_bytes :: "CTransaction \<Rightarrow> bytes" where
  "signed_bytes tx = ser_int32 (nVersion tx) @ ser_writedata32 (nTime tx) @ ser_vector ser_txin (vin tx) @
     ser_vector ser_txout (vout tx) @ ser_writedata32 (nLockTime tx) @ ser_bytes (strDZeel tx)"

lemma SerializeInput_blank:
  assumes "decodable sc"
  shows "SerializeInput (CTransactionSignatureSerializer_ctor tx sc nIn ht) i =
    ser_txin (blank_input sc tx nIn ht (if anyone_can_pay ht then nIn else i))"
  using SerializeScriptCode_strip [OF assms]
  by (auto simp: SerializeInput_def CTransactionSignatureSerializer_ctor_def blank_input_def ser_txin_def Let_def
      ser_int32_def)

lemma SerializeOutput_blank:
  "map (SerializeOutput (CTransactionSignatureSerializer_ctor tx sc nIn ht))
     [0..<if hash_none ht then 0 else if hash_single ht then nIn + 1 else length (vout tx)] =
   map ser_txout (vout (sighash_tx sc tx nIn ht))"
proof -
  have "map (\<lambda>i. if i \<noteq> nIn then ser_txout CTxOut_SetNull else ser_txout (vout tx ! i)) [0..<nIn] =
      map ser_txout (replicate nIn CTxOut_SetNull)"
    by (intro nth_equalityI) auto
  moreover have "map (\<lambda>i. ser_txout (vout tx ! i)) [0..<length (vout tx)] = map ser_txout (vout tx)"
    by (intro nth_equalityI) auto
  moreover have "SerializeOutput (CTransactionSignatureSerializer_ctor tx sc nIn ht) =
      (\<lambda>i. if hash_single ht \<and> i \<noteq> nIn then ser_txout CTxOut_SetNull else ser_txout (vout tx ! i))"
    by (auto simp: SerializeOutput_def CTransactionSignatureSerializer_ctor_def)
  ultimately show ?thesis by (auto simp: sighash_tx_def)
qed

lemma sg_Serialize_blank:
  assumes "decodable sc"
  shows "sg_Serialize (CTransactionSignatureSerializer_ctor tx sc nIn ht) = signed_bytes (sighash_tx sc tx nIn ht)"
proof -
  let ?sg = "CTransactionSignatureSerializer_ctor tx sc nIn ht"
  let ?ni = "if anyone_can_pay ht then 1 else length (vin tx)"
  let ?no = "if hash_none ht then 0 else if hash_single ht then nIn + 1 else length (vout tx)"
  have i: "map (SerializeInput ?sg) [0..<?ni] = map ser_txin (vin (sighash_tx sc tx nIn ht))"
    unfolding SerializeInput_blank [OF assms, abs_def] by (auto simp: sighash_tx_def)
  have n: "?ni = length (vin (sighash_tx sc tx nIn ht))" "?no = length (vout (sighash_tx sc tx nIn ht))"
    using arg_cong [OF SerializeOutput_blank [of tx sc nIn ht], of length] by (auto simp: sighash_tx_def)
  have sg: "sg_txTo ?sg = tx" "sg_fAnyoneCanPay ?sg = anyone_can_pay ht" "sg_fHashNone ?sg = hash_none ht"
    "sg_fHashSingle ?sg = hash_single ht" "sg_nIn ?sg = nIn"
    by (simp_all add: CTransactionSignatureSerializer_ctor_def)
  show ?thesis
    unfolding sg_Serialize_def sg Let_def i SerializeOutput_blank [of tx sc nIn ht]
    unfolding signed_bytes_def ser_vector_def n
    by (simp add: sighash_tx_def)
qed

section \<open>The reference construction of the tests\<close>

text \<open>
  \<open>SignatureHashOld\<close> of the unit tests: \<open>txTmp\<close> is the blanked transaction (\<open>None\<close> where the function
  returns the number 1 instead), which is then serialized without witnesses.  The outer \<open>None\<close> of the
  hash is the assertion of the serialization that there are no more witnesses than inputs.
\<close>

definition old_blank_scripts :: "CScript \<Rightarrow> nat \<Rightarrow> CTxIn list \<Rightarrow> CTxIn list" where
  "old_blank_scripts scriptCode nIn ins =
     (let ins = map (\<lambda>i. i\<lparr>scriptSig := []\<rparr>) ins in ins[nIn := (ins ! nIn)\<lparr>scriptSig := scriptCode\<rparr>])"

definition old_blank_sequences :: "nat \<Rightarrow> CTxIn list \<Rightarrow> CTxIn list" where
  "old_blank_sequences nIn ins =
     map (\<lambda>i. if i \<noteq> nIn then (ins ! i)\<lparr>nSequence := 0\<rparr> else ins ! i) [0..<length ins]"

definition old_txTmp :: "CScript \<Rightarrow> CTransaction \<Rightarrow> nat \<Rightarrow> int \<Rightarrow> CTransaction option" where
  "old_txTmp scriptCode txTo nIn nHashType =
     (if length (vin txTo) \<le> nIn then None
      else
        let scriptCode = fst (FindAndDelete scriptCode [of_nat OP_CODESEPARATOR]);
            ins = old_blank_scripts scriptCode nIn (vin txTo);
            anyone = (\<lambda>txTmp. if anyone_can_pay nHashType then txTmp\<lparr>vin := [vin txTmp ! nIn]\<rparr> else txTmp)
        in if hash_none nHashType
           then Some (anyone (txTo\<lparr>vin := old_blank_sequences nIn ins, vout := []\<rparr>))
           else if hash_single nHashType
           then if length (vout txTo) \<le> nIn then None
                else Some (anyone (txTo\<lparr>vin := old_blank_sequences nIn ins,
                       vout := map (\<lambda>i. if i < nIn then CTxOut_SetNull else vout txTo ! i) [0..<nIn + 1]\<rparr>))
           else Some (anyone (txTo\<lparr>vin := ins\<rparr>)))"

definition SignatureHashOld :: "CScript \<Rightarrow> CTransaction \<Rightarrow> nat \<Rightarrow> int \<Rightarrow> uint256 option" where
  "SignatureHashOld scriptCode txTo nIn nHashType =
     (case old_txTmp scriptCode txTo nIn nHashType of
        None \<Rightarrow> Some uint256_one
      | Some txTmp \<Rightarrow> map_option (\<lambda>b. SerializeHash (b @ ser_int32 nHashType)) (SerializeTransaction_write True txTmp))"

lemma GetOp2_separator_iff:
  assumes "GetOp2 it = (True, opcode, v, it')"
  shows "take 1 it = [0xab] \<longleftrightarrow> opcode = OP_CODESEPARATOR"
proof -
  obtain b bs where it: "it = b # bs" using GetOp2_ok_nonempty [OF assms] by (cases it) auto
  have "opcode = unat b" using assms unfolding it by (auto simp: GetOp2_def Let_def split: if_splits prod.splits option.splits)
  moreover have "unat b = 171 \<longleftrightarrow> b = 0xab" by (simp add: word_unat_eq_iff)
  ultimately show ?thesis by (simp add: it)
qed

lemma strip_separators_deleted:
  "decodable it \<Longrightarrow> \<exists>n. op_deleted [0xab] it (strip_separators it) n"
proof (induction it rule: script_induct)
  case Nil
  have "op_deleted [0xab] [] [] 0" by (rule op_stop) (simp_all add: GetOp2_def)
  then show ?case by (auto simp: strip_separators.simps [of "[]"] GetOp2_def)
next
  case (Bad pc opcode v pc')
  then show ?case by (simp add: decodable.simps [of pc])
next
  case (Op pc opcode v pc')
  then have "decodable pc'" using GetOp2_ok_nonempty [OF Op.hyps(1)] by (auto simp: decodable.simps [of pc])
  then obtain n where n: "op_deleted [0xab] pc' (strip_separators pc') n" using Op.IH by blast
  note sep = GetOp2_separator_iff [OF Op.hyps(1)]
  show ?case
  proof (cases "opcode = OP_CODESEPARATOR")
    case True
    then obtain b0 where b0: "pc = b0 # pc'" using GetOp2_separator Op.hyps(1) by blast
    then have "b0 = 0xab" using sep True by simp
    then have "op_deleted [0xab] pc (strip_separators pc') (Suc n)" using op_cut [OF n] b0 by simp
    then show ?thesis using Op.hyps(1) True by (auto simp: strip_separators.simps [of pc])
  next
    case False
    obtain c where c: "pc = c @ pc'" using GetOp2_suffix [OF Op.hyps(1)] by auto
    have "op_deleted [0xab] (c @ pc') (c @ strip_separators pc') n"
      using sep False Op.hyps(1) c n by (intro op_keep) auto
    then show ?thesis using Op.hyps(1) False c by (auto simp: strip_separators.simps [of "c @ pc'"])
  qed
qed

lemma FindAndDelete_separators:
  "decodable sc \<Longrightarrow> fst (FindAndDelete sc [of_nat OP_CODESEPARATOR]) = strip_separators sc"
  using strip_separators_deleted [of sc] op_deleted_unique FindAndDelete_deleted [of "[0xab]" sc] by fastforce

lemma old_inputs_blank:
  assumes "nIn < length (vin tx)"
  shows "hash_single ht \<or> hash_none ht \<Longrightarrow>
      old_blank_sequences nIn (old_blank_scripts (strip_separators sc) nIn (vin tx))
        = map (blank_input sc tx nIn ht) [0..<length (vin tx)]"
    and "\<not> (hash_single ht \<or> hash_none ht) \<Longrightarrow>
      old_blank_scripts (strip_separators sc) nIn (vin tx) = map (blank_input sc tx nIn ht) [0..<length (vin tx)]"
  using assms unfolding old_blank_scripts_def old_blank_sequences_def Let_def
  by (auto intro!: nth_equalityI simp: blank_input_def nth_list_update)

lemma old_txTmp_blank:
  assumes "decodable sc"
  shows "old_txTmp sc tx nIn ht =
    (if length (vin tx) \<le> nIn \<or> hash_single ht \<and> length (vout tx) \<le> nIn then None
     else Some (sighash_tx sc tx nIn ht))"
proof (cases "nIn < length (vin tx)")
  case True
  have out: "map (\<lambda>i. if i < nIn then CTxOut_SetNull else vout tx ! i) [0..<nIn + 1] = replicate nIn CTxOut_SetNull @ [vout tx ! nIn]"
    by (rule nth_equalityI) (auto simp: nth_append less_Suc_eq simp del: upt_Suc)
  have ns: "hash_none ht \<Longrightarrow> \<not> hash_single ht" by simp
  note b = old_inputs_blank [OF True, of ht sc]
  show ?thesis
    using True ns b unfolding old_txTmp_def FindAndDelete_separators [OF assms] Let_def out
    by (auto simp: sighash_tx_def)
qed (simp add: old_txTmp_def)

lemma signed_bytes_write:
  assumes "wit tx = []"
  shows "signed_bytes tx = the (SerializeTransaction_write True tx) @ (if nVersion tx < 2 then ser_bytes (strDZeel tx) else [])"
    and "SerializeTransaction_write True tx \<noteq> None"
  using assms by (simp_all add: signed_bytes_def SerializeTransaction_write_def Let_def)

lemma sighash_tx_wit: "sighash_tx sc (tx\<lparr>wit := w\<rparr>) nIn ht = (sighash_tx sc tx nIn ht)\<lparr>wit := w\<rparr>"
  by (simp add: sighash_tx_def blank_input_def)

lemma signed_bytes_wit: "signed_bytes (tx\<lparr>wit := w\<rparr>) = signed_bytes tx"
  by (simp add: signed_bytes_def)

lemma SignatureHash_base:
  assumes "decodable scriptCode"
  shows "SignatureHash scriptCode txTo nIn nHashType amount SIGVERSION_BASE cache =
    (if length (vin txTo) \<le> nIn \<or> hash_single nHashType \<and> length (vout txTo) \<le> nIn then uint256_one
     else SerializeHash (signed_bytes (sighash_tx scriptCode txTo nIn nHashType) @ ser_int32 nHashType))"
  by (simp add: SignatureHash_def sg_Serialize_blank [OF assms] CHashWriter_pieces SerializeHash_sha256 del: foldl.simps)

text \<open>
  C7: for every script code that decodes and every hash type, the serializer that blanks the transaction in
  place gives the hash of \<open>SignatureHashOld\<close>, the construction of the unit tests that builds the blanked
  transaction (scripts of the other inputs emptied, separators removed from the script code, inputs, outputs
  and sequence numbers that the hash type leaves open dropped or reset, the number 1 for an index out of
  range) and hashes its serialization, if the transaction has version 2 or more.  Below version 2 the two
  differ in one place: the signature serializer writes \<open>strDZeel\<close>, which the serialization of a
  transaction omits there.  The witnesses play no part.
\<close>

theorem SignatureHash_reference:
  assumes "decodable scriptCode"
  shows "(2 \<le> nVersion txTo \<longrightarrow>
      SignatureHashOld scriptCode (txTo\<lparr>wit := []\<rparr>) nIn nHashType =
        Some (SignatureHash scriptCode txTo nIn nHashType amount SIGVERSION_BASE cache))
    \<and> (nVersion txTo < 2 \<longrightarrow>
      SignatureHash scriptCode txTo nIn nHashType amount SIGVERSION_BASE cache =
        (case old_txTmp scriptCode (txTo\<lparr>wit := []\<rparr>) nIn nHashType of
           None \<Rightarrow> uint256_one
         | Some txTmp \<Rightarrow> SerializeHash (the (SerializeTransaction_write True txTmp)
             @ ser_bytes (strDZeel txTo) @ ser_int32 nHashType)))"
proof -
  let ?t = "(sighash_tx scriptCode txTo nIn nHashType)\<lparr>wit := []\<rparr>"
  note w = signed_bytes_write [of ?t, simplified signed_bytes_wit, simplified]
  have f: "nVersion ?t = nVersion txTo" "strDZeel ?t = strDZeel txTo" by (simp_all add: sighash_tx_def)
  obtain b where b: "SerializeTransaction_write True ?t = Some b" using w(2) by blast
  have sb: "signed_bytes (sighash_tx scriptCode txTo nIn nHashType)
      = b @ (if nVersion txTo < 2 then ser_bytes (strDZeel txTo) else [])"
    using w(1) b f by simp
  show ?thesis
    unfolding SignatureHashOld_def old_txTmp_blank [OF assms] SignatureHash_base [OF assms] sighash_tx_wit sb
    using b by auto
qed

theorem SignatureHash_reference_witness:
  "let tx = \<lparr>nVersion = 2, nTime = 5, vin = [\<lparr>prevout = \<lparr>COutPoint.op_hash = replicate 32 7, op_n = 1\<rparr>, scriptSig = [0x51], nSequence = 9\<rparr>],
     vout = [\<lparr>nValue = 50, scriptPubKey = [0x51]\<rparr>], wit = [[[1, 2]]], nLockTime = 3, strDZeel = [65]\<rparr>
   in SignatureHashOld [0xab, 0xac] (tx\<lparr>wit := []\<rparr>) 0 3
        = Some (SignatureHash [0xab, 0xac] tx 0 3 0 SIGVERSION_BASE None)
    \<and> SignatureHash [0xab, 0xac] (tx\<lparr>nVersion := 1\<rparr>) 0 3 0 SIGVERSION_BASE None
        = SerializeHash (the (SerializeTransaction_write True (sighash_tx [0xab, 0xac] (tx\<lparr>nVersion := 1, wit := []\<rparr>) 0 3))
            @ ser_bytes [65] @ ser_int32 3)"
proof -
  let ?tx = "\<lparr>nVersion = 2, nTime = 5, vin = [\<lparr>prevout = \<lparr>COutPoint.op_hash = replicate 32 7, op_n = 1\<rparr>, scriptSig = [0x51], nSequence = 9\<rparr>],
     vout = [\<lparr>nValue = 50, scriptPubKey = [0x51]\<rparr>], wit = [[[1, 2]]], nLockTime = 3, strDZeel = [65]\<rparr>"
  have d: "decodable [0xab, 0xac]" by (simp add: decodable.simps GetOp2_def)
  have "old_txTmp [0xab, 0xac] (?tx\<lparr>nVersion := 1, wit := []\<rparr>) 0 3
      = Some (sighash_tx [0xab, 0xac] (?tx\<lparr>nVersion := 1, wit := []\<rparr>) 0 3)"
    by (subst old_txTmp_blank [OF d]) simp
  then show ?thesis
    using SignatureHash_reference [OF d, of ?tx 0 3 0 None]
      SignatureHash_reference [OF d, of "?tx\<lparr>nVersion := 1\<rparr>" 0 3 0 None]
    unfolding Let_def by simp
qed

section \<open>What a signature commits to\<close>

interpretation int32_codec: codec ser_int32 unser_int32 "\<lambda>a. - (2 ^ 31) \<le> a \<and> a < 2 ^ 31"
  by unfold_locales (simp add: unser_int32_rt)

lemmas field_prefix_free = int32_codec.prefix_free u32_codec.prefix_free bytes_codec.prefix_free
  codec.prefix_free [OF txin_codec.vector_codec] codec.prefix_free [OF txout_codec.vector_codec]

lemma signed_bytes_inj:
  assumes "wf_tx t" "wf_tx t'" "signed_bytes t @ r = signed_bytes t' @ r'"
  shows "nVersion t = nVersion t' \<and> nTime t = nTime t' \<and> vin t = vin t' \<and> vout t = vout t' \<and>
    nLockTime t = nLockTime t' \<and> strDZeel t = strDZeel t'"
proof -
  note eq = assms(3) [unfolded signed_bytes_def append_assoc]
  note wf = assms(1,2) [unfolded wf_tx_def]
  have 1: "nVersion t = nVersion t' \<and> ser_writedata32 (nTime t) @ ser_vector ser_txin (vin t) @ ser_vector ser_txout (vout t) @
      ser_writedata32 (nLockTime t) @ ser_bytes (strDZeel t) @ r = ser_writedata32 (nTime t') @ ser_vector ser_txin (vin t') @
      ser_vector ser_txout (vout t') @ ser_writedata32 (nLockTime t') @ ser_bytes (strDZeel t') @ r'"
    using field_prefix_free(1) [OF _ _ eq] wf by blast
  note 2 = field_prefix_free(2) [OF TrueI TrueI conjunct2 [OF 1]]
  have 3: "vin t = vin t' \<and> ser_vector ser_txout (vout t) @ ser_writedata32 (nLockTime t) @ ser_bytes (strDZeel t) @ r =
      ser_vector ser_txout (vout t') @ ser_writedata32 (nLockTime t') @ ser_bytes (strDZeel t') @ r'"
    using field_prefix_free(4) [OF _ _ conjunct2 [OF 2]] wf by blast
  have 4: "vout t = vout t' \<and> ser_writedata32 (nLockTime t) @ ser_bytes (strDZeel t) @ r =
      ser_writedata32 (nLockTime t') @ ser_bytes (strDZeel t') @ r'"
    using field_prefix_free(5) [OF _ _ conjunct2 [OF 3]] wf by blast
  note 5 = field_prefix_free(2) [OF TrueI TrueI conjunct2 [OF 4]]
  have 6: "strDZeel t = strDZeel t'" using field_prefix_free(3) [OF _ _ conjunct2 [OF 5]] wf by blast
  show ?thesis using 1 2 3 4 5 6 by blast
qed

lemma strip_separators_shorter: "decodable sc \<Longrightarrow> length (strip_separators sc) \<le> length sc"
  using count_separators_strip [of sc 0] by simp

lemma wf_sighash_tx:
  assumes "wf_tx tx" "decodable sc" "length sc \<le> MAX_SIZE"
  shows "wf_tx ((sighash_tx sc tx nIn 1)\<lparr>wit := []\<rparr>)"
  using assms strip_separators_shorter [OF assms(2)]
  by (auto simp: wf_tx_def sighash_tx_def wf_txin_def blank_input_def list_all_length)

text \<open>
  C21: in the legacy format (\<open>SIGVERSION_BASE\<close>), a signature over everything commits to everything.
  For well-formed transactions, script codes that decode and an input index in range of both, where the hash
  does not collide on the two preimages, equal \<open>SIGHASH_ALL\<close> hashes of two transactions mean equal versions, times, outpoints, sequence
  numbers, outputs, lock times and messages, and equal script codes up to separators.
\<close>

theorem SignatureHash_all_commits:
  assumes "wf_tx t1" "wf_tx t2" "decodable sc1" "decodable sc2" "length sc1 \<le> MAX_SIZE" "length sc2 \<le> MAX_SIZE"
    and "nIn < length (vin t1)" "nIn < length (vin t2)"
    and collision_free: "\<And>a b. a = sg_Serialize (CTransactionSignatureSerializer_ctor t1 sc1 nIn 1) @ ser_int32 1 \<Longrightarrow>
      b = sg_Serialize (CTransactionSignatureSerializer_ctor t2 sc2 nIn 1) @ ser_int32 1 \<Longrightarrow>
      SerializeHash a = SerializeHash b \<Longrightarrow> a = b"
    and "SignatureHash sc1 t1 nIn 1 a1 SIGVERSION_BASE c1 = SignatureHash sc2 t2 nIn 1 a2 SIGVERSION_BASE c2"
  shows "nVersion t1 = nVersion t2 \<and> nTime t1 = nTime t2 \<and> map prevout (vin t1) = map prevout (vin t2) \<and>
    map nSequence (vin t1) = map nSequence (vin t2) \<and> vout t1 = vout t2 \<and> nLockTime t1 = nLockTime t2 \<and>
    strDZeel t1 = strDZeel t2 \<and> strip_separators sc1 = strip_separators sc2"
proof -
  let ?s1 = "sighash_tx sc1 t1 nIn 1" and ?s2 = "sighash_tx sc2 t2 nIn 1"
  have "signed_bytes ?s1 @ ser_int32 1 = signed_bytes ?s2 @ ser_int32 1"
    using assms(7,8,10) collision_free [OF refl refl]
    by (simp add: SignatureHash_def CHashWriter_pieces SerializeHash_sha256 sg_Serialize_blank [OF assms(3)]
        sg_Serialize_blank [OF assms(4)] del: foldl.simps)
  then have eq: "nVersion ?s1 = nVersion ?s2 \<and> nTime ?s1 = nTime ?s2 \<and> vin ?s1 = vin ?s2 \<and> vout ?s1 = vout ?s2 \<and>
      nLockTime ?s1 = nLockTime ?s2 \<and> strDZeel ?s1 = strDZeel ?s2"
    using signed_bytes_inj [OF wf_sighash_tx [OF assms(1,3,5), of nIn] wf_sighash_tx [OF assms(2,4,6), of nIn]]
    by (simp add: signed_bytes_wit)
  then have v: "map (blank_input sc1 t1 nIn 1) [0..<length (vin t1)] = map (blank_input sc2 t2 nIn 1) [0..<length (vin t2)]"
    by (simp add: sighash_tx_def)
  have n: "length (vin t1) = length (vin t2)" using arg_cong [OF v, of length] by simp
  have b: "blank_input sc1 t1 nIn 1 i = blank_input sc2 t2 nIn 1 i" if "i < length (vin t1)" for i
    using that n arg_cong [OF v, of "\<lambda>l. l ! i"] by simp
  have "prevout (vin t1 ! i) = prevout (vin t2 ! i) \<and> nSequence (vin t1 ! i) = nSequence (vin t2 ! i)"
    if "i < length (vin t1)" for i
    using b [OF that] by (simp add: blank_input_def split: if_splits)
  moreover have "strip_separators sc1 = strip_separators sc2"
    using b [OF assms(7)] by (simp add: blank_input_def)
  ultimately show ?thesis
    using eq n by (auto simp: sighash_tx_def intro!: nth_equalityI)
qed

theorem SignatureHash_all_commits_witness:
  "let tx = \<lparr>nVersion = 2, nTime = 5, vin = [\<lparr>prevout = \<lparr>COutPoint.op_hash = replicate 32 7, op_n = 1\<rparr>, scriptSig = [0x51], nSequence = 9\<rparr>],
     vout = [\<lparr>nValue = 50, scriptPubKey = [0x51]\<rparr>], wit = [[[1, 2]]], nLockTime = 3, strDZeel = [65]\<rparr>
   in SignatureHash [0xab, 0xac] tx 0 1 0 SIGVERSION_BASE None = SignatureHash [0xac] tx 0 1 0 SIGVERSION_BASE None \<and>
     strip_separators [0xab, 0xac] = strip_separators [0xac]"
proof -
  let ?tx = "\<lparr>nVersion = 2, nTime = 5, vin = [\<lparr>prevout = \<lparr>COutPoint.op_hash = replicate 32 7, op_n = 1\<rparr>, scriptSig = [0x51], nSequence = 9\<rparr>],
     vout = [\<lparr>nValue = 50, scriptPubKey = [0x51]\<rparr>], wit = [[[1, 2]]], nLockTime = 3, strDZeel = [65]\<rparr>"
  have d: "decodable [0xab, 0xac]" "decodable [0xac]" by (simp_all add: decodable.simps GetOp2_def)
  have "strip_separators [0xab, 0xac] = strip_separators [0xac]"
    by (simp add: strip_separators.simps GetOp2_def)
  then have s: "sighash_tx [0xab, 0xac] ?tx 0 1 = sighash_tx [0xac] ?tx 0 1" by (simp add: sighash_tx_def blank_input_def)
  have e: "SignatureHash [0xab, 0xac] ?tx 0 1 0 SIGVERSION_BASE None = SignatureHash [0xac] ?tx 0 1 0 SIGVERSION_BASE None"
    using s by (simp add: SignatureHash_def sg_Serialize_blank [OF d(1)] sg_Serialize_blank [OF d(2)])
  show ?thesis
    using SignatureHash_all_commits [OF wf_tx_sample wf_tx_sample d, of 0 0 None 0 None] e s
    by (simp add: sg_Serialize_blank [OF d(1)] sg_Serialize_blank [OF d(2)])
qed

text \<open>
  C39: the witness format does not sign the time and the message of a transaction. The witness
  signature hash is the same whatever \<open>nTime\<close> and \<open>strDZeel\<close> hold, and whether the partial hashes were
  precomputed or not, so both fields can be changed without invalidating such a signature.
\<close>

theorem witness_SignatureHash_omits:
  "SignatureHash sc (tx\<lparr>nTime := t, strDZeel := d\<rparr>) nIn ht amount SIGVERSION_WITNESS_V0 None =
     SignatureHash sc tx nIn ht amount SIGVERSION_WITNESS_V0 (Some (PrecomputedTransactionData_ctor tx))"
  by (simp add: SignatureHash_def witness_hashPrevouts_def witness_hashSequence_def witness_hashOutputs_def
      PrecomputedTransactionData_ctor_def GetPrevoutHash_def GetSequenceHash_def GetOutputsHash_def)

end
