(* ===== verification/Sigcache.thy ===== *)
theory Sigcache
  imports Sighash
begin

text \<open>
  The cache of verified signatures: \<^verbatim>\<open>src/src/script/sigcache.cpp\<close>.  The memory estimate of the hash set
  and the random choice of the entry to evict are parameters: \<open>usage\<close> gives the estimate, and \<open>picks\<close> lists
  what the successive draws hit, \<open>None\<close> for an empty bucket.
\<close>

section \<open>The cache\<close>

record CSignatureCache =
  nonce :: uint256
  setValid :: "uint256 set"

definition ComputeEntry :: "CSignatureCache \<Rightarrow> uint256 \<Rightarrow> bytes \<Rightarrow> CPubKey \<Rightarrow> uint256" where
  "ComputeEntry cache hash vchSig pubkey =
     snd (CSHA256_Finalize (CSHA256_Write (CSHA256_Write (CSHA256_Write (CSHA256_Write CSHA256_ctor
       (nonce cache)) hash) (CPubKey_bytes pubkey)) vchSig))"

definition SigCache_Get :: "CSignatureCache \<Rightarrow> uint256 \<Rightarrow> bool" where
  "SigCache_Get cache entry \<longleftrightarrow> entry \<in> setValid cache"

definition SigCache_Erase :: "CSignatureCache \<Rightarrow> uint256 \<Rightarrow> CSignatureCache" where
  "SigCache_Erase cache entry = cache\<lparr>setValid := setValid cache - {entry}\<rparr>"

text \<open>
  Erasing does not rehash, so that for the table of one call the memory is a function of the set; its value on the
  empty set is what the buckets take.  A draw is the first entry of a random bucket, if it has one.  \<open>None\<close>: the draws
  listed do not bring the set below its limit.
\<close>

fun evict_loop :: "(uint256 set \<Rightarrow> nat) \<Rightarrow> nat \<Rightarrow> uint256 option list \<Rightarrow> uint256 set \<Rightarrow> uint256 set option" where
  "evict_loop usage nMaxCacheSize [] s = (if nMaxCacheSize < usage s then None else Some s)"
| "evict_loop usage nMaxCacheSize (p # picks) s =
     (if nMaxCacheSize < usage s
      then evict_loop usage nMaxCacheSize picks (case p of Some e \<Rightarrow> s - {e} | None \<Rightarrow> s)
      else Some s)"

definition SigCache_Set ::
  "(uint256 set \<Rightarrow> nat) \<Rightarrow> nat \<Rightarrow> uint256 option list \<Rightarrow> CSignatureCache \<Rightarrow> uint256 \<Rightarrow> CSignatureCache option" where
  "SigCache_Set usage nMaxCacheSize picks cache entry =
     (if nMaxCacheSize \<le> 0 then Some cache
      else case evict_loop usage nMaxCacheSize picks (setValid cache) of
             None \<Rightarrow> None
           | Some s \<Rightarrow> Some (cache\<lparr>setValid := insert entry s\<rparr>))"

definition Caching_VerifySignature ::
  "('pk, 'sig) secp256k1 \<Rightarrow> (uint256 set \<Rightarrow> nat) \<Rightarrow> nat \<Rightarrow> uint256 option list \<Rightarrow> bool \<Rightarrow>
   CSignatureCache \<Rightarrow> bytes \<Rightarrow> CPubKey \<Rightarrow> uint256 \<Rightarrow> (bool \<times> CSignatureCache) option" where
  "Caching_VerifySignature ctx usage nMaxCacheSize picks store cache vchSig pubkey sighash =
     (let entry = ComputeEntry cache sighash vchSig pubkey in
      if SigCache_Get cache entry then Some (True, if \<not> store then SigCache_Erase cache entry else cache)
      else if \<not> VerifySignature ctx vchSig pubkey sighash then Some (False, cache)
      else if store
      then map_option (\<lambda>cache. (True, cache)) (SigCache_Set usage nMaxCacheSize picks cache entry)
      else Some (True, cache))"

section \<open>Entries\<close>

text \<open>What an entry hashes: a valid key announces its own length, so the fields cannot run together.\<close>

definition entry_bytes :: "uint256 \<Rightarrow> uint256 \<Rightarrow> bytes \<Rightarrow> CPubKey \<Rightarrow> bytes" where
  "entry_bytes n hash vchSig pubkey = n @ hash @ CPubKey_bytes pubkey @ vchSig"

lemma ComputeEntry_sha256: "ComputeEntry cache hash vchSig pubkey = sha256 (entry_bytes (nonce cache) hash vchSig pubkey)"
  using CSHA256_Finalize_rep [OF CSHA256_Write_rep [OF CSHA256_Write_rep [OF CSHA256_Write_rep
    [OF CSHA256_Write_rep [OF CSHA256_ctor_rep]]]]]
  by (simp add: ComputeEntry_def entry_bytes_def)

lemma CPubKey_bytes_prefix:
  assumes "CPubKey_IsValid p" "CPubKey_IsValid q" "length p = 65" "length q = 65"
    and "CPubKey_bytes p @ s = CPubKey_bytes q @ t"
  shows "CPubKey_bytes p = CPubKey_bytes q \<and> s = t"
proof -
  have n: "0 < CPubKey_size p" "CPubKey_size p \<le> 65" "0 < CPubKey_size q" "CPubKey_size q \<le> 65"
    using assms(1,2) by (auto simp: CPubKey_IsValid_def CPubKey_size_def GetLen_def split: if_splits)
  then have "(CPubKey_bytes p @ s) ! 0 = p ! 0" "(CPubKey_bytes q @ t) ! 0 = q ! 0"
    using assms(3,4) by (simp_all add: CPubKey_bytes_def nth_append)
  then have "CPubKey_size p = CPubKey_size q" using assms(5) by (simp add: CPubKey_size_def)
  then show ?thesis using assms(3-5) n by (simp add: CPubKey_bytes_def)
qed

lemma CPubKey_Verify_bytes:
  assumes "CPubKey_IsValid p" "CPubKey_IsValid q" "CPubKey_bytes p = CPubKey_bytes q"
  shows "CPubKey_Verify ctx p h s = CPubKey_Verify ctx q h s"
  using assms by (simp add: CPubKey_Verify_def)

lemma entry_bytes_inj:
  assumes "entry_bytes n h s p = entry_bytes n h' s' p'" "length h = 32" "length h' = 32"
    and "CPubKey_IsValid p" "CPubKey_IsValid p'" "length p = 65" "length p' = 65"
  shows "h = h' \<and> s = s' \<and> CPubKey_bytes p = CPubKey_bytes p'"
  using assms CPubKey_bytes_prefix [of p p' s s'] by (auto simp: entry_bytes_def)

section \<open>The cache answers as the verification would\<close>

text \<open>
  Every entry of the set comes from a signature that verified, here one of the list \<open>V\<close> of hash,
  signature and key; the list is what the cache has been asked to store so far.
\<close>

definition cache_ok :: "('pk, 'sig) secp256k1 \<Rightarrow> (uint256 \<times> bytes \<times> CPubKey) list \<Rightarrow> CSignatureCache \<Rightarrow> bool" where
  "cache_ok ctx V cache \<longleftrightarrow>
     list_all (\<lambda>(h, s, p). length h = 32 \<and> length p = 65 \<and> CPubKey_IsValid p \<and> CPubKey_Verify ctx p h s) V \<and>
     setValid cache \<subseteq> set (map (\<lambda>(h, s, p). ComputeEntry cache h s p) V)"

lemma evict_loop_returns:
  assumes "usage {} \<le> m" "Some ` s \<subseteq> set picks"
  shows "\<exists>s'. evict_loop usage m picks s = Some s' \<and> s' \<subseteq> s"
  using assms(2)
proof (induction picks arbitrary: s)
  case Nil
  then show ?case using assms(1) by auto
next
  case (Cons p picks)
  have "Some ` (case p of Some e \<Rightarrow> s - {e} | None \<Rightarrow> s) \<subseteq> set picks"
    using Cons.prems by (auto split: option.splits)
  from Cons.IH [OF this] show ?case by (auto split: option.splits)
qed

lemma ComputeEntry_nonce: "nonce c = nonce c' \<Longrightarrow> ComputeEntry c = ComputeEntry c'"
  by (simp add: ComputeEntry_def fun_eq_iff)

lemma cache_ok_subset:
  assumes "cache_ok ctx V cache" "s \<subseteq> setValid cache"
  shows "cache_ok ctx V (cache\<lparr>setValid := s\<rparr>)"
  using assms ComputeEntry_nonce [of "cache\<lparr>setValid := s\<rparr>" cache] by (auto simp: cache_ok_def)

lemma cache_ok_insert:
  assumes "cache_ok ctx V cache" "VerifySignature ctx vchSig pubkey sighash"
    and "length sighash = 32" "length pubkey = 65" "CPubKey_IsValid pubkey" "s \<subseteq> setValid cache"
  shows "cache_ok ctx ((sighash, vchSig, pubkey) # V)
    (cache\<lparr>setValid := insert (ComputeEntry cache sighash vchSig pubkey) s\<rparr>)"
  using assms ComputeEntry_nonce [of "cache\<lparr>setValid := insert (ComputeEntry cache sighash vchSig pubkey) s\<rparr>" cache]
  by (auto simp: cache_ok_def VerifySignature_def)

lemma SigCache_Set_ok:
  assumes "cache_ok ctx V cache" "VerifySignature ctx vchSig pubkey sighash"
    and "length sighash = 32" "length pubkey = 65" "CPubKey_IsValid pubkey"
    and "usage {} \<le> m" "Some ` setValid cache \<subseteq> set picks"
  shows "\<exists>cache'. SigCache_Set usage m picks cache (ComputeEntry cache sighash vchSig pubkey) = Some cache' \<and>
    cache_ok ctx ((sighash, vchSig, pubkey) # V) cache'"
proof -
  obtain s where s: "evict_loop usage m picks (setValid cache) = Some s" "s \<subseteq> setValid cache"
    using evict_loop_returns [of usage m "setValid cache" picks] assms(6,7) by blast
  have "cache_ok ctx ((sighash, vchSig, pubkey) # V) cache"
    using assms(1-5) by (auto simp: cache_ok_def VerifySignature_def)
  then show ?thesis
    using s cache_ok_insert [OF assms(1-5) s(2)] by (auto simp: SigCache_Set_def)
qed

text \<open>
  C14: the signature cache is transparent. As long as its set holds only entries of signatures that
  verified, and the hash does not collide with one of them, a lookup answers exactly what the verification of
  this hash, signature and valid key would answer, and leaves a cache with the same guarantee; the call returns
  as soon as the random draws have hit the entries to evict.
\<close>

theorem sigcache_transparent:
  assumes "cache_ok ctx V cache" "length sighash = 32" "length pubkey = 65" "CPubKey_IsValid pubkey"
    and "usage {} \<le> nMaxCacheSize" "Some ` setValid cache \<subseteq> set picks"
    and collision_free: "\<And>h s p. (h, s, p) \<in> set V \<Longrightarrow>
      ComputeEntry cache h s p = ComputeEntry cache sighash vchSig pubkey \<Longrightarrow>
      entry_bytes (nonce cache) h s p = entry_bytes (nonce cache) sighash vchSig pubkey"
  shows "\<exists>cache' V'. Caching_VerifySignature ctx usage nMaxCacheSize picks store cache vchSig pubkey sighash =
      Some (VerifySignature ctx vchSig pubkey sighash, cache') \<and>
    cache_ok ctx V' cache' \<and> set V' \<subseteq> insert (sighash, vchSig, pubkey) (set V)"
proof (cases "SigCache_Get cache (ComputeEntry cache sighash vchSig pubkey)")
  case True
  then obtain h s p where v: "(h, s, p) \<in> set V" "ComputeEntry cache h s p = ComputeEntry cache sighash vchSig pubkey"
    using assms(1) by (force simp: cache_ok_def SigCache_Get_def)
  then have p: "length h = 32" "length p = 65" "CPubKey_IsValid p" "CPubKey_Verify ctx p h s"
    using assms(1) by (auto simp: cache_ok_def list_all_iff)
  have "h = sighash \<and> s = vchSig \<and> CPubKey_bytes p = CPubKey_bytes pubkey"
    using entry_bytes_inj [OF collision_free [OF v]] p assms(2-4) by blast
  then have "VerifySignature ctx vchSig pubkey sighash"
    using p(4) CPubKey_Verify_bytes [OF p(3) assms(4), of ctx] by (simp add: VerifySignature_def)
  moreover have "cache_ok ctx V (SigCache_Erase cache e)" for e
    unfolding SigCache_Erase_def by (rule cache_ok_subset [OF assms(1)]) blast
  ultimately show ?thesis
    using True assms(1) by (auto simp: Caching_VerifySignature_def Let_def intro!: exI [of _ V])
next
  case False
  show ?thesis
  proof (cases "VerifySignature ctx vchSig pubkey sighash \<and> store")
    case True
    then obtain cache' where c: "SigCache_Set usage nMaxCacheSize picks cache (ComputeEntry cache sighash vchSig pubkey) = Some cache'"
      "cache_ok ctx ((sighash, vchSig, pubkey) # V) cache'"
      using SigCache_Set_ok [of ctx V cache vchSig pubkey sighash usage nMaxCacheSize picks] assms(1-6) by blast
    then show ?thesis
      using False True by (intro exI [of _ cache'] exI [of _ "(sighash, vchSig, pubkey) # V"])
        (auto simp: Caching_VerifySignature_def Let_def)
  next
    case no: False
    then show ?thesis
      using False assms(1) by (intro exI [of _ cache] exI [of _ V]) (auto simp: Caching_VerifySignature_def Let_def)
  qed
qed

definition accepting_secp256k1 :: "(unit, unit) secp256k1" where
  "accepting_secp256k1 = \<lparr>ec_pubkey_parse = \<lambda>_. Some (), signature_parse_compact = \<lambda>_. (True, ()),
     signature_normalize = \<lambda>s. (False, s), ecdsa_verify = \<lambda>_ _ _. True, ec_pubkey_serialize = \<lambda>_ _. [],
     ec_pubkey_tweak_add = \<lambda>_ _. None, ecdsa_recover_compact = \<lambda>_ _ _. None\<rparr>"

theorem sigcache_transparent_witness:
  "let cache = \<lparr>nonce = replicate 32 1, setValid = {}\<rparr>;
       h = replicate 32 9; p = 2 # replicate 64 0; s = [0x30, 6, 2, 1, 5, 2, 1, 7];
       cache1 = cache\<lparr>setValid := {ComputeEntry cache h s p}\<rparr>
   in \<exists>cache'. Caching_VerifySignature accepting_secp256k1 card 4 [Some (ComputeEntry cache h s p)] False cache1 s p h =
        Some (VerifySignature accepting_secp256k1 s p h, cache')"
proof -
  let ?c = "\<lparr>nonce = replicate 32 1, setValid = {}\<rparr>" and ?h = "replicate 32 9" and ?p = "2 # replicate 64 0"
    and ?s = "[0x30, 6, 2, 1, 5, 2, 1, 7]"
  have v: "CPubKey_IsValid ?p" by (simp add: CPubKey_IsValid_def CPubKey_size_def GetLen_def)
  have "CPubKey_Verify accepting_secp256k1 ?p ?h ?s"
    by (simp add: CPubKey_Verify_def v accepting_secp256k1_def ecdsa_signature_parse_der_lax_def der_lax_parse_def
        der_integer_def der_tmpsig_def strip_zeros_def)
  then have "cache_ok accepting_secp256k1 [(?h, ?s, ?p)] (?c\<lparr>setValid := {ComputeEntry ?c ?h ?s ?p}\<rparr>)"
    using v ComputeEntry_nonce [of "?c\<lparr>setValid := {ComputeEntry ?c ?h ?s ?p}\<rparr>" ?c] by (simp add: cache_ok_def)
  from sigcache_transparent [OF this _ _ v, of ?h card 4 "[Some (ComputeEntry ?c ?h ?s ?p)]" ?s False]
  show ?thesis by (auto simp: Let_def)
qed

end
