(* ===== verification/Chain.thy ===== *)
theory Chain
  imports Compact_Bits Transaction
begin

text \<open>
  The tree of block index entries and the active chain: \<^verbatim>\<open>src/src/chain.h\<close> and \<^verbatim>\<open>src/src/chain.cpp\<close>.
  A pointer to an entry is a natural number and the entries are a store, a function from pointers; \<open>None\<close> is
  the null pointer.  Where a function can fail an assertion or run on a store that is not a tree, its result is
  an option around the value the code returns.
\<close>

section \<open>Block files\<close>

record CBlockFileInfo =
  fi_nBlocks :: u32
  fi_nSize :: u32
  fi_nUndoSize :: u32
  fi_nHeightFirst :: u32
  fi_nHeightLast :: u32
  fi_nTimeFirst :: u64
  fi_nTimeLast :: u64

definition CBlockFileInfo_SetNull :: CBlockFileInfo where
  "CBlockFileInfo_SetNull = \<lparr>fi_nBlocks = 0, fi_nSize = 0, fi_nUndoSize = 0, fi_nHeightFirst = 0, fi_nHeightLast = 0,
     fi_nTimeFirst = 0, fi_nTimeLast = 0\<rparr>"

definition AddBlock :: "CBlockFileInfo \<Rightarrow> u32 \<Rightarrow> u64 \<Rightarrow> CBlockFileInfo" where
  "AddBlock fi nHeightIn nTimeIn =
     (let fi = (if fi_nBlocks fi = 0 \<or> nHeightIn < fi_nHeightFirst fi then fi\<lparr>fi_nHeightFirst := nHeightIn\<rparr> else fi);
          fi = (if fi_nBlocks fi = 0 \<or> nTimeIn < fi_nTimeFirst fi then fi\<lparr>fi_nTimeFirst := nTimeIn\<rparr> else fi);
          fi = fi\<lparr>fi_nBlocks := fi_nBlocks fi + 1\<rparr>;
          fi = (if fi_nHeightLast fi < nHeightIn then fi\<lparr>fi_nHeightLast := nHeightIn\<rparr> else fi)
      in if fi_nTimeLast fi < nTimeIn then fi\<lparr>fi_nTimeLast := nTimeIn\<rparr> else fi)"

record CDiskBlockPos =
  dp_nFile :: int
  dp_nPos :: u32

definition CDiskBlockPos_SetNull :: CDiskBlockPos where
  "CDiskBlockPos_SetNull = \<lparr>dp_nFile = - 1, dp_nPos = 0\<rparr>"

definition CDiskBlockPos_IsNull :: "CDiskBlockPos \<Rightarrow> bool" where
  "CDiskBlockPos_IsNull pos \<longleftrightarrow> dp_nFile pos = - 1"

section \<open>Block index entries\<close>

abbreviation (input) BLOCK_PROOF_OF_STAKE :: u32 where "BLOCK_PROOF_OF_STAKE \<equiv> 1"
abbreviation (input) BLOCK_STAKE_ENTROPY :: u32 where "BLOCK_STAKE_ENTROPY \<equiv> 2"
abbreviation (input) BLOCK_STAKE_MODIFIER :: u32 where "BLOCK_STAKE_MODIFIER \<equiv> 4"
abbreviation (input) BLOCK_VALID_MASK :: u32 where "BLOCK_VALID_MASK \<equiv> 1 OR 2 OR 3 OR 4 OR 6 OR 5"
abbreviation (input) BLOCK_HAVE_DATA :: u32 where "BLOCK_HAVE_DATA \<equiv> 8"
abbreviation (input) BLOCK_HAVE_UNDO :: u32 where "BLOCK_HAVE_UNDO \<equiv> 16"
abbreviation (input) BLOCK_FAILED_MASK :: u32 where "BLOCK_FAILED_MASK \<equiv> 32 OR 64"

type_synonym block_ptr = nat

record CBlockIndex =
  phashBlock :: "uint256 option"
  pprev :: "block_ptr option"
  pnext :: "block_ptr option"
  pskip :: "block_ptr option"
  nHeight :: int
  bi_nFile :: int
  bi_nDataPos :: u32
  bi_nUndoPos :: u32
  nChainWork :: base_uint
  bi_nTx :: u32
  bi_nChainTx :: u32
  bi_nStatus :: u32
  bi_nVersion :: int
  bi_hashMerkleRoot :: uint256
  bi_nTime :: u32
  bi_nBits :: u32
  bi_nNonce :: u32
  bi_nMint :: int
  bi_nMoneySupply :: int
  bi_nDividendFund :: int
  bi_strDZeel :: bytes
  bi_nFlags :: u32
  bi_nStakeModifier :: u64
  bi_prevoutStake :: COutPoint
  bi_nStakeTime :: u32
  bi_hashProof :: base_uint
  bi_nSequenceId :: u32

type_synonym block_store = "block_ptr \<Rightarrow> CBlockIndex"

definition CBlockIndex_SetNull :: "CBlockIndex \<Rightarrow> CBlockIndex" where
  "CBlockIndex_SetNull b =
     \<lparr>phashBlock = None, pprev = None, pnext = None, pskip = None, nHeight = 0, bi_nFile = 0, bi_nDataPos = 0,
      bi_nUndoPos = 0, nChainWork = base_uint_zero, bi_nTx = 0, bi_nChainTx = 0, bi_nStatus = 0, bi_nVersion = 0,
      bi_hashMerkleRoot = replicate 32 0, bi_nTime = 0, bi_nBits = 0, bi_nNonce = 0, bi_nMint = 0,
      bi_nMoneySupply = 0, bi_nDividendFund = 0, bi_strDZeel = bi_strDZeel b, bi_nFlags = 0, bi_nStakeModifier = 0,
      bi_prevoutStake = COutPoint_SetNull (bi_prevoutStake b), bi_nStakeTime = 0, bi_hashProof = base_uint_zero,
      bi_nSequenceId = bi_nSequenceId b\<rparr>"

text \<open>The hash is behind a pointer, which is set before it is read.\<close>

definition GetBlockHash :: "CBlockIndex \<Rightarrow> uint256" where
  "GetBlockHash b = the (phashBlock b)"

definition GetBlockPos :: "CBlockIndex \<Rightarrow> CDiskBlockPos" where
  "GetBlockPos b =
     (if bi_nStatus b AND BLOCK_HAVE_DATA \<noteq> 0 then \<lparr>dp_nFile = bi_nFile b, dp_nPos = bi_nDataPos b\<rparr>
      else CDiskBlockPos_SetNull)"

definition GetUndoPos :: "CBlockIndex \<Rightarrow> CDiskBlockPos" where
  "GetUndoPos b =
     (if bi_nStatus b AND BLOCK_HAVE_UNDO \<noteq> 0 then \<lparr>dp_nFile = bi_nFile b, dp_nPos = bi_nUndoPos b\<rparr>
      else CDiskBlockPos_SetNull)"

definition GetBlockTime :: "CBlockIndex \<Rightarrow> int" where
  "GetBlockTime b = uint (bi_nTime b)"

definition GetPastTimeLimit :: "CBlockIndex \<Rightarrow> int" where
  "GetPastTimeLimit b = GetBlockTime b - 120"

fun past_times :: "nat \<Rightarrow> block_store \<Rightarrow> block_ptr option \<Rightarrow> int list" where
  "past_times 0 store pindex = []"
| "past_times (Suc n) store None = []"
| "past_times (Suc n) store (Some p) = past_times n store (pprev (store p)) @ [GetBlockTime (store p)]"

definition GetMedianTimePast :: "block_store \<Rightarrow> block_ptr \<Rightarrow> int" where
  "GetMedianTimePast store pindex =
     (let times = sort (past_times 11 store (Some pindex)) in times ! (length times div 2))"

text \<open>\<open>None\<close>: the assertion that only validity flags are passed.\<close>

definition IsValid :: "CBlockIndex \<Rightarrow> u32 \<Rightarrow> bool option" where
  "IsValid b nUpTo =
     (if nUpTo AND NOT BLOCK_VALID_MASK \<noteq> 0 then None
      else if bi_nStatus b AND BLOCK_FAILED_MASK \<noteq> 0 then Some False
      else Some (nUpTo \<le> bi_nStatus b AND BLOCK_VALID_MASK))"

definition RaiseValidity :: "CBlockIndex \<Rightarrow> u32 \<Rightarrow> (bool \<times> CBlockIndex) option" where
  "RaiseValidity b nUpTo =
     (if nUpTo AND NOT BLOCK_VALID_MASK \<noteq> 0 then None
      else if bi_nStatus b AND BLOCK_FAILED_MASK \<noteq> 0 then Some (False, b)
      else if bi_nStatus b AND BLOCK_VALID_MASK < nUpTo
      then Some (True, b\<lparr>bi_nStatus := (bi_nStatus b AND NOT BLOCK_VALID_MASK) OR nUpTo\<rparr>)
      else Some (False, b))"

definition IsProofOfWork :: "CBlockIndex \<Rightarrow> bool" where
  "IsProofOfWork b \<longleftrightarrow> \<not> (bi_nFlags b AND BLOCK_PROOF_OF_STAKE \<noteq> 0)"

definition IsProofOfStake :: "CBlockIndex \<Rightarrow> bool" where
  "IsProofOfStake b \<longleftrightarrow> bi_nFlags b AND BLOCK_PROOF_OF_STAKE \<noteq> 0"

definition SetProofOfStake :: "CBlockIndex \<Rightarrow> CBlockIndex" where
  "SetProofOfStake b = b\<lparr>bi_nFlags := bi_nFlags b OR BLOCK_PROOF_OF_STAKE\<rparr>"

definition GetStakeEntropyBit :: "CBlockIndex \<Rightarrow> u32" where
  "GetStakeEntropyBit b = drop_bit 1 (bi_nFlags b AND BLOCK_STAKE_ENTROPY)"

definition SetStakeEntropyBit :: "CBlockIndex \<Rightarrow> u32 \<Rightarrow> bool \<times> CBlockIndex" where
  "SetStakeEntropyBit b nEntropyBit =
     (if 1 < nEntropyBit then (False, b)
      else (True, b\<lparr>bi_nFlags := bi_nFlags b OR (if nEntropyBit \<noteq> 0 then BLOCK_STAKE_ENTROPY else 0)\<rparr>))"

definition SetStakeModifier :: "CBlockIndex \<Rightarrow> u64 \<Rightarrow> bool \<Rightarrow> CBlockIndex" where
  "SetStakeModifier b nModifier fGeneratedStakeModifier =
     (let b = b\<lparr>bi_nStakeModifier := nModifier\<rparr>
      in if fGeneratedStakeModifier then b\<lparr>bi_nFlags := bi_nFlags b OR BLOCK_STAKE_MODIFIER\<rparr> else b)"

definition GeneratedStakeModifier :: "CBlockIndex \<Rightarrow> bool" where
  "GeneratedStakeModifier b \<longleftrightarrow> bi_nFlags b AND BLOCK_STAKE_MODIFIER \<noteq> 0"

section \<open>Work\<close>

definition ArithToUint256 :: "base_uint \<Rightarrow> uint256" where
  "ArithToUint256 a = concat (map WriteLE32 a)"

definition GetBlockTrust :: "CBlockIndex \<Rightarrow> uint_error + uint256" where
  "GetBlockTrust b =
     (case SetCompact (bi_nBits b) of
        (bnTarget, fNegative, fOverflow) \<Rightarrow>
          if CompareTo bnTarget (base_uint_of_u64 0) \<le> 0 then Inr (replicate 32 0)
          else case uint_div (uint_shl (base_uint_of_u64 1) 256) (uint_add bnTarget (base_uint_of_u64 1)) of
                 Inl e \<Rightarrow> Inl e
               | Inr q \<Rightarrow> Inr (ArithToUint256 q))"

definition GetBlockProof :: "CBlockIndex \<Rightarrow> uint_error + base_uint" where
  "GetBlockProof block =
     (case SetCompact (bi_nBits block) of
        (bnTarget, fNegative, fOverflow) \<Rightarrow>
          if fNegative \<or> fOverflow \<or> EqualTo bnTarget 0 then Inr (base_uint_of_u64 0)
          else case uint_div (uint_not bnTarget) (uint_add bnTarget (base_uint_of_u64 1)) of
                 Inl e \<Rightarrow> Inl e
               | Inr q \<Rightarrow> Inr (uint_add q (base_uint_of_u64 1)))"

text \<open>A product of an \<open>int\<close> and an unsigned 64-bit number is unsigned and becomes signed on return.\<close>

definition GetBlockProofEquivalentTime :: "CBlockIndex \<Rightarrow> CBlockIndex \<Rightarrow> CBlockIndex \<Rightarrow> u64 \<Rightarrow> uint_error + int" where
  "GetBlockProofEquivalentTime to from tip nPowTargetSpacing =
     (let (r, sign) = (if 0 < CompareTo (nChainWork to) (nChainWork from)
                       then (uint_sub (nChainWork to) (nChainWork from), 1)
                       else (uint_sub (nChainWork from) (nChainWork to), - 1 :: int))
      in case GetBlockProof tip of
           Inl e \<Rightarrow> Inl e
         | Inr proof \<Rightarrow>
             (case uint_div (uint_mul r (base_uint_of_u64 nPowTargetSpacing)) proof of
                Inl e \<Rightarrow> Inl e
              | Inr r \<Rightarrow> if 63 < bits r then Inr (sign * (2 ^ 63 - 1))
                         else Inr (sint (word_of_int sign * GetLow64 r))))"

section \<open>Ancestors\<close>

definition InvertLowestOne :: "int \<Rightarrow> int" where
  "InvertLowestOne n = n AND (n - 1)"

definition GetSkipHeight :: "int \<Rightarrow> int" where
  "GetSkipHeight height =
     (if height < 2 then 0
      else if height AND 1 \<noteq> 0 then InvertLowestOne (InvertLowestOne (height - 1)) + 1
      else InvertLowestOne height)"

lemma InvertLowestOne_bounds:
  assumes "0 \<le> n"
  shows "0 \<le> InvertLowestOne n" "InvertLowestOne n \<le> n" "0 < n \<Longrightarrow> InvertLowestOne n < n"
  using assms AND_upper1 [of n "n - 1"] AND_upper2 [of "n - 1" n] by (auto simp: InvertLowestOne_def)

lemma GetSkipHeight_bounds:
  "0 \<le> GetSkipHeight h" "0 < h \<Longrightarrow> GetSkipHeight h < h"
proof -
  consider "h < 2" | "2 \<le> h" "h AND 1 \<noteq> 0" | "2 \<le> h" "h AND 1 = 0" by linarith
  then have "0 \<le> GetSkipHeight h \<and> (0 < h \<longrightarrow> GetSkipHeight h < h)"
  proof cases
    case 2
    have "0 \<le> InvertLowestOne (h - 1)" "InvertLowestOne (h - 1) < h - 1"
      using InvertLowestOne_bounds [of "h - 1"] 2 by auto
    then show ?thesis
      using InvertLowestOne_bounds(1,2) [of "InvertLowestOne (h - 1)"] 2 by (simp add: GetSkipHeight_def)
  next
    case 3
    then show ?thesis using InvertLowestOne_bounds [of h] by (simp add: GetSkipHeight_def)
  qed (auto simp: GetSkipHeight_def)
  then show "0 \<le> GetSkipHeight h" "0 < h \<Longrightarrow> GetSkipHeight h < h" by auto
qed

definition follow_skip :: "CBlockIndex \<Rightarrow> int \<Rightarrow> int \<Rightarrow> bool" where
  "follow_skip b height heightWalk =
     (let heightSkip = GetSkipHeight heightWalk; heightSkipPrev = GetSkipHeight (heightWalk - 1)
      in pskip b \<noteq> None \<and>
         (heightSkip = height \<or>
          (height < heightSkip \<and> \<not> (heightSkipPrev < heightSkip - 2 \<and> height \<le> heightSkipPrev))))"

text \<open>The loop of \<open>GetAncestor\<close>; the height asked for is not negative there.\<close>

function ancestor_walk :: "block_store \<Rightarrow> nat \<Rightarrow> block_ptr \<Rightarrow> int \<Rightarrow> block_ptr option" where
  "ancestor_walk store height pindexWalk heightWalk =
     (if int height < heightWalk
      then if follow_skip (store pindexWalk) (int height) heightWalk
           then ancestor_walk store height (the (pskip (store pindexWalk))) (GetSkipHeight heightWalk)
           else case pprev (store pindexWalk) of
                  None \<Rightarrow> None
                | Some p \<Rightarrow> ancestor_walk store height p (heightWalk - 1)
      else Some pindexWalk)"
  by pat_completeness auto
termination
  by (relation "measure (\<lambda>(store, height, p, h). nat h)") (auto simp: GetSkipHeight_bounds nat_mono_iff)

declare ancestor_walk.simps [simp del]

definition GetAncestor :: "block_store \<Rightarrow> block_ptr \<Rightarrow> int \<Rightarrow> block_ptr option option" where
  "GetAncestor store pindex height =
     (if nHeight (store pindex) < height \<or> height < 0 then Some None
      else map_option Some (ancestor_walk store (nat height) pindex (nHeight (store pindex))))"

definition BuildSkip :: "block_store \<Rightarrow> block_ptr \<Rightarrow> block_store option" where
  "BuildSkip store pindex =
     (case pprev (store pindex) of
        None \<Rightarrow> Some store
      | Some p \<Rightarrow> map_option (\<lambda>s. store(pindex := (store pindex)\<lparr>pskip := s\<rparr>))
                   (GetAncestor store p (GetSkipHeight (nHeight (store pindex)))))"

section \<open>The active chain\<close>

type_synonym CChain = "block_ptr option list"

definition Genesis :: "CChain \<Rightarrow> block_ptr option" where
  "Genesis vChain = (if 0 < length vChain then vChain ! 0 else None)"

definition Tip :: "CChain \<Rightarrow> block_ptr option" where
  "Tip vChain = (if 0 < length vChain then vChain ! (length vChain - 1) else None)"

definition CChain_at :: "CChain \<Rightarrow> int \<Rightarrow> block_ptr option" where
  "CChain_at vChain h = (if h < 0 \<or> int (length vChain) \<le> h then None else vChain ! nat h)"

definition Contains :: "block_store \<Rightarrow> CChain \<Rightarrow> block_ptr option \<Rightarrow> bool" where
  "Contains store vChain pindex =
     (case pindex of None \<Rightarrow> False | Some p \<Rightarrow> CChain_at vChain (nHeight (store p)) = Some p)"

definition Next :: "block_store \<Rightarrow> CChain \<Rightarrow> block_ptr option \<Rightarrow> block_ptr option" where
  "Next store vChain pindex =
     (if Contains store vChain pindex then CChain_at vChain (nHeight (store (the pindex)) + 1) else None)"

definition Height :: "CChain \<Rightarrow> int" where
  "Height vChain = int (length vChain) - 1"

text \<open>\<open>None\<close> where the loop leaves the vector or does not end.\<close>

partial_function (option) SetTip_loop :: "block_store \<Rightarrow> CChain \<Rightarrow> block_ptr option \<Rightarrow> CChain option" where
  "SetTip_loop store vChain pindex =
     (case pindex of
        None \<Rightarrow> Some vChain
      | Some p \<Rightarrow>
          (let h = nHeight (store p) in
           if h < 0 \<or> int (length vChain) \<le> h then None
           else if vChain ! nat h = Some p then Some vChain
           else SetTip_loop store (vChain[nat h := Some p]) (pprev (store p))))"

definition resize_chain :: "nat \<Rightarrow> CChain \<Rightarrow> CChain" where
  "resize_chain n vChain = take n vChain @ replicate (n - length vChain) None"

definition SetTip :: "block_store \<Rightarrow> CChain \<Rightarrow> block_ptr option \<Rightarrow> CChain option" where
  "SetTip store vChain pindex =
     (case pindex of
        None \<Rightarrow> Some []
      | Some p \<Rightarrow> SetTip_loop store (resize_chain (nat (nHeight (store p) + 1)) vChain) pindex)"

partial_function (option) locator_loop ::
  "block_store \<Rightarrow> CChain \<Rightarrow> int \<Rightarrow> uint256 list \<Rightarrow> block_ptr option \<Rightarrow> uint256 list option" where
  "locator_loop store vChain nStep vHave pindex =
     (case pindex of
        None \<Rightarrow> Some vHave
      | Some p \<Rightarrow>
          (let vHave = vHave @ [GetBlockHash (store p)] in
           if nHeight (store p) = 0 then Some vHave
           else let h = max (nHeight (store p) - nStep) 0;
                    nStep' = (if 10 < length vHave then nStep * 2 else nStep) in
           if Contains store vChain pindex
           then locator_loop store vChain nStep' vHave (CChain_at vChain h)
           else case GetAncestor store p h of
                  None \<Rightarrow> None
                | Some a \<Rightarrow> locator_loop store vChain nStep' vHave a))"

definition GetLocator :: "block_store \<Rightarrow> CChain \<Rightarrow> block_ptr option \<Rightarrow> uint256 list option" where
  "GetLocator store vChain pindex =
     locator_loop store vChain 1 [] (case pindex of None \<Rightarrow> Tip vChain | Some p \<Rightarrow> Some p)"

partial_function (option) fork_loop :: "block_store \<Rightarrow> CChain \<Rightarrow> block_ptr option \<Rightarrow> block_ptr option option" where
  "fork_loop store vChain pindex =
     (case pindex of
        None \<Rightarrow> Some None
      | Some p \<Rightarrow> if \<not> Contains store vChain pindex then fork_loop store vChain (pprev (store p)) else Some pindex)"

definition FindFork :: "block_store \<Rightarrow> CChain \<Rightarrow> block_ptr option \<Rightarrow> block_ptr option option" where
  "FindFork store vChain pindex =
     (case pindex of
        None \<Rightarrow> Some None
      | Some p \<Rightarrow>
          if Height vChain < nHeight (store p)
          then (case GetAncestor store p (Height vChain) of
                  None \<Rightarrow> None
                | Some a \<Rightarrow> fork_loop store vChain a)
          else fork_loop store vChain pindex)"

end
