(* ===== verification/Versionbits.thy ===== *)
theory Versionbits
  imports Chain
begin

text \<open>
  Deployment of soft forks by version bits: \<^verbatim>\<open>src/src/versionbits.h\<close>, \<^verbatim>\<open>src/src/versionbits.cpp\<close> and the
  two functions of \<^verbatim>\<open>src/src/main.cpp\<close> that compute the version of a new block.  The virtual members of
  \<open>AbstractThresholdConditionChecker\<close> are the fields of a record; a cache maps blocks to states.
\<close>

section \<open>Threshold states\<close>

datatype ThresholdState =
    THRESHOLD_DEFINED
  | THRESHOLD_STARTED
  | THRESHOLD_LOCKED_IN
  | THRESHOLD_ACTIVE
  | THRESHOLD_FAILED

type_synonym ThresholdConditionCache = "block_ptr option \<rightharpoonup> ThresholdState"

record AbstractThresholdConditionChecker =
  Condition :: "block_ptr \<Rightarrow> bool"
  BeginTime :: int
  EndTime :: int
  Period :: nat
  Threshold :: int

text \<open>\<open>None\<close>: the loop runs off the chain.\<close>

fun count_loop :: "block_store \<Rightarrow> AbstractThresholdConditionChecker \<Rightarrow> nat \<Rightarrow> int \<Rightarrow> block_ptr option \<Rightarrow> int option" where
  "count_loop store ck 0 count pindexCount = Some count"
| "count_loop store ck (Suc i) count None = None"
| "count_loop store ck (Suc i) count (Some p) =
     count_loop store ck i (if Condition ck p then count + 1 else count) (pprev (store p))"

definition state_next ::
  "block_store \<Rightarrow> AbstractThresholdConditionChecker \<Rightarrow> block_ptr \<Rightarrow> ThresholdState \<Rightarrow> ThresholdState option" where
  "state_next store ck pindexPrev state =
     (case state of
        THRESHOLD_DEFINED \<Rightarrow>
          Some (if EndTime ck \<le> GetMedianTimePast store pindexPrev then THRESHOLD_FAILED
                else if BeginTime ck \<le> GetMedianTimePast store pindexPrev then THRESHOLD_STARTED
                else state)
      | THRESHOLD_STARTED \<Rightarrow>
          if EndTime ck \<le> GetMedianTimePast store pindexPrev then Some THRESHOLD_FAILED
          else (case count_loop store ck (Period ck) 0 (Some pindexPrev) of
                  None \<Rightarrow> None
                | Some count \<Rightarrow> Some (if Threshold ck \<le> count then THRESHOLD_LOCKED_IN else state))
      | THRESHOLD_LOCKED_IN \<Rightarrow> Some THRESHOLD_ACTIVE
      | THRESHOLD_FAILED \<Rightarrow> Some state
      | THRESHOLD_ACTIVE \<Rightarrow> Some state)"

text \<open>Walking back; the last block pushed is the head of the list.\<close>

partial_function (option) back_loop ::
  "block_store \<Rightarrow> AbstractThresholdConditionChecker \<Rightarrow> ThresholdConditionCache \<Rightarrow> block_ptr list \<Rightarrow> block_ptr option \<Rightarrow>
   (ThresholdConditionCache \<times> block_ptr list \<times> block_ptr option) option" where
  "back_loop store ck cache vToCompute pindexPrev =
     (if cache pindexPrev = None
      then case pindexPrev of
             None \<Rightarrow> Some (cache(None \<mapsto> THRESHOLD_DEFINED), vToCompute, None)
           | Some p \<Rightarrow>
               if GetMedianTimePast store p < BeginTime ck
               then Some (cache(Some p \<mapsto> THRESHOLD_DEFINED), vToCompute, Some p)
               else (case GetAncestor store p (nHeight (store p) - int (Period ck)) of
                       None \<Rightarrow> None
                     | Some a \<Rightarrow> back_loop store ck cache (p # vToCompute) a)
      else Some (cache, vToCompute, pindexPrev))"

fun forward_loop ::
  "block_store \<Rightarrow> AbstractThresholdConditionChecker \<Rightarrow> ThresholdConditionCache \<Rightarrow> block_ptr list \<Rightarrow> ThresholdState \<Rightarrow>
   (ThresholdState \<times> ThresholdConditionCache) option" where
  "forward_loop store ck cache [] state = Some (state, cache)"
| "forward_loop store ck cache (p # vToCompute) state =
     (case state_next store ck p state of
        None \<Rightarrow> None
      | Some stateNext \<Rightarrow> forward_loop store ck (cache(Some p \<mapsto> stateNext)) vToCompute stateNext)"

definition GetStateFor ::
  "block_store \<Rightarrow> AbstractThresholdConditionChecker \<Rightarrow> ThresholdConditionCache \<Rightarrow> block_ptr option \<Rightarrow>
   (ThresholdState \<times> ThresholdConditionCache) option" where
  "GetStateFor store ck cache pindexPrev =
     (case (case pindexPrev of
              None \<Rightarrow> Some None
            | Some p \<Rightarrow> GetAncestor store p (nHeight (store p) - (nHeight (store p) + 1) mod int (Period ck))) of
        None \<Rightarrow> None
      | Some pindexPrev \<Rightarrow>
          (case back_loop store ck cache [] pindexPrev of
             None \<Rightarrow> None
           | Some (cache, vToCompute, pindexPrev) \<Rightarrow>
               (case cache pindexPrev of
                  None \<Rightarrow> None
                | Some state \<Rightarrow> forward_loop store ck cache vToCompute state)))"

section \<open>Deployments\<close>

abbreviation (input) VERSIONBITS_TOP_BITS :: int where "VERSIONBITS_TOP_BITS \<equiv> 0x70000000"
abbreviation (input) VERSIONBITS_TOP_BITS_SIG :: int where "VERSIONBITS_TOP_BITS_SIG \<equiv> 0x71000000"
abbreviation (input) VERSIONBITS_TOP_MASK :: int where "VERSIONBITS_TOP_MASK \<equiv> 0xF0000000 - 2 ^ 32"
abbreviation (input) nSegWitVersionMask :: int where "nSegWitVersionMask \<equiv> 0x20"
abbreviation (input) DEPLOYMENT_SEGWIT :: nat where "DEPLOYMENT_SEGWIT \<equiv> 2"
abbreviation (input) MAX_VERSION_BITS_DEPLOYMENTS :: nat where "MAX_VERSION_BITS_DEPLOYMENTS \<equiv> 6"

record BIP9Deployment =
  dep_bit :: nat
  dep_nStartTime :: int
  dep_nTimeout :: int

record consensus_params =
  nRuleChangeActivationThreshold :: u32
  nMinerConfirmationWindow :: u32
  vDeployments :: "BIP9Deployment list"
  sigActivationTime :: int

definition IsSigHFEnabled :: "consensus_params \<Rightarrow> block_store \<Rightarrow> block_ptr option \<Rightarrow> bool" where
  "IsSigHFEnabled consensus store pindexPrev =
     (case pindexPrev of
        None \<Rightarrow> False
      | Some p \<Rightarrow> sigActivationTime consensus \<le> GetMedianTimePast store p)"

definition VersionBitsMask :: "consensus_params \<Rightarrow> nat \<Rightarrow> u32" where
  "VersionBitsMask params pos = push_bit (dep_bit (vDeployments params ! pos)) 1"

text \<open>
  The comparison binds tighter than the conditional: the first conjunct of the condition is one of
  the two constants, converted to a truth value.
\<close>

definition bits_condition :: "consensus_params \<Rightarrow> block_store \<Rightarrow> nat \<Rightarrow> block_ptr \<Rightarrow> bool" where
  "bits_condition params store pos pindex =
     ((if bi_nVersion (store pindex) AND VERSIONBITS_TOP_MASK = (if IsSigHFEnabled params store (Some pindex) then 1 else 0)
       then VERSIONBITS_TOP_BITS_SIG else VERSIONBITS_TOP_BITS) \<noteq> 0 \<and>
      (word_of_int (bi_nVersion (store pindex)) :: u32) AND VersionBitsMask params pos \<noteq> 0)"

definition VersionBitsConditionChecker :: "consensus_params \<Rightarrow> block_store \<Rightarrow> nat \<Rightarrow> AbstractThresholdConditionChecker" where
  "VersionBitsConditionChecker params store pos =
     \<lparr>Condition = bits_condition params store pos,
      BeginTime = dep_nStartTime (vDeployments params ! pos),
      EndTime = dep_nTimeout (vDeployments params ! pos),
      Period = unat (nMinerConfirmationWindow params),
      Threshold = sint (nRuleChangeActivationThreshold params)\<rparr>"

type_synonym VersionBitsCache = "ThresholdConditionCache list"

definition VersionBitsState ::
  "block_store \<Rightarrow> block_ptr option \<Rightarrow> consensus_params \<Rightarrow> nat \<Rightarrow> VersionBitsCache \<Rightarrow> (ThresholdState \<times> VersionBitsCache) option" where
  "VersionBitsState store pindexPrev params pos caches =
     (case GetStateFor store (VersionBitsConditionChecker params store pos) (caches ! pos) pindexPrev of
        None \<Rightarrow> None
      | Some (state, cache) \<Rightarrow> Some (state, caches[pos := cache]))"

definition VersionBitsCache_Clear :: "VersionBitsCache \<Rightarrow> VersionBitsCache" where
  "VersionBitsCache_Clear caches = map (\<lambda>_. Map.empty) caches"

definition IsWitnessEnabled ::
  "block_store \<Rightarrow> block_ptr option \<Rightarrow> consensus_params \<Rightarrow> VersionBitsCache \<Rightarrow> (bool \<times> VersionBitsCache) option" where
  "IsWitnessEnabled store pindexPrev params caches =
     map_option (\<lambda>(state, caches). (state = THRESHOLD_ACTIVE, caches))
       (VersionBitsState store pindexPrev params DEPLOYMENT_SEGWIT caches)"

definition IsWitnessLocked ::
  "block_store \<Rightarrow> block_ptr option \<Rightarrow> consensus_params \<Rightarrow> VersionBitsCache \<Rightarrow> (bool \<times> VersionBitsCache) option" where
  "IsWitnessLocked store pindexPrev params caches =
     map_option (\<lambda>(state, caches). (state = THRESHOLD_LOCKED_IN, caches))
       (VersionBitsState store pindexPrev params DEPLOYMENT_SEGWIT caches)"

fun version_loop ::
  "block_store \<Rightarrow> block_ptr option \<Rightarrow> consensus_params \<Rightarrow> nat list \<Rightarrow> u32 \<Rightarrow> VersionBitsCache \<Rightarrow> (u32 \<times> VersionBitsCache) option" where
  "version_loop store pindexPrev params [] ver caches = Some (ver, caches)"
| "version_loop store pindexPrev params (i # is) ver caches =
     (case VersionBitsState store pindexPrev params i caches of
        None \<Rightarrow> None
      | Some (state, caches) \<Rightarrow>
          version_loop store pindexPrev params is
            (if state = THRESHOLD_LOCKED_IN \<or> state = THRESHOLD_STARTED \<or> state = THRESHOLD_ACTIVE
             then ver OR VersionBitsMask params i else ver) caches)"

definition ComputeBlockVersion ::
  "block_store \<Rightarrow> block_ptr option \<Rightarrow> consensus_params \<Rightarrow> VersionBitsCache \<Rightarrow> (int \<times> VersionBitsCache) option" where
  "ComputeBlockVersion store pindexPrev params caches =
     (let ver = word_of_int (if IsSigHFEnabled params store pindexPrev then VERSIONBITS_TOP_BITS_SIG else VERSIONBITS_TOP_BITS) :: u32
      in case version_loop store pindexPrev params [0..<MAX_VERSION_BITS_DEPLOYMENTS] ver caches of
           None \<Rightarrow> None
         | Some (ver, caches) \<Rightarrow>
             (case IsWitnessEnabled store pindexPrev params caches of
                None \<Rightarrow> None
              | Some (enabled, caches) \<Rightarrow>
                  Some (sint (if enabled then ver OR word_of_int nSegWitVersionMask else ver), caches)))"

end
