(* ===== verification/Chain_Props.thy ===== *)
theory Chain_Props
  imports Chain
begin

text \<open>
  The skip list finds the same ancestors as walking back one block at a time, the active chain is always
  the path from the genesis block to its tip, and forks and locators are what they should be.  All of it holds
  for a tree of blocks: heights grow by one from parent to child, and a skip pointer, where it is set, points at
  the ancestor at the skip height.
\<close>

section \<open>Trees of blocks\<close>

primrec up :: "block_store \<Rightarrow> nat \<Rightarrow> block_ptr \<Rightarrow> block_ptr" where
  "up store 0 p = p"
| "up store (Suc n) p = up store n (the (pprev (store p)))"

definition anc :: "block_store \<Rightarrow> block_ptr \<Rightarrow> int \<Rightarrow> block_ptr" where
  "anc store p h = up store (nat (nHeight (store p) - h)) p"

definition block_tree :: "block_store \<Rightarrow> block_ptr set \<Rightarrow> bool" where
  "block_tree store B \<longleftrightarrow>
     (\<forall>p\<in>B. 0 \<le> nHeight (store p) \<and> (pprev (store p) = None \<longrightarrow> nHeight (store p) = 0) \<and>
        (\<forall>q. pprev (store p) = Some q \<longrightarrow> q \<in> B \<and> nHeight (store q) + 1 = nHeight (store p)) \<and>
        (\<forall>s. pskip (store p) = Some s \<longrightarrow> s = anc store p (GetSkipHeight (nHeight (store p)))))"

lemma up_add: "up store (m + n) p = up store m (up store n p)"
  by (induction n arbitrary: p) simp_all

lemma tree_parent:
  assumes "block_tree store B" "p \<in> B" "0 < nHeight (store p)"
  obtains q where "pprev (store p) = Some q" "q \<in> B" "nHeight (store q) + 1 = nHeight (store p)"
  using assms by (cases "pprev (store p)") (auto simp: block_tree_def)

lemma tree_height: "block_tree store B \<Longrightarrow> p \<in> B \<Longrightarrow> 0 \<le> nHeight (store p)"
  by (auto simp: block_tree_def)

lemma tree_pprev:
  "block_tree store B \<Longrightarrow> p \<in> B \<Longrightarrow> pprev (store p) = Some q \<Longrightarrow> q \<in> B \<and> nHeight (store q) + 1 = nHeight (store p)"
  by (auto simp: block_tree_def)

lemma tree_genesis:
  assumes "block_tree store B" "p \<in> B" "nHeight (store p) = 0"
  shows "pprev (store p) = None"
proof (cases "pprev (store p)")
  case (Some q)
  then have "q \<in> B" "nHeight (store q) + 1 = 0" using tree_pprev [OF assms(1,2)] assms(3) by auto
  then show ?thesis using tree_height [OF assms(1), of q] by simp
qed

lemma up_height:
  assumes "block_tree store B" "p \<in> B" "int n \<le> nHeight (store p)"
  shows "up store n p \<in> B \<and> nHeight (store (up store n p)) = nHeight (store p) - int n"
  using assms(2,3)
proof (induction n arbitrary: p)
  case (Suc n)
  obtain q where "pprev (store p) = Some q" "q \<in> B" "nHeight (store q) + 1 = nHeight (store p)"
    using tree_parent [OF assms(1) Suc.prems(1)] Suc.prems(2) by auto
  then show ?case using Suc.IH [of q] Suc.prems(2) by auto
qed simp

lemma anc_in:
  assumes "block_tree store B" "p \<in> B" "0 \<le> h" "h \<le> nHeight (store p)"
  shows "anc store p h \<in> B" "nHeight (store (anc store p h)) = h"
  using up_height [OF assms(1,2), of "nat (nHeight (store p) - h)"] assms(3,4) by (auto simp: anc_def)

lemma anc_self [simp]: "anc store p (nHeight (store p)) = p"
  by (simp add: anc_def)

lemma anc_anc:
  assumes "block_tree store B" "p \<in> B" "0 \<le> h" "h \<le> k" "k \<le> nHeight (store p)"
  shows "anc store (anc store p k) h = anc store p h"
proof -
  have "nat (nHeight (store p) - h) = nat (k - h) + nat (nHeight (store p) - k)" using assms(4,5) by simp
  then show ?thesis
    using anc_in(2) [OF assms(1,2), of k] assms(3-5) by (simp add: anc_def up_add)
qed

lemma anc_parent:
  assumes "block_tree store B" "p \<in> B" "pprev (store p) = Some q" "0 \<le> h" "h < nHeight (store p)"
  shows "anc store q h = anc store p h"
proof -
  have "nat (nHeight (store p) - h) = Suc (nat (nHeight (store q) - h))"
    using tree_pprev [OF assms(1-3)] assms(5) by auto
  then show ?thesis using assms(3) by (simp add: anc_def)
qed

section \<open>The skip list\<close>

lemma skip_anc:
  assumes "block_tree store B" "p \<in> B" "follow_skip (store p) h (nHeight (store p))"
  shows "the (pskip (store p)) = anc store p (GetSkipHeight (nHeight (store p)))"
    and "h \<le> GetSkipHeight (nHeight (store p))"
proof -
  obtain s where s: "pskip (store p) = Some s" and "h \<le> GetSkipHeight (nHeight (store p))"
    using assms(3) by (auto simp: follow_skip_def Let_def)
  then show "the (pskip (store p)) = anc store p (GetSkipHeight (nHeight (store p)))"
    "h \<le> GetSkipHeight (nHeight (store p))"
    using assms(1,2) by (auto simp: block_tree_def split: option.splits)
qed

lemma ancestor_walk_anc:
  assumes tree: "block_tree store B"
  shows "p \<in> B \<Longrightarrow> int h \<le> nHeight (store p) \<Longrightarrow>
    ancestor_walk store h p (nHeight (store p)) = Some (anc store p (int h))"
proof (induction "nat (nHeight (store p))" arbitrary: p rule: less_induct)
  case less
  let ?hw = "nHeight (store p)" and ?s = "GetSkipHeight (nHeight (store p))"
  show ?case
  proof (cases "int h < ?hw")
    case walk: True
    show ?thesis
    proof (cases "follow_skip (store p) (int h) ?hw")
      case True
      have s: "the (pskip (store p)) = anc store p ?s" "int h \<le> ?s" "0 \<le> ?s" "?s < ?hw"
        using skip_anc [OF tree less.prems(1) True] GetSkipHeight_bounds [of ?hw] walk by auto
      have a: "anc store p ?s \<in> B" "nHeight (store (anc store p ?s)) = ?s"
        using anc_in [OF tree less.prems(1) s(3)] s(4) by auto
      have "ancestor_walk store h (anc store p ?s) ?s = Some (anc store p (int h))"
        using less.hyps [of "anc store p ?s"] a s anc_anc [OF tree less.prems(1), of "int h" ?s] by simp
      then show ?thesis
        using walk True s by (simp add: ancestor_walk.simps [of store h p])
    next
      case False
      obtain q where q: "pprev (store p) = Some q" "q \<in> B" "nHeight (store q) + 1 = ?hw"
        using tree_parent [OF tree less.prems(1)] walk by auto
      have e: "?hw - 1 = nHeight (store q)" using q(3) by simp
      have "ancestor_walk store h q (?hw - 1) = Some (anc store p (int h))"
        unfolding e using less.hyps [of q] q walk anc_parent [OF tree less.prems(1) q(1), of "int h"] by simp
      then show ?thesis
        using walk False q by (simp add: ancestor_walk.simps [of store h p])
    qed
  next
    case False
    then have "int h = ?hw" using less.prems(2) by simp
    then show ?thesis by (simp add: ancestor_walk.simps [of store h p])
  qed
qed

lemma GetAncestor_anc:
  assumes "block_tree store B" "p \<in> B"
  shows "GetAncestor store p h = Some (if 0 \<le> h \<and> h \<le> nHeight (store p) then Some (anc store p h) else None)"
  using ancestor_walk_anc [OF assms, of "nat h"] by (auto simp: GetAncestor_def)

lemma up_pskip: "up (store(p := (store p)\<lparr>pskip := s\<rparr>)) n q = up store n q"
  by (induction n arbitrary: q) simp_all

lemma anc_pskip: "anc (store(p := (store p)\<lparr>pskip := s\<rparr>)) q h = anc store q h"
  by (simp add: anc_def up_pskip)

lemma BuildSkip_tree:
  assumes "block_tree store B" "p \<in> B"
  shows "\<exists>store'. BuildSkip store p = Some store' \<and> block_tree store' B"
proof (cases "pprev (store p)")
  case None
  then show ?thesis using assms(1) by (simp add: BuildSkip_def)
next
  case (Some q)
  have q: "q \<in> B" "nHeight (store q) + 1 = nHeight (store p)" using tree_pprev [OF assms Some] by auto
  then have h: "0 \<le> GetSkipHeight (nHeight (store p))" "GetSkipHeight (nHeight (store p)) \<le> nHeight (store q)"
    using GetSkipHeight_bounds [of "nHeight (store p)"] tree_height [OF assms(1) q(1)] by auto
  have "anc store q (GetSkipHeight (nHeight (store p))) = anc store p (GetSkipHeight (nHeight (store p)))"
    using anc_parent [OF assms Some h(1)] h(2) q(2) by simp
  then show ?thesis
    using assms(1) GetAncestor_anc [OF assms(1) q(1)] h Some
    by (auto simp: BuildSkip_def block_tree_def anc_pskip)
qed

text \<open>
  C8: the skip list returns the right ancestor. In a tree of blocks \<open>GetAncestor\<close> never fails its
  assertion, always returns, and finds the block that walking back through the parents reaches at the height
  asked for, and null for a height out of range; building the skip pointer of a block keeps the tree one in
  which this holds.
\<close>

theorem GetAncestor_correct:
  assumes "block_tree store B" "p \<in> B"
  shows "GetAncestor store p h =
      Some (if 0 \<le> h \<and> h \<le> nHeight (store p) then Some (up store (nat (nHeight (store p) - h)) p) else None) \<and>
    (\<exists>store'. BuildSkip store p = Some store' \<and> block_tree store' B)"
  using GetAncestor_anc [OF assms] BuildSkip_tree [OF assms] by (simp add: anc_def)

definition sample_store :: block_store where
  "sample_store p =
     \<lparr>phashBlock = Some (replicate 32 (of_nat p)), pprev = (if p = 0 then None else Some (p - 1)), pnext = None,
      pskip = None, nHeight = int p, bi_nFile = 0, bi_nDataPos = 0,
      bi_nUndoPos = 0, nChainWork = base_uint_zero, bi_nTx = 0, bi_nChainTx = 0, bi_nStatus = 0, bi_nVersion = 0,
      bi_hashMerkleRoot = replicate 32 0, bi_nTime = 0, bi_nBits = 0, bi_nNonce = 0, bi_nMint = 0,
      bi_nMoneySupply = 0, bi_nDividendFund = 0, bi_strDZeel = [], bi_nFlags = 0, bi_nStakeModifier = 0,
      bi_prevoutStake = \<lparr>op_hash = replicate 32 0, op_n = 0\<rparr>, bi_nStakeTime = 0, bi_hashProof = base_uint_zero,
      bi_nSequenceId = 0\<rparr>"

lemma sample_tree: "block_tree sample_store UNIV"
  by (auto simp: block_tree_def sample_store_def)

lemma sample_up: "n \<le> p \<Longrightarrow> up sample_store n p = p - n"
  by (induction n arbitrary: p) (auto simp: sample_store_def)

theorem GetAncestor_correct_witness: "GetAncestor sample_store 100 37 = Some (Some 37)"
  using GetAncestor_correct [OF sample_tree, of 100 37] sample_up [of 63 100] by (simp add: sample_store_def)

section \<open>The active chain\<close>

definition chain_of :: "block_store \<Rightarrow> block_ptr \<Rightarrow> CChain" where
  "chain_of store tip = map (\<lambda>h. Some (anc store tip (int h))) [0..<nat (nHeight (store tip) + 1)]"

lemma chain_of_length [simp]: "length (chain_of store tip) = nat (nHeight (store tip) + 1)"
  by (simp add: chain_of_def)

lemma chain_of_nth: "int h \<le> nHeight (store tip) \<Longrightarrow> chain_of store tip ! h = Some (anc store tip (int h))"
proof -
  assume "int h \<le> nHeight (store tip)"
  then have "h < nat (nHeight (store tip) + 1)" by linarith
  then show ?thesis by (simp add: chain_of_def del: upt_Suc)
qed

text \<open>Below a block of the vector are its ancestors: the loop may stop at the first block it finds in place.\<close>

definition closed_below :: "block_store \<Rightarrow> block_ptr set \<Rightarrow> int \<Rightarrow> CChain \<Rightarrow> bool" where
  "closed_below store B n v \<longleftrightarrow>
     (\<forall>h r. int h \<le> n \<longrightarrow> h < length v \<longrightarrow> v ! h = Some r \<longrightarrow>
        r \<in> B \<and> nHeight (store r) = int h \<and> (\<forall>k\<le>h. v ! k = Some (anc store r (int k))))"

lemma closed_belowD:
  "closed_below store B n v \<Longrightarrow> int h \<le> n \<Longrightarrow> h < length v \<Longrightarrow> v ! h = Some r \<Longrightarrow> k \<le> h \<Longrightarrow> v ! k = Some (anc store r (int k))"
  by (auto simp: closed_below_def)

lemma closed_below_update:
  assumes "closed_below store B n v" "0 \<le> n"
  shows "closed_below store B (n - 1) (v[nat n := x])"
  unfolding closed_below_def
proof (intro allI impI)
  fix h r assume h: "int h \<le> n - 1" "h < length (v[nat n := x])" "v[nat n := x] ! h = Some r"
  have ne: "v[nat n := x] ! k = v ! k" if "k \<le> h" for k using that h(1) by (auto simp: nth_list_update)
  have "r \<in> B \<and> nHeight (store r) = int h \<and> (\<forall>k\<le>h. v ! k = Some (anc store r (int k)))"
    using assms(1) [unfolded closed_below_def, rule_format, of h r] h ne [of h] by simp
  then show "r \<in> B \<and> nHeight (store r) = int h \<and> (\<forall>k\<le>h. v[nat n := x] ! k = Some (anc store r (int k)))"
    using ne by simp
qed

lemma SetTip_loop_step:
  assumes "nHeight (store q) = n" "0 \<le> n" "n < int (length v)"
  shows "SetTip_loop store v (Some q) =
    (if v ! nat n = Some q then Some v else SetTip_loop store (v[nat n := Some q]) (pprev (store q)))"
  using assms by (simp add: SetTip_loop.simps [of store v])

lemma chain_of_eqI:
  assumes "length v = nat (nHeight (store tip) + 1)" "\<And>h. h < length v \<Longrightarrow> v ! h = Some (anc store tip (int h))"
  shows "v = chain_of store tip"
  using assms by (intro nth_equalityI) (auto simp: chain_of_nth)

lemma SetTip_loop_chain:
  assumes tree: "block_tree store B" and tip: "tip \<in> B"
  shows "length v = nat (nHeight (store tip) + 1) \<Longrightarrow> 0 \<le> n \<Longrightarrow> n \<le> nHeight (store tip) \<Longrightarrow> closed_below store B n v \<Longrightarrow>
    (\<And>h. n < int h \<Longrightarrow> h < length v \<Longrightarrow> v ! h = Some (anc store tip (int h))) \<Longrightarrow>
    SetTip_loop store v (Some (anc store tip n)) = Some (chain_of store tip)"
proof (induction "nat n" arbitrary: n v rule: less_induct)
  case less
  let ?q = "anc store tip n"
  have q: "?q \<in> B" "nHeight (store ?q) = n" using anc_in [OF tree tip less.prems(2,3)] by auto
  have n: "n < int (length v)" using less.prems(1-3) by simp
  have loop: "SetTip_loop store v (Some ?q) =
      (if v ! nat n = Some ?q then Some v else SetTip_loop store (v[nat n := Some ?q]) (pprev (store ?q)))"
    using SetTip_loop_step [of store ?q n v] q(2) less.prems(2) n by blast
  show ?case
  proof (cases "v ! nat n = Some ?q")
    case True
    have "v ! h = Some (anc store tip (int h))" if "h < length v" for h
    proof (cases "n < int h")
      case False
      then have "v ! h = Some (anc store ?q (int h))"
        using closed_belowD [OF less.prems(4), of "nat n" ?q h] less.prems(2) True n by simp
      then show ?thesis using anc_anc [OF tree tip, of "int h" n] less.prems(3) False by simp
    qed (use less.prems(5) that in auto)
    then show ?thesis using loop True chain_of_eqI [of v store tip] less.prems(1) by simp
  next
    case False
    let ?v = "v[nat n := Some ?q]"
    have above: "?v ! h = Some (anc store tip (int h))" if "n - 1 < int h" "h < length ?v" for h
      using less.prems(5) that less.prems(2) by (cases "n = int h") auto
    show ?thesis
    proof (cases "n = 0")
      case True
      then have "pprev (store ?q) = None" using tree_genesis [OF tree q(1)] q(2) by simp
      moreover have "?v = chain_of store tip" using above True less.prems(1) by (intro chain_of_eqI) auto
      ultimately show ?thesis using loop False by (simp add: SetTip_loop.simps)
    next
      case pos: False
      then obtain q' where q': "pprev (store ?q) = Some q'" "q' \<in> B" "nHeight (store q') + 1 = n"
        using tree_parent [OF tree q(1)] q(2) less.prems(2) by auto
      have e: "nHeight (store q') = n - 1" using q'(3) by simp
      have "q' = anc store tip (n - 1)"
        using anc_parent [OF tree q(1) q'(1), of "n - 1"] anc_anc [OF tree tip, of "n - 1" n] q'(3) q(2) pos less.prems(2,3)
          anc_self [of store q', unfolded e] by simp
      moreover have "SetTip_loop store ?v (Some (anc store tip (n - 1))) = Some (chain_of store tip)"
      proof (rule less.hyps)
        show "closed_below store B (n - 1) ?v" by (rule closed_below_update [OF less.prems(4,2)])
      qed (use less.prems pos above in auto)
      ultimately show ?thesis using loop False q'(1) by simp
    qed
  qed
qed

lemma SetTip_chain:
  assumes tree: "block_tree store B" and tip: "tip \<in> B" and old: "v = [] \<or> (\<exists>t\<in>B. v = chain_of store t)"
  shows "SetTip store v (Some tip) = Some (chain_of store tip)"
proof -
  let ?n = "nat (nHeight (store tip) + 1)"
  have len: "length (resize_chain ?n v) = ?n" by (simp add: resize_chain_def)
  have nth: "resize_chain ?n v ! h = (if h < length v then v ! h else None)" if "h < ?n" for h
    using that by (auto simp: resize_chain_def nth_append)
  have "closed_below store B (nHeight (store tip)) (resize_chain ?n v)"
  proof (cases "v = []")
    case True
    then show ?thesis by (auto simp: closed_below_def resize_chain_def)
  next
    case False
    then obtain t where t: "t \<in> B" "v = chain_of store t" using old by blast
    have nth_t: "resize_chain ?n v ! h = (if int h \<le> nHeight (store t) then Some (anc store t (int h)) else None)"
      if "h < ?n" for h
      using nth [OF that] by (auto simp: t(2) chain_of_nth)
    have "anc store t (int h) \<in> B \<and> nHeight (store (anc store t (int h))) = int h \<and>
        (\<forall>k\<le>h. resize_chain ?n v ! k = Some (anc store (anc store t (int h)) (int k)))"
      if "h < ?n" "int h \<le> nHeight (store t)" for h
      using that anc_in [OF tree t(1), of "int h"] anc_anc [OF tree t(1)] by (auto simp: nth_t)
    moreover have "r = anc store t (int h) \<and> int h \<le> nHeight (store t)" if "h < ?n" "resize_chain ?n v ! h = Some r" for h r
      using that by (simp add: nth_t split: if_splits)
    ultimately show ?thesis unfolding closed_below_def len by blast
  qed
  then show ?thesis
    using SetTip_loop_chain [OF tree tip, of "resize_chain ?n v" "nHeight (store tip)"] tree_height [OF tree tip]
    by (simp add: SetTip_def len)
qed

lemma CChain_at_chain_of:
  "CChain_at (chain_of store tip) h = (if 0 \<le> h \<and> h \<le> nHeight (store tip) then Some (anc store tip h) else None)"
  by (auto simp: CChain_at_def chain_of_nth)

lemma Contains_chain_of:
  assumes "block_tree store B" "q \<in> B"
  shows "Contains store (chain_of store tip) (Some q) \<longleftrightarrow>
    nHeight (store q) \<le> nHeight (store tip) \<and> anc store tip (nHeight (store q)) = q"
  using tree_height [OF assms] by (simp add: Contains_def CChain_at_chain_of)

text \<open>
  C15: the active chain is the path to its tip. Whatever tip the chain had before, in a tree of blocks
  \<open>SetTip\<close> returns, and afterwards the chain holds at each height the ancestor of the new tip at that height
  and nothing else, although it stops at the first block it finds in place.
\<close>

theorem SetTip_path:
  assumes "block_tree store B" "tip \<in> B" "v = [] \<or> (\<exists>t\<in>B. v = chain_of store t)"
  shows "\<exists>v'. SetTip store v (Some tip) = Some v' \<and> v' = chain_of store tip \<and> Tip v' = Some tip \<and>
    Height v' = nHeight (store tip) \<and>
    (\<forall>h. CChain_at v' h = (if 0 \<le> h \<and> h \<le> nHeight (store tip) then Some (up store (nat (nHeight (store tip) - h)) tip) else None))"
proof -
  have "chain_of store tip \<noteq> []"
    using tree_height [OF assms(1,2)] by (subst length_0_conv [symmetric]) simp
  then show ?thesis
    using SetTip_chain [OF assms] tree_height [OF assms(1,2)] CChain_at_chain_of [of store tip]
      chain_of_nth [of "nat (nHeight (store tip))" store tip]
    by (simp add: Tip_def Height_def anc_def nat_add_distrib)
qed

theorem SetTip_path_witness:
  "\<exists>v'. SetTip sample_store (chain_of sample_store 5) (Some 9) = Some v' \<and> Tip v' = Some 9 \<and> CChain_at v' 3 = Some 3"
proof -
  have "chain_of sample_store 5 = [] \<or> (\<exists>t\<in>UNIV. chain_of sample_store 5 = chain_of sample_store t)" by blast
  from SetTip_path [OF sample_tree UNIV_I this, of 9] show ?thesis
    using sample_up [of 6 9] by (auto simp: sample_store_def)
qed

section \<open>Forks and locators\<close>

definition common :: "block_store \<Rightarrow> block_ptr \<Rightarrow> block_ptr \<Rightarrow> int \<Rightarrow> bool" where
  "common store p q h \<longleftrightarrow> 0 \<le> h \<and> h \<le> nHeight (store p) \<and> h \<le> nHeight (store q) \<and> anc store p h = anc store q h"

definition last_common :: "block_store \<Rightarrow> block_ptr \<Rightarrow> block_ptr \<Rightarrow> block_ptr option \<Rightarrow> bool" where
  "last_common store p q r \<longleftrightarrow>
     (case r of
        None \<Rightarrow> \<forall>h. \<not> common store p q h
      | Some f \<Rightarrow> common store p q (nHeight (store f)) \<and> f = anc store p (nHeight (store f)) \<and>
          (\<forall>h. common store p q h \<longrightarrow> h \<le> nHeight (store f)))"

lemma last_common_anc:
  assumes "block_tree store B" "p \<in> B" "0 \<le> k" "k \<le> nHeight (store p)"
    and "\<And>h. common store p q h \<Longrightarrow> h \<le> k" "last_common store (anc store p k) q r"
  shows "last_common store p q r"
proof -
  have "common store (anc store p k) q h \<longleftrightarrow> common store p q h" for h
    using assms(1-4) assms(5) [of h] anc_in [OF assms(1-4)] anc_anc [OF assms(1,2), of h k]
    by (auto simp: common_def)
  moreover have "anc store (anc store p k) h = anc store p h" if "common store p q h" for h
    using that assms(1-4) assms(5) [OF that] anc_anc [OF assms(1,2), of h k] by (simp add: common_def)
  ultimately show ?thesis using assms(6) by (auto simp: last_common_def split: option.splits)
qed

lemma fork_loop_last_common:
  assumes tree: "block_tree store B" and tip: "tip \<in> B"
  shows "p \<in> B \<Longrightarrow> \<exists>r. fork_loop store (chain_of store tip) (Some p) = Some r \<and> last_common store p tip r"
proof (induction "nat (nHeight (store p))" arbitrary: p rule: less_induct)
  case less
  note C = Contains_chain_of [OF tree less.prems, of tip]
  note h0 = tree_height [OF tree less.prems]
  show ?case
  proof (cases "Contains store (chain_of store tip) (Some p)")
    case True
    then have "last_common store p tip (Some p)" using C h0 by (auto simp: last_common_def common_def)
    then show ?thesis using True by (simp add: fork_loop.simps [of store _ "Some p"])
  next
    case False
    then have nc: "\<not> common store p tip (nHeight (store p))" using C by (auto simp: common_def)
    show ?thesis
    proof (cases "pprev (store p)")
      case None
      then have "nHeight (store p) = 0" using tree less.prems by (auto simp: block_tree_def)
      then have "last_common store p tip None" using nc by (auto simp: last_common_def common_def)
      then show ?thesis using False None by (simp add: fork_loop.simps [of store _ "Some p"] fork_loop.simps [of store _ None])
    next
      case (Some q)
      have q: "q \<in> B" "nHeight (store q) + 1 = nHeight (store p)" using tree_pprev [OF tree less.prems Some] by auto
      have a: "anc store p (nHeight (store q)) = q"
        using anc_parent [OF tree less.prems Some, of "nHeight (store q)"] q tree_height [OF tree q(1)] by simp
      have le: "h \<le> nHeight (store q)" if "common store p tip h" for h
        using that nc q(2) by (cases "h = nHeight (store p)") (auto simp: common_def)
      obtain r where r: "fork_loop store (chain_of store tip) (Some q) = Some r" "last_common store q tip r"
        using less.hyps [of q] q tree_height [OF tree q(1)] by auto
      have "last_common store p tip r"
        using last_common_anc [OF tree less.prems tree_height [OF tree q(1)], of tip r] le r(2) q(2) a by simp
      then show ?thesis using r(1) False Some by (simp add: fork_loop.simps [of store _ "Some p"])
    qed
  qed
qed

text \<open>
  C27: \<open>FindFork\<close> returns the last common block. In a tree of blocks it returns the highest block that
  is both on the active chain and an ancestor of the given block, and null only when there is none.
\<close>

theorem FindFork_last_common:
  assumes "block_tree store B" "tip \<in> B" "p \<in> B"
  shows "\<exists>r. FindFork store (chain_of store tip) (Some p) = Some r \<and> last_common store p tip r"
proof (cases "nHeight (store tip) < nHeight (store p)")
  case True
  let ?a = "anc store p (nHeight (store tip))"
  have h: "0 \<le> nHeight (store tip)" using tree_height [OF assms(1,2)] .
  have "?a \<in> B" using anc_in [OF assms(1,3) h] True by simp
  then obtain r where r: "fork_loop store (chain_of store tip) (Some ?a) = Some r" "last_common store ?a tip r"
    using fork_loop_last_common [OF assms(1,2)] by blast
  then have "last_common store p tip r"
    using last_common_anc [OF assms(1,3) h, of tip r] True by (auto simp: common_def)
  then show ?thesis
    using r True h GetAncestor_anc [OF assms(1,3), of "nHeight (store tip)"] by (simp add: FindFork_def Height_def)
next
  case False
  then show ?thesis
    using fork_loop_last_common [OF assms] tree_height [OF assms(1,2)] by (simp add: FindFork_def Height_def)
qed

theorem FindFork_last_common_witness:
  "\<exists>r. FindFork sample_store (chain_of sample_store 5) (Some 9) = Some r \<and> last_common sample_store 9 5 r"
  using FindFork_last_common [OF sample_tree, of 5 9] by simp

definition locator_heights :: "int \<Rightarrow> int list \<Rightarrow> bool" where
  "locator_heights h hs \<longleftrightarrow> hs \<noteq> [] \<and> hd hs = h \<and> last hs = 0 \<and> sorted_wrt (>) hs \<and> list_all (\<lambda>k. 0 \<le> k \<and> k \<le> h) hs"

abbreviation hash_at :: "block_store \<Rightarrow> block_ptr \<Rightarrow> int \<Rightarrow> uint256" where
  "hash_at store p k \<equiv> GetBlockHash (store (anc store p k))"

lemma locator_next:
  assumes "block_tree store B" "tip \<in> B" "p \<in> B" "0 \<le> h" "h \<le> nHeight (store p)" "nHeight (store p) \<noteq> 0"
    and "h = max (nHeight (store p) - nStep) 0" "1 \<le> nStep"
  shows "\<exists>nStep'. 1 \<le> nStep' \<and> locator_loop store (chain_of store tip) nStep vHave (Some p) =
      locator_loop store (chain_of store tip) nStep' (vHave @ [GetBlockHash (store p)]) (Some (anc store p h))"
proof -
  let ?c = "chain_of store tip"
  have "CChain_at ?c h = Some (anc store p h)" if "Contains store ?c (Some p)"
    using that assms(4,5) Contains_chain_of [OF assms(1,3), of tip] anc_anc [OF assms(1,2), of h "nHeight (store p)"]
    by (auto simp: CChain_at_chain_of)
  then show ?thesis
    using assms(4-8) GetAncestor_anc [OF assms(1,3), of h]
    by (intro exI [of _ "if 10 < length (vHave @ [GetBlockHash (store p)]) then nStep * 2 else nStep"])
      (simp add: locator_loop.simps [of store ?c nStep vHave "Some p"] Let_def)
qed

lemma locator_loop_heights:
  assumes tree: "block_tree store B" and tip: "tip \<in> B"
  shows "p \<in> B \<Longrightarrow> 1 \<le> nStep \<Longrightarrow> \<exists>hs. locator_heights (nHeight (store p)) hs \<and>
    locator_loop store (chain_of store tip) nStep vHave (Some p) = Some (vHave @ map (hash_at store p) hs)"
proof (induction "nat (nHeight (store p))" arbitrary: p nStep vHave rule: less_induct)
  case less
  let ?H = "nHeight (store p)" and ?c = "chain_of store tip"
  have H: "0 \<le> ?H" using tree_height [OF tree less.prems(1)] .
  show ?case
  proof (cases "?H = 0")
    case True
    then have "locator_loop store ?c nStep vHave (Some p) = Some (vHave @ map (hash_at store p) [?H])"
      by (simp add: locator_loop.simps [of store ?c nStep vHave "Some p"] Let_def anc_def)
    then show ?thesis using True by (intro exI [of _ "[?H]"]) (simp add: locator_heights_def)
  next
    case False
    define h where "h = max (?H - nStep) 0"
    have h: "0 \<le> h" "h < ?H" using False H less.prems(2) by (auto simp: h_def)
    obtain nStep' where n: "1 \<le> nStep'" and loop: "locator_loop store ?c nStep vHave (Some p) =
        locator_loop store ?c nStep' (vHave @ [GetBlockHash (store p)]) (Some (anc store p h))"
      using locator_next [OF tree tip less.prems(1) h(1) _ False h_def less.prems(2), of vHave] h(2) by auto
    have a: "anc store p h \<in> B" "nHeight (store (anc store p h)) = h" using anc_in [OF tree less.prems(1) h(1)] h(2) by auto
    obtain hs where hs: "locator_heights h hs" "locator_loop store ?c nStep' (vHave @ [GetBlockHash (store p)]) (Some (anc store p h)) =
        Some ((vHave @ [GetBlockHash (store p)]) @ map (hash_at store (anc store p h)) hs)"
      using less.hyps [of "anc store p h" nStep' "vHave @ [GetBlockHash (store p)]"] a n h by auto
    have "map (hash_at store (anc store p h)) hs = map (hash_at store p) hs"
      using hs(1) h(2) anc_anc [OF tree less.prems(1), of _ h] by (auto simp: locator_heights_def list_all_iff)
    moreover have "locator_heights ?H (?H # hs)"
      using hs(1) h by (auto simp: locator_heights_def list_all_iff)
    ultimately show ?thesis using loop hs(2) by (intro exI [of _ "?H # hs"]) simp
  qed
qed

text \<open>
  C28: building a locator ends. In a tree of blocks \<open>GetLocator\<close> returns for every block, on the active
  chain or not; the locator lists ancestors of the block at strictly decreasing heights, from the block itself
  down to the genesis block.
\<close>

theorem GetLocator_returns:
  assumes "block_tree store B" "tip \<in> B" "p \<in> B"
  shows "\<exists>hs. GetLocator store (chain_of store tip) (Some p) =
      Some (map (\<lambda>h. GetBlockHash (store (up store (nat (nHeight (store p) - h)) p))) hs) \<and>
    hs \<noteq> [] \<and> hd hs = nHeight (store p) \<and> last hs = 0 \<and> sorted_wrt (>) hs"
  using locator_loop_heights [OF assms, of 1 "[]"] by (auto simp: GetLocator_def locator_heights_def anc_def)

theorem GetLocator_returns_witness:
  "\<exists>hs. GetLocator sample_store (chain_of sample_store 20) (Some 40) =
      Some (map (\<lambda>h. GetBlockHash (sample_store (up sample_store (nat (40 - h)) 40))) hs) \<and> last hs = 0"
  using GetLocator_returns [OF sample_tree, of 20 40] by (auto simp: sample_store_def)

section \<open>Work\<close>

lemma complement_div:
  fixes N t :: nat
  assumes "t < N"
  shows "(N - 1 - t) div (t + 1) + 1 = N div (t + 1)"
proof -
  define d where "d = t + 1"
  have d: "0 < d" "N = (N - d) + d" using assms by (auto simp: d_def)
  have "N div d = (N - d) div d + 1" using d div_add_self2 [of d "N - d"] by simp
  then show ?thesis by (simp add: d_def)
qed

lemma uval_eq_0_iff: "uval a = 0 \<longleftrightarrow> list_all (\<lambda>p. p = 0) a"
  by (induction a) (auto simp: unat_eq_0)

lemma EqualTo_0:
  assumes "length a = WIDTH"
  shows "EqualTo a 0 \<longleftrightarrow> uval a = 0"
proof -
  obtain x y zs where "a = x # y # zs" using assms by (cases a; cases "tl a") (auto simp: WIDTH_def)
  moreover have "ucast z = (0 :: u64) \<longleftrightarrow> z = 0" for z :: u32
    using unat_u32_up [of z] by (metis unat_eq_zero)
  ultimately show ?thesis by (simp add: EqualTo_def uval_eq_0_iff unat_eq_zero conj_commute conj_left_commute)
qed

lemma multiple_below:
  fixes x m :: nat
  assumes "k dvd x" "x < m" "k dvd m" "1 < k"
  shows "x + 1 < m"
proof -
  have "k dvd m - x" using assms by (simp add: dvd_diff_nat)
  then have "k \<le> m - x" using assms(2) by (simp add: dvd_imp_le)
  then show ?thesis using assms(4) by simp
qed

lemma SetCompact_bound:
  assumes "SetCompact c = (v, neg, ov)"
  shows "length v = WIDTH" "uval v + 1 < 2 ^ 256"
proof -
  define s m where "s = unat c div 2 ^ 24" and "m = unat c mod 2 ^ 23"
  have v: "length v = WIDTH" "uval v = compact_val s m mod 2 ^ 256"
    using SetCompact_arith [of c] assms by (auto simp: s_def m_def WIDTH_def)
  show "length v = WIDTH" by (rule v(1))
  show "uval v + 1 < 2 ^ 256"
  proof (cases "s \<le> 3")
    case True
    have "uval v \<le> m div 256 ^ (3 - s)" using True mod_less_eq_dividend by (simp add: v(2) compact_val_def)
    also have "\<dots> \<le> m" by (rule div_le_dividend)
    also have "m < 2 ^ 23" by (simp add: m_def)
    finally show ?thesis by simp
  next
    case False
    have "256 dvd compact_val s m" using False by (simp add: compact_val_def dvd_power)
    moreover have "(256 :: nat) dvd 2 ^ 256" by simp
    ultimately have "256 dvd uval v" unfolding v(2) by (rule dvd_mod)
    then show ?thesis by (rule multiple_below) (simp_all add: v(2))
  qed
qed

lemma uval_zeros: "uval (replicate n 0) = 0"
  by (induction n) simp_all

lemma ArithToUint256_zeros: "ArithToUint256 (replicate n 0) = replicate (4 * n) 0"
proof (induction n)
  case (Suc n)
  have "WriteLE32 0 = replicate 4 0" by (simp add: WriteLE32_def eval_nat_numeral)
  then show ?case using Suc by (simp add: ArithToUint256_def replicate_add [symmetric])
qed (simp add: ArithToUint256_def)

lemma GetBlockTrust_zero: "GetBlockTrust b = Inr (replicate 32 0)"
proof -
  obtain t neg ov where s: "SetCompact (bi_nBits b) = (t, neg, ov)" by (rule prod_cases3)
  note t = SetCompact_bound [OF s]
  have l: "length (uint_shl (base_uint_of_u64 1) 256) = WIDTH" "length (uint_add t (base_uint_of_u64 1)) = WIDTH"
    using t(1) by (simp_all add: uint_add_def)
  have 0: "uval (uint_shl (base_uint_of_u64 1) 256) = 0"
    by (simp add: uval_uint_shl WIDTH_def)
  have "uval (uint_add t (base_uint_of_u64 1)) \<noteq> 0"
    using t uval_uint_add [of t "base_uint_of_u64 1"] by (simp add: WIDTH_def)
  from uint_div_val [OF l this] 0 obtain q where
    q: "uint_div (uint_shl (base_uint_of_u64 1) 256) (uint_add t (base_uint_of_u64 1)) = Inr q" "length q = WIDTH" "uval q = 0" by auto
  have "q = replicate 8 0" using q(2,3) uval_eqD [of q "replicate 8 0"] uval_zeros [of 8] by (simp add: WIDTH_def)
  then have "ArithToUint256 q = replicate 32 0" using ArithToUint256_zeros [of 8] by simp
  then show ?thesis using s q(1) by (simp add: GetBlockTrust_def)
qed

text \<open>
  C29: the work of a block is the expected number of hashes, \<open>2\<^sup>2\<^sup>5\<^sup>6\<close> divided by the target plus
  one, computed without leaving 256 bits, and zero for a target that is negative, zero or too large; the
  division never fails. \<open>GetBlockTrust\<close>, which shifts a one out of the 256 bits, is always zero.
\<close>

theorem GetBlockProof_work:
  "\<exists>w t neg ov. GetBlockProof b = Inr w \<and> SetCompact (bi_nBits b) = (t, neg, ov) \<and>
    uval w = (if neg \<or> ov \<or> uval t = 0 then 0 else 2 ^ 256 div (uval t + 1)) \<and>
    GetBlockTrust b = Inr (replicate 32 0)"
proof -
  obtain t neg ov where s: "SetCompact (bi_nBits b) = (t, neg, ov)" by (rule prod_cases3)
  note t = SetCompact_bound [OF s]
  have "\<exists>w. GetBlockProof b = Inr w \<and> uval w = (if neg \<or> ov \<or> uval t = 0 then 0 else 2 ^ 256 div (uval t + 1))"
  proof (cases "neg \<or> ov \<or> uval t = 0")
    case True
    then show ?thesis using s EqualTo_0 [OF t(1)] by (auto simp: GetBlockProof_def)
  next
    case False
    have a: "uval (uint_add t (base_uint_of_u64 1)) = uval t + 1"
      using t uval_uint_add [of t "base_uint_of_u64 1"] by (simp add: WIDTH_def)
    have n: "uval (uint_not t) = 2 ^ 256 - 1 - uval t" using t(1) by (simp add: uint_not_def uval_map_not WIDTH_def)
    obtain q where q: "uint_div (uint_not t) (uint_add t (base_uint_of_u64 1)) = Inr q" "length q = WIDTH"
      "uval q = (2 ^ 256 - 1 - uval t) div (uval t + 1)"
      using uint_div_val [of "uint_not t" "uint_add t (base_uint_of_u64 1)"] t(1) a n by (auto simp: uint_not_def uint_add_def)
    have w: "uval q + 1 = 2 ^ 256 div (uval t + 1)" using complement_div [of "uval t" "2 ^ 256"] t(2) q(3) by simp
    also have "\<dots> < 2 ^ 256" using False by (intro div_less_dividend) auto
    finally have "uval (uint_add q (base_uint_of_u64 1)) = 2 ^ 256 div (uval t + 1)"
      using q(2) uval_uint_add [of q "base_uint_of_u64 1"] w by (simp add: WIDTH_def)
    then show ?thesis using s q False EqualTo_0 [OF t(1)] by (simp add: GetBlockProof_def)
  qed
  then show ?thesis using s GetBlockTrust_zero by blast
qed

end
