(* ===== verification/Versionbits_Props.thy ===== *)
theory Versionbits_Props
  imports Versionbits Chain_Props
begin

text \<open>
  The cached computation of deployment states agrees with a state machine run from the genesis block, one step
  per period, that restarts at every period end before the start time; where median times do not decrease, this is the
  plain state machine.  A deployment is decided once the chain stays past its timeout; and the test of the
  version bits never looks at the top bits.
\<close>

section \<open>The state machine\<close>

definition signals :: "block_store \<Rightarrow> AbstractThresholdConditionChecker \<Rightarrow> block_ptr \<Rightarrow> nat \<Rightarrow> nat" where
  "signals store ck p n = length (filter (\<lambda>i. Condition ck (up store i p)) [0..<n])"

definition ref_next :: "block_store \<Rightarrow> AbstractThresholdConditionChecker \<Rightarrow> block_ptr \<Rightarrow> ThresholdState \<Rightarrow> ThresholdState" where
  "ref_next store ck p s =
     (case s of
        THRESHOLD_DEFINED \<Rightarrow>
          if EndTime ck \<le> GetMedianTimePast store p then THRESHOLD_FAILED
          else if BeginTime ck \<le> GetMedianTimePast store p then THRESHOLD_STARTED else THRESHOLD_DEFINED
      | THRESHOLD_STARTED \<Rightarrow>
          if EndTime ck \<le> GetMedianTimePast store p then THRESHOLD_FAILED
          else if Threshold ck \<le> int (signals store ck p (Period ck)) then THRESHOLD_LOCKED_IN else THRESHOLD_STARTED
      | THRESHOLD_LOCKED_IN \<Rightarrow> THRESHOLD_ACTIVE
      | THRESHOLD_ACTIVE \<Rightarrow> THRESHOLD_ACTIVE
      | THRESHOLD_FAILED \<Rightarrow> THRESHOLD_FAILED)"

text \<open>The state after the first \<open>k\<close> periods of the chain that ends in a block.\<close>

primrec period_state :: "block_store \<Rightarrow> AbstractThresholdConditionChecker \<Rightarrow> block_ptr \<Rightarrow> nat \<Rightarrow> ThresholdState" where
  "period_state store ck p 0 = THRESHOLD_DEFINED"
| "period_state store ck p (Suc k) =
     ref_next store ck (anc store p (int (Suc k * Period ck) - 1)) (period_state store ck p k)"

text \<open>
  The state as the code computes it: it does not look behind a period end whose median time is before the
  start time, so that the state there is \<open>THRESHOLD_DEFINED\<close> whatever happened before.
\<close>

primrec run_state :: "block_store \<Rightarrow> AbstractThresholdConditionChecker \<Rightarrow> block_ptr \<Rightarrow> nat \<Rightarrow> ThresholdState" where
  "run_state store ck p 0 = THRESHOLD_DEFINED"
| "run_state store ck p (Suc k) =
     (let b = anc store p (int (Suc k * Period ck) - 1)
      in if GetMedianTimePast store b < BeginTime ck then THRESHOLD_DEFINED
         else ref_next store ck b (run_state store ck p k))"

text \<open>The median times along the chain that ends in a block do not decrease.\<close>

definition median_mono :: "block_store \<Rightarrow> block_ptr \<Rightarrow> bool" where
  "median_mono store p \<longleftrightarrow>
     (\<forall>h k. 0 \<le> h \<and> h \<le> k \<and> k \<le> nHeight (store p) \<longrightarrow>
        GetMedianTimePast store (anc store p h) \<le> GetMedianTimePast store (anc store p k))"

lemma period_end_nonneg: "0 < n \<Longrightarrow> 0 \<le> int (Suc k * n) - 1"
proof -
  assume "0 < n"
  then have "1 \<le> Suc k * n" by simp
  then show ?thesis by linarith
qed

lemma count_loop_signals:
  assumes tree: "block_tree store B"
  shows "p \<in> B \<Longrightarrow> int n \<le> nHeight (store p) + 1 \<Longrightarrow>
    count_loop store ck n c (Some p) = Some (c + int (signals store ck p n))"
proof (induction n arbitrary: p c)
  case (Suc n)
  have s: "signals store ck p (Suc n) = (if Condition ck p then 1 else 0) + signals store ck (the (pprev (store p))) n"
    unfolding signals_def by (simp add: upt_conv_Cons map_Suc_upt [symmetric] filter_map comp_def del: upt_Suc)
  show ?case
  proof (cases "n = 0")
    case True
    then show ?thesis using s by (simp add: signals_def)
  next
    case False
    then obtain q where "pprev (store p) = Some q" "q \<in> B" "nHeight (store q) + 1 = nHeight (store p)"
      using tree_parent [OF tree Suc.prems(1)] Suc.prems(2) by auto
    then show ?thesis using Suc.IH [of q] Suc.prems s by simp
  qed
qed (simp add: signals_def)

lemma state_next_ref:
  assumes "block_tree store B" "p \<in> B" "int (Period ck) \<le> nHeight (store p) + 1"
  shows "state_next store ck p s = Some (ref_next store ck p s)"
  using count_loop_signals [OF assms] by (cases s) (simp_all add: state_next_def ref_next_def)

lemma run_state_anc:
  assumes "block_tree store B" "p \<in> B" "0 \<le> h" "h \<le> nHeight (store p)" "0 < Period ck"
  shows "int (k * Period ck) - 1 \<le> h \<Longrightarrow> run_state store ck (anc store p h) k = run_state store ck p k"
proof (induction k)
  case (Suc k)
  have "int (k * Period ck) - 1 \<le> h" using Suc.prems by simp
  moreover have "anc store (anc store p h) (int (Suc k * Period ck) - 1) = anc store p (int (Suc k * Period ck) - 1)"
    by (rule anc_anc [OF assms(1,2) period_end_nonneg [OF assms(5)] Suc.prems assms(4)])
  ultimately show ?case using Suc.IH by (simp only: run_state.simps)
qed simp

text \<open>Before the start time the plain state machine has not moved, so that restarting it changes nothing.\<close>

lemma period_state_before_start:
  assumes mono: "median_mono store p" and "0 < Period ck" "BeginTime ck \<le> EndTime ck"
    and e: "e \<le> nHeight (store p)" "GetMedianTimePast store (anc store p e) < BeginTime ck"
  shows "int (k * Period ck) - 1 \<le> e \<Longrightarrow> period_state store ck p k = THRESHOLD_DEFINED"
proof (induction k)
  case (Suc k)
  have "GetMedianTimePast store (anc store p (int (Suc k * Period ck) - 1)) \<le> GetMedianTimePast store (anc store p e)"
    using mono period_end_nonneg [OF assms(2)] Suc.prems e(1) unfolding median_mono_def by blast
  then have "GetMedianTimePast store (anc store p (int (Suc k * Period ck) - 1)) < BeginTime ck"
    using e(2) by (rule order_le_less_trans)
  moreover have "period_state store ck p k = THRESHOLD_DEFINED" using Suc by simp
  ultimately show ?case using assms(3) by (simp add: ref_next_def)
qed simp

lemma run_state_period:
  assumes "median_mono store p" "0 < Period ck" "BeginTime ck \<le> EndTime ck"
  shows "int (k * Period ck) - 1 \<le> nHeight (store p) \<Longrightarrow> run_state store ck p k = period_state store ck p k"
proof (induction k)
  case (Suc k)
  then have "run_state store ck p k = period_state store ck p k" by simp
  moreover have "GetMedianTimePast store (anc store p (int (Suc k * Period ck) - 1)) < BeginTime ck \<Longrightarrow>
      period_state store ck p (Suc k) = THRESHOLD_DEFINED"
    using period_state_before_start [OF assms Suc.prems] by blast
  ultimately show ?case by (simp add: Let_def)
qed simp

section \<open>The cache\<close>

text \<open>A position of the computation: the last block of the \<open>k\<close>-th period, or null before the first.\<close>

definition at_period :: "block_store \<Rightarrow> block_ptr set \<Rightarrow> nat \<Rightarrow> block_ptr option \<Rightarrow> nat \<Rightarrow> bool" where
  "at_period store B n pp k \<longleftrightarrow>
     (case pp of None \<Rightarrow> k = 0 | Some p \<Rightarrow> p \<in> B \<and> 0 < k \<and> nHeight (store p) = int (k * n) - 1)"

definition cache_correct :: "block_store \<Rightarrow> block_ptr set \<Rightarrow> AbstractThresholdConditionChecker \<Rightarrow> ThresholdConditionCache \<Rightarrow> bool" where
  "cache_correct store B ck cache \<longleftrightarrow>
     (\<forall>pp s. cache pp = Some s \<longrightarrow> (\<exists>k. at_period store B (Period ck) pp k \<and> s = run_state store ck (the pp) k))"

lemma at_period_unique: "at_period store B n pp k \<Longrightarrow> at_period store B n pp j \<Longrightarrow> 0 < n \<Longrightarrow> k = j"
  by (auto simp: at_period_def split: option.splits simp flip: of_nat_mult)

lemma cache_correct_lookup:
  "cache_correct store B ck cache \<Longrightarrow> at_period store B (Period ck) pp k \<Longrightarrow> 0 < Period ck \<Longrightarrow> cache pp = Some s \<Longrightarrow>
    s = run_state store ck (the pp) k"
  unfolding cache_correct_def using at_period_unique by blast

lemma cache_correct_update:
  "cache_correct store B ck cache \<Longrightarrow> at_period store B (Period ck) pp k \<Longrightarrow>
    cache_correct store B ck (cache(pp \<mapsto> run_state store ck (the pp) k))"
  unfolding cache_correct_def by auto

lemma period_step:
  assumes tree: "block_tree store B" and "at_period store B (Period ck) (Some p) (Suc k)" "0 < Period ck"
    and start: "\<not> GetMedianTimePast store p < BeginTime ck"
  shows "\<exists>a. GetAncestor store p (nHeight (store p) - int (Period ck)) = Some a \<and> at_period store B (Period ck) a k \<and>
    state_next store ck p (run_state store ck (the a) k) = Some (run_state store ck p (Suc k))"
proof -
  let ?n = "Period ck"
  have p: "p \<in> B" "nHeight (store p) = int (Suc k * ?n) - 1" using assms(2) by (auto simp: at_period_def)
  have h: "nHeight (store p) - int ?n = int (k * ?n) - 1" using p(2) by simp
  have self: "anc store p (int (Suc k * ?n) - 1) = p" using anc_self [of store p] p(2) by simp
  have next': "state_next store ck p s = Some (ref_next store ck p s)" for s
    using state_next_ref [OF tree p(1)] p(2) by simp
  show ?thesis
  proof (cases "k = 0")
    case True
    then show ?thesis
      using GetAncestor_anc [OF tree p(1), of "- 1"] h next' self start by (simp add: at_period_def)
  next
    case False
    then obtain j where j: "k = Suc j" by (cases k) auto
    have b: "0 \<le> int (k * ?n) - 1" "int (k * ?n) - 1 \<le> nHeight (store p)"
      using period_end_nonneg [OF assms(3), of j] j p(2) by auto
    have "GetAncestor store p (nHeight (store p) - int ?n) = Some (Some (anc store p (int (k * ?n) - 1)))"
      unfolding h using GetAncestor_anc [OF tree p(1)] b by simp
    moreover have "at_period store B ?n (Some (anc store p (int (k * ?n) - 1))) k"
      using anc_in [OF tree p(1) b] False by (simp add: at_period_def)
    moreover have "run_state store ck (anc store p (int (k * ?n) - 1)) k = run_state store ck p k"
      using run_state_anc [OF tree p(1) b assms(3), of k] by simp
    ultimately show ?thesis using next' self start by simp
  qed
qed

lemma loops_correct:
  assumes "block_tree store B" "0 < Period ck" "cache_correct store B ck cache"
  shows "at_period store B (Period ck) pp k \<Longrightarrow> \<exists>cache1 v1 q s1 cache2.
    back_loop store ck cache v pp = Some (cache1, v1, q) \<and> cache1 q = Some s1 \<and> cache_correct store B ck cache2 \<and>
    forward_loop store ck cache1 v1 s1 = forward_loop store ck cache2 v (run_state store ck (the pp) k)"
proof (induction k arbitrary: pp v)
  case 0
  then have pp: "pp = None" by (auto simp: at_period_def split: option.splits)
  show ?case
  proof (cases "cache pp")
    case None
    then show ?thesis
      using cache_correct_update [OF assms(3) 0] pp by (simp add: back_loop.simps [of store ck cache v]) (auto split: if_splits)
  next
    case (Some s)
    then show ?thesis
      using cache_correct_lookup [OF assms(3) 0 assms(2) Some] assms(3) by (auto simp: back_loop.simps [of store ck cache v])
  qed
next
  case (Suc k)
  then obtain p where pp: "pp = Some p" and p: "p \<in> B" "nHeight (store p) = int (Suc k * Period ck) - 1"
    by (auto simp: at_period_def split: option.splits)
  consider (cached) s where "cache pp = Some s" | (early) "cache pp = None" "GetMedianTimePast store p < BeginTime ck"
    | (walk) "cache pp = None" "\<not> GetMedianTimePast store p < BeginTime ck" by (cases "cache pp") auto
  then show ?case
  proof cases
    case cached
    then show ?thesis
      using cache_correct_lookup [OF assms(3) Suc.prems assms(2) cached] assms(3)
      by (auto simp: back_loop.simps [of store ck cache v])
  next
    case early
    have "anc store p (int (Suc k * Period ck) - 1) = p" using anc_self [of store p] p(2) by simp
    then have "run_state store ck p (Suc k) = THRESHOLD_DEFINED" using early(2) by simp
    then show ?thesis
      using cache_correct_update [OF assms(3) Suc.prems] early pp
      by (auto simp: back_loop.simps [of store ck cache v])
  next
    case walk
    obtain a where a: "GetAncestor store p (nHeight (store p) - int (Period ck)) = Some a" "at_period store B (Period ck) a k"
      "state_next store ck p (run_state store ck (the a) k) = Some (run_state store ck p (Suc k))"
      using period_step [OF assms(1)] Suc.prems assms(2) walk(2) pp by blast
    obtain cache1 v1 q s1 cache2 where IH: "back_loop store ck cache (p # v) a = Some (cache1, v1, q)" "cache1 q = Some s1"
      "cache_correct store B ck cache2"
      "forward_loop store ck cache1 v1 s1 = forward_loop store ck cache2 (p # v) (run_state store ck (the a) k)"
      using Suc.IH [OF a(2), of "p # v"] by blast
    have "forward_loop store ck cache1 v1 s1 =
        forward_loop store ck (cache2(Some p \<mapsto> run_state store ck p (Suc k))) v (run_state store ck p (Suc k))"
      using IH(4) a(3) by simp
    moreover have "back_loop store ck cache v pp = Some (cache1, v1, q)"
      using walk pp a(1) IH(1) by (simp add: back_loop.simps [of store ck cache v])
    ultimately show ?thesis
      using IH(2) cache_correct_update [OF IH(3) Suc.prems] pp by fastforce
  qed
qed

lemma forward_loop_Nil: "forward_loop store ck cache [] s = Some (s, cache)"
  by simp

lemma start_period:
  fixes n :: nat
  assumes "0 \<le> h" "0 < n" "k = nat (h + 1) div n"
  shows "h - (h + 1) mod int n = int (k * n) - 1"
proof -
  define m where "m = nat (h + 1)"
  have h: "h = int m - 1" using assms(1) by (simp add: m_def)
  have "int (m div n * n) + int (m mod n) = int m" unfolding of_nat_add [symmetric] by simp
  then have e: "int m mod int n = int m - int (m div n * n)" unfolding zmod_int by linarith
  have "h + 1 = int m" using h by simp
  then show ?thesis unfolding assms(3) m_def [symmetric] using h e by simp
qed

lemma GetStateFor_period:
  assumes "block_tree store B" "p \<in> B" "0 < Period ck" "cache_correct store B ck cache"
  shows "\<exists>cache'. GetStateFor store ck cache (Some p) =
      Some (run_state store ck p (nat (nHeight (store p) + 1) div Period ck), cache') \<and> cache_correct store B ck cache'"
proof -
  define k where "k = nat (nHeight (store p) + 1) div Period ck"
  let ?h = "int (k * Period ck) - 1"
  have h: "nHeight (store p) - (nHeight (store p) + 1) mod int (Period ck) = ?h"
    by (rule start_period [OF tree_height [OF assms(1,2)] assms(3) k_def])
  have le: "?h \<le> nHeight (store p)"
    using h pos_mod_sign [of "int (Period ck)" "nHeight (store p) + 1"] assms(3) by linarith
  obtain a where a: "GetAncestor store p ?h = Some a" "at_period store B (Period ck) a k"
    "run_state store ck (the a) k = run_state store ck p k"
  proof (cases k)
    case 0
    then show ?thesis using that [of None] GetAncestor_anc [OF assms(1,2), of "- 1"] by (simp add: at_period_def)
  next
    case (Suc j)
    have b: "0 \<le> ?h" unfolding Suc by (rule period_end_nonneg [OF assms(3)])
    show ?thesis
      using that [of "Some (anc store p ?h)"] GetAncestor_anc [OF assms(1,2), of ?h] b le anc_in [OF assms(1,2) b le]
        run_state_anc [OF assms(1,2) b le assms(3), of k] Suc by (simp add: at_period_def)
  qed
  obtain cache1 v1 q s1 cache2 where l: "back_loop store ck cache [] a = Some (cache1, v1, q)" "cache1 q = Some s1"
    "cache_correct store B ck cache2" "forward_loop store ck cache1 v1 s1 = Some (run_state store ck p k, cache2)"
    using loops_correct [OF assms(1,3,4) a(2), of "[]"] unfolding forward_loop_Nil a(3) by blast
  then have "GetStateFor store ck cache (Some p) = Some (run_state store ck p k, cache2)"
    using a(1) by (simp add: GetStateFor_def h)
  then show ?thesis using l(3) unfolding k_def by blast
qed

text \<open>The number of complete periods of the chain that ends in a block.\<close>

definition periods :: "block_store \<Rightarrow> AbstractThresholdConditionChecker \<Rightarrow> block_ptr \<Rightarrow> nat" where
  "periods store ck p = nat (nHeight (store p) + 1) div Period ck"

lemma periods_end:
  assumes "block_tree store B" "p \<in> B"
  shows "int (periods store ck p * Period ck) - 1 \<le> nHeight (store p)"
proof -
  have "0 \<le> nHeight (store p)" by (rule tree_height [OF assms])
  moreover have "periods store ck p * Period ck \<le> nat (nHeight (store p) + 1)"
    unfolding periods_def by (rule div_times_less_eq_dividend)
  ultimately show ?thesis by linarith
qed

text \<open>
  C9: the cached deployment state is the state of the state machine. In any tree of blocks, for a positive
  period and a cache that holds only correct states, \<open>GetStateFor\<close> returns the state that one step per
  complete period reaches from the genesis block, where a period end whose median time is before the start time
  is \<open>THRESHOLD_DEFINED\<close> again; and it leaves a cache that holds only correct states. When the median
  times along the chain do not decrease and the timeout is not before the start time, no restart has an
  effect: the state is that of the plain state machine.
\<close>

theorem GetStateFor_correct:
  assumes "block_tree store B" "p \<in> B" "0 < Period ck" "cache_correct store B ck cache"
  shows "(\<exists>cache'. GetStateFor store ck cache (Some p) = Some (run_state store ck p (periods store ck p), cache')
            \<and> cache_correct store B ck cache')
    \<and> (median_mono store p \<and> BeginTime ck \<le> EndTime ck \<longrightarrow>
         run_state store ck p (periods store ck p) = period_state store ck p (periods store ck p))"
  using GetStateFor_period [OF assms] run_state_period [of store p ck "periods store ck p"] assms(3)
    periods_end [OF assms(1,2), of ck]
  by (simp add: periods_def)

text \<open>The two final states, and the step that leads to them once the deployment has timed out.\<close>

definition is_final :: "ThresholdState \<Rightarrow> bool" where
  "is_final s \<longleftrightarrow> s = THRESHOLD_ACTIVE \<or> s = THRESHOLD_FAILED"

lemma final_step:
  "EndTime ck \<le> GetMedianTimePast store p \<Longrightarrow> is_final (ref_next store ck p s)" "is_final s \<Longrightarrow> ref_next store ck p s = s"
  by (cases s; simp add: is_final_def ref_next_def)+

text \<open>From some height on, all blocks of the chain are past the timeout.\<close>

definition timed_out :: "block_store \<Rightarrow> AbstractThresholdConditionChecker \<Rightarrow> block_ptr \<Rightarrow> int \<Rightarrow> bool" where
  "timed_out store ck p h \<longleftrightarrow>
     (\<forall>j. h \<le> j \<and> j \<le> nHeight (store p) \<longrightarrow> EndTime ck \<le> GetMedianTimePast store (anc store p j))"

lemma timed_out_later: "timed_out store ck p h \<Longrightarrow> h \<le> h' \<Longrightarrow> timed_out store ck p h'"
  unfolding timed_out_def by auto

lemma timed_out_step:
  assumes "timed_out store ck p h" "BeginTime ck \<le> EndTime ck"
    and "h \<le> int (Suc k * Period ck) - 1" "int (Suc k * Period ck) - 1 \<le> nHeight (store p)"
  shows "is_final (run_state store ck p (Suc k))"
    and "is_final (run_state store ck p k) \<Longrightarrow> run_state store ck p (Suc k) = run_state store ck p k"
proof -
  let ?b = "anc store p (int (Suc k * Period ck) - 1)"
  have e: "EndTime ck \<le> GetMedianTimePast store ?b" using assms(1,3,4) unfolding timed_out_def by blast
  then have n: "run_state store ck p (Suc k) = ref_next store ck ?b (run_state store ck p k)"
    using assms(2) by (simp add: Let_def)
  show "is_final (run_state store ck p (Suc k))" unfolding n using e by (rule final_step(1))
  show "run_state store ck p (Suc k) = run_state store ck p k" if "is_final (run_state store ck p k)"
    unfolding n using that by (rule final_step(2))
qed

lemma final_stays:
  assumes "timed_out store ck p h" "BeginTime ck \<le> EndTime ck" "is_final (run_state store ck p k)"
    and "h \<le> int (Suc k * Period ck) - 1"
  shows "k \<le> n \<Longrightarrow> int (n * Period ck) - 1 \<le> nHeight (store p) \<Longrightarrow> run_state store ck p n = run_state store ck p k"
proof (induction n)
  case (Suc n)
  show ?case
  proof (cases "k = Suc n")
    case False
    then have kn: "k \<le> n" using Suc.prems(1) by simp
    then have "Suc k * Period ck \<le> Suc n * Period ck" by (intro mult_le_mono1) simp
    then have "h \<le> int (Suc n * Period ck) - 1" using assms(4) by linarith
    moreover have "run_state store ck p n = run_state store ck p k" using Suc.IH kn Suc.prems(2) by simp
    ultimately show ?thesis using timed_out_step(2) [OF assms(1,2) _ Suc.prems(2)] assms(3) by simp
  qed simp
qed (simp add: assms)

text \<open>Within one period after the timeout a period ends.\<close>

lemma timeout_period:
  assumes "0 < Period ck" "0 \<le> h" "h + int (Period ck) \<le> nHeight (store p)"
    and "timed_out store ck p h" "BeginTime ck \<le> EndTime ck"
  obtains k where "h \<le> int (k * Period ck) - 1" "int (k * Period ck) - 1 \<le> nHeight (store p)"
    "k \<le> periods store ck p" "is_final (run_state store ck p k)"
proof -
  define n where "n = Period ck"
  define j where "j = nat h div n"
  let ?e = "int (Suc j * n) - 1"
  have "j * n \<le> nat h" "nat h < Suc j * n"
    using assms(1) dividend_less_times_div [of n "nat h"] by (simp_all add: j_def n_def mult.commute)
  moreover have "int (Suc j * n) = int n + int (j * n)" by simp
  ultimately have e: "h \<le> ?e" "?e \<le> nHeight (store p)" using assms(2,3) unfolding n_def [symmetric] by linarith+
  have "is_final (run_state store ck p (Suc j))"
    using timed_out_step(1) [OF assms(4,5) e [unfolded n_def]] .
  moreover have "Suc j * n \<le> nat (nHeight (store p) + 1)" using e(2) by linarith
  then have "Suc j \<le> periods store ck p"
    unfolding periods_def using assms(1) by (subst less_eq_div_iff_mult_less_eq) (simp_all add: n_def)
  ultimately show thesis using that [of "Suc j"] e unfolding n_def by blast
qed

text \<open>
  C22: every deployment is decided. If the timeout of a deployment is not before its start time and all blocks of
  the chain from some height on have a median time at or past the timeout, then at most one period later
  \<open>GetStateFor\<close> returns that the deployment is active or that it has failed; and it returns the same
  state for every later block, as long as the blocks up to it are past the timeout too, whatever correct
  states are cached.
\<close>

theorem deployment_decided:
  assumes "block_tree store B" "p \<in> B" "0 < Period ck" "cache_correct store B ck cache" "BeginTime ck \<le> EndTime ck"
    and "0 \<le> h" "h + int (Period ck) \<le> nHeight (store p)" "timed_out store ck p h"
  shows "\<exists>s cache'. GetStateFor store ck cache (Some p) = Some (s, cache') \<and> (s = THRESHOLD_ACTIVE \<or> s = THRESHOLD_FAILED) \<and>
    (\<forall>q cache2. q \<in> B \<and> nHeight (store p) \<le> nHeight (store q) \<and> anc store q (nHeight (store p)) = p
        \<and> timed_out store ck q (nHeight (store p)) \<and> cache_correct store B ck cache2 \<longrightarrow>
      (\<exists>cache3. GetStateFor store ck cache2 (Some q) = Some (s, cache3)))"
proof -
  let ?n = "periods store ck p"
  let ?s = "run_state store ck p ?n"
  have H: "0 \<le> nHeight (store p)" by (rule tree_height [OF assms(1,2)])
  obtain k where k: "h \<le> int (k * Period ck) - 1" "k \<le> ?n" "is_final (run_state store ck p k)"
    using timeout_period [OF assms(3,6,7,8,5)] by blast
  have e: "int (?n * Period ck) - 1 \<le> nHeight (store p)" by (rule periods_end [OF assms(1,2)])
  have "h \<le> int (Suc k * Period ck) - 1" using k(1) by simp
  then have s: "?s = run_state store ck p k" by (rule final_stays [OF assms(8,5) k(3) _ k(2) e])
  have "\<exists>cache3. GetStateFor store ck cache2 (Some q) = Some (?s, cache3)"
    if q: "q \<in> B" "nHeight (store p) \<le> nHeight (store q)" "anc store q (nHeight (store p)) = p"
      "timed_out store ck q (nHeight (store p))" "cache_correct store B ck cache2" for q cache2
  proof -
    have same: "run_state store ck q ?n = ?s"
      using run_state_anc [OF assms(1) q(1) H q(2) assms(3) e] q(3) by simp
    have "nat (nHeight (store p) + 1) < Suc ?n * Period ck"
      using dividend_less_times_div [OF assms(3), of "nat (nHeight (store p) + 1)"]
      by (simp add: periods_def mult.commute)
    then have "nHeight (store p) \<le> int (Suc ?n * Period ck) - 1" by linarith
    moreover have "?n \<le> periods store ck q"
      unfolding periods_def using q(2) by (intro div_le_mono nat_mono) simp
    ultimately have "run_state store ck q (periods store ck q) = ?s"
      using final_stays [OF q(4) assms(5), of ?n] periods_end [OF assms(1) q(1)] same s k(3) by simp
    then show ?thesis using GetStateFor_period [OF assms(1) q(1) assms(3) q(5)] by (auto simp: periods_def)
  qed
  moreover have "\<exists>cache'. GetStateFor store ck cache (Some p) = Some (?s, cache')"
    using GetStateFor_period [OF assms(1-4)] by (auto simp: periods_def)
  ultimately show ?thesis using s k(3) unfolding is_final_def by metis
qed

lemma sample_times: "t \<in> set (past_times n sample_store pp) \<Longrightarrow> t = 0"
  by (induction n sample_store pp rule: past_times.induct) (auto simp: GetBlockTime_def sample_store_def)

lemma sample_median: "GetMedianTimePast sample_store p = 0"
proof -
  let ?l = "sort (past_times 11 sample_store (Some p))"
  have "0 < length ?l" by (simp add: numeral_eq_Suc)
  then have "?l ! (length ?l div 2) \<in> set ?l" by (intro nth_mem) simp
  then show ?thesis using sample_times [of _ 11 "Some p"] by (simp add: GetMedianTimePast_def Let_def)
qed

theorem GetStateFor_correct_witness:
  "(\<exists>cache'. GetStateFor sample_store \<lparr>Condition = \<lambda>_. True, BeginTime = 0, EndTime = 100, Period = 4, Threshold = 3\<rparr>
     Map.empty (Some 13) = Some (THRESHOLD_ACTIVE, cache'))
   \<and> period_state sample_store \<lparr>Condition = \<lambda>_. True, BeginTime = 0, EndTime = 100, Period = 4, Threshold = 3\<rparr> 13 3
       = THRESHOLD_ACTIVE"
proof -
  let ?ck = "\<lparr>Condition = \<lambda>_. True, BeginTime = 0, EndTime = 100, Period = 4, Threshold = 3\<rparr>"
  have "median_mono sample_store 13" by (simp add: median_mono_def sample_median)
  moreover have "cache_correct sample_store UNIV ?ck Map.empty" by (simp add: cache_correct_def)
  moreover have "run_state sample_store ?ck 13 3 = THRESHOLD_ACTIVE"
    by (simp add: numeral_3_eq_3 ref_next_def sample_median signals_def)
  moreover have "periods sample_store ?ck 13 = 3" by (simp add: sample_store_def periods_def)
  ultimately show ?thesis
    using GetStateFor_correct [OF sample_tree, of 13 ?ck Map.empty] by auto
qed

theorem deployment_decided_witness:
  "\<exists>s cache'. GetStateFor sample_store \<lparr>Condition = \<lambda>_. True, BeginTime = 0, EndTime = 0, Period = 4, Threshold = 3\<rparr>
     Map.empty (Some 13) = Some (s, cache') \<and> (s = THRESHOLD_ACTIVE \<or> s = THRESHOLD_FAILED)"
proof -
  let ?ck = "\<lparr>Condition = \<lambda>_. True, BeginTime = 0, EndTime = 0, Period = 4, Threshold = 3\<rparr>"
  have "timed_out sample_store ?ck 13 3" "cache_correct sample_store UNIV ?ck Map.empty" "nHeight (sample_store 13) = 13"
    by (simp_all add: timed_out_def sample_median cache_correct_def sample_store_def)
  then show ?thesis
    using deployment_decided [OF sample_tree, of 13 ?ck Map.empty 3] by auto
qed

text \<open>
  The top bits of a block version are never checked: the test whether a block signals for a deployment
  holds exactly when the bit of the deployment is set, whatever the other bits of the version are.
\<close>

lemma bits_condition_bit:
  "bits_condition params store pos pindex \<longleftrightarrow> bit (word_of_int (bi_nVersion (store pindex)) :: u32) (dep_bit (vDeployments params ! pos))"
  by (simp add: bits_condition_def VersionBitsMask_def push_bit_eq_mult and_exp_eq_0_iff_not_bit)

end
