(* ===== verification/Compressor.thy ===== *)
theory Compressor
  imports Transaction Pubkey
begin

text \<open>
  Compact storage of transaction outputs: \<^verbatim>\<open>src/src/compressor.h\<close> and \<^verbatim>\<open>src/src/compressor.cpp\<close>.  Amounts are
  64-bit words and wrap as they do there; the elliptic-curve library is the record of the theory of public keys.
\<close>

section \<open>Amounts\<close>

function compress_loop :: "u64 \<Rightarrow> nat \<Rightarrow> u64 \<times> nat" where
  "compress_loop n e = (if n mod 10 = 0 \<and> e < 9 then compress_loop (n div 10) (e + 1) else (n, e))"
  by pat_completeness auto
termination
  by (relation "measure (\<lambda>(n, e). 9 - e)") auto

declare compress_loop.simps [simp del]

text \<open>\<open>None\<close> is the failed assertion on the last digit.\<close>

definition CompressAmount :: "u64 \<Rightarrow> u64 option" where
  "CompressAmount n =
     (if n = 0 then Some 0
      else let (n, e) = compress_loop n 0 in
           if e < 9
           then let d = n mod 10 in
                if 1 \<le> d \<and> d \<le> 9 then Some (1 + (n div 10 * 9 + d - 1) * 10 + of_nat e) else None
           else Some (1 + (n - 1) * 10 + 9))"

fun mul10 :: "nat \<Rightarrow> u64 \<Rightarrow> u64" where
  "mul10 0 n = n"
| "mul10 (Suc e) n = mul10 e (n * 10)"

definition DecompressAmount :: "u64 \<Rightarrow> u64" where
  "DecompressAmount x =
     (if x = 0 then 0
      else let x = x - 1; e = unat (x mod 10); x = x div 10;
               n = (if e < 9 then let d = x mod 9 + 1; x = x div 9 in x * 10 + d else x + 1)
           in mul10 e n)"

section \<open>Scripts\<close>

abbreviation (input) nSpecialScripts :: nat where "nSpecialScripts \<equiv> 6"

abbreviation (input) opbyte :: "nat \<Rightarrow> u8" where "opbyte n \<equiv> of_nat n"

definition IsToKeyID :: "CScript \<Rightarrow> uint160 option" where
  "IsToKeyID script =
     (if length script = 25 \<and> script ! 0 = opbyte OP_DUP \<and> script ! 1 = opbyte OP_HASH160 \<and> script ! 2 = 20 \<and>
         script ! 23 = opbyte OP_EQUALVERIFY \<and> script ! 24 = opbyte OP_CHECKSIG
      then Some (take 20 (drop 3 script)) else None)"

definition IsToScriptID :: "CScript \<Rightarrow> uint160 option" where
  "IsToScriptID script =
     (if length script = 23 \<and> script ! 0 = opbyte OP_HASH160 \<and> script ! 1 = 20 \<and> script ! 22 = opbyte OP_EQUAL
      then Some (take 20 (drop 2 script)) else None)"

text \<open>A fresh key is invalid; the bytes after its header are arbitrary and never read.\<close>

definition CPubKey_ctor :: CPubKey where
  "CPubKey_ctor = Invalidate (replicate 65 0)"

definition IsToPubKey :: "('pk, 'sig) secp256k1 \<Rightarrow> CScript \<Rightarrow> CPubKey option" where
  "IsToPubKey ctx script =
     (if length script = 35 \<and> script ! 0 = 33 \<and> script ! 34 = opbyte OP_CHECKSIG \<and> (script ! 1 = 0x02 \<or> script ! 1 = 0x03)
      then Some (CPubKey_Set CPubKey_ctor (take 33 (drop 1 script)))
      else if length script = 67 \<and> script ! 0 = 65 \<and> script ! 66 = opbyte OP_CHECKSIG \<and> script ! 1 = 0x04
      then let pubkey = CPubKey_Set CPubKey_ctor (take 65 (drop 1 script))
           in if CPubKey_IsFullyValid ctx pubkey then Some pubkey else None
      else None)"

definition Compress :: "('pk, 'sig) secp256k1 \<Rightarrow> CScript \<Rightarrow> bytes option" where
  "Compress ctx script =
     (case IsToKeyID script of
        Some keyID \<Rightarrow> Some (0x00 # keyID)
      | None \<Rightarrow>
          (case IsToScriptID script of
             Some scriptID \<Rightarrow> Some (0x01 # scriptID)
           | None \<Rightarrow>
               (case IsToPubKey ctx script of
                  Some pubkey \<Rightarrow>
                    if pubkey ! 0 = 0x02 \<or> pubkey ! 0 = 0x03 then Some (pubkey ! 0 # take 32 (drop 1 pubkey))
                    else if pubkey ! 0 = 0x04 then Some ((0x04 OR (pubkey ! 64 AND 0x01)) # take 32 (drop 1 pubkey))
                    else None
                | None \<Rightarrow> None)))"

definition GetSpecialSize :: "nat \<Rightarrow> nat" where
  "GetSpecialSize nSize =
     (if nSize = 0 \<or> nSize = 1 then 20 else if nSize = 2 \<or> nSize = 3 \<or> nSize = 4 \<or> nSize = 5 then 32 else 0)"

text \<open>The script afterwards, which is the old one where the code returns false; \<open>None\<close> is a failed assertion.\<close>

definition script_Decompress :: "('pk, 'sig) secp256k1 \<Rightarrow> CScript \<Rightarrow> nat \<Rightarrow> bytes \<Rightarrow> CScript option" where
  "script_Decompress ctx script nSize d =
     (if nSize = 0x00
      then Some ([opbyte OP_DUP, opbyte OP_HASH160, 20] @ take 20 d @ [opbyte OP_EQUALVERIFY, opbyte OP_CHECKSIG])
      else if nSize = 0x01 then Some ([opbyte OP_HASH160, 20] @ take 20 d @ [opbyte OP_EQUAL])
      else if nSize = 0x02 \<or> nSize = 0x03 then Some ([33, of_nat nSize] @ take 32 d @ [opbyte OP_CHECKSIG])
      else if nSize = 0x04 \<or> nSize = 0x05
      then let pubkey = CPubKey_Set (replicate 65 0) (of_nat (nSize - 2) # take 32 d) in
           case Decompress ctx pubkey of
             (ok, pubkey) \<Rightarrow>
               if \<not> ok then Some script
               else if CPubKey_size pubkey \<noteq> 65 then None
               else Some ([65] @ take 65 pubkey @ [opbyte OP_CHECKSIG])
      else Some script)"

definition ser_script_compressed :: "('pk, 'sig) secp256k1 \<Rightarrow> CScript \<Rightarrow> bytes" where
  "ser_script_compressed ctx script =
     (case Compress ctx script of
        Some compr \<Rightarrow> compr
      | None \<Rightarrow> WriteVarInt (of_nat (length script + nSpecialScripts) :: u32) @ script)"

definition CDataStream_ignore :: "int \<Rightarrow> unit reader" where
  "CDataStream_ignore nSize s =
     (if nSize < 0 then None else if int (length s) < nSize then None else Some ((), drop (nat nSize) s))"

definition unser_script_compressed :: "('pk, 'sig) secp256k1 \<Rightarrow> CScript \<Rightarrow> CScript reader" where
  "unser_script_compressed ctx script =
     read_bind ReadVarInt (\<lambda>w :: u32.
       let nSize = unat w in
       if nSize < nSpecialScripts
       then read_bind (CDataStream_read (GetSpecialSize nSize)) (\<lambda>vch s.
              case script_Decompress ctx script nSize vch of None \<Rightarrow> None | Some script \<Rightarrow> Some (script, s))
       else let nSize = nSize - nSpecialScripts in
            if MAX_SCRIPT_SIZE < nSize
            then read_bind (CDataStream_ignore (sint (of_nat nSize :: u32))) (\<lambda>_. read_return (script @ [opbyte OP_RETURN]))
            else CDataStream_read nSize)"

section \<open>Outputs\<close>

definition ser_txout_compressed :: "('pk, 'sig) secp256k1 \<Rightarrow> CTxOut \<Rightarrow> bytes option" where
  "ser_txout_compressed ctx out =
     (case CompressAmount (word_of_int (nValue out)) of
        None \<Rightarrow> None
      | Some nVal \<Rightarrow> Some (WriteVarInt nVal @ ser_script_compressed ctx (scriptPubKey out)))"

definition unser_txout_compressed :: "('pk, 'sig) secp256k1 \<Rightarrow> CTxOut \<Rightarrow> CTxOut reader" where
  "unser_txout_compressed ctx out =
     read_bind ReadVarInt (\<lambda>nVal. read_bind (unser_script_compressed ctx (scriptPubKey out)) (\<lambda>script.
       read_return \<lparr>nValue = sint (DecompressAmount nVal), scriptPubKey = script\<rparr>))"

end
