(* ===== verification/Coins.thy ===== *)
theory Coins
  imports Compressor Sighash
begin

text \<open>
  The unspent outputs of a transaction: class \<open>CCoins\<close> of \<^verbatim>\<open>src/src/coins.h\<close> and
  \<^verbatim>\<open>src/src/coins.cpp\<close>, with its operations and its storage format.  Counters that index the outputs are
  natural numbers; the header code of the format is a 32-bit word.
\<close>

section \<open>Data and operations\<close>

record CCoins =
  fCoinBase :: bool
  fCoinStake :: bool
  coins_vout :: "CTxOut list"
  coins_nHeight :: int
  coins_nVersion :: int

definition CCoins_ctor :: CCoins where
  "CCoins_ctor = \<lparr>fCoinBase = False, fCoinStake = False, coins_vout = [], coins_nHeight = 0, coins_nVersion = 0\<rparr>"

definition CCoins_Clear :: "CCoins \<Rightarrow> CCoins" where
  "CCoins_Clear c =
     c\<lparr>fCoinBase := False, fCoinStake := False, coins_vout := [], coins_nHeight := 0, coins_nVersion := 0\<rparr>"

function pop_nulls :: "CTxOut list \<Rightarrow> CTxOut list" where
  "pop_nulls v = (if 0 < length v \<and> CTxOut_IsNull (last v) then pop_nulls (butlast v) else v)"
  by pat_completeness auto
termination
  by (relation "measure length") auto

declare pop_nulls.simps [simp del]

definition Cleanup :: "CCoins \<Rightarrow> CCoins" where
  "Cleanup c = c\<lparr>coins_vout := pop_nulls (coins_vout c)\<rparr>"

definition ClearUnspendable :: "CCoins \<Rightarrow> CCoins" where
  "ClearUnspendable c =
     Cleanup (c\<lparr>coins_vout :=
       map (\<lambda>txout. if IsUnspendable (scriptPubKey txout) then CTxOut_SetNull else txout) (coins_vout c)\<rparr>)"

definition FromTx :: "CCoins \<Rightarrow> CTransaction \<Rightarrow> int \<Rightarrow> CCoins" where
  "FromTx c tx nHeightIn =
     ClearUnspendable (c\<lparr>fCoinBase := IsCoinBase tx, fCoinStake := IsCoinStake tx, coins_vout := vout tx,
       coins_nHeight := nHeightIn, coins_nVersion := nVersion tx\<rparr>)"

definition IsAvailable :: "CCoins \<Rightarrow> nat \<Rightarrow> bool" where
  "IsAvailable c nPos \<longleftrightarrow> nPos < length (coins_vout c) \<and> \<not> CTxOut_IsNull (coins_vout c ! nPos)"

definition IsPruned :: "CCoins \<Rightarrow> bool" where
  "IsPruned c \<longleftrightarrow> list_all CTxOut_IsNull (coins_vout c)"

definition CCoins_eq :: "CCoins \<Rightarrow> CCoins \<Rightarrow> bool" where
  "CCoins_eq a b =
     (if IsPruned a \<and> IsPruned b then True
      else fCoinBase a = fCoinBase b \<and> coins_nHeight a = coins_nHeight b \<and> coins_nVersion a = coins_nVersion b \<and>
           coins_vout a = coins_vout b)"

definition Spend :: "CCoins \<Rightarrow> nat \<Rightarrow> bool \<times> CCoins" where
  "Spend c nPos =
     (if length (coins_vout c) \<le> nPos \<or> CTxOut_IsNull (coins_vout c ! nPos) then (False, c)
      else (True, Cleanup (c\<lparr>coins_vout := (coins_vout c)[nPos := CTxOut_SetNull]\<rparr>)))"

text \<open>
  What an amount is worth with its dividends depends on the dividend ledger, which is read from a separate database, and on a
  threshold test in floating point; the computation is an argument.
\<close>

definition GetAvailableAmount :: "(CAmount \<Rightarrow> int \<Rightarrow> CAmount) \<Rightarrow> CCoins \<Rightarrow> nat \<Rightarrow> CAmount" where
  "GetAvailableAmount GetTotalWithDividend c outIndex =
     GetTotalWithDividend (nValue (coins_vout c ! outIndex)) (coins_nHeight c)"

section \<open>Storage format\<close>

definition byte_zero :: "CTxOut list \<Rightarrow> nat \<Rightarrow> bool" where
  "byte_zero v b \<longleftrightarrow>
     list_all (\<lambda>i. 2 + b * 8 + i < length v \<longrightarrow> CTxOut_IsNull (v ! (2 + b * 8 + i))) [0..<8]"

function mask_size_loop :: "CTxOut list \<Rightarrow> nat \<Rightarrow> nat \<Rightarrow> nat \<Rightarrow> nat \<times> nat" where
  "mask_size_loop v b nLastUsedByte nNonzeroBytes =
     (if 2 + b * 8 < length v
      then if \<not> byte_zero v b then mask_size_loop v (b + 1) (b + 1) (nNonzeroBytes + 1)
           else mask_size_loop v (b + 1) nLastUsedByte nNonzeroBytes
      else (nLastUsedByte, nNonzeroBytes))"
  by pat_completeness auto
termination
  by (relation "measure (\<lambda>(v, b, l, n). length v - b)") auto

declare mask_size_loop.simps [simp del]

definition CalcMaskSize :: "CCoins \<Rightarrow> nat \<Rightarrow> nat \<Rightarrow> nat \<times> nat" where
  "CalcMaskSize c nBytes nNonzeroBytes =
     (let (nLastUsedByte, nNonzeroBytes) = mask_size_loop (coins_vout c) 0 0 nNonzeroBytes
      in (nBytes + nLastUsedByte, nNonzeroBytes))"

definition mask_byte :: "CTxOut list \<Rightarrow> nat \<Rightarrow> u8" where
  "mask_byte v b =
     fold (\<lambda>i chAvail. if 2 + b * 8 + i < length v \<and> \<not> CTxOut_IsNull (v ! (2 + b * 8 + i))
                       then chAvail OR push_bit i 1 else chAvail) [0..<8] 0"

text \<open>
  The variable-length integers of type \<open>int\<close>: the sign takes part in the comparison, so a negative
  number is written as one byte; reading wraps.
\<close>

definition WriteVarInt_int :: "int \<Rightarrow> bytes" where
  "WriteVarInt_int n = (if n \<le> 0x7F then [word_of_int n AND 0x7F] else WriteVarInt (word_of_int n :: u32))"

definition ReadVarInt_int :: "int reader" where
  "ReadVarInt_int = read_bind ReadVarInt (\<lambda>n :: u32. read_return (sint n))"

fun ser_unspent :: "('pk, 'sig) secp256k1 \<Rightarrow> CTxOut list \<Rightarrow> bytes option" where
  "ser_unspent ctx [] = Some []"
| "ser_unspent ctx (out # outs) =
     (if \<not> CTxOut_IsNull out
      then case ser_txout_compressed ctx out of
             None \<Rightarrow> None
           | Some d \<Rightarrow> (case ser_unspent ctx outs of None \<Rightarrow> None | Some ds \<Rightarrow> Some (d @ ds))
      else ser_unspent ctx outs)"

text \<open>\<open>None\<close> is a failed assertion: nothing is unspent, or an amount has no encoding.\<close>

definition CCoins_Serialize :: "('pk, 'sig) secp256k1 \<Rightarrow> CCoins \<Rightarrow> bytes option" where
  "CCoins_Serialize ctx c =
     (let v = coins_vout c;
          (nMaskSize, nMaskCode) = CalcMaskSize c 0 0;
          fFirst = (0 < length v \<and> \<not> CTxOut_IsNull (v ! 0));
          fSecond = (1 < length v \<and> \<not> CTxOut_IsNull (v ! 1))
      in if \<not> (fFirst \<or> fSecond \<or> nMaskCode \<noteq> 0) then None
         else let nCode = 8 * (of_nat nMaskCode - (if fFirst \<or> fSecond then 0 else 1)) + (if fCoinBase c then 1 else 0) +
                    (if fFirst then 2 else 0) + (if fSecond then 4 else 0) :: u32
              in case ser_unspent ctx v of
                   None \<Rightarrow> None
                 | Some outs \<Rightarrow>
                     Some (WriteVarInt_int (coins_nVersion c) @ WriteVarInt nCode @ map (mask_byte v) [0..<nMaskSize] @
                       outs @ WriteVarInt_int (coins_nHeight c)))"

fun read_mask :: "nat \<Rightarrow> bool list reader" where
  "read_mask 0 s = Some ([], s)"
| "read_mask (Suc nMaskCode) [] = None"
| "read_mask (Suc nMaskCode) (chAvail # s) =
     (case read_mask (if chAvail \<noteq> 0 then nMaskCode else Suc nMaskCode) s of
        None \<Rightarrow> None
      | Some (vAvail, s) \<Rightarrow> Some (map (\<lambda>p. chAvail AND push_bit p 1 \<noteq> 0) [0..<8] @ vAvail, s))"

fun read_unspent :: "('pk, 'sig) secp256k1 \<Rightarrow> bool list \<Rightarrow> CTxOut list reader" where
  "read_unspent ctx [] = read_return []"
| "read_unspent ctx (a # vAvail) =
     read_bind (if a then unser_txout_compressed ctx CTxOut_SetNull else read_return CTxOut_SetNull) (\<lambda>out.
       read_bind (read_unspent ctx vAvail) (\<lambda>outs. read_return (out # outs)))"

definition CCoins_Unserialize :: "('pk, 'sig) secp256k1 \<Rightarrow> CCoins \<Rightarrow> CCoins reader" where
  "CCoins_Unserialize ctx c =
     read_bind ReadVarInt_int (\<lambda>ver. read_bind ReadVarInt (\<lambda>nCode :: u32.
       let nMaskCode = unat (nCode div 8 + (if nCode AND 6 \<noteq> 0 then 0 else 1)) in
       read_bind (read_mask nMaskCode) (\<lambda>mask.
         let vAvail = (nCode AND 2 \<noteq> 0) # (nCode AND 4 \<noteq> 0) # mask in
         read_bind (read_unspent ctx vAvail) (\<lambda>outs. read_bind ReadVarInt_int (\<lambda>height.
           read_return (Cleanup (c\<lparr>fCoinBase := (nCode AND 1 \<noteq> 0), coins_vout := outs, coins_nHeight := height,
             coins_nVersion := ver\<rparr>)))))))"

end
