(* ===== verification/Coins_View.thy ===== *)
theory Coins_View
  imports Coins
begin

text \<open>
  Views of the set of unspent outputs: the class \<open>CCoinsView\<close> as a record of its virtual functions,
  the write-back cache \<open>CCoinsViewCache\<close> over any view (\<^verbatim>\<open>src/src/coins.h\<close>, \<^verbatim>\<open>src/src/coins.cpp\<close>)
  and the database view \<open>CCoinsViewDB\<close> (\<^verbatim>\<open>src/src/txdb.cpp\<close>) over the key-value store of \<^verbatim>\<open>src/src/dbwrapper.h\<close>.
  A virtual function takes the state of the view and returns it, because looking up coins fills caches.
  \<open>None\<close> is a failed assertion.  The hash table of a cache is a map; where the code iterates over it, the
  order is an argument.
\<close>

section \<open>Views\<close>

record CCoinsCacheEntry =
  coins :: CCoins
  flags :: u8

abbreviation (input) DIRTY :: u8 where "DIRTY \<equiv> 1"
abbreviation (input) FRESH :: u8 where "FRESH \<equiv> 2"

definition CCoinsCacheEntry_ctor :: CCoinsCacheEntry where
  "CCoinsCacheEntry_ctor = \<lparr>coins = CCoins_ctor, flags = 0\<rparr>"

type_synonym CCoinsMap = "uint256 \<rightharpoonup> CCoinsCacheEntry"

record 'v CCoinsView =
  view_GetCoins :: "'v \<Rightarrow> uint256 \<Rightarrow> CCoins option \<times> 'v"
  view_HaveCoins :: "'v \<Rightarrow> uint256 \<Rightarrow> bool \<times> 'v"
  view_GetBestBlock :: "'v \<Rightarrow> uint256 \<times> 'v"
  view_BatchWrite :: "'v \<Rightarrow> uint256 list \<Rightarrow> CCoinsMap \<Rightarrow> uint256 \<Rightarrow> (bool \<times> 'v) option"

section \<open>The cache\<close>

record CCoinsViewCache =
  hasModifier :: bool
  hashBlock :: uint256
  cacheCoins :: CCoinsMap
  cachedCoinsUsage :: u64

type_synonym 'v cached = "'v \<times> CCoinsViewCache"

definition CCoinsViewCache_ctor :: CCoinsViewCache where
  "CCoinsViewCache_ctor = \<lparr>hasModifier = False, hashBlock = uint256_null, cacheCoins = Map.empty, cachedCoinsUsage = 0\<rparr>"

text \<open>The memory an object takes depends on the allocator: \<open>usage\<close> is an argument.\<close>

definition FetchCoins ::
  "'v CCoinsView \<Rightarrow> (CCoins \<Rightarrow> u64) \<Rightarrow> 'v cached \<Rightarrow> uint256 \<Rightarrow> CCoinsCacheEntry option \<times> 'v cached" where
  "FetchCoins base usage s txid =
     (let (b, c) = s in
      case cacheCoins c txid of
        Some e \<Rightarrow> (Some e, (b, c))
      | None \<Rightarrow>
          (case view_GetCoins base b txid of
             (None, b) \<Rightarrow> (None, (b, c))
           | (Some tmp, b) \<Rightarrow>
               let e = \<lparr>coins = tmp, flags = (if IsPruned tmp then FRESH else 0)\<rparr>
               in (Some e, (b, c\<lparr>cacheCoins := (cacheCoins c)(txid \<mapsto> e),
                                 cachedCoinsUsage := cachedCoinsUsage c + usage tmp\<rparr>))))"

definition GetCoins ::
  "'v CCoinsView \<Rightarrow> (CCoins \<Rightarrow> u64) \<Rightarrow> 'v cached \<Rightarrow> uint256 \<Rightarrow> CCoins option \<times> 'v cached" where
  "GetCoins base usage s txid =
     (case FetchCoins base usage s txid of (Some e, s) \<Rightarrow> (Some (coins e), s) | (None, s) \<Rightarrow> (None, s))"

definition AccessCoins ::
  "'v CCoinsView \<Rightarrow> (CCoins \<Rightarrow> u64) \<Rightarrow> 'v cached \<Rightarrow> uint256 \<Rightarrow> CCoins option \<times> 'v cached" where
  "AccessCoins base usage s txid =
     (case FetchCoins base usage s txid of (None, s) \<Rightarrow> (None, s) | (Some e, s) \<Rightarrow> (Some (coins e), s))"

definition HaveCoins ::
  "'v CCoinsView \<Rightarrow> (CCoins \<Rightarrow> u64) \<Rightarrow> 'v cached \<Rightarrow> uint256 \<Rightarrow> bool \<times> 'v cached" where
  "HaveCoins base usage s txid =
     (case FetchCoins base usage s txid of (None, s) \<Rightarrow> (False, s) | (Some e, s) \<Rightarrow> (coins_vout (coins e) \<noteq> [], s))"

definition HaveCoinsInCache :: "'v cached \<Rightarrow> uint256 \<Rightarrow> bool" where
  "HaveCoinsInCache s txid \<longleftrightarrow> cacheCoins (snd s) txid \<noteq> None"

definition cache_GetBestBlock :: "'v CCoinsView \<Rightarrow> 'v cached \<Rightarrow> uint256 \<times> 'v cached" where
  "cache_GetBestBlock base s =
     (let (b, c) = s in
      if hashBlock c = uint256_null
      then case view_GetBestBlock base b of (h, b) \<Rightarrow> (h, (b, c\<lparr>hashBlock := h\<rparr>))
      else (hashBlock c, (b, c)))"

definition SetBestBlock :: "'v cached \<Rightarrow> uint256 \<Rightarrow> 'v cached" where
  "SetBestBlock s hashBlockIn = (fst s, (snd s)\<lparr>hashBlock := hashBlockIn\<rparr>)"

text \<open>
  A modifier gives access to one entry until it is destroyed; between the two calls the entry may be changed.
  The value returned with the state is the memory use recorded in the modifier.
\<close>

definition CCoinsModifier_ctor :: "CCoinsViewCache \<Rightarrow> CCoinsViewCache option" where
  "CCoinsModifier_ctor c = (if hasModifier c then None else Some (c\<lparr>hasModifier := True\<rparr>))"

definition ModifyCoins ::
  "'v CCoinsView \<Rightarrow> (CCoins \<Rightarrow> u64) \<Rightarrow> 'v cached \<Rightarrow> uint256 \<Rightarrow> (u64 \<times> 'v cached) option" where
  "ModifyCoins base usage s txid =
     (let (b, c) = s in
      if hasModifier c then None
      else
        let (e, cachedCoinUsage, b) =
          (case cacheCoins c txid of
             None \<Rightarrow>
               (case view_GetCoins base b txid of
                  (None, b) \<Rightarrow> (\<lparr>coins = CCoins_Clear CCoins_ctor, flags = FRESH\<rparr>, 0, b)
                | (Some tmp, b) \<Rightarrow> (\<lparr>coins = tmp, flags = (if IsPruned tmp then FRESH else 0)\<rparr>, 0, b))
           | Some e \<Rightarrow> (e, usage (coins e), b));
          e = e\<lparr>flags := flags e OR DIRTY\<rparr>
        in case CCoinsModifier_ctor (c\<lparr>cacheCoins := (cacheCoins c)(txid \<mapsto> e)\<rparr>) of
             None \<Rightarrow> None
           | Some c \<Rightarrow> Some (cachedCoinUsage, (b, c)))"

definition ModifyNewCoins :: "'v cached \<Rightarrow> uint256 \<Rightarrow> bool \<Rightarrow> (u64 \<times> 'v cached) option" where
  "ModifyNewCoins s txid coinbase =
     (let (b, c) = s in
      if hasModifier c then None
      else
        let e = (case cacheCoins c txid of None \<Rightarrow> CCoinsCacheEntry_ctor | Some e \<Rightarrow> e);
            e = e\<lparr>coins := CCoins_Clear (coins e)\<rparr>;
            e = (if \<not> coinbase then e\<lparr>flags := FRESH\<rparr> else e);
            e = e\<lparr>flags := flags e OR DIRTY\<rparr>
        in case CCoinsModifier_ctor (c\<lparr>cacheCoins := (cacheCoins c)(txid \<mapsto> e)\<rparr>) of
             None \<Rightarrow> None
           | Some c \<Rightarrow> Some (0, (b, c)))"

text \<open>Access through the modifier: the coins it refers to, and the state with other coins there.\<close>

definition modifier_get :: "'v cached \<Rightarrow> uint256 \<Rightarrow> CCoins option" where
  "modifier_get s txid = (case cacheCoins (snd s) txid of None \<Rightarrow> None | Some e \<Rightarrow> Some (coins e))"

definition modifier_put :: "'v cached \<Rightarrow> uint256 \<Rightarrow> CCoins \<Rightarrow> 'v cached" where
  "modifier_put s txid cs =
     (case cacheCoins (snd s) txid of
        None \<Rightarrow> s
      | Some e \<Rightarrow> (fst s, (snd s)\<lparr>cacheCoins := (cacheCoins (snd s))(txid \<mapsto> e\<lparr>coins := cs\<rparr>)\<rparr>))"

definition CCoinsModifier_dtor ::
  "(CCoins \<Rightarrow> u64) \<Rightarrow> uint256 \<Rightarrow> u64 \<Rightarrow> 'v cached \<Rightarrow> 'v cached option" where
  "CCoinsModifier_dtor usage txid cachedCoinUsage s =
     (let (b, c) = s in
      if \<not> hasModifier c then None
      else case cacheCoins c txid of
             None \<Rightarrow> None
           | Some e \<Rightarrow>
               let e = e\<lparr>coins := Cleanup (coins e)\<rparr>;
                   c = c\<lparr>hasModifier := False, cachedCoinsUsage := cachedCoinsUsage c - cachedCoinUsage\<rparr>
               in if flags e AND FRESH \<noteq> 0 \<and> IsPruned (coins e)
                  then Some (b, c\<lparr>cacheCoins := (cacheCoins c)(txid := None)\<rparr>)
                  else Some (b, c\<lparr>cacheCoins := (cacheCoins c)(txid \<mapsto> e),
                                  cachedCoinsUsage := cachedCoinsUsage c + usage (coins e)\<rparr>))"

text \<open>The scope of a modifier: it is created, the coins are changed, it is destroyed.\<close>

definition with_modifier ::
  "(CCoins \<Rightarrow> u64) \<Rightarrow> uint256 \<Rightarrow> (u64 \<times> 'v cached) option \<Rightarrow> (CCoins \<Rightarrow> ('r \<times> CCoins) option) \<Rightarrow> ('r \<times> 'v cached) option" where
  "with_modifier usage txid m body =
     (case m of
        None \<Rightarrow> None
      | Some (cachedCoinUsage, s) \<Rightarrow>
          (case modifier_get s txid of
             None \<Rightarrow> None
           | Some cs \<Rightarrow>
               (case body cs of
                  None \<Rightarrow> None
                | Some (r, cs) \<Rightarrow>
                    (case CCoinsModifier_dtor usage txid cachedCoinUsage (modifier_put s txid cs) of
                       None \<Rightarrow> None
                     | Some s \<Rightarrow> Some (r, s)))))"

definition batch_entry :: "(CCoins \<Rightarrow> u64) \<Rightarrow> uint256 \<Rightarrow> CCoinsCacheEntry \<Rightarrow> CCoinsViewCache \<Rightarrow> CCoinsViewCache" where
  "batch_entry usage txid it c =
     (if flags it AND DIRTY \<noteq> 0
      then case cacheCoins c txid of
             None \<Rightarrow>
               if \<not> (flags it AND FRESH \<noteq> 0 \<and> IsPruned (coins it))
               then let entry = \<lparr>coins = coins it, flags = DIRTY\<rparr>;
                        entry = (if flags it AND FRESH \<noteq> 0 then entry\<lparr>flags := flags entry OR FRESH\<rparr> else entry)
                    in c\<lparr>cacheCoins := (cacheCoins c)(txid \<mapsto> entry), cachedCoinsUsage := cachedCoinsUsage c + usage (coins it)\<rparr>
               else c
           | Some itUs \<Rightarrow>
               if flags itUs AND FRESH \<noteq> 0 \<and> IsPruned (coins it)
               then c\<lparr>cacheCoins := (cacheCoins c)(txid := None), cachedCoinsUsage := cachedCoinsUsage c - usage (coins itUs)\<rparr>
               else c\<lparr>cacheCoins := (cacheCoins c)(txid \<mapsto> itUs\<lparr>coins := coins it, flags := flags itUs OR DIRTY\<rparr>),
                      cachedCoinsUsage := cachedCoinsUsage c - usage (coins itUs) + usage (coins it)\<rparr>
      else c)"

fun batch_loop :: "(CCoins \<Rightarrow> u64) \<Rightarrow> CCoinsMap \<Rightarrow> uint256 list \<Rightarrow> CCoinsViewCache \<Rightarrow> CCoinsViewCache" where
  "batch_loop usage mapCoins [] c = c"
| "batch_loop usage mapCoins (txid # order) c =
     batch_loop usage mapCoins order (case mapCoins txid of None \<Rightarrow> c | Some it \<Rightarrow> batch_entry usage txid it c)"

definition cache_BatchWrite ::
  "(CCoins \<Rightarrow> u64) \<Rightarrow> 'v cached \<Rightarrow> uint256 list \<Rightarrow> CCoinsMap \<Rightarrow> uint256 \<Rightarrow> (bool \<times> 'v cached) option" where
  "cache_BatchWrite usage s order mapCoins hashBlockIn =
     (let (b, c) = s in
      if hasModifier c then None
      else Some (True, (b, (batch_loop usage mapCoins order c)\<lparr>hashBlock := hashBlockIn\<rparr>)))"

definition Flush :: "'v CCoinsView \<Rightarrow> uint256 list \<Rightarrow> 'v cached \<Rightarrow> (bool \<times> 'v cached) option" where
  "Flush base order s =
     (let (b, c) = s in
      case view_BatchWrite base b order (cacheCoins c) (hashBlock c) of
        None \<Rightarrow> None
      | Some (fOk, b) \<Rightarrow> Some (fOk, (b, c\<lparr>cacheCoins := Map.empty, cachedCoinsUsage := 0\<rparr>)))"

definition Uncache :: "(CCoins \<Rightarrow> u64) \<Rightarrow> 'v cached \<Rightarrow> uint256 \<Rightarrow> 'v cached" where
  "Uncache usage s txid =
     (let (b, c) = s in
      case cacheCoins c txid of
        None \<Rightarrow> (b, c)
      | Some e \<Rightarrow>
          if flags e = 0
          then (b, c\<lparr>cacheCoins := (cacheCoins c)(txid := None), cachedCoinsUsage := cachedCoinsUsage c - usage (coins e)\<rparr>)
          else (b, c))"

definition cache_view :: "'v CCoinsView \<Rightarrow> (CCoins \<Rightarrow> u64) \<Rightarrow> 'v cached CCoinsView" where
  "cache_view base usage =
     \<lparr>view_GetCoins = GetCoins base usage, view_HaveCoins = HaveCoins base usage,
      view_GetBestBlock = cache_GetBestBlock base, view_BatchWrite = cache_BatchWrite usage\<rparr>"

section \<open>Inputs of a transaction\<close>

definition GetOutputFor ::
  "'v CCoinsView \<Rightarrow> (CCoins \<Rightarrow> u64) \<Rightarrow> 'v cached \<Rightarrow> CTxIn \<Rightarrow> (CTxOut \<times> 'v cached) option" where
  "GetOutputFor base usage s input =
     (case AccessCoins base usage s (COutPoint.op_hash (prevout input)) of
        (None, s) \<Rightarrow> None
      | (Some cs, s) \<Rightarrow>
          if IsAvailable cs (unat (op_n (prevout input)))
          then Some (coins_vout cs ! unat (op_n (prevout input)), s) else None)"

definition GetHeightFor ::
  "'v CCoinsView \<Rightarrow> (CCoins \<Rightarrow> u64) \<Rightarrow> 'v cached \<Rightarrow> CTxIn \<Rightarrow> (u32 \<times> 'v cached) option" where
  "GetHeightFor base usage s input =
     (case AccessCoins base usage s (COutPoint.op_hash (prevout input)) of
        (None, s) \<Rightarrow> None
      | (Some cs, s) \<Rightarrow>
          if IsAvailable cs (unat (op_n (prevout input))) then Some (word_of_int (coins_nHeight cs), s) else None)"

fun value_in_loop ::
  "(CAmount \<Rightarrow> int \<Rightarrow> CAmount) \<Rightarrow> 'v CCoinsView \<Rightarrow> (CCoins \<Rightarrow> u64) \<Rightarrow> CAmount \<Rightarrow> CTxIn list \<Rightarrow> 'v cached \<Rightarrow>
    (CAmount \<times> 'v cached) option" where
  "value_in_loop GetTotalWithDividend base usage nResult [] s = Some (nResult, s)"
| "value_in_loop GetTotalWithDividend base usage nResult (input # ins) s =
     (case GetOutputFor base usage s input of
        None \<Rightarrow> None
      | Some (out, s) \<Rightarrow>
          (case GetHeightFor base usage s input of
             None \<Rightarrow> None
           | Some (height, s) \<Rightarrow>
               value_in_loop GetTotalWithDividend base usage
                 (nResult + GetTotalWithDividend (nValue out) (sint height)) ins s))"

definition GetValueIn ::
  "(CAmount \<Rightarrow> int \<Rightarrow> CAmount) \<Rightarrow> 'v CCoinsView \<Rightarrow> (CCoins \<Rightarrow> u64) \<Rightarrow> 'v cached \<Rightarrow> CTransaction \<Rightarrow>
    (CAmount \<times> 'v cached) option" where
  "GetValueIn GetTotalWithDividend base usage s tx =
     (if IsCoinBase tx then Some (0, s)
      else value_in_loop GetTotalWithDividend base usage 0 (vin tx) s)"

fun have_inputs_loop ::
  "'v CCoinsView \<Rightarrow> (CCoins \<Rightarrow> u64) \<Rightarrow> CTxIn list \<Rightarrow> 'v cached \<Rightarrow> bool \<times> 'v cached" where
  "have_inputs_loop base usage [] s = (True, s)"
| "have_inputs_loop base usage (input # ins) s =
     (case AccessCoins base usage s (COutPoint.op_hash (prevout input)) of
        (None, s) \<Rightarrow> (False, s)
      | (Some cs, s) \<Rightarrow>
          if \<not> IsAvailable cs (unat (op_n (prevout input))) then (False, s) else have_inputs_loop base usage ins s)"

definition HaveInputs ::
  "'v CCoinsView \<Rightarrow> (CCoins \<Rightarrow> u64) \<Rightarrow> 'v cached \<Rightarrow> CTransaction \<Rightarrow> bool \<times> 'v cached" where
  "HaveInputs base usage s tx = (if \<not> IsCoinBase tx then have_inputs_loop base usage (vin tx) s else (True, s))"

section \<open>The database view\<close>

text \<open>
  LevelDB is its documented contract, a map from keys to values that a batch changes at once; the values
  are stored masked with a key.
\<close>

fun Xor_loop :: "bytes \<Rightarrow> nat \<Rightarrow> bytes \<Rightarrow> bytes" where
  "Xor_loop key j [] = []"
| "Xor_loop key j (b # vch) = (b XOR key ! j) # Xor_loop key (if j + 1 = length key then 0 else j + 1) vch"

definition CDataStream_Xor :: "bytes \<Rightarrow> bytes \<Rightarrow> bytes" where
  "CDataStream_Xor key vch = (if length key = 0 then vch else Xor_loop key 0 vch)"

record CDBWrapper =
  pdb :: "bytes \<rightharpoonup> bytes"
  obfuscate_key :: bytes

datatype db_change = db_Put bytes bytes | db_Delete bytes

type_synonym CDBBatch = "db_change list"

definition CDBBatch_Write :: "CDBWrapper \<Rightarrow> CDBBatch \<Rightarrow> bytes \<Rightarrow> bytes \<Rightarrow> CDBBatch" where
  "CDBBatch_Write parent batch ssKey ssValue = batch @ [db_Put ssKey (CDataStream_Xor (obfuscate_key parent) ssValue)]"

definition CDBBatch_Erase :: "CDBBatch \<Rightarrow> bytes \<Rightarrow> CDBBatch" where
  "CDBBatch_Erase batch ssKey = batch @ [db_Delete ssKey]"

fun apply_change :: "db_change \<Rightarrow> (bytes \<rightharpoonup> bytes) \<Rightarrow> (bytes \<rightharpoonup> bytes)" where
  "apply_change (db_Put k v) m = m(k \<mapsto> v)"
| "apply_change (db_Delete k) m = m(k := None)"

definition WriteBatch :: "CDBWrapper \<Rightarrow> CDBBatch \<Rightarrow> bool \<times> CDBWrapper" where
  "WriteBatch db batch = (True, db\<lparr>pdb := fold apply_change batch (pdb db)\<rparr>)"

definition CDBWrapper_Read :: "CDBWrapper \<Rightarrow> bytes \<Rightarrow> 'a reader \<Rightarrow> 'a option" where
  "CDBWrapper_Read db ssKey unser =
     (case pdb db ssKey of
        None \<Rightarrow> None
      | Some strValue \<Rightarrow>
          (case unser (CDataStream_Xor (obfuscate_key db) strValue) of None \<Rightarrow> None | Some (v, _) \<Rightarrow> Some v))"

definition CDBWrapper_Exists :: "CDBWrapper \<Rightarrow> bytes \<Rightarrow> bool" where
  "CDBWrapper_Exists db ssKey \<longleftrightarrow> pdb db ssKey \<noteq> None"

text \<open>The keys: the characters \<open>c\<close> and \<open>B\<close>.\<close>

definition DB_COINS :: "uint256 \<Rightarrow> bytes" where
  "DB_COINS txid = 0x63 # txid"

definition DB_BEST_BLOCK :: bytes where
  "DB_BEST_BLOCK = [0x42]"

definition db_GetCoins :: "('pk, 'sig) secp256k1 \<Rightarrow> CDBWrapper \<Rightarrow> uint256 \<Rightarrow> CCoins option \<times> CDBWrapper" where
  "db_GetCoins ctx db txid = (CDBWrapper_Read db (DB_COINS txid) (CCoins_Unserialize ctx CCoins_ctor), db)"

definition db_HaveCoins :: "CDBWrapper \<Rightarrow> uint256 \<Rightarrow> bool \<times> CDBWrapper" where
  "db_HaveCoins db txid = (CDBWrapper_Exists db (DB_COINS txid), db)"

definition db_GetBestBlock :: "CDBWrapper \<Rightarrow> uint256 \<times> CDBWrapper" where
  "db_GetBestBlock db =
     (case CDBWrapper_Read db DB_BEST_BLOCK (CDataStream_read 32) of
        None \<Rightarrow> (uint256_null, db)
      | Some hashBestChain \<Rightarrow> (hashBestChain, db))"

fun db_batch_loop ::
  "('pk, 'sig) secp256k1 \<Rightarrow> CDBWrapper \<Rightarrow> CCoinsMap \<Rightarrow> uint256 list \<Rightarrow> CDBBatch \<Rightarrow> CDBBatch option" where
  "db_batch_loop ctx db mapCoins [] batch = Some batch"
| "db_batch_loop ctx db mapCoins (txid # order) batch =
     (case mapCoins txid of
        None \<Rightarrow> db_batch_loop ctx db mapCoins order batch
      | Some it \<Rightarrow>
          if flags it AND DIRTY \<noteq> 0
          then if IsPruned (coins it)
               then db_batch_loop ctx db mapCoins order (CDBBatch_Erase batch (DB_COINS txid))
               else case CCoins_Serialize ctx (coins it) of
                      None \<Rightarrow> None
                    | Some d \<Rightarrow> db_batch_loop ctx db mapCoins order (CDBBatch_Write db batch (DB_COINS txid) d)
          else db_batch_loop ctx db mapCoins order batch)"

definition db_BatchWrite ::
  "('pk, 'sig) secp256k1 \<Rightarrow> CDBWrapper \<Rightarrow> uint256 list \<Rightarrow> CCoinsMap \<Rightarrow> uint256 \<Rightarrow> (bool \<times> CDBWrapper) option" where
  "db_BatchWrite ctx db order mapCoins hash =
     (case db_batch_loop ctx db mapCoins order [] of
        None \<Rightarrow> None
      | Some batch \<Rightarrow>
          let batch = (if hash \<noteq> uint256_null then CDBBatch_Write db batch DB_BEST_BLOCK hash else batch)
          in Some (WriteBatch db batch))"

definition db_view :: "('pk, 'sig) secp256k1 \<Rightarrow> CDBWrapper CCoinsView" where
  "db_view ctx =
     \<lparr>view_GetCoins = db_GetCoins ctx, view_HaveCoins = db_HaveCoins,
      view_GetBestBlock = db_GetBestBlock, view_BatchWrite = db_BatchWrite ctx\<rparr>"

end
