(* ===== verification/Undo.thy ===== *)
theory Undo
  imports Coins_View
begin

text \<open>
  Connecting and disconnecting the transactions of a block: the undo records of \<^verbatim>\<open>src/src/undo.h\<close>, and
  \<open>UpdateCoins\<close>, \<open>ApplyTxInUndo\<close> and \<open>DisconnectBlock\<close> of \<^verbatim>\<open>src/src/main.cpp\<close> with the optional address and spent indexes
  switched off, as they are by default.  \<open>None\<close> is a failed assertion or an access outside a vector.
\<close>

section \<open>Undo records\<close>

record CTxInUndo =
  undo_txout :: CTxOut
  undo_fCoinBase :: bool
  undo_nHeight :: u32
  undo_nVersion :: int

definition CTxInUndo_ctor :: "CTxOut \<Rightarrow> CTxInUndo" where
  "CTxInUndo_ctor txoutIn = \<lparr>undo_txout = txoutIn, undo_fCoinBase = False, undo_nHeight = 0, undo_nVersion = 0\<rparr>"

definition ser_txin_undo :: "('pk, 'sig) secp256k1 \<Rightarrow> CTxInUndo \<Rightarrow> bytes option" where
  "ser_txin_undo ctx u =
     (case ser_txout_compressed ctx (undo_txout u) of
        None \<Rightarrow> None
      | Some d \<Rightarrow>
          Some (WriteVarInt (undo_nHeight u * 2 + (if undo_fCoinBase u then 1 else 0)) @
            (if 0 < undo_nHeight u then WriteVarInt_int (undo_nVersion u) else []) @ d))"

definition unser_txin_undo :: "('pk, 'sig) secp256k1 \<Rightarrow> CTxInUndo \<Rightarrow> CTxInUndo reader" where
  "unser_txin_undo ctx u =
     read_bind ReadVarInt (\<lambda>nCode :: u32.
       read_bind (if 0 < nCode div 2 then ReadVarInt_int else read_return (undo_nVersion u)) (\<lambda>ver.
         read_bind (unser_txout_compressed ctx (undo_txout u)) (\<lambda>out.
           read_return \<lparr>undo_txout = out, undo_fCoinBase = (nCode AND 1 \<noteq> 0), undo_nHeight = nCode div 2, undo_nVersion = ver\<rparr>)))"

type_synonym CTxUndo = "CTxInUndo list"
type_synonym CBlockUndo = "CTxUndo list"

section \<open>Connecting\<close>

definition spend_body :: "nat \<Rightarrow> CCoins \<Rightarrow> (CTxInUndo \<times> CCoins) option" where
  "spend_body nPos cs =
     (if length (coins_vout cs) \<le> nPos \<or> CTxOut_IsNull (coins_vout cs ! nPos) then None
      else let undo = CTxInUndo_ctor (coins_vout cs ! nPos);
               cs = snd (Spend cs nPos)
           in Some (if length (coins_vout cs) = 0
                    then undo\<lparr>undo_nHeight := word_of_int (coins_nHeight cs), undo_fCoinBase := fCoinBase cs,
                              undo_nVersion := coins_nVersion cs\<rparr>
                    else undo, cs))"

fun spend_inputs ::
  "'v CCoinsView \<Rightarrow> (CCoins \<Rightarrow> u64) \<Rightarrow> CTxIn list \<Rightarrow> CTxUndo \<Rightarrow> 'v cached \<Rightarrow> (CTxUndo \<times> 'v cached) option" where
  "spend_inputs base usage [] vprevout s = Some (vprevout, s)"
| "spend_inputs base usage (txin # ins) vprevout s =
     (let txid = COutPoint.op_hash (prevout txin) in
      case with_modifier usage txid (ModifyCoins base usage s txid) (spend_body (unat (op_n (prevout txin)))) of
        None \<Rightarrow> None
      | Some (undo, s) \<Rightarrow> spend_inputs base usage ins (vprevout @ [undo]) s)"

definition UpdateCoins ::
  "'v CCoinsView \<Rightarrow> (CCoins \<Rightarrow> u64) \<Rightarrow> CTransaction \<Rightarrow> int \<Rightarrow> 'v cached \<Rightarrow> (CTxUndo \<times> 'v cached) option" where
  "UpdateCoins base usage tx nHeight s =
     (case (if \<not> IsCoinBase tx then spend_inputs base usage (vin tx) [] s else Some ([], s)) of
        None \<Rightarrow> None
      | Some (txundo, s) \<Rightarrow>
          (case GetHash tx of
             None \<Rightarrow> None
           | Some hash \<Rightarrow>
               (case with_modifier usage hash (ModifyNewCoins s hash (IsCoinBase tx)) (\<lambda>cs. Some ((), FromTx cs tx nHeight)) of
                  None \<Rightarrow> None
                | Some (_, s) \<Rightarrow> Some (txundo, s))))"

text \<open>The coins part of the loop of \<open>ConnectBlock\<close>: the first transaction leaves no undo record.\<close>

fun connect_coins ::
  "'v CCoinsView \<Rightarrow> (CCoins \<Rightarrow> u64) \<Rightarrow> int \<Rightarrow> nat \<Rightarrow> CTransaction list \<Rightarrow> CBlockUndo \<Rightarrow> 'v cached \<Rightarrow>
    (CBlockUndo \<times> 'v cached) option" where
  "connect_coins base usage nHeight i [] vtxundo s = Some (vtxundo, s)"
| "connect_coins base usage nHeight i (tx # txs) vtxundo s =
     (case UpdateCoins base usage tx nHeight s of
        None \<Rightarrow> None
      | Some (undo, s) \<Rightarrow>
          connect_coins base usage nHeight (i + 1) txs (if 0 < i then vtxundo @ [undo] else vtxundo) s)"

section \<open>Disconnecting\<close>

definition resize_vout :: "CTxOut list \<Rightarrow> nat \<Rightarrow> CTxOut list" where
  "resize_vout v n = take n v @ replicate (n - length v) CTxOut_SetNull"

definition undo_body :: "CTxInUndo \<Rightarrow> u32 \<Rightarrow> CCoins \<Rightarrow> (bool \<times> CCoins) option" where
  "undo_body undo n cs =
     (let (fClean, cs) =
        (if undo_nHeight undo \<noteq> 0
         then (IsPruned cs, (CCoins_Clear cs)\<lparr>fCoinBase := undo_fCoinBase undo,
                 coins_nHeight := sint (undo_nHeight undo), coins_nVersion := undo_nVersion undo\<rparr>)
         else (\<not> IsPruned cs, cs));
          fClean = (fClean \<and> \<not> IsAvailable cs (unat n));
          v = coins_vout cs;
          v = (if length v < unat (n + 1) then resize_vout v (unat (n + 1)) else v)
      in if unat n < length v then Some (fClean, cs\<lparr>coins_vout := v[unat n := undo_txout undo]\<rparr>) else None)"

definition ApplyTxInUndo ::
  "'v CCoinsView \<Rightarrow> (CCoins \<Rightarrow> u64) \<Rightarrow> CTxInUndo \<Rightarrow> 'v cached \<Rightarrow> COutPoint \<Rightarrow> (bool \<times> 'v cached) option" where
  "ApplyTxInUndo base usage undo s out =
     with_modifier usage (COutPoint.op_hash out) (ModifyCoins base usage s (COutPoint.op_hash out)) (undo_body undo (op_n out))"

definition outs_body :: "CTransaction \<Rightarrow> int \<Rightarrow> CCoins \<Rightarrow> (bool \<times> CCoins) option" where
  "outs_body tx nHeight outs =
     (let outs = ClearUnspendable outs;
          outsBlock = FromTx CCoins_ctor tx nHeight;
          outs = (if coins_nVersion outsBlock < 0 then outs\<lparr>coins_nVersion := coins_nVersion outsBlock\<rparr> else outs)
      in Some (CCoins_eq outs outsBlock, CCoins_Clear outs))"

fun restore_inputs ::
  "'v CCoinsView \<Rightarrow> (CCoins \<Rightarrow> u64) \<Rightarrow> (CTxIn \<times> CTxInUndo) list \<Rightarrow> bool \<Rightarrow> 'v cached \<Rightarrow> (bool \<times> 'v cached) option" where
  "restore_inputs base usage [] fClean s = Some (fClean, s)"
| "restore_inputs base usage ((txin, undo) # ins) fClean s =
     (case ApplyTxInUndo base usage undo s (prevout txin) of
        None \<Rightarrow> None
      | Some (ok, s) \<Rightarrow> restore_inputs base usage ins (if \<not> ok then False else fClean) s)"

text \<open>
  One round of the loop of \<open>DisconnectBlock\<close>; the first component is false when it returns with the error
  that the undo data is inconsistent.  The first transaction of a block has no undo record.
\<close>

definition disconnect_tx ::
  "'v CCoinsView \<Rightarrow> (CCoins \<Rightarrow> u64) \<Rightarrow> int \<Rightarrow> CTransaction \<Rightarrow> CTxUndo option \<Rightarrow> bool \<Rightarrow> 'v cached \<Rightarrow>
    (bool \<times> bool \<times> 'v cached) option" where
  "disconnect_tx base usage nHeight tx txundo fClean s =
     (case (case GetHash tx of
              None \<Rightarrow> None
            | Some hash \<Rightarrow> with_modifier usage hash (ModifyCoins base usage s hash) (outs_body tx nHeight)) of
        None \<Rightarrow> None
      | Some (same, s) \<Rightarrow>
          (let fClean = (fClean \<and> same) in
           case txundo of
             None \<Rightarrow> Some (True, fClean, s)
           | Some vprevout \<Rightarrow>
               if length vprevout \<noteq> length (vin tx) then Some (False, fClean, s)
               else (case restore_inputs base usage (rev (zip (vin tx) vprevout)) fClean s of
                       None \<Rightarrow> None
                     | Some (fClean, s) \<Rightarrow> Some (True, fClean, s))))"

fun disconnect_loop ::
  "'v CCoinsView \<Rightarrow> (CCoins \<Rightarrow> u64) \<Rightarrow> int \<Rightarrow> (CTransaction \<times> CTxUndo option) list \<Rightarrow> bool \<Rightarrow> 'v cached \<Rightarrow>
    (bool \<times> bool \<times> 'v cached) option" where
  "disconnect_loop base usage nHeight [] fClean s = Some (True, fClean, s)"
| "disconnect_loop base usage nHeight ((tx, txundo) # txs) fClean s =
     (case disconnect_tx base usage nHeight tx txundo fClean s of
        None \<Rightarrow> None
      | Some (ok, fClean, s) \<Rightarrow>
          if ok then disconnect_loop base usage nHeight txs fClean s else Some (False, fClean, s))"

text \<open>
  The block is given by its hash, its height, the hash of its predecessor and its transactions; \<open>blockUndo\<close> is
  what \<open>UndoReadFromDisk\<close> returned, \<open>None\<close> when there is no undo data.  The result is the value returned and the
  flag \<open>*pfClean\<close>.
\<close>

definition DisconnectBlock ::
  "'v CCoinsView \<Rightarrow> (CCoins \<Rightarrow> u64) \<Rightarrow> uint256 \<Rightarrow> uint256 \<Rightarrow> int \<Rightarrow> CTransaction list \<Rightarrow> CBlockUndo option \<Rightarrow> 'v cached \<Rightarrow>
    ((bool \<times> bool) \<times> 'v cached) option" where
  "DisconnectBlock base usage hash prevHash nHeight vtx blockUndo s =
     (case cache_GetBestBlock base s of
        (best, s) \<Rightarrow>
          if hash \<noteq> best then None
          else case blockUndo of
                 None \<Rightarrow> Some ((False, False), s)
               | Some vtxundo \<Rightarrow>
                   if length vtxundo + 1 \<noteq> length vtx then Some ((False, False), s)
                   else case disconnect_loop base usage nHeight (rev (zip vtx (None # map Some vtxundo))) True s of
                          None \<Rightarrow> None
                        | Some (ok, fClean, s) \<Rightarrow>
                            if \<not> ok then Some ((False, False), s)
                            else Some ((True, fClean), SetBestBlock s prevHash))"

end
