(* ===== verification/Tx_Checks.thy ===== *)
theory Tx_Checks
  imports Undo
begin

text \<open>
  The checks of a transaction in \<^verbatim>\<open>src/src/main.cpp\<close>: \<open>CheckTransaction\<close>, which needs no context,
  \<open>CheckTxInputs\<close>, which looks the inputs up in a cache, and the counts of signature operations.  The verdict is a
  \<open>CValidationState\<close> of \<^verbatim>\<open>src/src/consensus/validation.h\<close>, without its text for the log.  \<open>None\<close> is a failed
  assertion or an exception.  Amounts are integers: every sum of the code is compared with \<open>MAX_MONEY\<close> before another
  amount is added to it.
\<close>

section \<open>Verdicts\<close>

datatype mode_state = MODE_VALID | MODE_INVALID | MODE_ERROR

record CValidationState =
  vs_mode :: mode_state
  nDoS :: int
  strRejectReason :: string
  chRejectCode :: u32
  corruptionPossible :: bool

definition CValidationState_ctor :: CValidationState where
  "CValidationState_ctor =
     \<lparr>vs_mode = MODE_VALID, nDoS = 0, strRejectReason = [], chRejectCode = 0, corruptionPossible = False\<rparr>"

definition DoS :: "CValidationState \<Rightarrow> int \<Rightarrow> bool \<Rightarrow> u32 \<Rightarrow> string \<Rightarrow> bool \<Rightarrow> bool \<times> CValidationState" where
  "DoS st level ret code reason corruption =
     (let st = st\<lparr>chRejectCode := code, strRejectReason := reason, corruptionPossible := corruption\<rparr>
      in if vs_mode st = MODE_ERROR then (ret, st)
         else (ret, st\<lparr>nDoS := nDoS st + level, vs_mode := MODE_INVALID\<rparr>))"

definition Invalid :: "CValidationState \<Rightarrow> bool \<Rightarrow> u32 \<Rightarrow> string \<Rightarrow> bool \<times> CValidationState" where
  "Invalid st ret code reason = DoS st 0 ret code reason False"

definition state_Error :: "CValidationState \<Rightarrow> string \<Rightarrow> bool \<times> CValidationState" where
  "state_Error st reason =
     (False, (if vs_mode st = MODE_VALID then st\<lparr>strRejectReason := reason\<rparr> else st)\<lparr>vs_mode := MODE_ERROR\<rparr>)"

abbreviation (input) REJECT_INVALID :: u32 where "REJECT_INVALID \<equiv> 0x10"
abbreviation (input) MAX_BLOCK_BASE_SIZE :: nat where "MAX_BLOCK_BASE_SIZE \<equiv> 2000000"
abbreviation (input) COINBASE_MATURITY :: int where "COINBASE_MATURITY \<equiv> 50"

section \<open>Checks without context\<close>

text \<open>The loops of \<open>CheckTransaction\<close>: \<open>Some\<close> is an early return.\<close>

fun check_vout :: "CTransaction \<Rightarrow> CTxOut list \<Rightarrow> CAmount \<Rightarrow> CValidationState \<Rightarrow> (bool \<times> CValidationState) option" where
  "check_vout tx [] nValueOut st = None"
| "check_vout tx (txout # outs) nValueOut st =
     (if CTxOut_IsEmpty txout \<and> \<not> IsCoinBase tx \<and> \<not> IsCoinStake tx then Some (DoS st 100 False 0 [] False)
      else if nValue txout < 0 then Some (DoS st 100 False REJECT_INVALID ''bad-txns-vout-negative'' False)
      else if MAX_MONEY < nValue txout then Some (DoS st 100 False REJECT_INVALID ''bad-txns-vout-toolarge'' False)
      else let nValueOut = nValueOut + nValue txout in
        if \<not> MoneyRange nValueOut then Some (DoS st 100 False REJECT_INVALID ''bad-txns-txouttotal-toolarge'' False)
        else check_vout tx outs nValueOut st)"

fun check_duplicates :: "CTxIn list \<Rightarrow> COutPoint list \<Rightarrow> CValidationState \<Rightarrow> (bool \<times> CValidationState) option" where
  "check_duplicates [] vInOutPoints st = None"
| "check_duplicates (txin # ins) vInOutPoints st =
     (if prevout txin \<in> set vInOutPoints then Some (DoS st 100 False REJECT_INVALID ''bad-txns-inputs-duplicate'' False)
      else check_duplicates ins (prevout txin # vInOutPoints) st)"

fun check_prevouts :: "CTxIn list \<Rightarrow> CValidationState \<Rightarrow> (bool \<times> CValidationState) option" where
  "check_prevouts [] st = None"
| "check_prevouts (txin # ins) st =
     (if COutPoint_IsNull (prevout txin) then Some (DoS st 10 False REJECT_INVALID ''bad-txns-prevout-null'' False)
      else check_prevouts ins st)"

definition CheckTransaction :: "CTransaction \<Rightarrow> CValidationState \<Rightarrow> (bool \<times> CValidationState) option" where
  "CheckTransaction tx st =
     (if vin tx = [] then Some (DoS st 10 False REJECT_INVALID ''bad-txns-vin-empty'' False)
      else if vout tx = [] then Some (DoS st 10 False REJECT_INVALID ''bad-txns-vout-empty'' False)
      else case SerializeTransaction_write True tx of
        None \<Rightarrow> None
      | Some d \<Rightarrow>
          if MAX_BLOCK_BASE_SIZE < length d then Some (DoS st 100 False REJECT_INVALID ''bad-txns-oversize'' False)
          else case check_vout tx (vout tx) 0 st of
            Some r \<Rightarrow> Some r
          | None \<Rightarrow>
              (case check_duplicates (vin tx) [] st of
                 Some r \<Rightarrow> Some r
               | None \<Rightarrow>
                   if IsCoinBase tx
                   then if length (scriptSig (vin tx ! 0)) < 2 \<or> 100 < length (scriptSig (vin tx ! 0))
                        then Some (DoS st 100 False REJECT_INVALID ''bad-cb-length'' False)
                        else Some (True, st)
                   else case check_prevouts (vin tx) st of Some r \<Rightarrow> Some r | None \<Rightarrow> Some (True, st)))"

section \<open>Checks of the inputs\<close>

text \<open>
  The loop over the inputs; an early return is \<open>Inl\<close>, the sum of the inputs \<open>Inr\<close>.  The option
  \<^verbatim>\<open>-testnet\<close> and the computation of dividends are arguments.
\<close>

fun check_inputs_loop ::
  "bool \<Rightarrow> (CAmount \<Rightarrow> int \<Rightarrow> CAmount) \<Rightarrow> 'v CCoinsView \<Rightarrow> (CCoins \<Rightarrow> u64) \<Rightarrow> int \<Rightarrow> CValidationState \<Rightarrow> CTxIn list \<Rightarrow> CAmount \<Rightarrow>
    'v cached \<Rightarrow> (((bool \<times> CValidationState) + CAmount) \<times> 'v cached) option" where
  "check_inputs_loop testnet dividend base usage nSpendHeight st [] nValueIn s = Some (Inr nValueIn, s)"
| "check_inputs_loop testnet dividend base usage nSpendHeight st (txin # ins) nValueIn s =
     (case AccessCoins base usage s (COutPoint.op_hash (prevout txin)) of
        (None, s) \<Rightarrow> None
      | (Some cs, s) \<Rightarrow>
          if (fCoinBase cs \<or> fCoinStake cs) \<and> \<not> testnet \<and>
             nSpendHeight - coins_nHeight cs < COINBASE_MATURITY \<and> 0 < nSpendHeight - coins_nHeight cs
          then Some (Inl (Invalid st False REJECT_INVALID ''bad-txns-premature-spend-of-coinbase''), s)
          else if length (coins_vout cs) \<le> unat (op_n (prevout txin)) then None
          else let amount = GetAvailableAmount dividend cs (unat (op_n (prevout txin)));
                   nValueIn = nValueIn + amount in
            if \<not> MoneyRange amount \<or> \<not> MoneyRange nValueIn
            then Some (Inl (DoS st 100 False REJECT_INVALID ''bad-txns-inputvalues-outofrange'' False), s)
            else check_inputs_loop testnet dividend base usage nSpendHeight st ins nValueIn s)"

definition CheckTxInputs ::
  "bool \<Rightarrow> (CAmount \<Rightarrow> int \<Rightarrow> CAmount) \<Rightarrow> 'v CCoinsView \<Rightarrow> (CCoins \<Rightarrow> u64) \<Rightarrow> CTransaction \<Rightarrow> CValidationState \<Rightarrow> 'v cached \<Rightarrow> int \<Rightarrow>
    ((bool \<times> CValidationState) \<times> 'v cached) option" where
  "CheckTxInputs testnet dividend base usage tx st s nSpendHeight =
     (case HaveInputs base usage s tx of
        (False, s) \<Rightarrow> Some (Invalid st False 0 [], s)
      | (True, s) \<Rightarrow>
          (case check_inputs_loop testnet dividend base usage nSpendHeight st (vin tx) 0 s of
             None \<Rightarrow> None
           | Some (Inl r, s) \<Rightarrow> Some (r, s)
           | Some (Inr nValueIn, s) \<Rightarrow>
               if \<not> IsCoinBase tx \<and> \<not> IsCoinStake tx
               then case GetValueOut tx of
                      None \<Rightarrow> None
                    | Some nValueOut \<Rightarrow>
                        if nValueIn < nValueOut
                        then Some (DoS st 100 False REJECT_INVALID ''bad-txns-in-belowout'' False, s)
                        else let nTxFee = nValueIn - nValueOut; nFees = 0 + nTxFee in
                          if nTxFee < 0 then Some (DoS st 100 False REJECT_INVALID ''bad-txns-fee-negative'' False, s)
                          else if \<not> MoneyRange nFees
                          then Some (DoS st 100 False REJECT_INVALID ''bad-txns-fee-outofrange'' False, s)
                          else Some ((True, st), s)
               else Some ((True, st), s)))"

section \<open>Signature operations\<close>

definition GetLegacySigOpCount :: "CTransaction \<Rightarrow> nat" where
  "GetLegacySigOpCount tx =
     sum_list (map (\<lambda>txin. GetSigOpCount (scriptSig txin) False) (vin tx)) +
     sum_list (map (\<lambda>txout. GetSigOpCount (scriptPubKey txout) False) (vout tx))"

fun p2sh_sigops_loop ::
  "'v CCoinsView \<Rightarrow> (CCoins \<Rightarrow> u64) \<Rightarrow> CTxIn list \<Rightarrow> nat \<Rightarrow> 'v cached \<Rightarrow> (nat \<times> 'v cached) option" where
  "p2sh_sigops_loop base usage [] nSigOps s = Some (nSigOps, s)"
| "p2sh_sigops_loop base usage (txin # ins) nSigOps s =
     (case GetOutputFor base usage s txin of
        None \<Rightarrow> None
      | Some (out, s) \<Rightarrow>
          p2sh_sigops_loop base usage ins
            (if IsPayToScriptHash (scriptPubKey out)
             then nSigOps + GetSigOpCountP2SH (scriptPubKey out) (scriptSig txin) else nSigOps) s)"

definition GetP2SHSigOpCount ::
  "'v CCoinsView \<Rightarrow> (CCoins \<Rightarrow> u64) \<Rightarrow> CTransaction \<Rightarrow> 'v cached \<Rightarrow> (nat \<times> 'v cached) option" where
  "GetP2SHSigOpCount base usage tx s =
     (if IsCoinBase tx then Some (0, s) else p2sh_sigops_loop base usage (vin tx) 0 s)"

fun witness_sigops_loop ::
  "'v CCoinsView \<Rightarrow> (CCoins \<Rightarrow> u64) \<Rightarrow> u32 \<Rightarrow> (CTxIn \<times> CTxInWitness option) list \<Rightarrow> nat \<Rightarrow> 'v cached \<Rightarrow> (nat \<times> 'v cached) option" where
  "witness_sigops_loop base usage flgs [] nSigOps s = Some (nSigOps, s)"
| "witness_sigops_loop base usage flgs ((txin, w) # ins) nSigOps s =
     (case GetOutputFor base usage s txin of
        None \<Rightarrow> None
      | Some (out, s) \<Rightarrow>
          (case CountWitnessSigOps (scriptSig txin) (scriptPubKey out) w flgs of
             None \<Rightarrow> None
           | Some n \<Rightarrow> witness_sigops_loop base usage flgs ins (nSigOps + n) s))"

definition GetTransactionSigOpCost ::
  "'v CCoinsView \<Rightarrow> (CCoins \<Rightarrow> u64) \<Rightarrow> CTransaction \<Rightarrow> u32 \<Rightarrow> 'v cached \<Rightarrow> (nat \<times> 'v cached) option" where
  "GetTransactionSigOpCost base usage tx flgs s =
     (let nSigOps = GetLegacySigOpCount tx * WITNESS_SCALE_FACTOR in
      if IsCoinBase tx then Some (nSigOps, s)
      else case (if flag_set flgs SCRIPT_VERIFY_P2SH
                 then map_option (\<lambda>(n, s). (nSigOps + n * WITNESS_SCALE_FACTOR, s)) (GetP2SHSigOpCount base usage tx s)
                 else Some (nSigOps, s)) of
             None \<Rightarrow> None
           | Some (nSigOps, s) \<Rightarrow>
               witness_sigops_loop base usage flgs
                 (map (\<lambda>i. (vin tx ! i, if i < length (wit tx) then Some (wit tx ! i) else None)) [0..<length (vin tx)])
                 nSigOps s)"

end
