(* ===== verification/Compressor_Props.thy ===== *)
theory Compressor_Props
  imports Compressor Transaction_Props
begin

text \<open>
  Amounts below \<open>2\<^sup>6\<^sup>0\<close>, scripts and whole outputs are read back from their compact form.
\<close>

section \<open>Amounts\<close>

lemma u64_bound: "unat (x :: u64) < 2 ^ 64"
  using unsigned_less [of x] by simp

lemma unat_div10: "unat (n div 10 :: u64) = unat n div 10" "unat (n mod 10 :: u64) = unat n mod 10"
  by (simp_all add: unat_div unat_mod)

lemma u64_mod10_0: "n mod 10 = (0 :: u64) \<longleftrightarrow> unat n mod 10 = 0"
  by (simp add: unat_div10(2) [symmetric] unat_eq_zero)

lemma compress_loop_factor:
  "compress_loop n e = (m, k) \<Longrightarrow> e \<le> 9 \<Longrightarrow> unat n \<noteq> 0 \<Longrightarrow>
    unat n * 10 ^ e = unat m * 10 ^ k \<and> k \<le> 9 \<and> unat m \<noteq> 0 \<and> (k < 9 \<longrightarrow> unat m mod 10 \<noteq> 0) \<and> unat m \<le> unat n"
proof (induction n e arbitrary: m k rule: compress_loop.induct)
  case (1 n e)
  show ?case
  proof (cases "n mod 10 = 0 \<and> e < 9")
    case True
    define q where "q = unat n div 10"
    have n: "unat n = q * 10" using True by (simp add: q_def u64_mod10_0 mult.commute dvd_eq_mod_eq_0 [symmetric])
    have q: "unat (n div 10) = q" by (simp add: q_def unat_div10)
    have "unat (n div 10) * 10 ^ (e + 1) = unat m * 10 ^ k \<and> k \<le> 9 \<and> unat m \<noteq> 0 \<and>
        (k < 9 \<longrightarrow> unat m mod 10 \<noteq> 0) \<and> unat m \<le> unat (n div 10)"
      using 1 True n q by (simp add: compress_loop.simps [of n e])
    then show ?thesis using n q by simp
  next
    case False
    then show ?thesis using "1.prems" by (auto simp: compress_loop.simps [of n e] u64_mod10_0)
  qed
qed

lemma mul10_unat: "unat n * 10 ^ e < 2 ^ 64 \<Longrightarrow> unat (mul10 e n) = unat n * 10 ^ e"
proof (induction e arbitrary: n)
  case (Suc e)
  have "unat n * 10 * 10 ^ e < 2 ^ 64" using Suc.prems by (simp add: ac_simps)
  moreover have "unat n * 10 \<le> unat n * 10 * 10 ^ e" by simp
  ultimately have "unat n * 10 < 2 ^ 64" by (rule order_le_less_trans [rotated])
  then have "unat (n * 10) = unat n * 10" by (simp add: unat_word_ariths)
  then show ?case using Suc.IH [of "n * 10"] Suc.prems by (simp add: ac_simps)
qed simp

text \<open>The encoded number, without the machine's arithmetic.\<close>

lemma CompressAmount_value:
  assumes "n \<noteq> 0" "unat n \<le> 2 ^ 60"
  obtains m k x where "CompressAmount n = Some x" "unat n = m * 10 ^ k" "k \<le> 9" "0 < m"
    "k < 9 \<longrightarrow> m mod 10 \<noteq> 0 \<and> unat x = 1 + (m div 10 * 9 + m mod 10 - 1) * 10 + k"
    "k = 9 \<longrightarrow> unat x = 1 + (m - 1) * 10 + 9"
proof -
  obtain w k where l: "compress_loop n 0 = (w, k)" by (cases "compress_loop n 0")
  define m where "m = unat w"
  have f: "unat n = m * 10 ^ k" "k \<le> 9" "m \<noteq> 0" "k < 9 \<longrightarrow> m mod 10 \<noteq> 0" "m \<le> 2 ^ 60"
    using compress_loop_factor [OF l] assms by (auto simp: m_def unat_eq_zero)
  have w: "w div 10 = of_nat (m div 10)" "w mod 10 = of_nat (m mod 10)" "w = of_nat m"
    by (simp_all add: m_def word_arith_nat_div word_arith_nat_mod)
  show ?thesis
  proof (cases "k < 9")
    case True
    define a r where "a = m div 10" and "r = m mod 10"
    have r: "1 \<le> r" "r \<le> 9" "a * 10 + r = m" using f(4) True by (auto simp: a_def r_def)
    define X where "X = 1 + (a * 9 + r - 1) * 10 + k"
    have X: "X < 2 ^ 64" using r f(5) True by (simp add: X_def)
    have "1 \<le> (of_nat r :: u64) \<and> (of_nat r :: u64) \<le> 9" using r by (simp add: word_le_nat_alt unat_of_nat)
    moreover have "1 + (of_nat a * 9 + of_nat r - 1) * 10 + of_nat k = (of_nat X :: u64)"
      using r(1) by (simp add: X_def of_nat_diff)
    ultimately have "CompressAmount n = Some (of_nat X)"
      using l True assms(1) by (simp add: CompressAmount_def Let_def w(1,2) a_def [symmetric] r_def [symmetric])
    moreover have "unat (of_nat X :: u64) = X" using X by (simp add: unat_of_nat)
    ultimately show ?thesis
      using that [of "of_nat X" m k] f True by (simp add: X_def a_def r_def)
  next
    case False
    define X where "X = 1 + (m - 1) * 10 + 9"
    have X: "X < 2 ^ 64" using f(5) by (simp add: X_def)
    have "1 + (w - 1) * 10 + 9 = (of_nat X :: u64)" using f(3) by (simp add: X_def w(3) of_nat_diff)
    then have "CompressAmount n = Some (of_nat X)"
      using l False assms(1) by (simp add: CompressAmount_def)
    moreover have "unat (of_nat X :: u64) = X" using X by (simp add: unat_of_nat)
    ultimately show ?thesis
      using that [of "of_nat X" m k] f False by (simp add: X_def)
  qed
qed

lemma DecompressAmount_value:
  assumes "unat x = 1 + y * 10 + k" "k \<le> 9" "m * 10 ^ k < 2 ^ 64"
    and "k < 9 \<longrightarrow> y div 9 * 10 + (y mod 9 + 1) = m" "k = 9 \<longrightarrow> y + 1 = m"
  shows "unat (DecompressAmount x) = m * 10 ^ k"
proof -
  have "unat (x - 1) = y * 10 + k" using assms(1) by (subst unat_sub) (simp_all add: word_le_nat_alt)
  then have x: "unat ((x - 1) mod 10) = k" "(x - 1) div 10 = of_nat y"
    using assms(2) by (simp_all add: unat_mod word_arith_nat_div)
  have y: "y < 2 ^ 64" using assms(1) u64_bound [of x] by simp
  have m: "m < 2 ^ 64" using assms(3) order_le_less_trans [of m "m * 10 ^ k" "2 ^ 64"] by simp
  have d: "(of_nat y :: u64) div 9 = of_nat (y div 9)" "(of_nat y :: u64) mod 9 = of_nat (y mod 9)"
    using y by (simp_all add: word_arith_nat_div word_arith_nat_mod unat_of_nat)
  have "x \<noteq> 0" using assms(1) by auto
  moreover have "(if k < 9 then (of_nat y div 9) * 10 + ((of_nat y :: u64) mod 9 + 1) else of_nat y + 1) = of_nat m"
  proof (cases "k < 9")
    case True
    then have "(of_nat m :: u64) = of_nat (y div 9 * 10 + (y mod 9 + 1))" using assms(4) by simp
    then show ?thesis using True unfolding d by (simp add: algebra_simps)
  next
    case False
    then have "(of_nat m :: u64) = of_nat (y + 1)" using assms(2,5) by simp
    then show ?thesis using False by (simp add: algebra_simps)
  qed
  ultimately have "DecompressAmount x = mul10 k (of_nat m)"
    by (cases "k < 9") (simp_all add: DecompressAmount_def Let_def x)
  then show ?thesis using mul10_unat [of "of_nat m" k] assms(3) m by (simp add: unat_of_nat)
qed

lemma amount_roundtrip:
  assumes "unat n \<le> 2 ^ 60"
  shows "\<exists>x. CompressAmount n = Some x \<and> DecompressAmount x = n"
proof (cases "n = 0")
  case True
  then show ?thesis by (simp add: CompressAmount_def DecompressAmount_def)
next
  case False
  obtain m k x where c: "CompressAmount n = Some x" "unat n = m * 10 ^ k" "k \<le> 9" "0 < m"
    "k < 9 \<longrightarrow> m mod 10 \<noteq> 0 \<and> unat x = 1 + (m div 10 * 9 + m mod 10 - 1) * 10 + k"
    "k = 9 \<longrightarrow> unat x = 1 + (m - 1) * 10 + 9"
    by (rule CompressAmount_value [OF False assms])
  define y where "y = (if k < 9 then m div 10 * 9 + m mod 10 - 1 else m - 1)"
  have "unat x = 1 + y * 10 + k" using c(3,5,6) by (cases "k = 9") (auto simp: y_def)
  moreover have "m * 10 ^ k < 2 ^ 64" using c(2) u64_bound [of n] by simp
  moreover have "y div 9 * 10 + (y mod 9 + 1) = m" if k: "k < 9"
  proof -
    define a r where "a = m div 10" and "r = m mod 10 - 1"
    have m: "m = a * 10 + (r + 1)" "r < 9" using c(5) k mod_less_divisor [of 10 m] by (auto simp: a_def r_def)
    have "y = a * 9 + r" using k m c(5) by (simp add: y_def a_def r_def)
    then have "y div 9 = a" "y mod 9 = r" using m(2) by simp_all
    then show ?thesis using m(1) by simp
  qed
  moreover have "k = 9 \<longrightarrow> y + 1 = m" using c(4) by (simp add: y_def)
  ultimately have "unat (DecompressAmount x) = unat n"
    using DecompressAmount_value [of x y k m] c(2,3) by simp
  then have "DecompressAmount x = n" by (simp only: word_unat_eq_iff)
  then show ?thesis using c(1) by blast
qed

section \<open>Scripts\<close>

lemma take_nths: "2 \<le> length s \<Longrightarrow> take 2 s = [s ! 0, s ! 1]" "3 \<le> length s \<Longrightarrow> take 3 s = [s ! 0, s ! 1, s ! 2]"
  by (cases s; cases "tl s"; cases "tl (tl s)"; auto)+

lemma drop_last1: "length s = Suc n \<Longrightarrow> drop n s = [s ! n]"
  by (simp add: Cons_nth_drop_Suc [symmetric])

lemma drop_last2: "length s = Suc (Suc n) \<Longrightarrow> drop n s = [s ! n, s ! Suc n]"
  by (simp add: Cons_nth_drop_Suc [symmetric])

lemma split3: "s = take a s @ take b (drop a s) @ drop (a + b) s"
  by (metis append_take_drop_id drop_drop add.commute)

lemma KeyID_form:
  assumes "IsToKeyID s = Some h"
  shows "s = [opbyte OP_DUP, opbyte OP_HASH160, 20] @ h @ [opbyte OP_EQUALVERIFY, opbyte OP_CHECKSIG] \<and> length h = 20"
proof -
  have l: "length s = 25" and h: "h = take 20 (drop 3 s)"
    and n: "s ! 0 = opbyte OP_DUP" "s ! 1 = opbyte OP_HASH160" "s ! 2 = 20" "s ! 23 = opbyte OP_EQUALVERIFY" "s ! 24 = opbyte OP_CHECKSIG"
    using assms by (auto simp: IsToKeyID_def split: if_splits)
  have "s = take 3 s @ h @ drop 23 s" using split3 [of s 3 20] by (simp add: h)
  moreover have "drop 23 s = [s ! 23, s ! 24]" using drop_last2 [of s 23] l by simp
  ultimately show ?thesis using l n h take_nths(2) [of s] by simp
qed

lemma ScriptID_form:
  assumes "IsToScriptID s = Some h"
  shows "s = [opbyte OP_HASH160, 20] @ h @ [opbyte OP_EQUAL] \<and> length h = 20"
proof -
  have l: "length s = 23" and h: "h = take 20 (drop 2 s)"
    and n: "s ! 0 = opbyte OP_HASH160" "s ! 1 = 20" "s ! 22 = opbyte OP_EQUAL"
    using assms by (auto simp: IsToScriptID_def split: if_splits)
  have "s = take 2 s @ h @ drop 22 s" using split3 [of s 2 20] by (simp add: h)
  moreover have "drop 22 s = [s ! 22]" using drop_last1 [of s 22] l by simp
  ultimately show ?thesis using l n h take_nths(1) [of s] by simp
qed

lemma PubKey_form:
  assumes "IsToPubKey ctx s = Some k"
  obtains (compressed) b x where "s = 33 # b # x @ [opbyte OP_CHECKSIG]" "length x = 32" "b = 2 \<or> b = 3"
      "take 33 k = b # x"
  | (full) x y where "s = 65 # 4 # x @ y @ [opbyte OP_CHECKSIG]" "length x = 32" "length y = 32" "k = 4 # x @ y"
      "CPubKey_IsFullyValid ctx k"
proof (cases "length s = 35 \<and> s ! 0 = 33 \<and> s ! 34 = opbyte OP_CHECKSIG \<and> (s ! 1 = 0x02 \<or> s ! 1 = 0x03)")
  case True
  then have k: "k = CPubKey_Set CPubKey_ctor (take 33 (drop 1 s))" using assms by (simp add: IsToPubKey_def)
  define x where "x = take 32 (drop 2 s)"
  have "s = take 2 s @ x @ drop 34 s" using split3 [of s 2 32] by (simp add: x_def)
  moreover have "drop 34 s = [s ! 34]" using drop_last1 [of s 34] True by simp
  ultimately have s: "s = 33 # s ! 1 # x @ [opbyte OP_CHECKSIG]" using True take_nths(1) [of s] by simp
  have x: "length x = 32" using True by (simp add: x_def)
  have "take 33 (drop 1 s) = s ! 1 # x" by (subst s) (simp add: x)
  then have "take 33 k = s ! 1 # x" using True x by (auto simp: k CPubKey_Set_def GetLen_def)
  then show ?thesis using compressed [OF s x] True by simp
next
  case False
  have c: "length s = 67" "s ! 0 = 65" "s ! 66 = opbyte OP_CHECKSIG" "s ! 1 = 0x04"
    and k: "k = CPubKey_Set CPubKey_ctor (take 65 (drop 1 s))" "CPubKey_IsFullyValid ctx k"
    using assms False by (auto simp: IsToPubKey_def Let_def split: if_splits)
  define x y where "x = take 32 (drop 2 s)" and "y = take 32 (drop 34 s)"
  have "s = take 2 s @ x @ drop 34 s" using split3 [of s 2 32] by (simp add: x_def)
  moreover have "drop 34 s = y @ drop 66 s" using append_take_drop_id [of 32 "drop 34 s"] by (simp add: y_def)
  moreover have "drop 66 s = [s ! 66]" using drop_last1 [of s 66] c by simp
  ultimately have s: "s = 65 # 4 # x @ y @ [opbyte OP_CHECKSIG]" using c take_nths(1) [of s] by simp
  have xy: "length x = 32" "length y = 32" using c by (simp_all add: x_def y_def)
  have "take 65 (drop 1 s) = 4 # x @ y" by (subst s) (simp add: xy)
  then have "k = 4 # x @ y" using xy by (simp add: k(1) CPubKey_Set_def GetLen_def CPubKey_ctor_def Invalidate_def)
  then show ?thesis using full [OF s xy] k(2) by simp
qed

text \<open>
  What the storage of a full key relies on: a full key that the library accepts has a compressed form,
  given by the parity of its last byte, which parses to the same key, and that key serializes to the full form.
\<close>

definition point_compression :: "('pk, 'sig) secp256k1 \<Rightarrow> bool" where
  "point_compression ctx \<longleftrightarrow>
     (\<forall>x y k. length x = 32 \<and> length y = 32 \<and> ec_pubkey_parse ctx (4 # x @ y) = Some k \<longrightarrow>
        ec_pubkey_parse ctx ((2 OR (last y AND 1)) # x) = Some k \<and> ec_pubkey_serialize ctx k False = 4 # x @ y)"

lemma word_and_1: "(b :: u8) AND 1 = 0 \<or> b AND 1 = 1"
  by (simp add: and_one_eq mod2_eq_if)

lemma Decompress_full:
  assumes "point_compression ctx" "CPubKey_IsFullyValid ctx (4 # x @ y)" "length x = 32" "length y = 32"
  shows "Decompress ctx (CPubKey_Set (replicate 65 0) ((2 OR (last y AND 1)) # x)) = (True, 4 # x @ y)"
proof -
  let ?h = "2 OR (last y AND 1) :: u8"
  have h: "?h = 2 \<or> ?h = 3" using word_and_1 [of "last y"] by auto
  obtain k where k: "ec_pubkey_parse ctx (4 # x @ y) = Some k"
    using assms(2-4) by (auto simp: CPubKey_IsFullyValid_def CPubKey_bytes_def CPubKey_size_def GetLen_def split: if_splits)
  have p: "ec_pubkey_parse ctx (?h # x) = Some k" "ec_pubkey_serialize ctx k False = 4 # x @ y"
    using assms(1,3,4) k by (auto simp: point_compression_def)
  have s: "CPubKey_Set (replicate 65 0) (?h # x) = ?h # x @ replicate 32 0"
    using h assms(3) by (auto simp: CPubKey_Set_def GetLen_def)
  have "CPubKey_size (?h # x @ replicate 32 0) = 33" using h by (auto simp: CPubKey_size_def GetLen_def)
  moreover have "CPubKey_Set v (4 # x @ y) = 4 # x @ y" if "length v = 65" for v
    using assms(3,4) that by (simp add: CPubKey_Set_def GetLen_def)
  ultimately show ?thesis
    unfolding s using p assms(3,4) by (simp add: Decompress_def CPubKey_IsValid_def CPubKey_bytes_def)
qed

lemma ReadVarInt_small:
  assumes "b < 6"
  shows "ReadVarInt (b # r) = Some (ucast b :: u32, r)"
proof -
  have "unat b < 6" using assms by (simp add: word_less_nat_alt)
  then have "unat b \<in> {0, 1, 2, 3, 4, 5}" by auto
  then have "b = 0 \<or> b = 1 \<or> b = 2 \<or> b = 3 \<or> b = 4 \<or> b = 5" by (auto simp: word_unat_eq_iff)
  then show ?thesis by (auto simp: ReadVarInt_def)
qed

text \<open>One special form is read back by its tag byte.\<close>

lemma unser_special:
  assumes "b < 6" "length d = GetSpecialSize (unat b)" "script_Decompress ctx old (unat b) d = Some s"
  shows "unser_script_compressed ctx old (b # d @ r) = Some (s, r)"
proof -
  have "unat (ucast b :: u32) = unat b" by (simp add: unat_ucast_up)
  moreover have "unat b < 6" using assms(1) by (simp add: word_less_nat_alt)
  ultimately show ?thesis using assms
    by (simp add: unser_script_compressed_def Let_def read_bind_def ReadVarInt_small CDataStream_read_append)
qed

lemma unser_Compress:
  assumes "Compress ctx s = Some c" "point_compression ctx"
  shows "unser_script_compressed ctx old (c @ r) = Some (s, r)"
proof -
  consider (key) h where "IsToKeyID s = Some h" "c = 0 # h" | (script) h where "IsToScriptID s = Some h" "c = 1 # h"
    | (pub) k where "IsToKeyID s = None" "IsToScriptID s = None" "IsToPubKey ctx s = Some k"
    using assms(1) by (auto simp: Compress_def split: option.splits)
  then show ?thesis
  proof cases
    case key
    then show ?thesis using KeyID_form [OF key(1)] unser_special [of 0 h ctx old s r]
      by (simp add: GetSpecialSize_def script_Decompress_def)
  next
    case script
    then show ?thesis using ScriptID_form [OF script(1)] unser_special [of 1 h ctx old s r]
      by (simp add: GetSpecialSize_def script_Decompress_def)
  next
    case pub
    from pub(3) show ?thesis
    proof (cases rule: PubKey_form)
      case (compressed b x)
      obtain z where k: "k = b # x @ z" using compressed(4) append_take_drop_id [of 33 k] by (metis append_Cons)
      have "c = b # x" using assms(1) pub compressed k by (auto simp: Compress_def)
      moreover have "b < 6" "GetSpecialSize (unat b) = 32" "script_Decompress ctx old (unat b) x = Some s"
        using compressed by (auto simp: GetSpecialSize_def script_Decompress_def)
      ultimately show ?thesis using unser_special [of b x ctx old s r] compressed(2) by simp
    next
      case (full x y)
      let ?p = "last y AND 1"
      have "y \<noteq> []" using full(3) by auto
      then have "k ! 64 = last y" using full by (simp add: nth_append last_conv_nth)
      then have c: "c = (4 OR ?p) # x" using assms(1) pub full by (auto simp: Compress_def)
      have d: "Decompress ctx (CPubKey_Set (replicate 65 0) ((2 OR ?p) # x)) = (True, 4 # x @ y)"
        using Decompress_full [OF assms(2)] full by simp
      have p: "?p = 0 \<or> ?p = 1" by (rule word_and_1)
      have "unat (4 OR ?p) = 4 + unat ?p" "of_nat (unat (4 OR ?p) - 2) = 2 OR ?p" "4 OR ?p < 6" using p by auto
      moreover have "unat (4 OR ?p) = 4 \<or> unat (4 OR ?p) = 5" using p by auto
      ultimately show ?thesis using unser_special [of "4 OR ?p" x ctx old s r] full(1-3) d
        by (auto simp: c GetSpecialSize_def script_Decompress_def CPubKey_size_def GetLen_def)
    qed
  qed
qed

lemma unser_plain:
  assumes "length s + 6 < 2 ^ 31"
  shows "unser_script_compressed ctx old (WriteVarInt (of_nat (length s + nSpecialScripts) :: u32) @ s @ r) =
    Some (if length s \<le> MAX_SCRIPT_SIZE then s else old @ [opbyte OP_RETURN], r)"
proof -
  define n where "n = (of_nat (length s + nSpecialScripts) :: u32)"
  have n: "unat n = length s + 6" unfolding n_def using assms by (subst unat_of_nat) simp
  have i: "sint (of_nat (length s) :: u32) = int (length s)"
    using assms by (simp add: signed_of_nat signed_take_bit_int_eq_self)
  show ?thesis
    unfolding n_def [symmetric] using VarInt_roundtrip [of n "s @ r"] assms
    by (simp add: unser_script_compressed_def read_bind_def n i Let_def CDataStream_read_append CDataStream_ignore_def)
qed

lemma Compress_length:
  assumes "Compress ctx s = Some c"
  shows "length s \<le> 67"
proof -
  have "length s = 25 \<or> length s = 23 \<or> length s = 35 \<or> length s = 67"
    using assms by (auto simp: Compress_def IsToKeyID_def IsToScriptID_def IsToPubKey_def Let_def split: option.splits if_splits)
  then show ?thesis by auto
qed

lemma script_compressed_roundtrip:
  assumes "point_compression ctx" "length s + 6 < 2 ^ 31"
  shows "unser_script_compressed ctx old (ser_script_compressed ctx s @ r) =
    Some (if length s \<le> MAX_SCRIPT_SIZE then s else old @ [opbyte OP_RETURN], r)"
proof (cases "Compress ctx s")
  case None
  then show ?thesis using unser_plain [OF assms(2), of ctx old r] by (simp add: ser_script_compressed_def)
next
  case (Some c)
  then show ?thesis using unser_Compress [OF Some assms(1), of old r] Compress_length [OF Some]
    by (simp add: ser_script_compressed_def)
qed

section \<open>Outputs\<close>

lemma u64_of_amount:
  assumes "0 \<le> k" "k \<le> 2 ^ 60"
  shows "sint (word_of_int k :: u64) = k" "unat (word_of_int k :: u64) \<le> 2 ^ 60"
proof -
  have "signed_take_bit 63 k = k" using assms by (intro signed_take_bit_int_eq_self) simp_all
  then show "sint (word_of_int k :: u64) = k" by (simp add: signed_of_int)
  have "take_bit 64 k = k" using assms by (intro take_bit_int_eq_self) simp_all
  then have "uint (word_of_int k :: u64) = k" using assms by (simp add: unsigned_of_int)
  then show "unat (word_of_int k :: u64) \<le> 2 ^ 60" using assms by (simp add: unat_eq_nat_uint nat_le_iff)
qed

lemma txout_roundtrip:
  assumes "point_compression ctx" "0 \<le> nValue out" "nValue out \<le> 2 ^ 60" "length (scriptPubKey out) + 6 < 2 ^ 31"
  obtains d where "ser_txout_compressed ctx out = Some d"
    "\<And>old r. unser_txout_compressed ctx old (d @ r) =
      Some (\<lparr>nValue = nValue out,
              scriptPubKey = (if length (scriptPubKey out) \<le> MAX_SCRIPT_SIZE then scriptPubKey out
                else scriptPubKey old @ [opbyte OP_RETURN])\<rparr>, r)"
proof -
  let ?v = "word_of_int (nValue out) :: u64"
  note v = u64_of_amount [OF assms(2,3)]
  from amount_roundtrip [OF v(2)] obtain x where x: "CompressAmount ?v = Some x" "DecompressAmount x = ?v" by blast
  have "unser_txout_compressed ctx old (WriteVarInt x @ ser_script_compressed ctx (scriptPubKey out) @ r) =
    Some (\<lparr>nValue = nValue out, scriptPubKey = (if length (scriptPubKey out) \<le> MAX_SCRIPT_SIZE then scriptPubKey out
      else scriptPubKey old @ [opbyte OP_RETURN])\<rparr>, r)" for old r
    using VarInt_roundtrip [of x "ser_script_compressed ctx (scriptPubKey out) @ r"]
      script_compressed_roundtrip [OF assms(1,4), of "scriptPubKey old" r] v(1) x(2)
    by (simp add: unser_txout_compressed_def read_bind_def)
  then show ?thesis using that x(1) by (simp add: ser_txout_compressed_def)
qed

text \<open>
  C19: outputs survive compact storage. An output whose amount is valid is always written (the assertion of the
  amount encoder holds), and reading it gives the same amount, leaves the bytes that follow, and gives the
  same script unless the script is longer than \<open>MAX_SCRIPT_SIZE\<close>; such a script, which can never
  be spent, is skipped and \<open>OP_RETURN\<close> is appended to whatever script the object held.  The
  hypothesis on the elliptic-curve library is the one of point compression.
\<close>

theorem txout_compressed_roundtrip:
  assumes "point_compression ctx" "0 \<le> nValue out" "nValue out \<le> 2 ^ 60" "length (scriptPubKey out) + 6 < 2 ^ 31"
  shows "\<exists>d. ser_txout_compressed ctx out = Some d \<and>
    unser_txout_compressed ctx old (d @ r) =
      Some (\<lparr>nValue = nValue out,
              scriptPubKey = (if length (scriptPubKey out) \<le> MAX_SCRIPT_SIZE then scriptPubKey out
                else scriptPubKey old @ [opbyte OP_RETURN])\<rparr>, r)"
  using txout_roundtrip [OF assms] by metis

text \<open>A library for which every full key with an even last byte exists.\<close>

definition even_secp256k1 :: "(bytes, unit) secp256k1" where
  "even_secp256k1 = \<lparr>ec_pubkey_parse = \<lambda>d. if d ! 0 = 2 then Some (drop 1 d)
       else if d ! 0 = 4 \<and> length d = 65 \<and> drop 33 d = replicate 32 0 then Some (take 32 (drop 1 d)) else None,
     signature_parse_compact = \<lambda>_. (True, ()), signature_normalize = \<lambda>s. (False, s), ecdsa_verify = \<lambda>_ _ _. True,
     ec_pubkey_serialize = \<lambda>k c. if c then 2 # k else 4 # k @ replicate 32 0,
     ec_pubkey_tweak_add = \<lambda>_ _. None, ecdsa_recover_compact = \<lambda>_ _ _. None\<rparr>"

lemma even_point_compression: "point_compression even_secp256k1"
  unfolding point_compression_def
proof (intro allI impI)
  fix x y k assume a: "length x = 32 \<and> length y = 32 \<and> ec_pubkey_parse even_secp256k1 (4 # x @ y) = Some k"
  then have y: "y = replicate 32 0" by (simp add: even_secp256k1_def split: if_splits)
  with a have "k = x" by (auto simp: even_secp256k1_def)
  from y have "last y = 0" by simp
  then show "ec_pubkey_parse even_secp256k1 ((2 OR (last y AND 1)) # x) = Some k \<and>
      ec_pubkey_serialize even_secp256k1 k False = 4 # x @ y"
    using \<open>k = x\<close> by (simp add: even_secp256k1_def y)
qed

theorem txout_compressed_roundtrip_witness:
  "let out = \<lparr>nValue = 5000000000, scriptPubKey = [65, 4] @ replicate 32 7 @ replicate 32 0 @ [opbyte OP_CHECKSIG]\<rparr>
   in \<exists>d. ser_txout_compressed even_secp256k1 out = Some d \<and>
        unser_txout_compressed even_secp256k1 \<lparr>nValue = 0, scriptPubKey = []\<rparr> (d @ [1, 2]) = Some (out, [1, 2])"
proof -
  let ?out = "\<lparr>nValue = 5000000000, scriptPubKey = [65, 4] @ replicate 32 7 @ replicate 32 0 @ [opbyte OP_CHECKSIG]\<rparr>"
  show ?thesis
    using txout_compressed_roundtrip [OF even_point_compression, of ?out "\<lparr>nValue = 0, scriptPubKey = []\<rparr>" "[1, 2]"]
    by (simp add: Let_def)
qed

end
