(* ===== verification/Coins_Props.thy ===== *)
theory Coins_Props
  imports Coins Compressor_Props
begin

text \<open>
  The unspent outputs of a transaction are read back from storage; the operations keep them trimmed.
\<close>

section \<open>Trimming\<close>

lemma pop_nulls_keep: "v = [] \<or> \<not> CTxOut_IsNull (last v) \<Longrightarrow> pop_nulls v = v"
  by (subst pop_nulls.simps) auto

lemma pop_nulls_trimmed: "pop_nulls v = [] \<or> \<not> CTxOut_IsNull (last (pop_nulls v))"
proof (induction v rule: pop_nulls.induct)
  case (1 v)
  then show ?case by (subst (1 2) pop_nulls.simps) auto
qed

lemma pop_nulls_snoc: "CTxOut_IsNull x \<Longrightarrow> pop_nulls (v @ [x]) = pop_nulls v"
  by (subst pop_nulls.simps) simp

lemma pop_nulls_append_nulls: "list_all CTxOut_IsNull z \<Longrightarrow> pop_nulls (v @ z) = pop_nulls v"
proof (induction z rule: rev_induct)
  case (snoc x z)
  then show ?case using pop_nulls_snoc [of x "v @ z"] by simp
qed simp

lemma pop_nulls_prefix: "\<exists>z. v = pop_nulls v @ z \<and> list_all CTxOut_IsNull z"
proof (induction v rule: pop_nulls.induct)
  case (1 v)
  show ?case
  proof (cases "0 < length v \<and> CTxOut_IsNull (last v)")
    case True
    then obtain z where "butlast v = pop_nulls (butlast v) @ z" "list_all CTxOut_IsNull z" using 1 by blast
    moreover have "v = butlast v @ [last v]" using True by simp
    ultimately have "v = pop_nulls (butlast v) @ (z @ [last v])" "list_all CTxOut_IsNull (z @ [last v])"
      using True by (metis append_assoc, simp)
    then show ?thesis using True pop_nulls.simps [of v] by auto
  next
    case False
    then show ?thesis using pop_nulls.simps [of v] by auto
  qed
qed

lemma pop_nulls_pruned: "list_all CTxOut_IsNull (pop_nulls v) \<longleftrightarrow> list_all CTxOut_IsNull v"
  using pop_nulls_prefix [of v] by (metis list_all_append)

lemma trimmed_pruned: "v = [] \<or> \<not> CTxOut_IsNull (last v) \<Longrightarrow> list_all CTxOut_IsNull v \<longleftrightarrow> v = []"
  by (cases "v = []") (auto simp: list_all_iff dest: last_in_set)

section \<open>The availability mask\<close>

definition avail :: "CTxOut list \<Rightarrow> nat \<Rightarrow> bool" where
  "avail v i \<longleftrightarrow> i < length v \<and> \<not> CTxOut_IsNull (v ! i)"

text \<open>The number of mask bytes for \<open>n\<close> outputs.\<close>

definition mask_blocks :: "nat \<Rightarrow> nat" where
  "mask_blocks n = (n + 5) div 8"

lemma mask_blocks_iff: "2 + b * 8 < n \<longleftrightarrow> b < mask_blocks n"
  unfolding mask_blocks_def by arith

lemma byte_zero_avail: "byte_zero v b \<longleftrightarrow> (\<forall>i < 8. \<not> avail v (2 + b * 8 + i))"
  by (auto simp: byte_zero_def avail_def list_all_iff)

lemma bit_fold_set:
  "bit (fold (\<lambda>i ch. if P i then ch OR push_bit i 1 else ch) is (w :: u8)) p \<longleftrightarrow>
    bit w p \<or> p < 8 \<and> p \<in> set is \<and> P p"
proof (induction "is" arbitrary: w)
  case (Cons i "is")
  have "bit (push_bit i (1 :: u8)) p \<longleftrightarrow> p < 8 \<and> i = p" by (auto simp: push_bit_of_1 bit_exp_iff)
  then show ?case using Cons by (auto simp: bit_or_iff)
qed simp

lemma bit_mask_byte: "bit (mask_byte v b) p \<longleftrightarrow> p < 8 \<and> avail v (2 + b * 8 + p)"
  unfolding mask_byte_def avail_def by (subst bit_fold_set) auto

lemma mask_byte_zero: "mask_byte v b = 0 \<longleftrightarrow> byte_zero v b"
proof -
  have "mask_byte v b = 0 \<longleftrightarrow> (\<forall>p < 8. \<not> bit (mask_byte v b) p)" by (simp add: bit_eq_iff)
  then show ?thesis by (auto simp: bit_mask_byte byte_zero_avail)
qed

lemma mask_size_loop_eq:
  "mask_size_loop v b l n =
    (fold (\<lambda>b l. if byte_zero v b then l else b + 1) [b..<mask_blocks (length v)] l,
     n + length (filter (\<lambda>b. \<not> byte_zero v b) [b..<mask_blocks (length v)]))"
proof (induction v b l n rule: mask_size_loop.induct)
  case (1 v b l n)
  show ?case
  proof (cases "2 + b * 8 < length v")
    case True
    then have "[b..<mask_blocks (length v)] = b # [b + 1..<mask_blocks (length v)]"
      using mask_blocks_iff [of b "length v"] by (simp add: upt_conv_Cons)
    then show ?thesis using 1 True by (subst mask_size_loop.simps) auto
  next
    case False
    then have e: "[b..<mask_blocks (length v)] = []" using mask_blocks_iff [of b "length v"] by simp
    show ?thesis using False unfolding e by (simp add: mask_size_loop.simps [of v b])
  qed
qed

lemma fold_last_used: "\<not> P n \<Longrightarrow> fold (\<lambda>b l. if P b then l else b + 1) [0..<Suc n] l = Suc n"
  by simp

lemma last_block_used:
  assumes "v \<noteq> []" "\<not> CTxOut_IsNull (last v)" "mask_blocks (length v) = Suc b"
  shows "\<not> byte_zero v b"
proof -
  define i where "i = length v - 1 - (2 + b * 8)"
  have "2 + b * 8 < length v" using assms(3) mask_blocks_iff [of b "length v"] by simp
  moreover have "\<not> 2 + Suc b * 8 < length v" using assms(3) mask_blocks_iff [of "Suc b" "length v"] by simp
  ultimately have "2 + b * 8 + i = length v - 1" "i < 8" by (auto simp: i_def)
  then have "avail v (2 + b * 8 + i)" using assms(1,2) by (simp add: avail_def last_conv_nth)
  then show ?thesis using \<open>i < 8\<close> by (auto simp: byte_zero_avail)
qed

lemma CalcMaskSize_trimmed:
  assumes "coins_vout c \<noteq> []" "\<not> CTxOut_IsNull (last (coins_vout c))"
  shows "CalcMaskSize c 0 0 =
    (mask_blocks (length (coins_vout c)),
     length (filter (\<lambda>b. \<not> byte_zero (coins_vout c) b) [0..<mask_blocks (length (coins_vout c))]))"
proof (cases "mask_blocks (length (coins_vout c))")
  case 0
  then show ?thesis by (simp add: CalcMaskSize_def mask_size_loop_eq)
next
  case (Suc b)
  then show ?thesis
    using last_block_used [OF assms Suc] fold_last_used [of "byte_zero (coins_vout c)" b 0]
    by (simp add: CalcMaskSize_def mask_size_loop_eq)
qed

lemma read_mask_bytes:
  assumes "n = length (filter (\<lambda>b. b \<noteq> 0) bs)" "bs = [] \<or> last bs \<noteq> 0"
  shows "read_mask n (bs @ r) = Some (concat (map (\<lambda>b. map (\<lambda>p. bit b p) [0..<8]) bs), r)"
  using assms
proof (induction bs arbitrary: n)
  case (Cons b bs)
  have bits: "map (\<lambda>p. b AND push_bit p 1 \<noteq> 0) [0..<8] = map (\<lambda>p. bit b p) [0..<8]"
    by (simp add: push_bit_of_1 and_exp_eq_0_iff_not_bit)
  have "filter (\<lambda>b. b \<noteq> 0) (b # bs) \<noteq> []" using Cons.prems(2) last_in_set [of "b # bs"] by (auto simp: filter_empty_conv)
  then have "n \<noteq> 0" using Cons.prems(1) by (simp only: length_0_conv) simp
  then obtain k where n: "n = Suc k" by (cases n) simp_all
  have "k = length (filter (\<lambda>b. b \<noteq> 0) bs)" if "b \<noteq> 0" using Cons.prems n that by simp
  moreover have "Suc k = length (filter (\<lambda>b. b \<noteq> 0) bs)" if "b = 0" using Cons.prems n that by simp
  moreover have "bs = [] \<or> last bs \<noteq> 0" using Cons.prems by (auto split: if_splits)
  ultimately have "read_mask (if b \<noteq> 0 then k else Suc k) (bs @ r) =
      Some (concat (map (\<lambda>b. map (\<lambda>p. bit b p) [0..<8]) bs), r)"
    using Cons.IH by simp
  then show ?case by (simp only: n append_Cons read_mask.simps bits) simp
qed simp

lemma concat_blocks: "concat (map (\<lambda>b. map (\<lambda>p. f (b * 8 + p)) [0..<8]) [0..<n]) = map f [0..<n * 8]"
proof (induction n)
  case (Suc n)
  have "[0..<Suc n * 8] = [0..<n * 8] @ map (\<lambda>p. n * 8 + p) [0..<8]"
    by (simp add: upt_add_eq_append [of 0] map_add_upt [symmetric] add.commute numeral_eq_Suc)
  then show ?case using Suc by simp
qed simp

section \<open>Stored coins\<close>

text \<open>Coins that the format can hold: an unspent last output, sane amounts and scripts, and no negative number.\<close>

definition out_ok :: "CTxOut \<Rightarrow> bool" where
  "out_ok out \<longleftrightarrow> out = CTxOut_SetNull \<or>
     0 \<le> nValue out \<and> nValue out \<le> 2 ^ 60 \<and> length (scriptPubKey out) \<le> MAX_SCRIPT_SIZE"

definition coins_ok :: "CCoins \<Rightarrow> bool" where
  "coins_ok c \<longleftrightarrow> coins_vout c \<noteq> [] \<and> \<not> CTxOut_IsNull (last (coins_vout c)) \<and> list_all out_ok (coins_vout c) \<and>
     length (coins_vout c) < 2 ^ 28 \<and> 0 \<le> coins_nHeight c \<and> coins_nHeight c < 2 ^ 31 \<and>
     0 \<le> coins_nVersion c \<and> coins_nVersion c < 2 ^ 31"

lemma null_ok: "out_ok out \<Longrightarrow> CTxOut_IsNull out \<longleftrightarrow> out = CTxOut_SetNull"
  by (auto simp: out_ok_def CTxOut_IsNull_def CTxOut_SetNull_def)

lemma map_avail:
  assumes "length v \<le> n"
  shows "map (avail v) [0..<n] = map (\<lambda>out. \<not> CTxOut_IsNull out) v @ replicate (n - length v) False"
  using assms by (intro nth_equalityI) (auto simp: avail_def nth_append)

lemma unspent_roundtrip:
  assumes "point_compression ctx" "list_all out_ok v"
  shows "\<exists>d. ser_unspent ctx v = Some d \<and> (\<forall>r. read_unspent ctx (map (\<lambda>out. \<not> CTxOut_IsNull out) v @ replicate k False) (d @ r) =
    Some (v @ replicate k CTxOut_SetNull, r))"
  using assms(2)
proof (induction v)
  case Nil
  have "read_unspent ctx (replicate k False) r = Some (replicate k CTxOut_SetNull, r)" for r
    by (induction k) (simp_all add: read_bind_def)
  then show ?case by simp
next
  case (Cons out v)
  then obtain d where d: "ser_unspent ctx v = Some d"
    "\<And>r. read_unspent ctx (map (\<lambda>out. \<not> CTxOut_IsNull out) v @ replicate k False) (d @ r) = Some (v @ replicate k CTxOut_SetNull, r)"
    by auto
  show ?case
  proof (cases "CTxOut_IsNull out")
    case True
    then have "out = CTxOut_SetNull" using Cons.prems null_ok by auto
    then show ?thesis using True d by (simp add: read_bind_def)
  next
    case False
    then have v: "0 \<le> nValue out" "nValue out \<le> 2 ^ 60" and l: "length (scriptPubKey out) \<le> MAX_SCRIPT_SIZE"
      using Cons.prems by (auto simp: out_ok_def CTxOut_IsNull_def CTxOut_SetNull_def)
    from l have "length (scriptPubKey out) + 6 < 2 ^ 31" by simp
    from txout_roundtrip [OF assms(1) v this] obtain e where e: "ser_txout_compressed ctx out = Some e"
      "\<And>old r. unser_txout_compressed ctx old (e @ r) = Some (\<lparr>nValue = nValue out, scriptPubKey =
        if length (scriptPubKey out) \<le> MAX_SCRIPT_SIZE then scriptPubKey out else scriptPubKey old @ [opbyte OP_RETURN]\<rparr>, r)"
      by metis
    then have "unser_txout_compressed ctx CTxOut_SetNull (e @ r) = Some (out, r)" for r using l by simp
    then show ?thesis using False d e(1) by (simp add: read_bind_def)
  qed
qed

lemma sint_word32:
  assumes "0 \<le> n" "n < 2 ^ 31"
  shows "sint (word_of_int n :: u32) = n"
proof -
  have "signed_take_bit 31 n = n" using assms by (intro signed_take_bit_int_eq_self) simp_all
  then show ?thesis by (simp add: signed_of_int)
qed

lemma VarInt_int_roundtrip:
  assumes "0 \<le> n" "n < 2 ^ 31"
  shows "ReadVarInt_int (WriteVarInt_int n @ r) = Some (n, r)"
proof -
  note s = sint_word32 [OF assms]
  have "WriteVarInt_int n = WriteVarInt (word_of_int n :: u32)"
  proof (cases "n \<le> 0x7F")
    case True
    have "take_bit 32 n = n" using assms True by (intro take_bit_int_eq_self) simp_all
    then have "unat (word_of_int n :: u32) \<le> 0x7F"
      using True assms(1) by (simp add: unat_eq_nat_uint unsigned_of_int nat_le_iff)
    then have "WriteVarInt (word_of_int n :: u32) = [ucast ((word_of_int n :: u32) AND 0x7F)]"
      by (simp add: WriteVarInt_rev varint_tmp.simps [of "word_of_int n"] Let_def)
    moreover have "ucast ((word_of_int n :: u32) AND mask 7) = (word_of_int n AND mask 7 :: u8)"
      by (rule bit_word_eqI) (auto simp: bit_ucast_iff bit_and_iff bit_word_of_int_iff bit_mask_iff)
    moreover have "(0x7F :: u32) = mask 7" "(0x7F :: u8) = mask 7" by (simp_all add: mask_eq_exp_minus_1)
    ultimately show ?thesis using True by (simp only: WriteVarInt_int_def) simp
  qed (simp add: WriteVarInt_int_def)
  then show ?thesis using VarInt_roundtrip [of "word_of_int n :: u32" r] by (simp add: ReadVarInt_int_def read_bind_def s)
qed

text \<open>
  What storage makes of a signed number: the loop of \<open>WriteVarInt\<close> stops at once on a negative one and
  writes its low seven bits.
\<close>

definition stored_int :: "int \<Rightarrow> int" where
  "stored_int n = (if n < 0 then n mod 128 else n)"

lemma stored_int_bounds: "n < 2 ^ 31 \<Longrightarrow> 0 \<le> stored_int n \<and> stored_int n < 2 ^ 31"
  using pos_mod_bound [of 128 n] by (auto simp: stored_int_def)

lemma WriteVarInt_int_stored: "WriteVarInt_int (stored_int n) = WriteVarInt_int n"
proof (cases "n < 0")
  case True
  have "(word_of_int (n mod 128) AND mask 7 :: u8) = word_of_int n AND mask 7"
    by (rule bit_word_eqI) (auto simp: bit_and_iff bit_word_of_int_iff bit_mask_iff bit_take_bit_iff
        simp flip: take_bit_eq_mod [of 7, simplified])
  moreover have "(0x7F :: u8) = mask 7" by (simp add: mask_eq_exp_minus_1)
  moreover have "n mod 128 \<le> 0x7F" using pos_mod_bound [of 128 n] by simp
  ultimately show ?thesis using True by (simp add: WriteVarInt_int_def stored_int_def)
qed (simp add: stored_int_def)

lemma and_pow2: "(w :: u32) AND 1 \<noteq> 0 \<longleftrightarrow> odd (unat w)" "w AND 2 \<noteq> 0 \<longleftrightarrow> odd (unat w div 2)"
  "w AND 4 \<noteq> 0 \<longleftrightarrow> odd (unat w div 4)" "w AND 6 \<noteq> 0 \<longleftrightarrow> w AND 2 \<noteq> 0 \<or> w AND 4 \<noteq> 0"
proof -
  have b: "w AND 2 ^ n \<noteq> 0 \<longleftrightarrow> odd (unat w div 2 ^ n)" for n
    using bit_unsigned_iff [of w n, where ?'a = nat] by (simp add: and_exp_eq_0_iff_not_bit bit_iff_odd)
  show "w AND 1 \<noteq> 0 \<longleftrightarrow> odd (unat w)" "w AND 2 \<noteq> 0 \<longleftrightarrow> odd (unat w div 2)" "w AND 4 \<noteq> 0 \<longleftrightarrow> odd (unat w div 4)"
    using b [of 0] b [of 1] b [of 2] by simp_all
  have "w AND 6 = (w AND 2) OR (w AND 4)" by (simp add: bit.conj_disj_distrib [symmetric])
  then show "w AND 6 \<noteq> 0 \<longleftrightarrow> w AND 2 \<noteq> 0 \<or> w AND 4 \<noteq> 0" by (simp add: or_eq_0_iff)
qed

lemma nCode_fields:
  fixes k :: nat and cb :: bool
  assumes "k < 2 ^ 28" "a \<or> b \<or> 0 < k"
    and n: "nCode = 8 * (of_nat k - (if a \<or> b then 0 else 1)) + (if cb then 1 else 0) + (if a then 2 else 0) + (if b then 4 else 0)"
  shows "(nCode :: u32) AND 1 \<noteq> 0 \<longleftrightarrow> cb" "nCode AND 2 \<noteq> 0 \<longleftrightarrow> a" "nCode AND 4 \<noteq> 0 \<longleftrightarrow> b"
    "unat (nCode div 8 + (if nCode AND 6 \<noteq> 0 then 0 else 1)) = k"
proof -
  define m where "m = k - (if a \<or> b then 0 else 1)"
  define x where "x = (if cb then 1 else 0) + (if a then 2 else 0) + (if b then 4 else (0 :: nat))"
  have c: "nCode = of_nat (8 * m + x)" using assms(2) by (auto simp: n m_def x_def of_nat_diff)
  have "8 * m + x < 2 ^ 32" using assms(1) by (auto simp: m_def x_def)
  then have u: "unat nCode = 8 * m + x" unfolding c by (subst unat_of_nat) simp
  have x: "x < 8" by (simp add: x_def)
  have q: "(8 * m + x) div 2 = 4 * m + x div 2" "(8 * m + x) div 4 = 2 * m + x div 4" by simp_all
  show 1: "nCode AND 1 \<noteq> 0 \<longleftrightarrow> cb" unfolding and_pow2 u by (auto simp: x_def)
  show 2: "nCode AND 2 \<noteq> 0 \<longleftrightarrow> a" unfolding and_pow2 u q by (auto simp: x_def)
  show 4: "nCode AND 4 \<noteq> 0 \<longleftrightarrow> b" unfolding and_pow2 u q by (auto simp: x_def)
  have d: "unat (nCode div 8) = m" using x by (simp add: unat_div u)
  have "k < 2 ^ 32" using assms(1) by simp
  then have "unat (nCode div 8 + (if a \<or> b then 0 else 1)) = k"
    using d assms(2) by (cases "a \<or> b") (auto simp: m_def unat_word_ariths)
  then show "unat (nCode div 8 + (if nCode AND 6 \<noteq> 0 then 0 else 1)) = k"
    unfolding and_pow2(4) 2 4 .
qed

lemma mask_blocks_le: "mask_blocks n \<le> n" "n \<le> 2 + mask_blocks n * 8"
  unfolding mask_blocks_def by linarith+

lemma read_mask_trimmed:
  assumes "v \<noteq> []" "\<not> CTxOut_IsNull (last v)"
  shows "read_mask (length (filter (\<lambda>b. \<not> byte_zero v b) [0..<mask_blocks (length v)]))
      (map (mask_byte v) [0..<mask_blocks (length v)] @ r) =
    Some (map (\<lambda>i. avail v (2 + i)) [0..<mask_blocks (length v) * 8], r)"
proof -
  let ?n = "mask_blocks (length v)" and ?bs = "map (mask_byte v) [0..<mask_blocks (length v)]"
  have "?bs = [] \<or> last ?bs \<noteq> 0"
  proof (cases ?n)
    case (Suc b)
    then show ?thesis using last_block_used [OF assms Suc] by (simp add: mask_byte_zero)
  qed simp
  moreover have "filter (\<lambda>b. b \<noteq> 0) ?bs = map (mask_byte v) (filter (\<lambda>b. \<not> byte_zero v b) [0..<?n])"
    by (simp add: filter_map comp_def mask_byte_zero)
  ultimately have "read_mask (length (filter (\<lambda>b. \<not> byte_zero v b) [0..<?n])) (?bs @ r) =
      Some (concat (map (\<lambda>b. map (\<lambda>p. bit b p) [0..<8]) ?bs), r)"
    by (intro read_mask_bytes) simp_all
  moreover have "concat (map (\<lambda>b. map (\<lambda>p. bit b p) [0..<8]) ?bs) =
      concat (map (\<lambda>b. map (\<lambda>p. avail v (2 + (b * 8 + p))) [0..<8]) [0..<?n])"
    unfolding map_map comp_def by (intro arg_cong [where f = concat] map_cong) (auto simp: bit_mask_byte add.assoc)
  ultimately show ?thesis using concat_blocks [of "\<lambda>i. avail v (2 + i)" ?n] by (simp only:)
qed

lemma some_unspent:
  assumes "v \<noteq> []" "\<not> CTxOut_IsNull (last v)"
  shows "avail v 0 \<or> avail v 1 \<or> 0 < length (filter (\<lambda>b. \<not> byte_zero v b) [0..<mask_blocks (length v)])"
proof (cases "mask_blocks (length v)")
  case 0
  then have "length v = 1 \<or> length v = 2" using assms(1) mask_blocks_iff [of 0 "length v"] by (cases v; cases "tl v"; cases "tl (tl v)") auto
  then show ?thesis using assms by (auto simp: avail_def last_conv_nth)
next
  case (Suc b)
  then show ?thesis using last_block_used [OF assms Suc] by simp
qed

lemma map_upt_2: "map f [0..<2 + n] = f 0 # f 1 # map (\<lambda>i. f (2 + i)) [0..<n]"
  by (induction n) (simp_all add: numeral_2_eq_2)

lemma coins_roundtrip:
  assumes "point_compression ctx" "coins_ok c"
  obtains d where "CCoins_Serialize ctx c = Some d"
    "\<And>old r. CCoins_Unserialize ctx old (d @ r) = Some (c\<lparr>fCoinStake := fCoinStake old\<rparr>, r)"
proof -
  define v where "v = coins_vout c"
  define n where "n = mask_blocks (length v)"
  define k where "k = length (filter (\<lambda>b. \<not> byte_zero v b) [0..<n])"
  define nCode :: u32 where "nCode = 8 * (of_nat k - (if avail v 0 \<or> avail v 1 then 0 else 1)) +
    (if fCoinBase c then 1 else 0) + (if avail v 0 then 2 else 0) + (if avail v 1 then 4 else 0)"
  note ok = assms(2) [unfolded coins_ok_def v_def [symmetric]]
  have v: "v \<noteq> []" "\<not> CTxOut_IsNull (last v)" "list_all out_ok v" using ok by simp_all
  have "k \<le> n" unfolding k_def by (rule order_trans [OF length_filter_le]) simp
  then have k: "k < 2 ^ 28" using mask_blocks_le(1) [of "length v"] ok by (simp add: n_def)
  have a: "avail v 0 \<or> avail v 1 \<or> 0 < k" using some_unspent [OF v(1,2)] by (simp add: k_def n_def)
  note code = nCode_fields [OF k a nCode_def]
  define z where "z = 2 + n * 8 - length v"
  define mask where "mask = map (\<lambda>i. avail v (2 + i)) [0..<n * 8]"
  have "map (\<lambda>out. \<not> CTxOut_IsNull out) v @ replicate z False = avail v 0 # avail v 1 # mask"
    using map_avail [of v "2 + n * 8"] mask_blocks_le(2) [of "length v"] map_upt_2 [of "avail v" "n * 8"]
    by (simp only: n_def z_def mask_def)
  with unspent_roundtrip [OF assms(1) v(3), of z] obtain outs where outs: "ser_unspent ctx v = Some outs"
    "\<And>r. read_unspent ctx (avail v 0 # avail v 1 # mask) (outs @ r) = Some (v @ replicate z CTxOut_SetNull, r)" by auto
  let ?d = "WriteVarInt_int (coins_nVersion c) @ WriteVarInt nCode @ map (mask_byte v) [0..<n] @ outs @ WriteVarInt_int (coins_nHeight c)"
  have f: "0 < length v \<and> \<not> CTxOut_IsNull (v ! 0) \<longleftrightarrow> avail v 0" "1 < length v \<and> \<not> CTxOut_IsNull (v ! 1) \<longleftrightarrow> avail v 1"
    by (simp_all only: avail_def)
  have m: "CalcMaskSize c 0 0 = (n, k)" using CalcMaskSize_trimmed [of c] v(1,2) by (simp add: v_def n_def k_def)
  have "CCoins_Serialize ctx c = Some ?d"
    unfolding CCoins_Serialize_def v_def [symmetric] m Let_def prod.case f nCode_def [symmetric] outs(1) using a by simp
  moreover have "CCoins_Unserialize ctx old (?d @ r) = Some (c\<lparr>fCoinStake := fCoinStake old\<rparr>, r)" for old r
  proof -
    have "pop_nulls (v @ replicate z CTxOut_SetNull) = v"
      using v(1,2) by (simp add: pop_nulls_append_nulls list_all_iff pop_nulls_keep CTxOut_IsNull_def CTxOut_SetNull_def)
    moreover have "read_mask k (map (mask_byte v) [0..<n] @ r) = Some (mask, r)" for r
      using read_mask_trimmed [OF v(1,2), of r] by (simp only: k_def n_def mask_def)
    ultimately show ?thesis
      using outs(2) ok VarInt_roundtrip [of nCode] v_def
      by (simp add: CCoins_Unserialize_def read_bind_def VarInt_int_roundtrip Let_def code Cleanup_def del: read_unspent.simps)
  qed
  ultimately show ?thesis by (rule that)
qed

text \<open>Coins as the code holds them: any 32-bit height and version.\<close>

definition coins_storable :: "CCoins \<Rightarrow> bool" where
  "coins_storable c \<longleftrightarrow> coins_vout c \<noteq> [] \<and> \<not> CTxOut_IsNull (last (coins_vout c)) \<and> list_all out_ok (coins_vout c) \<and>
     length (coins_vout c) < 2 ^ 28 \<and> - (2 ^ 31) \<le> coins_nHeight c \<and> coins_nHeight c < 2 ^ 31 \<and>
     - (2 ^ 31) \<le> coins_nVersion c \<and> coins_nVersion c < 2 ^ 31"

definition stored_coins :: "CCoins \<Rightarrow> CCoins" where
  "stored_coins c = c\<lparr>coins_nHeight := stored_int (coins_nHeight c), coins_nVersion := stored_int (coins_nVersion c)\<rparr>"

lemma stored_coins_ok: "coins_storable c \<Longrightarrow> coins_ok (stored_coins c)"
  using stored_int_bounds by (simp add: coins_storable_def coins_ok_def stored_coins_def)

lemma CCoins_Serialize_stored: "CCoins_Serialize ctx (stored_coins c) = CCoins_Serialize ctx c"
proof -
  have f: "coins_vout (stored_coins c) = coins_vout c" "fCoinBase (stored_coins c) = fCoinBase c"
    "coins_nVersion (stored_coins c) = stored_int (coins_nVersion c)"
    "coins_nHeight (stored_coins c) = stored_int (coins_nHeight c)" by (simp_all add: stored_coins_def)
  show ?thesis unfolding CCoins_Serialize_def CalcMaskSize_def f WriteVarInt_int_stored ..
qed

text \<open>
  C18: the unspent outputs of a transaction survive storage, with two exceptions. Coins with an unspent last
  output and valid amounts and scripts are always written (no assertion fails), and reading the bytes gives
  back the outputs, the coinbase flag and a height and a version that are not negative, and leaves what
  follows. The flag \<open>fCoinStake\<close> is not stored, so the object keeps the one it had; and of a negative height
  or version only the low seven bits come back.
\<close>

theorem CCoins_roundtrip:
  assumes "point_compression ctx" "coins_storable c"
  shows "\<exists>d. CCoins_Serialize ctx c = Some d \<and>
    CCoins_Unserialize ctx old (d @ r) =
      Some (\<lparr>fCoinBase = fCoinBase c, fCoinStake = fCoinStake old, coins_vout = coins_vout c,
             coins_nHeight = (if coins_nHeight c < 0 then coins_nHeight c mod 128 else coins_nHeight c),
             coins_nVersion = (if coins_nVersion c < 0 then coins_nVersion c mod 128 else coins_nVersion c)\<rparr>, r)"
  by (rule coins_roundtrip [OF assms(1) stored_coins_ok [OF assms(2)], unfolded CCoins_Serialize_stored])
    (auto simp: stored_coins_def stored_int_def)

definition sample_coins :: CCoins where
  "sample_coins = \<lparr>fCoinBase = False, fCoinStake = True,
     coins_vout = CTxOut_SetNull # replicate 12 CTxOut_SetNull @ [\<lparr>nValue = 250000000, scriptPubKey = [0x51, 0x87]\<rparr>],
     coins_nHeight = 120000, coins_nVersion = 2\<rparr>"

lemma sample_coins_ok: "coins_ok sample_coins"
  by (simp add: coins_ok_def sample_coins_def out_ok_def CTxOut_IsNull_def list_all_iff)

theorem CCoins_roundtrip_witness:
  "\<exists>d. CCoins_Serialize even_secp256k1 (sample_coins\<lparr>coins_nVersion := - 1\<rparr>) = Some d \<and>
    CCoins_Unserialize even_secp256k1 CCoins_ctor (d @ [7]) =
      Some (sample_coins\<lparr>fCoinStake := False, coins_nVersion := 127\<rparr>, [7])"
proof -
  have "coins_storable (sample_coins\<lparr>coins_nVersion := - 1\<rparr>)"
    using sample_coins_ok by (simp add: coins_ok_def coins_storable_def)
  from CCoins_roundtrip [OF even_point_compression this, of CCoins_ctor "[7]"]
  show ?thesis by (simp add: CCoins_ctor_def sample_coins_def)
qed

end
