(* ===== verification/View_Props.thy ===== *)
theory View_Props
  imports Coins_View Coins_Props
begin

text \<open>
  The contract of a view of the unspent outputs, as a locale: what its functions return is determined by a
  partial map from transaction identifiers to unspent coins, and a batch overlays that map.  A
  cache over a view that keeps the contract keeps it too, and so does the database.
\<close>

section \<open>The abstract set of unspent outputs\<close>

text \<open>
  Coins without an unspent output count as absent, and the coinstake flag, which is not stored, is not part
  of the abstract value.
\<close>

fun live :: "CCoins option \<Rightarrow> CCoins option" where
  "live None = None"
| "live (Some c) = (if IsPruned c then None else Some (c\<lparr>fCoinStake := False\<rparr>))"

declare live.simps(2) [simp del]

definition coins_wf :: "CCoins \<Rightarrow> bool" where
  "coins_wf c \<longleftrightarrow> coins_vout c = [] \<or> coins_ok c"

definition overlay :: "(uint256 \<rightharpoonup> CCoins) \<Rightarrow> CCoinsMap \<Rightarrow> (uint256 \<rightharpoonup> CCoins)" where
  "overlay u m t = (case m t of None \<Rightarrow> u t | Some e \<Rightarrow> live (Some (coins e)))"

text \<open>A cached entry is well formed, fresh only if the view below has nothing, and equal to it unless dirty.\<close>

definition entry_ok :: "CCoins option \<Rightarrow> CCoinsCacheEntry \<Rightarrow> bool" where
  "entry_ok below e \<longleftrightarrow> coins_wf (coins e) \<and> (flags e AND FRESH \<noteq> 0 \<longrightarrow> below = None) \<and>
     (flags e AND DIRTY = 0 \<longrightarrow> live (Some (coins e)) = below)"

definition map_ok :: "(uint256 \<rightharpoonup> CCoins) \<Rightarrow> CCoinsMap \<Rightarrow> bool" where
  "map_ok u m \<longleftrightarrow> finite (dom m) \<and> (\<forall>t e. m t = Some e \<longrightarrow> entry_ok (u t) e)"

lemma flag_simps [simp]:
  "((x :: u8) OR 1) AND 1 = 1" "(x OR 1) AND 2 = x AND 2" "(x OR 2) AND 1 = x AND 1" "(x OR 2) AND 2 = 2"
  by (simp_all add: bit.conj_disj_distrib2)

lemma wf_pruned: "coins_wf c \<Longrightarrow> IsPruned c \<longleftrightarrow> coins_vout c = []"
  using trimmed_pruned [of "coins_vout c"] by (auto simp: coins_wf_def coins_ok_def IsPruned_def)

lemma live_wf: "coins_wf c \<Longrightarrow> live (Some c) = None \<longleftrightarrow> coins_vout c = []"
  by (simp add: live.simps wf_pruned)

lemma live_pruned: "IsPruned c \<Longrightarrow> live (Some c) = None"
  by (simp add: live.simps)

lemma wf_fCoinStake: "coins_wf (c\<lparr>fCoinStake := b\<rparr>) \<longleftrightarrow> coins_wf c"
  by (simp add: coins_wf_def coins_ok_def)

lemma live_fCoinStake: "live (Some (c\<lparr>fCoinStake := b\<rparr>)) = live (Some c)"
  by (simp add: live.simps IsPruned_def)

lemma pruned_ctor [simp]: "IsPruned CCoins_ctor" "IsPruned (CCoins_Clear c)" "coins_wf CCoins_ctor" "coins_wf (CCoins_Clear c)"
  by (simp_all add: IsPruned_def CCoins_ctor_def CCoins_Clear_def coins_wf_def)

lemma map_okD: "map_ok u m \<Longrightarrow> m t = Some e \<Longrightarrow> entry_ok (u t) e"
  by (simp add: map_ok_def)

lemma map_ok_del: "map_ok u m \<Longrightarrow> map_ok u (m(t := None))"
  by (simp add: map_ok_def)

lemma map_ok_upd: "map_ok u (m(t := None)) \<Longrightarrow> entry_ok (u t) e \<Longrightarrow> map_ok u (m(t \<mapsto> e))"
  by (auto simp: map_ok_def split: if_splits)

lemma map_ok_empty [simp]: "map_ok u Map.empty"
  by (simp add: map_ok_def)

lemma overlay_upd: "overlay u (m(t \<mapsto> e)) = (overlay u m)(t := live (Some (coins e)))"
  by (rule ext) (simp add: overlay_def)

lemma overlay_del: "overlay u (m(t := None)) = (overlay u m)(t := u t)"
  by (rule ext) (simp add: overlay_def)

lemma overlay_empty [simp]: "overlay u Map.empty = u"
  by (rule ext) (simp add: overlay_def)

section \<open>The contract\<close>

locale coins_view =
  fixes V :: "'v CCoinsView" and utxo :: "'v \<Rightarrow> uint256 \<Rightarrow> CCoins option" and best :: "'v \<Rightarrow> uint256" and ok :: "'v \<Rightarrow> bool"
  assumes get_law: "ok b \<Longrightarrow> view_GetCoins V b t = (r, b') \<Longrightarrow>
      ok b' \<and> utxo b' = utxo b \<and> best b' = best b \<and> live r = utxo b t \<and> (\<forall>c. r = Some c \<longrightarrow> coins_wf c)"
    and have_law: "ok b \<Longrightarrow> view_HaveCoins V b t = (r', b') \<Longrightarrow>
      ok b' \<and> utxo b' = utxo b \<and> best b' = best b \<and> (r' \<longleftrightarrow> utxo b t \<noteq> None)"
    and best_law: "ok b \<Longrightarrow> view_GetBestBlock V b = (h, b') \<Longrightarrow>
      ok b' \<and> utxo b' = utxo b \<and> best b' = best b \<and> h = best b \<and> length h = 32"
    and batch_law: "ok b \<Longrightarrow> map_ok (utxo b) m \<Longrightarrow> distinct order \<Longrightarrow> set order = dom m \<Longrightarrow> length h = 32 \<Longrightarrow>
      \<exists>b'. view_BatchWrite V b order m h = Some (True, b') \<and> ok b' \<and> utxo b' = overlay (utxo b) m \<and>
        (h \<noteq> uint256_null \<longrightarrow> best b' = h)"
begin

definition cached_utxo :: "'v cached \<Rightarrow> uint256 \<Rightarrow> CCoins option" where
  "cached_utxo s = overlay (utxo (fst s)) (cacheCoins (snd s))"

definition cached_best :: "'v cached \<Rightarrow> uint256" where
  "cached_best s = (if hashBlock (snd s) = uint256_null then best (fst s) else hashBlock (snd s))"

definition cached_ok :: "'v cached \<Rightarrow> bool" where
  "cached_ok s \<longleftrightarrow> ok (fst s) \<and> map_ok (utxo (fst s)) (cacheCoins (snd s)) \<and> \<not> hasModifier (snd s) \<and> length (hashBlock (snd s)) = 32"

lemma fetch_law:
  assumes "cached_ok s" "FetchCoins V usage s t = (r, s')"
  shows "cached_ok s' \<and> cached_utxo s' = cached_utxo s \<and> cached_best s' = cached_best s \<and>
    live (map_option coins r) = cached_utxo s t \<and> (\<forall>e. r = Some e \<longrightarrow> coins_wf (coins e))"
proof -
  obtain b c where s: "s = (b, c)" by (cases s)
  show ?thesis
  proof (cases "cacheCoins c t")
    case (Some e)
    then have "r = Some e" "s' = s" using assms(2) by (simp_all add: s FetchCoins_def)
    then show ?thesis using assms(1) Some map_okD [of "utxo b" "cacheCoins c" t e]
      by (simp add: s cached_utxo_def overlay_def cached_ok_def entry_ok_def)
  next
    case None
    obtain g b' where g: "view_GetCoins V b t = (g, b')" by (cases "view_GetCoins V b t")
    have law: "ok b'" "utxo b' = utxo b" "best b' = best b" "live g = utxo b t" "\<forall>c. g = Some c \<longrightarrow> coins_wf c"
      using get_law [OF _ g] assms(1) by (simp_all add: s cached_ok_def)
    show ?thesis
    proof (cases g)
      case None
      then have "r = None" "s' = (b', c)" using assms(2) \<open>cacheCoins c t = None\<close> g by (simp_all add: s FetchCoins_def)
      then show ?thesis using assms(1) law None \<open>cacheCoins c t = None\<close>
        by (simp add: s cached_utxo_def cached_best_def cached_ok_def overlay_def)
    next
      case (Some tmp)
      let ?e = "\<lparr>coins = tmp, flags = (if IsPruned tmp then FRESH else 0)\<rparr>"
      have r: "r = Some ?e" and s': "s' = (b', c\<lparr>cacheCoins := (cacheCoins c)(t \<mapsto> ?e), cachedCoinsUsage := cachedCoinsUsage c + usage tmp\<rparr>)"
        using assms(2) \<open>cacheCoins c t = None\<close> g Some by (auto simp: s FetchCoins_def Let_def)
      have e: "entry_ok (utxo b t) ?e" using law(4,5) Some live_pruned [of tmp] by (auto simp: entry_ok_def)
      have "overlay (utxo b) ((cacheCoins c)(t \<mapsto> ?e)) = overlay (utxo b) (cacheCoins c)"
        using law(4) Some \<open>cacheCoins c t = None\<close> by (auto simp: overlay_upd overlay_def)
      then show ?thesis using assms(1) law Some e map_ok_upd [OF map_ok_del, of "utxo b" "cacheCoins c" t ?e] \<open>cacheCoins c t = None\<close>
        by (simp add: s r s' cached_utxo_def cached_best_def cached_ok_def) (simp add: overlay_def)
    qed
  qed
qed

lemma cached_get:
  assumes "cached_ok s" "GetCoins V usage s t = (r, s')"
  shows "cached_ok s' \<and> cached_utxo s' = cached_utxo s \<and> cached_best s' = cached_best s \<and>
    live r = cached_utxo s t \<and> (\<forall>c. r = Some c \<longrightarrow> coins_wf c)"
proof -
  obtain e s2 where f: "FetchCoins V usage s t = (e, s2)" by (cases "FetchCoins V usage s t")
  then have "r = map_option coins e" "s' = s2" using assms(2) by (auto simp: GetCoins_def split: option.splits)
  then show ?thesis using fetch_law [OF assms(1) f] by auto
qed

lemma access_get: "AccessCoins V usage s t = GetCoins V usage s t"
  by (simp add: AccessCoins_def GetCoins_def split: prod.split option.split)

lemma cached_have:
  assumes "cached_ok s" "HaveCoins V usage s t = (r, s')"
  shows "cached_ok s' \<and> cached_utxo s' = cached_utxo s \<and> cached_best s' = cached_best s \<and> (r \<longleftrightarrow> cached_utxo s t \<noteq> None)"
proof -
  obtain e s2 where f: "FetchCoins V usage s t = (e, s2)" by (cases "FetchCoins V usage s t")
  then have r: "s' = s2" "r \<longleftrightarrow> (case e of None \<Rightarrow> False | Some e \<Rightarrow> coins_vout (coins e) \<noteq> [])"
    using assms(2) by (auto simp: HaveCoins_def split: option.splits)
  note law = fetch_law [OF assms(1) f]
  have "r \<longleftrightarrow> live (map_option coins e) \<noteq> None"
  proof (cases e)
    case (Some x)
    then show ?thesis using law r(2) live_wf [of "coins x"] by simp
  qed (simp add: r(2))
  then show ?thesis using law r(1) by simp
qed

lemma cached_get_best:
  assumes "cached_ok s" "cache_GetBestBlock V s = (h, s')"
  shows "cached_ok s' \<and> cached_utxo s' = cached_utxo s \<and> cached_best s' = cached_best s \<and> h = cached_best s \<and> length h = 32"
proof -
  obtain b c where s: "s = (b, c)" by (cases s)
  obtain h' b' where g: "view_GetBestBlock V b = (h', b')" by (cases "view_GetBestBlock V b")
  show ?thesis
    using assms best_law [OF _ g]
    by (auto simp: s g cache_GetBestBlock_def cached_ok_def cached_utxo_def cached_best_def split: if_splits)
qed

text \<open>
  The scope of a modifier changes one transaction's coins: the body sees coins with the abstract value, and
  what it leaves there, trimmed, becomes the new value.
\<close>

lemma dtor_law:
  assumes "ok b" "map_ok (utxo b) (m(t := None))" "length (hashBlock c) = 32"
    and "flags e AND FRESH \<noteq> 0 \<longrightarrow> utxo b t = None" "flags e AND DIRTY \<noteq> 0" "coins_wf (Cleanup cs)"
  shows "\<exists>s'. CCoinsModifier_dtor usage t n
      (modifier_put (b, c\<lparr>hasModifier := True, cacheCoins := m(t \<mapsto> e)\<rparr>) t cs) = Some s' \<and>
    cached_ok s' \<and> cached_utxo s' = (overlay (utxo b) m)(t := live (Some (Cleanup cs))) \<and>
    fst s' = b \<and> hashBlock (snd s') = hashBlock c"
proof -
  let ?e = "e\<lparr>coins := Cleanup cs\<rparr>"
  have "entry_ok (utxo b t) ?e" using assms(4-6) by (simp add: entry_ok_def)
  then have upd: "map_ok (utxo b) (m(t \<mapsto> ?e))" by (rule map_ok_upd [OF assms(2)])
  show ?thesis
  proof (cases "flags e AND FRESH \<noteq> 0 \<and> IsPruned (Cleanup cs)")
    case True
    then show ?thesis using assms live_pruned [of "Cleanup cs"]
      by (simp add: CCoinsModifier_dtor_def modifier_put_def cached_ok_def cached_utxo_def overlay_del)
  next
    case False
    then show ?thesis using assms(1,3) upd
      by (auto simp: CCoinsModifier_dtor_def modifier_put_def cached_ok_def cached_utxo_def overlay_upd Let_def)
  qed
qed

lemma scope_law:
  assumes "ok b" "map_ok (utxo b) (m(t := None))" "length (hashBlock c) = 32"
    and "flags e AND FRESH \<noteq> 0 \<longrightarrow> utxo b t = None" "flags e AND DIRTY \<noteq> 0"
    and "body (coins e) = Some (r, cs)" "coins_wf (Cleanup cs)"
  shows "\<exists>s'. with_modifier usage t (Some (n, (b, c\<lparr>hasModifier := True, cacheCoins := m(t \<mapsto> e)\<rparr>))) body = Some (r, s') \<and>
    cached_ok s' \<and> cached_utxo s' = (overlay (utxo b) m)(t := live (Some (Cleanup cs))) \<and>
    fst s' = b \<and> hashBlock (snd s') = hashBlock c"
  using dtor_law [OF assms(1-5,7), of usage n] assms(6) by (auto simp: with_modifier_def modifier_get_def)

text \<open>The entry a modifier works on when the coins may exist already.\<close>

lemma ModifyCoins_entry:
  assumes "cached_ok (b, c)"
  obtains e n b' where
    "ModifyCoins V usage (b, c) t = Some (n, (b', c\<lparr>hasModifier := True, cacheCoins := (cacheCoins c)(t \<mapsto> e)\<rparr>))"
    "ok b'" "utxo b' = utxo b" "best b' = best b" "coins_wf (coins e)" "live (Some (coins e)) = cached_utxo (b, c) t"
    "flags e AND FRESH \<noteq> 0 \<longrightarrow> utxo b t = None" "flags e AND DIRTY \<noteq> 0"
proof -
  have ok: "ok b" "map_ok (utxo b) (cacheCoins c)" "\<not> hasModifier c" using assms by (simp_all add: cached_ok_def)
  show ?thesis
  proof (cases "cacheCoins c t")
    case (Some e)
    have "entry_ok (utxo b t) e" using map_okD [OF ok(2) Some] .
    then show ?thesis using that [of "usage (coins e)" b "e\<lparr>flags := flags e OR DIRTY\<rparr>"] Some ok
      by (simp add: ModifyCoins_def CCoinsModifier_ctor_def Let_def cached_utxo_def overlay_def entry_ok_def)
  next
    case None
    obtain g b' where g: "view_GetCoins V b t = (g, b')" by (cases "view_GetCoins V b t")
    note law = get_law [OF ok(1) g]
    define cs where "cs = (case g of None \<Rightarrow> CCoins_Clear CCoins_ctor | Some x \<Rightarrow> x)"
    define fl :: u8 where "fl = (case g of None \<Rightarrow> FRESH | Some x \<Rightarrow> if IsPruned x then FRESH else 0)"
    have l: "live (Some cs) = utxo b t" using law live_pruned [of "CCoins_Clear CCoins_ctor"] by (cases g) (auto simp: cs_def)
    have f: "fl AND FRESH \<noteq> 0 \<longrightarrow> utxo b t = None" using law live_pruned by (cases g) (auto simp: fl_def)
    have "ModifyCoins V usage (b, c) t =
        Some (0, (b', c\<lparr>hasModifier := True, cacheCoins := (cacheCoins c)(t \<mapsto> \<lparr>coins = cs, flags = fl OR DIRTY\<rparr>)\<rparr>))"
      using None g ok(3) by (cases g) (simp_all add: ModifyCoins_def CCoinsModifier_ctor_def Let_def cs_def fl_def)
    moreover have "coins_wf cs" using law by (cases g) (auto simp: cs_def)
    ultimately show ?thesis using that [of 0 b' "\<lparr>coins = cs, flags = fl OR DIRTY\<rparr>"] law l f None
      by (simp add: cached_utxo_def overlay_def)
  qed
qed

lemma modify_law:
  assumes "cached_ok s"
  shows "\<exists>cs0. coins_wf cs0 \<and> live (Some cs0) = cached_utxo s t \<and>
    (\<forall>body r cs. body cs0 = Some (r, cs) \<and> coins_wf (Cleanup cs) \<longrightarrow>
      (\<exists>s'. with_modifier usage t (ModifyCoins V usage s t) body = Some (r, s') \<and> cached_ok s' \<and>
        cached_utxo s' = (cached_utxo s)(t := live (Some (Cleanup cs))) \<and> cached_best s' = cached_best s \<and>
        utxo (fst s') = utxo (fst s)))"
proof -
  obtain b c where s: "s = (b, c)" by (cases s)
  have ok: "map_ok (utxo b) (cacheCoins c)" "length (hashBlock c) = 32" using assms by (simp_all add: s cached_ok_def)
  obtain e n b' where m: "ModifyCoins V usage (b, c) t = Some (n, (b', c\<lparr>hasModifier := True, cacheCoins := (cacheCoins c)(t \<mapsto> e)\<rparr>))"
    and e: "ok b'" "utxo b' = utxo b" "best b' = best b" "coins_wf (coins e)" "live (Some (coins e)) = cached_utxo (b, c) t"
      "flags e AND FRESH \<noteq> 0 \<longrightarrow> utxo b t = None" "flags e AND DIRTY \<noteq> 0"
    using ModifyCoins_entry [OF assms [unfolded s]] by metis
  have d: "map_ok (utxo b') ((cacheCoins c)(t := None))" using ok(1) e(2) map_ok_del by simp
  show ?thesis
  proof (intro exI [of _ "coins e"] conjI allI impI)
    fix body r cs assume body: "body (coins e) = Some (r, cs) \<and> coins_wf (Cleanup cs)"
    obtain s' where s': "with_modifier usage t (ModifyCoins V usage s t) body = Some (r, s')"
      "cached_ok s'" "cached_utxo s' = (overlay (utxo b) (cacheCoins c))(t := live (Some (Cleanup cs)))"
      "fst s' = b'" "hashBlock (snd s') = hashBlock c"
      using scope_law [OF e(1) d ok(2), of e body r cs usage n] e body m by (auto simp: s)
    then show "\<exists>s'. with_modifier usage t (ModifyCoins V usage s t) body = Some (r, s') \<and> cached_ok s' \<and>
        cached_utxo s' = (cached_utxo s)(t := live (Some (Cleanup cs))) \<and> cached_best s' = cached_best s \<and>
        utxo (fst s') = utxo (fst s)"
      using e(2,3) by (intro exI [of _ s']) (simp add: s cached_utxo_def cached_best_def)
  qed (use e s in auto)
qed

text \<open>New coins may be marked fresh because the view below never had the transaction.\<close>

lemma modify_new_law:
  assumes "cached_ok s" "coinbase \<or> utxo (fst s) t = None" "body CCoins_ctor = Some (r, cs)" "coins_wf (Cleanup cs)"
  shows "\<exists>s'. with_modifier usage t (ModifyNewCoins s t coinbase) body = Some (r, s') \<and> cached_ok s' \<and>
        cached_utxo s' = (cached_utxo s)(t := live (Some (Cleanup cs))) \<and> cached_best s' = cached_best s \<and>
        utxo (fst s') = utxo (fst s)"
proof -
  obtain b c where s: "s = (b, c)" by (cases s)
  have ok: "ok b" "map_ok (utxo b) (cacheCoins c)" "\<not> hasModifier c" "length (hashBlock c) = 32"
    using assms(1) by (simp_all add: s cached_ok_def)
  define fl :: u8 where "fl = (if coinbase then (case cacheCoins c t of None \<Rightarrow> 0 | Some e \<Rightarrow> flags e) else FRESH)"
  have cl: "CCoins_Clear x = CCoins_ctor" for x by (simp add: CCoins_Clear_def CCoins_ctor_def)
  have rec: "x\<lparr>coins := a, flags := f\<rparr> = \<lparr>coins = a, flags = f\<rparr>" for x :: CCoinsCacheEntry and a f by simp
  have m: "ModifyNewCoins s t coinbase =
      Some (0, (b, c\<lparr>hasModifier := True, cacheCoins := (cacheCoins c)(t \<mapsto> \<lparr>coins = CCoins_ctor, flags = fl OR DIRTY\<rparr>)\<rparr>))"
    using ok(3) by (simp add: s ModifyNewCoins_def CCoinsModifier_ctor_def CCoinsCacheEntry_ctor_def Let_def fl_def cl rec split: option.split)
  have f: "fl AND FRESH \<noteq> 0 \<longrightarrow> utxo b t = None"
    using assms(2) map_okD [OF ok(2), of t] by (auto simp: s fl_def entry_ok_def split: option.splits)
  obtain s' where "with_modifier usage t (ModifyNewCoins s t coinbase) body = Some (r, s')"
      "cached_ok s'" "cached_utxo s' = (overlay (utxo b) (cacheCoins c))(t := live (Some (Cleanup cs)))"
      "fst s' = b" "hashBlock (snd s') = hashBlock c"
    using scope_law [OF ok(1) map_ok_del [OF ok(2)] ok(4), of "\<lparr>coins = CCoins_ctor, flags = fl OR DIRTY\<rparr>" t body r cs usage 0]
      assms(3,4) f unfolding m by auto
  then show ?thesis by (intro exI [of _ s']) (simp add: s cached_utxo_def cached_best_def)
qed

section \<open>Batches\<close>

text \<open>One entry of a batch overlays the value of its transaction and touches no other.\<close>

lemma batch_entry_law:
  assumes "map_ok u (cacheCoins c)" "entry_ok (overlay u (cacheCoins c) t) it"
  shows "map_ok u (cacheCoins (batch_entry usage t it c)) \<and>
    overlay u (cacheCoins (batch_entry usage t it c)) = (overlay u (cacheCoins c))(t := live (Some (coins it))) \<and>
    hasModifier (batch_entry usage t it c) = hasModifier c"
proof (cases "flags it AND DIRTY = 0")
  case True
  then have "live (Some (coins it)) = overlay u (cacheCoins c) t" using assms(2) by (simp add: entry_ok_def)
  then show ?thesis using True assms(1) by (simp add: batch_entry_def)
next
  case False
  note it = assms(2) [unfolded entry_ok_def]
  show ?thesis
  proof (cases "cacheCoins c t")
    case None
    then have o: "overlay u (cacheCoins c) t = u t" by (simp add: overlay_def)
    show ?thesis
    proof (cases "flags it AND FRESH \<noteq> 0 \<and> IsPruned (coins it)")
      case True
      then have "overlay u (cacheCoins c) t = live (Some (coins it))" using it live_pruned by simp
      then show ?thesis using True False None assms(1) fun_upd_triv [of "overlay u (cacheCoins c)" t]
        by (simp add: batch_entry_def)
    next
      case f: False
      then show ?thesis using False None assms(1) it o
        by (auto simp: batch_entry_def Let_def overlay_upd entry_ok_def intro!: map_ok_upd [OF map_ok_del])
    qed
  next
    case (Some us)
    have "entry_ok (u t) us" by (rule map_okD [OF assms(1) Some])
    then show ?thesis using False Some assms(1) it live_pruned [of "coins it"]
      by (auto simp: batch_entry_def overlay_upd overlay_del entry_ok_def intro!: map_ok_upd [OF map_ok_del] map_ok_del)
  qed
qed

lemma batch_loop_law:
  assumes "map_ok u (cacheCoins c)" "distinct order" "\<And>t it. t \<in> set order \<Longrightarrow> m t = Some it \<Longrightarrow> entry_ok (overlay u (cacheCoins c) t) it"
  shows "map_ok u (cacheCoins (batch_loop usage m order c)) \<and>
    overlay u (cacheCoins (batch_loop usage m order c)) = overlay (overlay u (cacheCoins c)) (m |` set order) \<and>
    hasModifier (batch_loop usage m order c) = hasModifier c"
  using assms
proof (induction order arbitrary: c)
  case Nil
  then show ?case by simp
next
  case (Cons t order)
  define c' where "c' = (case m t of None \<Rightarrow> c | Some it \<Rightarrow> batch_entry usage t it c)"
  have c': "map_ok u (cacheCoins c') \<and> overlay u (cacheCoins c') = overlay (overlay u (cacheCoins c)) (m |` {t}) \<and> hasModifier c' = hasModifier c"
  proof (cases "m t")
    case (Some it)
    have "overlay v (m |` {t}) = v(t := live (Some (coins it)))" for v using Some by (auto simp: overlay_def restrict_map_def)
    then show ?thesis using batch_entry_law [of u c t it usage] Cons.prems Some by (simp add: c'_def)
  next
    case None
    have "overlay v (m |` {t}) = v" for v by (rule ext) (simp add: None overlay_def restrict_map_def)
    then show ?thesis using Cons.prems(1) None by (simp add: c'_def)
  qed
  have "entry_ok (overlay u (cacheCoins c') x) it" if "x \<in> set order" "m x = Some it" for x it
    using Cons.prems that c' by (auto simp: overlay_def restrict_map_def)
  then have "map_ok u (cacheCoins (batch_loop usage m order c')) \<and>
      overlay u (cacheCoins (batch_loop usage m order c')) = overlay (overlay u (cacheCoins c')) (m |` set order) \<and>
      hasModifier (batch_loop usage m order c') = hasModifier c'"
    using Cons.IH c' Cons.prems by simp
  moreover have "overlay (overlay v (m |` {t})) (m |` set order) = overlay v (m |` set (t # order))" for v
    using Cons.prems(2) by (auto simp: overlay_def restrict_map_def split: option.splits)
  ultimately show ?case using c' by (simp add: c'_def [symmetric])
qed

lemma cached_batch:
  assumes "cached_ok s" "map_ok (cached_utxo s) m" "distinct order" "set order = dom m" "length h = 32"
  shows "\<exists>s'. cache_BatchWrite usage s order m h = Some (True, s') \<and> cached_ok s' \<and>
    cached_utxo s' = overlay (cached_utxo s) m \<and> (h \<noteq> uint256_null \<longrightarrow> cached_best s' = h)"
proof -
  obtain b c where s: "s = (b, c)" by (cases s)
  have r: "m |` dom m = m" by (rule ext) (auto simp: restrict_map_def dom_def)
  have "map_ok (utxo b) (cacheCoins (batch_loop usage m order c)) \<and>
      overlay (utxo b) (cacheCoins (batch_loop usage m order c)) = overlay (overlay (utxo b) (cacheCoins c)) (m |` set order) \<and>
      hasModifier (batch_loop usage m order c) = hasModifier c"
    using assms by (intro batch_loop_law) (simp_all add: s cached_ok_def cached_utxo_def map_ok_def)
  then show ?thesis using assms r
    by (simp add: s cache_BatchWrite_def cached_ok_def cached_utxo_def cached_best_def)
qed

lemma flush_law:
  assumes "cached_ok s" "distinct order" "set order = dom (cacheCoins (snd s))"
  shows "\<exists>s'. Flush V order s = Some (True, s') \<and> cached_ok s' \<and> cached_utxo s' = cached_utxo s \<and>
    utxo (fst s') = cached_utxo s \<and> cacheCoins (snd s') = Map.empty \<and> hashBlock (snd s') = hashBlock (snd s) \<and>
    (hashBlock (snd s) \<noteq> uint256_null \<longrightarrow> best (fst s') = hashBlock (snd s))"
proof -
  obtain b c where s: "s = (b, c)" by (cases s)
  from batch_law [of b "cacheCoins c" order "hashBlock c"] assms
  obtain b' where "view_BatchWrite V b order (cacheCoins c) (hashBlock c) = Some (True, b')" "ok b'"
      "utxo b' = overlay (utxo b) (cacheCoins c)" "hashBlock c \<noteq> uint256_null \<longrightarrow> best b' = hashBlock c"
    by (auto simp: s cached_ok_def)
  then show ?thesis using assms by (simp add: s Flush_def cached_ok_def cached_utxo_def)
qed

lemma uncache_law:
  assumes "cached_ok s"
  shows "cached_ok (Uncache usage s t) \<and> cached_utxo (Uncache usage s t) = cached_utxo s"
proof -
  obtain b c where s: "s = (b, c)" by (cases s)
  have "map_ok (utxo b) (cacheCoins c)" using assms by (simp add: s cached_ok_def)
  then show ?thesis using assms map_okD [of "utxo b" "cacheCoins c" t]
    by (auto simp: s Uncache_def cached_ok_def cached_utxo_def overlay_del entry_ok_def overlay_def fun_upd_idem_iff
        intro: map_ok_del split: option.split)
qed

text \<open>A cache over a view that keeps the contract keeps it.\<close>

lemma cache_is_view: "coins_view (cache_view V usage) cached_utxo cached_best cached_ok"
  unfolding cache_view_def
  by (rule coins_view.intro; unfold CCoinsView.select_convs; rule cached_get cached_have cached_get_best cached_batch; assumption)

end

section \<open>The database keeps the contract\<close>

lemma Xor_loop_involution: "Xor_loop key j (Xor_loop key j d) = d"
  by (induction d arbitrary: j) (simp_all add: xor.assoc)

lemma Xor_involution [simp]: "CDataStream_Xor key (CDataStream_Xor key d) = d"
  by (simp add: CDataStream_Xor_def Xor_loop_involution)

definition db_coins :: "('pk, 'sig) secp256k1 \<Rightarrow> CDBWrapper \<Rightarrow> uint256 \<Rightarrow> CCoins option" where
  "db_coins ctx db t = CDBWrapper_Read db (DB_COINS t) (CCoins_Unserialize ctx CCoins_ctor)"

definition db_utxo :: "('pk, 'sig) secp256k1 \<Rightarrow> CDBWrapper \<Rightarrow> uint256 \<Rightarrow> CCoins option" where
  "db_utxo ctx db t = live (db_coins ctx db t)"

definition db_best :: "CDBWrapper \<Rightarrow> uint256" where
  "db_best db = fst (db_GetBestBlock db)"

text \<open>Every stored record of coins can be read and has an unspent output; the best block is a hash.\<close>

definition db_ok :: "('pk, 'sig) secp256k1 \<Rightarrow> CDBWrapper \<Rightarrow> bool" where
  "db_ok ctx db \<longleftrightarrow> point_compression ctx \<and>
     (\<forall>t. pdb db (DB_COINS t) \<noteq> None \<longrightarrow> (\<exists>c. db_coins ctx db t = Some c \<and> coins_ok c)) \<and>
     (\<forall>d. pdb db DB_BEST_BLOCK = Some d \<longrightarrow> length (CDataStream_Xor (obfuscate_key db) d) = 32)"

lemma DB_keys [simp]: "DB_COINS t = DB_COINS t' \<longleftrightarrow> t = t'" "DB_COINS t \<noteq> DB_BEST_BLOCK" "DB_BEST_BLOCK \<noteq> DB_COINS t"
  by (simp_all add: DB_COINS_def DB_BEST_BLOCK_def)

lemma coins_ok_live: "coins_ok c \<Longrightarrow> live (Some c) \<noteq> None"
  using live_wf [of c] by (simp add: coins_wf_def coins_ok_def)

lemma db_coins_None: "pdb db (DB_COINS t) = None \<Longrightarrow> db_coins ctx db t = None"
  by (simp add: db_coins_def CDBWrapper_Read_def)

definition db_record :: "('pk, 'sig) secp256k1 \<Rightarrow> bytes \<Rightarrow> CCoinsMap \<Rightarrow> (bytes \<rightharpoonup> bytes) \<Rightarrow> uint256 \<Rightarrow> bytes option" where
  "db_record ctx key m p t =
     (case m t of
        None \<Rightarrow> p (DB_COINS t)
      | Some it \<Rightarrow>
          if flags it AND DIRTY = 0 then p (DB_COINS t)
          else if IsPruned (coins it) then None
          else Some (CDataStream_Xor key (the (CCoins_Serialize ctx (coins it)))))"

lemma db_batch_loop_law:
  assumes "\<And>t it. m t = Some it \<Longrightarrow> flags it AND DIRTY \<noteq> 0 \<Longrightarrow> \<not> IsPruned (coins it) \<Longrightarrow> CCoins_Serialize ctx (coins it) \<noteq> None"
    and "distinct order"
  shows "\<exists>batch'. db_batch_loop ctx db m order batch = Some batch' \<and>
    fold apply_change batch' p DB_BEST_BLOCK = fold apply_change batch p DB_BEST_BLOCK \<and>
    (\<forall>t. fold apply_change batch' p (DB_COINS t) =
      (if t \<in> set order then db_record ctx (obfuscate_key db) m (fold apply_change batch p) t else fold apply_change batch p (DB_COINS t)))"
  using assms(2)
proof (induction order arbitrary: batch)
  case (Cons t order)
  define ch where "ch = (case m t of None \<Rightarrow> [] | Some it \<Rightarrow>
    if flags it AND DIRTY = 0 then [] else if IsPruned (coins it) then [db_Delete (DB_COINS t)]
    else [db_Put (DB_COINS t) (CDataStream_Xor (obfuscate_key db) (the (CCoins_Serialize ctx (coins it))))])"
  have step: "db_batch_loop ctx db m (t # order) batch = db_batch_loop ctx db m order (batch @ ch)"
    using assms(1) [of t] by (auto simp: ch_def CDBBatch_Erase_def CDBBatch_Write_def split: option.split)
  have ch: "fold apply_change ch q DB_BEST_BLOCK = q DB_BEST_BLOCK"
    "fold apply_change ch q (DB_COINS x) = (if x = t then db_record ctx (obfuscate_key db) m q t else q (DB_COINS x))" for q x
    by (auto simp: ch_def db_record_def split: option.split)
  have "db_record ctx (obfuscate_key db) m (fold apply_change ch q) x = db_record ctx (obfuscate_key db) m q x" if "x \<in> set order" for q x
    using that Cons.prems by (auto simp: db_record_def ch split: option.split)
  then show ?case using Cons.IH [of "batch @ ch"] Cons.prems unfolding step by (auto simp: ch)
qed simp

lemma db_best_length: "db_ok ctx db \<Longrightarrow> length (db_best db) = 32"
  by (auto simp: db_ok_def db_best_def db_GetBestBlock_def CDBWrapper_Read_def CDataStream_read_def uint256_null_def
      split: option.splits)

lemma stored_roundtrip:
  assumes "point_compression ctx" "coins_wf c" "\<not> IsPruned c"
  shows "\<exists>d. CCoins_Serialize ctx c = Some d \<and> CCoins_Unserialize ctx CCoins_ctor d = Some (c\<lparr>fCoinStake := False\<rparr>, [])"
proof -
  have "coins_ok c" using assms(2,3) wf_pruned [of c] by (auto simp: coins_wf_def)
  from coins_roundtrip [OF assms(1) this] obtain d where "CCoins_Serialize ctx c = Some d"
    "\<And>old r. CCoins_Unserialize ctx old (d @ r) = Some (c\<lparr>fCoinStake := fCoinStake old\<rparr>, r)" by blast
  then show ?thesis using append_Nil2 [of d] by (metis CCoins.select_convs(2) CCoins_ctor_def)
qed

lemma db_coins_batch:
  assumes "point_compression ctx" "map_ok u m" "pdb db' (DB_COINS t) = db_record ctx (obfuscate_key db) m (pdb db) t"
    and "obfuscate_key db' = obfuscate_key db"
  shows "db_coins ctx db' t =
    (case m t of
       None \<Rightarrow> db_coins ctx db t
     | Some it \<Rightarrow> if flags it AND DIRTY = 0 then db_coins ctx db t
         else if IsPruned (coins it) then None else Some ((coins it)\<lparr>fCoinStake := False\<rparr>))"
proof (cases "m t")
  case None
  then show ?thesis unfolding db_coins_def CDBWrapper_Read_def assms(3,4) by (simp add: db_record_def)
next
  case (Some it)
  have "coins_wf (coins it)" using map_okD [OF assms(2) Some] by (simp add: entry_ok_def)
  then show ?thesis using Some stored_roundtrip [OF assms(1), of "coins it"]
    unfolding db_coins_def CDBWrapper_Read_def assms(3,4) by (auto simp: db_record_def)
qed

lemma db_batch:
  assumes "db_ok ctx db" "map_ok (db_utxo ctx db) m" "distinct order" "set order = dom m" "length h = 32"
  shows "\<exists>db'. db_BatchWrite ctx db order m h = Some (True, db') \<and> db_ok ctx db' \<and>
    db_utxo ctx db' = overlay (db_utxo ctx db) m \<and> (h \<noteq> uint256_null \<longrightarrow> db_best db' = h)"
proof -
  have pc: "point_compression ctx" using assms(1) by (simp add: db_ok_def)
  have e: "coins_wf (coins it)" "flags it AND DIRTY = 0 \<longrightarrow> live (Some (coins it)) = db_utxo ctx db t" if "m t = Some it" for t it
    using map_okD [OF assms(2) that] by (simp_all add: entry_ok_def)
  have "CCoins_Serialize ctx (coins it) \<noteq> None" if "m t = Some it" "flags it AND DIRTY \<noteq> 0" "\<not> IsPruned (coins it)" for t it
    using stored_roundtrip [OF pc e(1) [OF that(1)] that(3)] by auto
  then have "\<exists>batch'. db_batch_loop ctx db m order [] = Some batch' \<and>
    fold apply_change batch' (pdb db) DB_BEST_BLOCK = fold apply_change [] (pdb db) DB_BEST_BLOCK \<and>
    (\<forall>t. fold apply_change batch' (pdb db) (DB_COINS t) = (if t \<in> set order
      then db_record ctx (obfuscate_key db) m (fold apply_change [] (pdb db)) t else fold apply_change [] (pdb db) (DB_COINS t)))"
    by (rule db_batch_loop_law [OF _ assms(3)])
  then obtain batch where
    b: "db_batch_loop ctx db m order [] = Some batch" "fold apply_change batch (pdb db) DB_BEST_BLOCK = pdb db DB_BEST_BLOCK"
      "\<And>t. fold apply_change batch (pdb db) (DB_COINS t) = (if t \<in> dom m then db_record ctx (obfuscate_key db) m (pdb db) t else pdb db (DB_COINS t))"
    using assms(4) by auto
  define q where "q = fold apply_change (if h \<noteq> uint256_null then CDBBatch_Write db batch DB_BEST_BLOCK h else batch) (pdb db)"
  define db' where "db' = db\<lparr>pdb := q\<rparr>"
  have w: "db_BatchWrite ctx db order m h = Some (True, db')"
    by (simp add: db_BatchWrite_def b(1) Let_def WriteBatch_def db'_def q_def)
  have qc: "pdb db' (DB_COINS t) = db_record ctx (obfuscate_key db) m (pdb db) t" for t
    by (auto simp: db'_def q_def CDBBatch_Write_def b(3) db_record_def split: option.split)
  have qb: "pdb db' DB_BEST_BLOCK = (if h \<noteq> uint256_null then Some (CDataStream_Xor (obfuscate_key db) h) else pdb db DB_BEST_BLOCK)"
    by (simp add: db'_def q_def CDBBatch_Write_def b(2))
  have k: "obfuscate_key db' = obfuscate_key db" by (simp add: db'_def)
  note c = db_coins_batch [OF pc assms(2) qc k]
  have "\<exists>x. db_coins ctx db' t = Some x \<and> coins_ok x" if "pdb db' (DB_COINS t) \<noteq> None" for t
    using that assms(1) e(1) [of t] wf_pruned unfolding c qc
    by (auto simp: db_record_def db_ok_def coins_wf_def coins_ok_def split: option.splits if_splits)
  then have "db_ok ctx db'" using pc assms(1,5) by (simp add: db_ok_def qb k)
  moreover have "db_utxo ctx db' = overlay (db_utxo ctx db) m"
    using e(2) live_pruned by (intro ext) (simp add: db_utxo_def overlay_def c live_fCoinStake split: option.split)
  moreover have "db_best db' = h" if "h \<noteq> uint256_null"
    using that assms(5) by (simp add: db_best_def db_GetBestBlock_def CDBWrapper_Read_def qb k CDataStream_read_def)
  ultimately show ?thesis using w by blast
qed

interpretation db: coins_view "db_view ctx" "db_utxo ctx" db_best "db_ok ctx"
  for ctx :: "('pk, 'sig) secp256k1"
proof (unfold_locales, unfold db_view_def CCoinsView.select_convs, goal_cases)
  case (1 b t r b')
  then have "r = db_coins ctx b t" "b' = b" by (auto simp: db_GetCoins_def db_coins_def)
  then show ?case using 1(1) db_coins_None [of b t ctx]
    by (cases "pdb b (DB_COINS t)") (auto simp: db_utxo_def db_ok_def coins_wf_def)
next
  case (2 b t r b')
  then show ?case
    using db_coins_None [of b t ctx] coins_ok_live
    by (auto simp: db_HaveCoins_def CDBWrapper_Exists_def db_utxo_def db_ok_def)
next
  case (3 b h b')
  then have "h = db_best b" "b' = b" by (auto simp: db_best_def db_GetBestBlock_def split: option.splits)
  then show ?case using 3(1) db_best_length by simp
next
  case (4 b m order h)
  then show ?case by (rule db_batch)
qed

section \<open>The two caches of a node\<close>

text \<open>The cache over the database, \<open>pcoinsTip\<close>; blocks are connected and disconnected in a cache over it.\<close>

definition tip_utxo :: "('pk, 'sig) secp256k1 \<Rightarrow> CDBWrapper cached \<Rightarrow> uint256 \<Rightarrow> CCoins option" where
  "tip_utxo ctx s = overlay (db_utxo ctx (fst s)) (cacheCoins (snd s))"

definition tip_best :: "CDBWrapper cached \<Rightarrow> uint256" where
  "tip_best s = (if hashBlock (snd s) = uint256_null then db_best (fst s) else hashBlock (snd s))"

definition tip_ok :: "('pk, 'sig) secp256k1 \<Rightarrow> CDBWrapper cached \<Rightarrow> bool" where
  "tip_ok ctx s \<longleftrightarrow> db_ok ctx (fst s) \<and> map_ok (db_utxo ctx (fst s)) (cacheCoins (snd s)) \<and> \<not> hasModifier (snd s) \<and>
     length (hashBlock (snd s)) = 32"

lemma tip_defs: "coins_view.cached_utxo (db_utxo ctx) = tip_utxo ctx" "coins_view.cached_best db_best = tip_best"
  "coins_view.cached_ok (db_utxo ctx) (db_ok ctx) = tip_ok ctx"
  by (rule ext, simp add: db.cached_utxo_def tip_utxo_def db.cached_best_def tip_best_def db.cached_ok_def tip_ok_def)+

interpretation tip: coins_view "cache_view (db_view ctx) usage" "tip_utxo ctx" tip_best "tip_ok ctx"
  for ctx :: "('pk, 'sig) secp256k1" and usage
  using db.cache_is_view [of ctx usage] by (simp only: tip_defs)

definition view_utxo :: "('pk, 'sig) secp256k1 \<Rightarrow> CDBWrapper cached cached \<Rightarrow> uint256 \<Rightarrow> CCoins option" where
  "view_utxo ctx s = overlay (tip_utxo ctx (fst s)) (cacheCoins (snd s))"

lemma view_defs: "coins_view.cached_utxo (tip_utxo ctx) = view_utxo ctx"
  by (rule ext, simp add: tip.cached_utxo_def view_utxo_def)

definition view_ok :: "('pk, 'sig) secp256k1 \<Rightarrow> CDBWrapper cached cached \<Rightarrow> bool" where
  "view_ok ctx = coins_view.cached_ok (tip_utxo ctx) (tip_ok ctx)"

definition view_best :: "CDBWrapper cached cached \<Rightarrow> uint256" where
  "view_best = coins_view.cached_best tip_best"

lemma fresh_view: "tip_ok ctx s \<Longrightarrow> view_ok ctx (s, CCoinsViewCache_ctor)" "view_utxo ctx (s, CCoinsViewCache_ctor) = tip_utxo ctx s"
  "view_best (s, CCoinsViewCache_ctor) = tip_best s"
  by (simp_all add: view_ok_def view_best_def tip.cached_ok_def view_utxo_def tip.cached_best_def CCoinsViewCache_ctor_def uint256_null_def)

end
