(* ===== verification/Undo_Props.thy ===== *)
theory Undo_Props
  imports Undo View_Props
begin

text \<open>
  Spending an output and applying its undo record restores the coins, so disconnecting a block undoes
  connecting it; and the undo records survive storage.
\<close>

section \<open>One output\<close>

lemma out_ok_null [simp]: "out_ok CTxOut_SetNull" "CTxOut_IsNull CTxOut_SetNull"
  by (simp_all add: out_ok_def CTxOut_IsNull_def CTxOut_SetNull_def)

lemma nulls_canonical: "list_all out_ok z \<Longrightarrow> list_all CTxOut_IsNull z \<Longrightarrow> z = replicate (length z) CTxOut_SetNull"
  using null_ok by (induction z) auto

lemma list_all_update: "list_all P xs \<Longrightarrow> P x \<Longrightarrow> list_all P (xs[n := x])"
  by (auto simp: list_all_iff dest!: subsetD [OF set_update_subset_insert])

text \<open>Setting one output of a trimmed vector to null, trimming, growing the vector and putting it back.\<close>

lemma resize_restore:
  assumes "v \<noteq> []" "\<not> CTxOut_IsNull (last v)" "list_all out_ok v" "n < length v"
  defines "w \<equiv> pop_nulls (v[n := CTxOut_SetNull])"
  shows "(if length w < n + 1 then resize_vout w (n + 1) else w)[n := v ! n] = v"
proof -
  obtain z where z: "v[n := CTxOut_SetNull] = w @ z" "list_all CTxOut_IsNull z"
    using pop_nulls_prefix [of "v[n := CTxOut_SetNull]"] by (auto simp: w_def)
  have "list_all out_ok (w @ z)" using assms(3) by (simp only: z(1) [symmetric]) (simp add: list_all_update)
  then have zr: "z = replicate (length z) CTxOut_SetNull" using nulls_canonical z(2) by simp
  have len: "length v = length w + length z" using arg_cong [OF z(1), of length] by simp
  have v: "v = (w @ z)[n := v ! n]" using z(1) [symmetric] assms(4) by simp
  show ?thesis
  proof (cases "z = []")
    case True
    then show ?thesis using v len assms(4) by simp
  next
    case False
    then have "CTxOut_IsNull (last (v[n := CTxOut_SetNull]))" using z by (simp add: list_all_iff)
    then have n: "n = length v - 1" using assms(1,2) by (cases "n = length v - 1") (auto simp: last_list_update)
    then have "length w < n + 1" "n + 1 - length w = length z" using len False by (auto simp: neq_Nil_conv)
    then have "resize_vout w (n + 1) = w @ z" using zr by (simp add: resize_vout_def)
    then show ?thesis using v \<open>length w < n + 1\<close> by simp
  qed
qed

lemma spend_body_eq:
  "spend_body n cs = (if \<not> IsAvailable cs n then None
    else let cs' = cs\<lparr>coins_vout := pop_nulls ((coins_vout cs)[n := CTxOut_SetNull])\<rparr>
         in Some (if coins_vout cs' = [] then \<lparr>undo_txout = coins_vout cs ! n, undo_fCoinBase = fCoinBase cs,
             undo_nHeight = word_of_int (coins_nHeight cs), undo_nVersion = coins_nVersion cs\<rparr>
           else CTxInUndo_ctor (coins_vout cs ! n), cs'))"
  by (auto simp: spend_body_def IsAvailable_def Spend_def Cleanup_def CTxInUndo_ctor_def Let_def not_le)

lemma Cleanup_trimmed: "coins_wf (Cleanup c) \<Longrightarrow> Cleanup (Cleanup c) = Cleanup c"
  by (simp add: Cleanup_def pop_nulls_keep pop_nulls_trimmed)

lemma Cleanup_wf: "coins_wf c \<Longrightarrow> Cleanup c = c"
  using pop_nulls_keep [of "coins_vout c"] by (auto simp: Cleanup_def coins_wf_def coins_ok_def)

lemma coins_wf_Cleanup:
  assumes "list_all out_ok (coins_vout c)" "length (coins_vout c) < 2 ^ 28" "0 \<le> coins_nHeight c" "coins_nHeight c < 2 ^ 31"
    "0 \<le> coins_nVersion c" "coins_nVersion c < 2 ^ 31"
  shows "coins_wf (Cleanup c)"
proof -
  obtain z where z: "coins_vout c = pop_nulls (coins_vout c) @ z" using pop_nulls_prefix by blast
  have "list_all out_ok (pop_nulls (coins_vout c) @ z)" "length (pop_nulls (coins_vout c) @ z) < 2 ^ 28"
    using assms(1,2) by (simp_all only: z [symmetric])
  then show ?thesis using assms pop_nulls_trimmed [of "coins_vout c"] by (auto simp: coins_wf_def coins_ok_def Cleanup_def)
qed

lemma spend_body_wf:
  assumes "coins_wf cs" "spend_body n cs = Some (undo, cs')"
  shows "coins_wf cs' \<and> coins_ok cs \<and> IsAvailable cs n"
proof -
  have a: "IsAvailable cs n" using assms(2) by (auto simp: spend_body_eq split: if_splits)
  then have ok: "coins_ok cs" using assms(1) by (auto simp: coins_wf_def IsAvailable_def)
  have "list_all out_ok ((coins_vout cs)[n := CTxOut_SetNull])"
    using ok by (simp add: coins_ok_def list_all_update)
  then have "coins_wf (Cleanup (cs\<lparr>coins_vout := (coins_vout cs)[n := CTxOut_SetNull]\<rparr>))"
    using ok by (intro coins_wf_Cleanup) (simp_all add: coins_ok_def)
  moreover have "cs' = Cleanup (cs\<lparr>coins_vout := (coins_vout cs)[n := CTxOut_SetNull]\<rparr>)"
    using assms(2) a by (auto simp: spend_body_eq Cleanup_def Let_def)
  ultimately show ?thesis using a ok by simp
qed

lemma spend_body_stake:
  "spend_body n (cs\<lparr>fCoinStake := b\<rparr>) = map_option (\<lambda>(u, c). (u, c\<lparr>fCoinStake := b\<rparr>)) (spend_body n cs)"
  by (simp add: spend_body_eq IsAvailable_def Let_def CTxInUndo_ctor_def)

text \<open>The undo record of a spent output applied to what spending left.\<close>

lemma undo_spent:
  assumes "coins_ok c" "spend_body (unat n) c = Some (undo, c')" "coins_nHeight c \<noteq> 0"
    and "coins_wf cs0" "live (Some cs0) = live (Some c')"
  shows "\<exists>r. undo_body undo n cs0 = Some (True, r) \<and> r\<lparr>fCoinStake := False\<rparr> = c\<lparr>fCoinStake := False\<rparr>"
proof -
  define v k where "v = coins_vout c" and "k = unat n"
  define w where "w = pop_nulls (v[k := CTxOut_SetNull])"
  note ok = assms(1) [unfolded coins_ok_def v_def [symmetric]]
  have c': "c' = c\<lparr>coins_vout := w\<rparr>" and k: "k < length v" and u: "undo_txout undo = v ! k"
    using assms(2) by (auto simp: spend_body_eq Let_def v_def k_def w_def IsAvailable_def CTxInUndo_ctor_def split: if_splits)
  have wf: "coins_wf c'" using spend_body_wf [OF _ assms(2)] assms(1) by (simp add: coins_wf_def)
  have n1: "unat (n + 1) = k + 1" using k ok by (simp add: k_def unat_word_ariths)
  have restore: "(if length w < k + 1 then resize_vout w (k + 1) else w)[k := v ! k] = v"
    unfolding w_def using ok k by (intro resize_restore) simp_all
  have lr: "k < length (if length w < k + 1 then resize_vout w (k + 1) else w)" by (simp add: resize_vout_def)
  show ?thesis
  proof (cases "w = []")
    case True
    have h: "undo_nHeight undo = word_of_int (coins_nHeight c)" "undo_fCoinBase undo = fCoinBase c" "undo_nVersion undo = coins_nVersion c"
      using assms(2) True by (auto simp: spend_body_eq Let_def v_def k_def w_def split: if_splits)
    have s: "sint (word_of_int (coins_nHeight c) :: u32) = coins_nHeight c" using ok by (simp add: sint_word32)
    then have "undo_nHeight undo \<noteq> 0" using assms(3) h(1) by (metis signed_0)
    moreover have "IsPruned cs0"
      using assms(4,5) live_wf [OF wf] live_wf [OF assms(4)] wf_pruned [OF assms(4)] True c' by simp
    ultimately show ?thesis using restore lr True n1
      by (simp add: undo_body_def Let_def k_def [symmetric] CCoins_Clear_def IsAvailable_def h s u) (simp add: v_def)
  next
    case False
    have h: "undo_nHeight undo = 0"
      using assms(2) False by (auto simp: spend_body_eq Let_def v_def k_def w_def CTxInUndo_ctor_def split: if_splits)
    have "\<not> IsPruned c'" using wf_pruned [OF wf] False c' by simp
    then have cs0: "\<not> IsPruned cs0" "cs0\<lparr>fCoinStake := False\<rparr> = c'\<lparr>fCoinStake := False\<rparr>"
      using assms(5) by (auto simp: live.simps split: if_splits)
    have "coins_vout (cs0\<lparr>fCoinStake := False\<rparr>) = w" unfolding cs0(2) by (simp add: c')
    then have vw: "coins_vout cs0 = w" by simp
    obtain z where z: "v[k := CTxOut_SetNull] = w @ z" using pop_nulls_prefix w_def by blast
    have "\<not> IsAvailable cs0 k"
      using arg_cong [OF z, of "\<lambda>x. x ! k"] k by (auto simp: IsAvailable_def vw nth_append)
    then have "undo_body undo n cs0 = Some (True, cs0\<lparr>coins_vout := v\<rparr>)"
      using restore lr cs0(1) n1
      by (cases "length w < k + 1") (simp_all add: undo_body_def Let_def k_def [symmetric] h u vw)
    moreover have "(cs0\<lparr>coins_vout := v\<rparr>)\<lparr>fCoinStake := False\<rparr> = (cs0\<lparr>fCoinStake := False\<rparr>)\<lparr>coins_vout := v\<rparr>" by simp
    moreover have "(cs0\<lparr>fCoinStake := False\<rparr>)\<lparr>coins_vout := v\<rparr> = c\<lparr>fCoinStake := False\<rparr>"
      unfolding cs0(2) by (simp add: c' v_def)
    ultimately show ?thesis by metis
  qed
qed

section \<open>The abstract machine\<close>

text \<open>Spending and creating coins in the abstract set; \<open>None\<close> when an input is not available.\<close>

definition spec_spend :: "COutPoint \<Rightarrow> (uint256 \<rightharpoonup> CCoins) \<Rightarrow> (CTxInUndo \<times> (uint256 \<rightharpoonup> CCoins)) option" where
  "spec_spend out u =
     (case u (COutPoint.op_hash out) of
        None \<Rightarrow> None
      | Some c \<Rightarrow>
          (case spend_body (unat (op_n out)) c of
             None \<Rightarrow> None
           | Some (undo, c') \<Rightarrow> Some (undo, u(COutPoint.op_hash out := live (Some c')))))"

fun spec_spends :: "CTxIn list \<Rightarrow> (uint256 \<rightharpoonup> CCoins) \<Rightarrow> (CTxUndo \<times> (uint256 \<rightharpoonup> CCoins)) option" where
  "spec_spends [] u = Some ([], u)"
| "spec_spends (txin # ins) u =
     (case spec_spend (prevout txin) u of
        None \<Rightarrow> None
      | Some (undo, u) \<Rightarrow> (case spec_spends ins u of None \<Rightarrow> None | Some (undos, u) \<Rightarrow> Some (undo # undos, u)))"

text \<open>A transaction whose outputs can be stored.\<close>

definition tx_storable :: "CTransaction \<Rightarrow> int \<Rightarrow> bool" where
  "tx_storable tx nHeight \<longleftrightarrow> list_all (\<lambda>out. 0 \<le> nValue out \<and> nValue out \<le> 2 ^ 60) (vout tx) \<and> length (vout tx) < 2 ^ 28 \<and>
     0 \<le> nVersion tx \<and> nVersion tx < 2 ^ 31 \<and> 0 < nHeight \<and> nHeight < 2 ^ 31"

definition spec_tx :: "CTransaction \<Rightarrow> int \<Rightarrow> (uint256 \<rightharpoonup> CCoins) \<Rightarrow> (CTxUndo \<times> (uint256 \<rightharpoonup> CCoins)) option" where
  "spec_tx tx nHeight u =
     (case (if IsCoinBase tx then Some ([], u) else spec_spends (vin tx) u) of
        None \<Rightarrow> None
      | Some (undo, u') \<Rightarrow>
          (case GetHash tx of
             None \<Rightarrow> None
           | Some hash \<Rightarrow>
               if u hash = None \<and> tx_storable tx nHeight
               then Some (undo, u'(hash := live (Some (FromTx CCoins_ctor tx nHeight)))) else None))"

text \<open>Coins of an abstract set are well formed, and their height is not 0, as only the genesis block has it.\<close>

definition utxo_ok :: "(uint256 \<rightharpoonup> CCoins) \<Rightarrow> bool" where
  "utxo_ok u \<longleftrightarrow> (\<forall>t c. u t = Some c \<longrightarrow> coins_ok c \<and> coins_nHeight c \<noteq> 0 \<and> \<not> fCoinStake c)"

lemma live_Some: "live r = Some c \<Longrightarrow> \<exists>c0. r = Some c0 \<and> \<not> IsPruned c0 \<and> c = c0\<lparr>fCoinStake := False\<rparr>"
  by (cases r) (auto simp: live.simps split: if_splits)

lemma spec_spend_ok:
  assumes "utxo_ok u" "spec_spend out u = Some (undo, u')"
  shows "utxo_ok u' \<and> (\<forall>t. u t = None \<longrightarrow> u' t = None)"
proof -
  obtain c c' where c: "u (COutPoint.op_hash out) = Some c" "spend_body (unat (op_n out)) c = Some (undo, c')"
    "u' = u(COutPoint.op_hash out := live (Some c'))"
    using assms(2) by (auto simp: spec_spend_def split: option.splits)
  have ok: "coins_ok c" "coins_nHeight c \<noteq> 0" "\<not> fCoinStake c" using assms(1) c(1) by (auto simp: utxo_ok_def)
  have "coins_wf c'" using spend_body_wf [OF _ c(2)] ok by (simp add: coins_wf_def)
  moreover have "coins_nHeight c' = coins_nHeight c" using c(2) by (auto simp: spend_body_eq Let_def split: if_splits)
  ultimately have "coins_ok x \<and> coins_nHeight x \<noteq> 0 \<and> \<not> fCoinStake x" if "live (Some c') = Some x" for x
    using live_Some [OF that] ok wf_pruned [of c'] by (auto simp: coins_wf_def coins_ok_def)
  then show ?thesis using assms(1) c by (auto simp: utxo_ok_def)
qed

lemma spec_spends_ok:
  "utxo_ok u \<Longrightarrow> spec_spends ins u = Some (undos, u') \<Longrightarrow>
    utxo_ok u' \<and> (\<forall>t. u t = None \<longrightarrow> u' t = None) \<and> length undos = length ins"
proof (induction ins arbitrary: u undos)
  case (Cons txin ins)
  then obtain undo u1 undos' where s: "spec_spend (prevout txin) u = Some (undo, u1)" "spec_spends ins u1 = Some (undos', u')"
    "undos = undo # undos'" by (auto split: option.splits)
  then show ?case using Cons.IH [OF _ s(2)] spec_spend_ok [OF Cons.prems(1) s(1)] by auto
qed simp

lemma pop_nulls_set: "set (pop_nulls v) \<subseteq> set v"
proof -
  obtain z where "v = pop_nulls v @ z" using pop_nulls_prefix by blast
  then have "set v = set (pop_nulls v) \<union> set z" by (metis set_append)
  then show ?thesis by blast
qed

lemma FromTx_ok:
  assumes "tx_storable tx nHeight"
  shows "coins_wf (FromTx cs tx nHeight)" "ClearUnspendable (FromTx cs tx nHeight) = FromTx cs tx nHeight"
proof -
  let ?f = "\<lambda>out. if IsUnspendable (scriptPubKey out) then CTxOut_SetNull else out"
  have "list_all out_ok (map ?f (vout tx))"
    using assms by (auto simp: tx_storable_def list_all_iff out_ok_def IsUnspendable_def)
  then show wf: "coins_wf (FromTx cs tx nHeight)"
    unfolding FromTx_def ClearUnspendable_def using assms by (intro coins_wf_Cleanup) (simp_all add: tx_storable_def)
  have v: "coins_vout (FromTx cs tx nHeight) = pop_nulls (map ?f (vout tx))"
    by (simp add: FromTx_def ClearUnspendable_def Cleanup_def)
  have "set (coins_vout (FromTx cs tx nHeight)) \<subseteq> ?f ` set (vout tx)"
    unfolding v using pop_nulls_set [of "map ?f (vout tx)"] by simp
  then have "map ?f (coins_vout (FromTx cs tx nHeight)) = coins_vout (FromTx cs tx nHeight)"
    by (intro map_idI) (auto simp: CTxOut_SetNull_def IsUnspendable_def split: if_splits)
  then have "ClearUnspendable (FromTx cs tx nHeight) = Cleanup (FromTx cs tx nHeight)" by (simp only: ClearUnspendable_def) simp
  then show "ClearUnspendable (FromTx cs tx nHeight) = FromTx cs tx nHeight" using Cleanup_wf [OF wf] by simp
qed

lemma spec_tx_ok:
  assumes "utxo_ok u" "spec_tx tx nHeight u = Some (undo, u')"
  shows "utxo_ok u'"
proof -
  obtain u1 hash where t: "(if IsCoinBase tx then Some ([], u) else spec_spends (vin tx) u) = Some (undo, u1)"
    "tx_storable tx nHeight" "u' = u1(hash := live (Some (FromTx CCoins_ctor tx nHeight)))"
    using assms(2) by (auto simp: spec_tx_def split: if_splits option.splits)
  have "utxo_ok u1" using t(1) assms(1) spec_spends_ok [OF assms(1), of "vin tx"] by (auto split: if_splits)
  have "coins_nHeight (FromTx CCoins_ctor tx nHeight) = nHeight" by (simp add: FromTx_def ClearUnspendable_def Cleanup_def)
  then have "coins_ok x \<and> coins_nHeight x \<noteq> 0 \<and> \<not> fCoinStake x" if "live (Some (FromTx CCoins_ctor tx nHeight)) = Some x" for x
    using live_Some [OF that] FromTx_ok(1) [OF t(2), of CCoins_ctor] wf_pruned t(2)
    by (auto simp: coins_wf_def coins_ok_def tx_storable_def)
  then show ?thesis using t(3) \<open>utxo_ok u1\<close> by (auto simp: utxo_ok_def)
qed

text \<open>A block: every transaction is new, to the set at that point and to the set \<open>u0\<close> below the cache.\<close>

fun spec_block :: "(uint256 \<rightharpoonup> CCoins) \<Rightarrow> int \<Rightarrow> CTransaction list \<Rightarrow> (uint256 \<rightharpoonup> CCoins) \<Rightarrow> (CTxUndo list \<times> (uint256 \<rightharpoonup> CCoins)) option" where
  "spec_block u0 nHeight [] u = Some ([], u)"
| "spec_block u0 nHeight (tx # txs) u =
     (case spec_tx tx nHeight u of
        None \<Rightarrow> None
      | Some (undo, u) \<Rightarrow>
          if (case GetHash tx of None \<Rightarrow> True | Some hash \<Rightarrow> u0 hash \<noteq> None) then None
          else (case spec_block u0 nHeight txs u of None \<Rightarrow> None | Some (undos, u) \<Rightarrow> Some (undo # undos, u)))"

lemma spec_block_length: "spec_block u0 nHeight txs u = Some (undos, u') \<Longrightarrow> length undos = length txs"
  by (induction txs arbitrary: u undos) (auto split: option.splits if_splits)

section \<open>Refinement\<close>

lemma restore_inputs_append:
  "restore_inputs V usage (xs @ ys) cl s =
    (case restore_inputs V usage xs cl s of None \<Rightarrow> None | Some (cl, s) \<Rightarrow> restore_inputs V usage ys cl s)"
  by (induction V usage xs cl s rule: restore_inputs.induct) (auto split: option.split)

lemma disconnect_loop_append:
  "disconnect_loop V usage h (xs @ ys) cl s =
    (case disconnect_loop V usage h xs cl s of None \<Rightarrow> None | Some (ok, cl, s) \<Rightarrow>
      if ok then disconnect_loop V usage h ys cl s else Some (ok, cl, s))"
  by (induction V usage h xs cl s rule: disconnect_loop.induct) (auto split: option.split)

text \<open>The check of the outputs of a transaction that is being disconnected succeeds, and removes them.\<close>

lemma ClearUnspendable_stake: "ClearUnspendable (c\<lparr>fCoinStake := b\<rparr>) = (ClearUnspendable c)\<lparr>fCoinStake := b\<rparr>"
  by (simp add: ClearUnspendable_def Cleanup_def)

lemma outs_body_same:
  assumes "tx_storable tx nHeight" "coins_wf cs" "live (Some cs) = live (Some (FromTx CCoins_ctor tx nHeight))"
  shows "outs_body tx nHeight cs = Some (True, CCoins_Clear (ClearUnspendable cs))"
proof -
  let ?F = "FromTx CCoins_ctor tx nHeight"
  note F = FromTx_ok [OF assms(1), of CCoins_ctor]
  have ver: "\<not> coins_nVersion ?F < 0" using assms(1) by (simp add: FromTx_def ClearUnspendable_def Cleanup_def tx_storable_def)
  have "CCoins_eq (ClearUnspendable cs) ?F"
  proof (cases "coins_vout ?F = []")
    case True
    then have "coins_vout cs = []" using assms(3) live_wf [OF F(1)] live_wf [OF assms(2)] by simp
    then have "IsPruned (ClearUnspendable cs)" by (simp add: ClearUnspendable_def Cleanup_def IsPruned_def pop_nulls_keep)
    then show ?thesis using True by (simp add: CCoins_eq_def IsPruned_def)
  next
    case False
    then have "\<not> IsPruned ?F" using wf_pruned [OF F(1)] by simp
    then have "cs\<lparr>fCoinStake := False\<rparr> = ?F\<lparr>fCoinStake := False\<rparr>" using assms(3) by (auto simp: live.simps split: if_splits)
    then have "cs\<lparr>fCoinStake := fCoinStake ?F\<rparr> = ?F" by (metis CCoins.surjective CCoins.update_convs(2))
    then have "ClearUnspendable (cs\<lparr>fCoinStake := fCoinStake ?F\<rparr>) = ?F" using F(2) by simp
    then have "(ClearUnspendable cs)\<lparr>fCoinStake := fCoinStake ?F\<rparr> = ?F" by (simp only: ClearUnspendable_stake)
    then show ?thesis unfolding CCoins_eq_def by (metis CCoins.ext_inject CCoins.surjective CCoins.update_convs(2))
  qed
  then show ?thesis using ver by (simp add: outs_body_def Let_def)
qed

context coins_view
begin

lemma spend_refines:
  assumes "cached_ok s" "spec_spend out (cached_utxo s) = Some (undo, u')"
  shows "\<exists>s'. with_modifier usage (COutPoint.op_hash out) (ModifyCoins V usage s (COutPoint.op_hash out)) (spend_body (unat (op_n out))) =
      Some (undo, s') \<and> cached_ok s' \<and> cached_utxo s' = u' \<and> cached_best s' = cached_best s \<and> utxo (fst s') = utxo (fst s)"
proof -
  let ?h = "COutPoint.op_hash out" and ?n = "unat (op_n out)"
  obtain c c' where c: "cached_utxo s ?h = Some c" "spend_body ?n c = Some (undo, c')" "u' = (cached_utxo s)(?h := live (Some c'))"
    using assms(2) by (auto simp: spec_spend_def split: option.splits)
  obtain cs0 where cs0: "coins_wf cs0" "live (Some cs0) = Some c"
    and m: "\<And>body (r :: CTxInUndo) cs. body cs0 = Some (r, cs) \<Longrightarrow> coins_wf (Cleanup cs) \<Longrightarrow>
      (\<exists>s'. with_modifier usage ?h (ModifyCoins V usage s ?h) body = Some (r, s') \<and> cached_ok s' \<and>
        cached_utxo s' = (cached_utxo s)(?h := live (Some (Cleanup cs))) \<and> cached_best s' = cached_best s \<and> utxo (fst s') = utxo (fst s))"
    using modify_law [OF assms(1), of ?h usage] c(1) by metis
  have "c = cs0\<lparr>fCoinStake := False\<rparr>" using live_Some [OF cs0(2)] by auto
  with c(2) spend_body_stake [of ?n False cs0] obtain c1 where c1: "spend_body ?n cs0 = Some (undo, c1)" "c' = c1\<lparr>fCoinStake := False\<rparr>"
    by auto
  have "coins_wf c1" using spend_body_wf [OF cs0(1) c1(1)] by simp
  then show ?thesis using m [of "spend_body ?n" undo c1] c(3) c1 by (simp add: Cleanup_wf live_fCoinStake)
qed

lemma spends_refine:
  "cached_ok s \<Longrightarrow> spec_spends ins (cached_utxo s) = Some (undos, u') \<Longrightarrow>
    \<exists>s'. spend_inputs V usage ins acc s = Some (acc @ undos, s') \<and> cached_ok s' \<and> cached_utxo s' = u' \<and>
      cached_best s' = cached_best s \<and> utxo (fst s') = utxo (fst s)"
proof (induction ins arbitrary: s acc undos)
  case (Cons txin ins)
  then obtain undo u1 undos' where s: "spec_spend (prevout txin) (cached_utxo s) = Some (undo, u1)" "spec_spends ins u1 = Some (undos', u')"
    "undos = undo # undos'" by (auto split: option.splits)
  obtain s1 where s1: "with_modifier usage (COutPoint.op_hash (prevout txin)) (ModifyCoins V usage s (COutPoint.op_hash (prevout txin)))
      (spend_body (unat (op_n (prevout txin)))) = Some (undo, s1)"
    "cached_ok s1" "cached_utxo s1 = u1" "cached_best s1 = cached_best s" "utxo (fst s1) = utxo (fst s)"
    using spend_refines [OF Cons.prems(1) s(1), of usage] by auto
  then show ?case using Cons.IH [of s1 undos' "acc @ [undo]"] s by simp
qed simp

lemma update_law:
  assumes "cached_ok s" "(if IsCoinBase tx then Some ([], cached_utxo s) else spec_spends (vin tx) (cached_utxo s)) = Some (undo, u1)"
    and "GetHash tx = Some h" "tx_storable tx nHeight" "utxo (fst s) h = None"
  shows "\<exists>s'. UpdateCoins V usage tx nHeight s = Some (undo, s') \<and> cached_ok s' \<and>
    cached_utxo s' = u1(h := live (Some (FromTx CCoins_ctor tx nHeight))) \<and> cached_best s' = cached_best s \<and> utxo (fst s') = utxo (fst s)"
proof -
  obtain s1 where s1: "(if \<not> IsCoinBase tx then spend_inputs V usage (vin tx) [] s else Some ([], s)) = Some (undo, s1)"
    "cached_ok s1" "cached_utxo s1 = u1" "cached_best s1 = cached_best s" "utxo (fst s1) = utxo (fst s)"
    using assms(1,2) spends_refine [of s "vin tx" undo u1 usage "[]"] by (auto split: if_splits)
  note wf = FromTx_ok(1) [OF assms(4), of CCoins_ctor]
  obtain s' where "with_modifier usage h (ModifyNewCoins s1 h (IsCoinBase tx)) (\<lambda>cs. Some ((), FromTx cs tx nHeight)) = Some ((), s')"
    "cached_ok s'" "cached_utxo s' = u1(h := live (Some (Cleanup (FromTx CCoins_ctor tx nHeight))))" "cached_best s' = cached_best s"
    "utxo (fst s') = utxo (fst s)"
    using modify_new_law [OF s1(2), of "IsCoinBase tx" h "\<lambda>cs. Some ((), FromTx cs tx nHeight)" "()" "FromTx CCoins_ctor tx nHeight" usage]
      assms(5) s1 wf by (auto simp: Cleanup_wf)
  then show ?thesis using s1(1) assms(3) Cleanup_wf [OF wf] by (simp add: UpdateCoins_def)
qed

lemma update_refines:
  assumes "cached_ok s" "spec_tx tx nHeight (cached_utxo s) = Some (undo, u')" "\<And>h. GetHash tx = Some h \<Longrightarrow> utxo (fst s) h = None"
  shows "\<exists>s'. UpdateCoins V usage tx nHeight s = Some (undo, s') \<and> cached_ok s' \<and> cached_utxo s' = u' \<and>
    cached_best s' = cached_best s \<and> utxo (fst s') = utxo (fst s)"
proof -
  obtain u1 h where t: "(if IsCoinBase tx then Some ([], cached_utxo s) else spec_spends (vin tx) (cached_utxo s)) = Some (undo, u1)"
    "GetHash tx = Some h" "tx_storable tx nHeight" "u' = u1(h := live (Some (FromTx CCoins_ctor tx nHeight)))"
    using assms(2) by (auto simp: spec_tx_def split: option.splits if_splits)
  then show ?thesis using update_law [OF assms(1) t(1-3) assms(3) [OF t(2)]] by simp
qed

lemma apply_undo_law:
  assumes "cached_ok s" "utxo_ok u" "spec_spend out u = Some (undo, cached_utxo s)"
  shows "\<exists>s'. ApplyTxInUndo V usage undo s out = Some (True, s') \<and> cached_ok s' \<and> cached_utxo s' = u \<and> cached_best s' = cached_best s"
proof -
  let ?h = "COutPoint.op_hash out"
  obtain c c' where c: "u ?h = Some c" "spend_body (unat (op_n out)) c = Some (undo, c')" "cached_utxo s = u(?h := live (Some c'))"
    using assms(3) by (auto simp: spec_spend_def split: option.splits)
  have ok: "coins_ok c" "coins_nHeight c \<noteq> 0" "\<not> fCoinStake c" using assms(2) c(1) by (auto simp: utxo_ok_def)
  obtain cs0 where cs0: "coins_wf cs0" "live (Some cs0) = live (Some c')"
    and m: "\<And>body (r :: bool) cs. body cs0 = Some (r, cs) \<Longrightarrow> coins_wf (Cleanup cs) \<Longrightarrow>
      (\<exists>s'. with_modifier usage ?h (ModifyCoins V usage s ?h) body = Some (r, s') \<and> cached_ok s' \<and>
        cached_utxo s' = (cached_utxo s)(?h := live (Some (Cleanup cs))) \<and> cached_best s' = cached_best s \<and> utxo (fst s') = utxo (fst s))"
    using modify_law [OF assms(1), of ?h usage] c(3) by (metis fun_upd_same)
  obtain r where r: "undo_body undo (op_n out) cs0 = Some (True, r)" "r\<lparr>fCoinStake := False\<rparr> = c\<lparr>fCoinStake := False\<rparr>"
    using undo_spent [OF ok(1) c(2) ok(2) cs0] by auto
  have "coins_wf (c\<lparr>fCoinStake := False\<rparr>)" using ok(1) by (simp add: coins_wf_def coins_ok_def)
  then have wf: "coins_wf r" unfolding r(2) [symmetric] by (simp only: wf_fCoinStake)
  have "c\<lparr>fCoinStake := False\<rparr> = c" using ok(3) by simp
  moreover have "\<not> IsPruned c" using coins_ok_live [OF ok(1)] by (auto simp: live.simps)
  ultimately have "live (Some r) = Some c" using live_fCoinStake [of False r] r(2) by (simp add: live.simps(2) [of c])
  then show ?thesis
    using m [of "undo_body undo (op_n out)" True r] r(1) wf c(1,3) by (auto simp: ApplyTxInUndo_def Cleanup_wf fun_upd_idem)
qed

lemma restore_law:
  "cached_ok s \<Longrightarrow> utxo_ok u \<Longrightarrow> spec_spends ins u = Some (undos, cached_utxo s) \<Longrightarrow>
    \<exists>s'. restore_inputs V usage (rev (zip ins undos)) cl s = Some (cl, s') \<and> cached_ok s' \<and> cached_utxo s' = u \<and> cached_best s' = cached_best s"
proof (induction ins arbitrary: u undos)
  case (Cons txin ins)
  then obtain undo u1 undos' where t: "spec_spend (prevout txin) u = Some (undo, u1)" "spec_spends ins u1 = Some (undos', cached_utxo s)"
    "undos = undo # undos'" by (auto split: option.splits)
  obtain s1 where s1: "restore_inputs V usage (rev (zip ins undos')) cl s = Some (cl, s1)" "cached_ok s1" "cached_utxo s1 = u1"
    "cached_best s1 = cached_best s"
    using Cons.IH [OF Cons.prems(1) _ t(2)] spec_spend_ok [OF Cons.prems(2) t(1)] by auto
  obtain s' where "ApplyTxInUndo V usage undo s1 (prevout txin) = Some (True, s')" "cached_ok s'" "cached_utxo s' = u" "cached_best s' = cached_best s1"
    using apply_undo_law [OF s1(2) Cons.prems(2), of "prevout txin" undo usage] t(1) s1(3) by auto
  then show ?case using s1 t(3) by (simp add: restore_inputs_append)
qed simp

lemma disconnect_tx_law:
  assumes "cached_ok s" "utxo_ok u" "spec_tx tx nHeight u = Some (undo, cached_utxo s)"
  shows "\<exists>s'. disconnect_tx V usage nHeight tx (if IsCoinBase tx then None else Some undo) cl s = Some (True, cl, s') \<and>
    cached_ok s' \<and> cached_utxo s' = u \<and> cached_best s' = cached_best s"
proof -
  obtain u1 h where t: "(if IsCoinBase tx then Some ([], u) else spec_spends (vin tx) u) = Some (undo, u1)"
    "GetHash tx = Some h" "tx_storable tx nHeight" "u h = None" "cached_utxo s = u1(h := live (Some (FromTx CCoins_ctor tx nHeight)))"
    using assms(3) by (auto simp: spec_tx_def split: option.splits if_splits)
  have u1: "u1 h = None" "\<not> IsCoinBase tx \<longrightarrow> length undo = length (vin tx)"
    using t(1,4) spec_spends_ok [OF assms(2), of "vin tx"] by (auto split: if_splits)
  obtain cs0 where cs0: "coins_wf cs0" "live (Some cs0) = live (Some (FromTx CCoins_ctor tx nHeight))"
    and m: "\<And>body (r :: bool) cs. body cs0 = Some (r, cs) \<Longrightarrow> coins_wf (Cleanup cs) \<Longrightarrow>
      (\<exists>s'. with_modifier usage h (ModifyCoins V usage s h) body = Some (r, s') \<and> cached_ok s' \<and>
        cached_utxo s' = (cached_utxo s)(h := live (Some (Cleanup cs))) \<and> cached_best s' = cached_best s \<and> utxo (fst s') = utxo (fst s))"
    using modify_law [OF assms(1), of h usage] t(5) by (metis fun_upd_same)
  have cl: "Cleanup (CCoins_Clear x) = CCoins_Clear x" for x using Cleanup_wf [of "CCoins_Clear x"] by simp
  obtain s1 where s1: "with_modifier usage h (ModifyCoins V usage s h) (outs_body tx nHeight) = Some (True, s1)" "cached_ok s1"
      "cached_utxo s1 = u1" "cached_best s1 = cached_best s"
    using m [of "outs_body tx nHeight" True "CCoins_Clear (ClearUnspendable cs0)"] outs_body_same [OF t(3) cs0] t(5) u1(1) live_pruned [of "CCoins_Clear (ClearUnspendable cs0)"]
    by (auto simp: cl fun_upd_idem)
  show ?thesis
  proof (cases "IsCoinBase tx")
    case True
    then show ?thesis using s1 t by (simp add: disconnect_tx_def)
  next
    case False
    then obtain s' where "restore_inputs V usage (rev (zip (vin tx) undo)) cl s1 = Some (cl, s')" "cached_ok s'" "cached_utxo s' = u"
      "cached_best s' = cached_best s1"
      using restore_law [OF s1(2) assms(2), of "vin tx" undo usage cl] t(1) s1(3) by auto
    then show ?thesis using s1 t(2) u1(2) False by (simp add: disconnect_tx_def)
  qed
qed

lemma connect_law:
  "cached_ok s \<Longrightarrow> spec_block (utxo (fst s)) nHeight txs (cached_utxo s) = Some (undos, u') \<Longrightarrow>
    \<exists>s'. connect_coins V usage nHeight i txs acc s = Some (acc @ (if i = 0 then tl undos else undos), s') \<and>
      cached_ok s' \<and> cached_utxo s' = u' \<and> cached_best s' = cached_best s \<and> utxo (fst s') = utxo (fst s)"
proof (induction txs arbitrary: s i acc undos)
  case (Cons tx txs)
  then obtain undo u1 undos' h where t: "spec_tx tx nHeight (cached_utxo s) = Some (undo, u1)" "GetHash tx = Some h" "utxo (fst s) h = None"
    "spec_block (utxo (fst s)) nHeight txs u1 = Some (undos', u')" "undos = undo # undos'"
    by (auto split: option.splits if_splits)
  obtain s1 where "UpdateCoins V usage tx nHeight s = Some (undo, s1)" "cached_ok s1" "cached_utxo s1 = u1" "cached_best s1 = cached_best s"
    "utxo (fst s1) = utxo (fst s)"
    using update_refines [OF Cons.prems(1) t(1), of usage] t(2,3) by auto
  then show ?case using Cons.IH [of s1 undos' "i + 1" "if 0 < i then acc @ [undo] else acc"] t(4,5) by (cases "i = 0") simp_all
qed simp

lemma disconnect_law:
  "cached_ok s \<Longrightarrow> utxo_ok u \<Longrightarrow> spec_block u0 nHeight txs u = Some (undos, cached_utxo s) \<Longrightarrow>
    \<exists>s'. disconnect_loop V usage nHeight (rev (zip txs (map2 (\<lambda>tx undo. if IsCoinBase tx then None else Some undo) txs undos))) cl s =
        Some (True, cl, s') \<and> cached_ok s' \<and> cached_utxo s' = u \<and> cached_best s' = cached_best s"
proof (induction txs arbitrary: u undos)
  case (Cons tx txs)
  then obtain undo u1 undos' where t: "spec_tx tx nHeight u = Some (undo, u1)" "spec_block u0 nHeight txs u1 = Some (undos', cached_utxo s)"
    "undos = undo # undos'" by (auto split: option.splits if_splits)
  obtain s1 where s1: "disconnect_loop V usage nHeight (rev (zip txs (map2 (\<lambda>tx undo. if IsCoinBase tx then None else Some undo) txs undos'))) cl s =
        Some (True, cl, s1)" "cached_ok s1" "cached_utxo s1 = u1" "cached_best s1 = cached_best s"
    using Cons.IH [OF Cons.prems(1) spec_tx_ok [OF Cons.prems(2) t(1)] t(2)] by auto
  obtain s' where "disconnect_tx V usage nHeight tx (if IsCoinBase tx then None else Some undo) cl s1 = Some (True, cl, s')"
    "cached_ok s'" "cached_utxo s' = u" "cached_best s' = cached_best s1"
    using disconnect_tx_law [OF s1(2) Cons.prems(2), of tx nHeight undo usage cl] t(1) s1(3) by auto
  then show ?case using s1 t(3) by (simp add: disconnect_loop_append)
qed simp

lemma disconnect_block_law:
  assumes "cached_ok s" "utxo_ok u" "spec_block u0 nHeight (cb # txs) u = Some (undo # undos, cached_utxo s)"
    and "IsCoinBase cb" "list_all (\<lambda>tx. \<not> IsCoinBase tx) txs" "cached_best s = hash" "length prevHash = 32" "prevHash \<noteq> uint256_null"
  shows "\<exists>s'. DisconnectBlock V usage hash prevHash nHeight (cb # txs) (Some undos) s = Some ((True, True), s') \<and>
    cached_ok s' \<and> cached_utxo s' = u \<and> cached_best s' = prevHash"
proof -
  obtain h s0 where g: "cache_GetBestBlock V s = (h, s0)" by (cases "cache_GetBestBlock V s")
  note s0 = cached_get_best [OF assms(1) g]
  have len: "length undos = length txs" using spec_block_length [OF assms(3)] by simp
  have opts: "map2 (\<lambda>tx undo. if IsCoinBase tx then None else Some undo) (cb # txs) (undo # undos) = None # map Some undos"
    using assms(4,5) len by (simp, intro nth_equalityI) (auto simp: list_all_length)
  obtain s1 where "disconnect_loop V usage nHeight (rev (zip (cb # txs) (None # map Some undos))) True s0 = Some (True, True, s1)"
    "cached_ok s1" "cached_utxo s1 = u"
    using disconnect_law [of s0 u u0 nHeight "cb # txs" "undo # undos" usage True] s0 assms(2,3) unfolding opts by auto
  then show ?thesis using g s0 assms(6-8) len
    by (simp add: DisconnectBlock_def SetBestBlock_def cached_ok_def cached_utxo_def cached_best_def)
qed

end

section \<open>Stored undo records\<close>

text \<open>
  An undo record is read back as it was written.  The version is not stored with height 0: it is then
  the reader's.
\<close>

lemma txin_undo_roundtrip:
  assumes "point_compression ctx" "out_ok (undo_txout u)" "\<not> CTxOut_IsNull (undo_txout u)"
    and "unat (undo_nHeight u) < 2 ^ 31" "0 \<le> undo_nVersion u" "undo_nVersion u < 2 ^ 31"
    and "undo_nHeight u = 0 \<Longrightarrow> undo_nVersion u = undo_nVersion old"
  shows "\<exists>d. ser_txin_undo ctx u = Some d \<and> unser_txin_undo ctx old (d @ r) = Some (u, r)"
proof -
  let ?n = "undo_nHeight u * 2 + (if undo_fCoinBase u then 1 else 0)"
  have "unat ?n = 2 * unat (undo_nHeight u) + (if undo_fCoinBase u then 1 else 0)"
    using assms(4) by (auto simp: unat_word_ariths)
  then have n: "?n div 2 = undo_nHeight u" "?n AND 1 \<noteq> 0 \<longleftrightarrow> undo_fCoinBase u"
    unfolding and_pow2 by (auto simp: word_unat_eq_iff unat_div)
  have out: "0 \<le> nValue (undo_txout u)" "nValue (undo_txout u) \<le> 2 ^ 60" "length (scriptPubKey (undo_txout u)) \<le> MAX_SCRIPT_SIZE"
    using assms(2,3) by (auto simp: out_ok_def)
  have "length (scriptPubKey (undo_txout u)) + 6 < 2 ^ 31" using out(3) by simp
  then obtain d where d: "ser_txout_compressed ctx (undo_txout u) = Some d"
    "\<And>old r. unser_txout_compressed ctx old (d @ r) = Some (undo_txout u, r)"
    by (rule txout_roundtrip [OF assms(1) out(1,2)]) (use out(3) in simp)
  have "unser_txin_undo ctx old (WriteVarInt ?n @ (if 0 < undo_nHeight u then WriteVarInt_int (undo_nVersion u) else []) @ d @ r) = Some (u, r)"
    using assms(7) VarInt_int_roundtrip [OF assms(5,6)]
    by (simp only: unser_txin_undo_def read_bind_def VarInt_roundtrip [where 'w = 32, simplified, THEN conjunct1] option.case prod.case n)
      (auto simp: d(2) read_bind_def read_return_def word_gt_0)
  then show ?thesis using d(1) by (simp add: ser_txin_undo_def)
qed

end
