(* ===== verification/Chainstate.thy ===== *)
theory Chainstate
  imports Undo_Props "HOL-Library.List_Lexorder"
begin

text \<open>
  The set of unspent outputs as a node keeps it: a database, a cache over it and a temporary cache in which
  blocks are connected and disconnected.  Operations on that stack are operations on one partial map.
\<close>

section \<open>Operations on a cache\<close>

datatype view_op = Op_Get uint256 | Op_Have uint256 | Op_Tx CTransaction int | Op_Uncache uint256 | Op_Flush

datatype view_obs = Obs_coins "CCoins option" | Obs_have bool | Obs_undo CTxUndo | Obs_flushed bool | Obs_none

text \<open>The order in which a hash table is traversed is an argument, a function \<open>enum\<close> of the table.\<close>

fun view_step ::
  "'v CCoinsView \<Rightarrow> (CCoins \<Rightarrow> u64) \<Rightarrow> (CCoinsMap \<Rightarrow> uint256 list) \<Rightarrow> view_op \<Rightarrow> 'v cached \<Rightarrow> (view_obs \<times> 'v cached) option" where
  "view_step V usage enum (Op_Get t) s = (case GetCoins V usage s t of (r, s) \<Rightarrow> Some (Obs_coins (live r), s))"
| "view_step V usage enum (Op_Have t) s = (case HaveCoins V usage s t of (r, s) \<Rightarrow> Some (Obs_have r, s))"
| "view_step V usage enum (Op_Tx tx nHeight) s =
     (case UpdateCoins V usage tx nHeight s of None \<Rightarrow> None | Some (undo, s) \<Rightarrow> Some (Obs_undo undo, s))"
| "view_step V usage enum (Op_Uncache t) s = Some (Obs_none, Uncache usage s t)"
| "view_step V usage enum Op_Flush s =
     (case Flush V (enum (cacheCoins (snd s))) s of None \<Rightarrow> None | Some (ok, s) \<Rightarrow> Some (Obs_flushed ok, s))"

fun view_run ::
  "'v CCoinsView \<Rightarrow> (CCoins \<Rightarrow> u64) \<Rightarrow> (CCoinsMap \<Rightarrow> uint256 list) \<Rightarrow> view_op list \<Rightarrow> 'v cached \<Rightarrow> (view_obs list \<times> 'v cached) option" where
  "view_run V usage enum [] s = Some ([], s)"
| "view_run V usage enum (op # ops) s =
     (case view_step V usage enum op s of
        None \<Rightarrow> None
      | Some (obs, s) \<Rightarrow> (case view_run V usage enum ops s of None \<Rightarrow> None | Some (obss, s) \<Rightarrow> Some (obs # obss, s)))"

text \<open>
  The specification: a partial map and the set of the transactions that ever were in it.  A
  transaction is applied only if its inputs are unspent and it is new.
\<close>

type_synonym utxo_state = "(uint256 \<rightharpoonup> CCoins) \<times> uint256 set"

fun spec_step :: "view_op \<Rightarrow> utxo_state \<Rightarrow> (view_obs \<times> utxo_state) option" where
  "spec_step (Op_Get t) (u, seen) = Some (Obs_coins (u t), (u, seen))"
| "spec_step (Op_Have t) (u, seen) = Some (Obs_have (u t \<noteq> None), (u, seen))"
| "spec_step (Op_Tx tx nHeight) (u, seen) =
     (case (spec_tx tx nHeight u, GetHash tx) of
        (Some (undo, u'), Some hash) \<Rightarrow> if hash \<in> seen then None else Some (Obs_undo undo, (u', insert hash seen))
      | _ \<Rightarrow> None)"
| "spec_step (Op_Uncache t) (u, seen) = Some (Obs_none, (u, seen))"
| "spec_step Op_Flush (u, seen) = Some (Obs_flushed True, (u, seen))"

fun spec_run :: "view_op list \<Rightarrow> utxo_state \<Rightarrow> (view_obs list \<times> utxo_state) option" where
  "spec_run [] u = Some ([], u)"
| "spec_run (op # ops) u =
     (case spec_step op u of
        None \<Rightarrow> None
      | Some (obs, u) \<Rightarrow> (case spec_run ops u of None \<Rightarrow> None | Some (obss, u) \<Rightarrow> Some (obs # obss, u)))"

section \<open>Refinement\<close>

lemma spec_spends_dom: "spec_spends ins u = Some (undos, u') \<Longrightarrow> dom u' \<subseteq> dom u"
proof (induction ins arbitrary: u undos)
  case (Cons txin ins)
  then obtain undo u1 undos' where t: "spec_spend (prevout txin) u = Some (undo, u1)" "spec_spends ins u1 = Some (undos', u')"
    by (auto split: option.splits)
  have "dom u1 \<subseteq> dom u" using t(1) by (auto simp: spec_spend_def split: option.splits if_splits)
  then show ?case using Cons.IH [OF t(2)] by blast
qed simp

lemma spec_tx_dom:
  assumes "spec_tx tx nHeight u = Some (undo, u')" "GetHash tx = Some h"
  shows "dom u' \<subseteq> insert h (dom u)"
proof -
  obtain u1 where u1: "(if IsCoinBase tx then Some ([], u) else spec_spends (vin tx) u) = Some (undo, u1)"
    "u' = u1(h := live (Some (FromTx CCoins_ctor tx nHeight)))"
    using assms by (auto simp: spec_tx_def split: option.splits if_splits)
  then have "dom u1 \<subseteq> dom u" using spec_spends_dom [of "vin tx" u undo u1] by (auto split: if_splits)
  then show ?thesis using u1(2) by (auto split: if_splits)
qed

context coins_view
begin

text \<open>The cache implements the map, and nothing below it was never seen.\<close>

definition simulates :: "'v cached \<Rightarrow> utxo_state \<Rightarrow> bool" where
  "simulates s us \<longleftrightarrow> cached_ok s \<and> cached_utxo s = fst us \<and> dom (fst us) \<subseteq> snd us \<and> dom (utxo (fst s)) \<subseteq> snd us"

lemma fetch_below:
  assumes "cached_ok s" "FetchCoins V usage s t = (r, s')"
  shows "utxo (fst s') = utxo (fst s)"
proof -
  obtain g b' where g: "view_GetCoins V (fst s) t = (g, b')" by (cases "view_GetCoins V (fst s) t")
  have "utxo b' = utxo (fst s)" using get_law [OF _ g] assms(1) by (simp add: cached_ok_def)
  then show ?thesis using assms(2) g by (auto simp: FetchCoins_def Let_def split: prod.splits option.splits)
qed

lemma read_below:
  assumes "cached_ok s"
  shows "utxo (fst (snd (GetCoins V usage s t))) = utxo (fst s)" "utxo (fst (snd (HaveCoins V usage s t))) = utxo (fst s)"
    "fst (Uncache usage s t) = fst s"
  using fetch_below [OF assms, of usage t]
  by (auto simp: GetCoins_def HaveCoins_def Uncache_def Let_def split: prod.splits option.splits)

lemma step_refines:
  assumes "simulates s us" "spec_step op us = Some (obs, us')"
    and enum: "\<And>m. finite (dom m) \<Longrightarrow> distinct (enum m) \<and> set (enum m) = dom m"
  shows "\<exists>s'. view_step V usage enum op s = Some (obs, s') \<and> simulates s' us'"
proof -
  obtain u seen where us: "us = (u, seen)" by (cases us)
  note sim = assms(1) [unfolded us simulates_def fst_conv snd_conv]
  show ?thesis
  proof (cases op)
    case (Op_Tx tx h)
    then obtain undo u' x where t: "spec_tx tx h u = Some (undo, u')" "GetHash tx = Some x" "x \<notin> seen" "obs = Obs_undo undo"
      "us' = (u', insert x seen)"
      using assms(2) by (auto simp: us split: option.splits if_splits)
    have "utxo (fst s) x = None" using sim t(3) by (auto simp: domIff [symmetric])
    then obtain s' where "UpdateCoins V usage tx h s = Some (undo, s')" "cached_ok s'" "cached_utxo s' = u'" "utxo (fst s') = utxo (fst s)"
      using update_refines [of s tx h undo u' usage] sim t(1,2) by auto
    then show ?thesis using Op_Tx t spec_tx_dom [OF t(1,2)] sim by (auto simp: simulates_def)
  next
    case Op_Flush
    have "finite (dom (cacheCoins (snd s)))" using sim by (simp add: cached_ok_def map_ok_def)
    then obtain s' where "Flush V (enum (cacheCoins (snd s))) s = Some (True, s')" "cached_ok s'" "cached_utxo s' = cached_utxo s"
      "utxo (fst s') = cached_utxo s"
      using flush_law [of s "enum (cacheCoins (snd s))"] enum sim by auto
    moreover have "obs = Obs_flushed True" "us' = (u, seen)" using Op_Flush assms(2) by (simp_all add: us)
    ultimately show ?thesis using Op_Flush sim by (simp add: simulates_def)
  next
    case (Op_Get t)
    obtain r s' where "GetCoins V usage s t = (r, s')" by (cases "GetCoins V usage s t")
    moreover have "obs = Obs_coins (u t)" "us' = (u, seen)" using Op_Get assms(2) by (simp_all add: us)
    ultimately show ?thesis using Op_Get sim cached_get [of s usage t r s'] read_below(1) [of s usage t] by (simp add: simulates_def)
  next
    case (Op_Have t)
    obtain r s' where "HaveCoins V usage s t = (r, s')" by (cases "HaveCoins V usage s t")
    moreover have "obs = Obs_have (u t \<noteq> None)" "us' = (u, seen)" using Op_Have assms(2) by (simp_all add: us)
    ultimately show ?thesis using Op_Have sim cached_have [of s usage t r s'] read_below(2) [of s usage t] by (simp add: simulates_def)
  next
    case (Op_Uncache t)
    moreover have "obs = Obs_none" "us' = (u, seen)" using Op_Uncache assms(2) by (simp_all add: us)
    ultimately show ?thesis using sim uncache_law [of s usage t] read_below(3) [of s usage t] by (simp add: simulates_def)
  qed
qed

lemma run_refines:
  assumes enum: "\<And>m. finite (dom m) \<Longrightarrow> distinct (enum m) \<and> set (enum m) = dom m"
  shows "simulates s us \<Longrightarrow> spec_run ops us = Some (obss, us') \<Longrightarrow>
    \<exists>s'. view_run V usage enum ops s = Some (obss, s') \<and> simulates s' us'"
proof (induction ops arbitrary: s us obss)
  case (Cons op ops)
  then obtain obs us1 obss' where t: "spec_step op us = Some (obs, us1)" "spec_run ops us1 = Some (obss', us')" "obss = obs # obss'"
    by (auto split: option.splits)
  obtain s1 where "view_step V usage enum op s = Some (obs, s1)" "simulates s1 us1"
    using step_refines [OF Cons.prems(1) t(1) enum, of usage] by auto
  then show ?case using Cons.IH [OF _ t(2), of s1] t(3) by auto
qed simp

end

section \<open>A sample node\<close>

definition sample_cb :: CTransaction where
  "sample_cb = \<lparr>nVersion = 1, nTime = 0,
     vin = [\<lparr>prevout = COutPoint.make (replicate 32 0) 0xffffffff, scriptSig = [1, 5], nSequence = 0xffffffff\<rparr>],
     vout = [\<lparr>nValue = 5000000000, scriptPubKey = [0x51]\<rparr>], wit = [], nLockTime = 0, strDZeel = []\<rparr>"

definition sample_node :: "CDBWrapper cached" where
  "sample_node = (\<lparr>pdb = Map.empty, obfuscate_key = [0xAB, 0xCD]\<rparr>, CCoinsViewCache_ctor\<lparr>hashBlock := replicate 32 1\<rparr>)"

lemma sample_node_props: "tip_ok even_secp256k1 sample_node" "tip_utxo even_secp256k1 sample_node = Map.empty"
  "tip_best sample_node = replicate 32 1"
proof -
  show "tip_utxo even_secp256k1 sample_node = Map.empty"
    by (rule ext) (simp add: tip_utxo_def sample_node_def CCoinsViewCache_ctor_def db_utxo_def db_coins_None)
  show "tip_ok even_secp256k1 sample_node"
    by (simp add: tip_ok_def db_ok_def sample_node_def CCoinsViewCache_ctor_def even_point_compression)
  show "tip_best sample_node = replicate 32 1"
    by (simp add: tip_best_def sample_node_def uint256_null_def)
qed

lemma sample_cb_props: "IsCoinBase sample_cb" "tx_storable sample_cb 5" "\<exists>h. GetHash sample_cb = Some h"
  by (simp_all add: sample_cb_def IsCoinBase_def COutPoint_IsNull_def COutPoint.make_def tx_storable_def GetHash_def
      SerializeTransaction_write_def Let_def list_all_iff)

section \<open>The node's stack\<close>

definition enumerates :: "(CCoinsMap \<Rightarrow> uint256 list) \<Rightarrow> bool" where
  "enumerates enum \<longleftrightarrow> (\<forall>m. finite (dom m) \<longrightarrow> distinct (enum m) \<and> set (enum m) = dom m)"

text \<open>
  C4: the stack of caches is one set of unspent outputs. Start from a sound cache over the database and
  put an empty cache on top.  Whatever sequence of lookups, applied transactions, evictions and flushes the
  specification accepts on a single partial map from transaction identifiers to unspent coins, the two caches and
  the database execute without a failed assertion, with the same results at every step, and they end with the same
  map; this holds for every order in which the hash tables are traversed.
\<close>

theorem coins_stack_refines:
  assumes "tip_ok ctx s" "enumerates enum"
    and "spec_run ops (tip_utxo ctx s, dom (tip_utxo ctx s)) = Some (obss, (u, seen))"
  shows "\<exists>v. view_run (cache_view (db_view ctx) usage) usage enum ops (s, CCoinsViewCache_ctor) = Some (obss, v) \<and>
    view_utxo ctx v = u \<and> tip_ok ctx (fst v)"
proof -
  have "coins_view.simulates (tip_utxo ctx) (tip_ok ctx) (s, CCoinsViewCache_ctor) (tip_utxo ctx s, dom (tip_utxo ctx s))"
    using fresh_view(1,2) [of ctx s] assms(1) by (simp add: tip.simulates_def view_defs view_ok_def)
  from tip.run_refines [OF _ this assms(3), of enum usage usage] assms(2) obtain v where
    "view_run (cache_view (db_view ctx) usage) usage enum ops (s, CCoinsViewCache_ctor) = Some (obss, v)"
    "coins_view.simulates (tip_utxo ctx) (tip_ok ctx) v (u, seen)"
    by (auto simp: enumerates_def)
  then show ?thesis by (auto simp: tip.simulates_def view_defs tip.cached_ok_def)
qed

lemma sorted_enumerates: "enumerates (\<lambda>m. sorted_list_of_set (dom m))"
  by (simp add: enumerates_def)

theorem coins_stack_refines_witness:
  "\<exists>h v. GetHash sample_cb = Some h \<and>
     view_run (cache_view (db_view even_secp256k1) (\<lambda>_. 8)) (\<lambda>_. 8) (\<lambda>m. sorted_list_of_set (dom m))
       [Op_Have (replicate 32 7), Op_Tx sample_cb 5, Op_Flush, Op_Get h] (sample_node, CCoinsViewCache_ctor) =
     Some ([Obs_have False, Obs_undo [], Obs_flushed True, Obs_coins (live (Some (FromTx CCoins_ctor sample_cb 5)))], v)"
proof -
  obtain h where h: "GetHash sample_cb = Some h" using sample_cb_props by blast
  have "spec_run [Op_Have (replicate 32 7), Op_Tx sample_cb 5, Op_Flush, Op_Get h]
      (tip_utxo even_secp256k1 sample_node, dom (tip_utxo even_secp256k1 sample_node)) =
    Some ([Obs_have False, Obs_undo [], Obs_flushed True, Obs_coins (live (Some (FromTx CCoins_ctor sample_cb 5)))],
      (Map.empty(h := live (Some (FromTx CCoins_ctor sample_cb 5))), {h}))"
    using h sample_cb_props(1,2) by (simp add: sample_node_props(2) spec_tx_def)
  from coins_stack_refines [OF sample_node_props(1) sorted_enumerates this, of "\<lambda>_. 8"] h show ?thesis by blast
qed

text \<open>
  C3: a reorganisation restores the set of unspent outputs. A block whose transactions are new and spend
  only unspent outputs is connected in a fresh cache over the tip, without a failed assertion; after the cache is
  flushed, in any traversal order, the tip holds the specified set and the new best block.  Disconnecting the
  block with the undo records just written, in another fresh cache, succeeds, reports that nothing was
  inconsistent, and gives back exactly the set of unspent outputs and the best block there were before.
\<close>

theorem reorg_restores:
  assumes "tip_ok ctx s" "utxo_ok (tip_utxo ctx s)" "tip_best s \<noteq> uint256_null" "length hash = 32" "hash \<noteq> uint256_null"
    and "IsCoinBase cb" "list_all (\<lambda>tx. \<not> IsCoinBase tx) txs"
    and "spec_block (tip_utxo ctx s) nHeight (cb # txs) (tip_utxo ctx s) = Some (undos, u)"
  shows "\<exists>v. connect_coins (cache_view (db_view ctx) usage) usage nHeight 0 (cb # txs) [] (s, CCoinsViewCache_ctor) = Some (tl undos, v) \<and>
    finite (dom (cacheCoins (snd v))) \<and>
    (\<forall>order. distinct order \<and> set order = dom (cacheCoins (snd v)) \<longrightarrow>
      (\<exists>s1 c. Flush (cache_view (db_view ctx) usage) order (SetBestBlock v hash) = Some (True, (s1, c)) \<and>
        tip_utxo ctx s1 = u \<and> tip_best s1 = hash \<and>
        (\<exists>w. DisconnectBlock (cache_view (db_view ctx) usage) usage hash (tip_best s) nHeight (cb # txs) (Some (tl undos))
            (s1, CCoinsViewCache_ctor) = Some ((True, True), w) \<and>
          view_utxo ctx w = tip_utxo ctx s \<and> view_best w = tip_best s)))"
proof -
  obtain undo undos' where un: "undos = undo # undos'" using spec_block_length [OF assms(8)] by (cases undos) auto
  have bl: "length (tip_best s) = 32" using assms(1) db_best_length by (auto simp: tip_ok_def tip_best_def)
  note f = fresh_view(1) [of ctx s, unfolded view_ok_def] fresh_view(2) [of ctx s, unfolded view_defs [symmetric]]
      fresh_view(3) [of s, unfolded view_best_def]
  have "spec_block (tip_utxo ctx (fst (s, CCoinsViewCache_ctor))) nHeight (cb # txs)
      (coins_view.cached_utxo (tip_utxo ctx) (s, CCoinsViewCache_ctor)) = Some (undos, u)" using assms(8) f(2) by simp
  from tip.connect_law [OF f(1) [OF assms(1)] this, of usage usage 0 "[]"]
  obtain v where v: "connect_coins (cache_view (db_view ctx) usage) usage nHeight 0 (cb # txs) [] (s, CCoinsViewCache_ctor) = Some (tl undos, v)"
    "view_ok ctx v" "view_utxo ctx v = u"
    by (auto simp: view_ok_def view_defs)
  have vb: "view_ok ctx (SetBestBlock v hash)" "view_utxo ctx (SetBestBlock v hash) = u" "cacheCoins (snd (SetBestBlock v hash)) = cacheCoins (snd v)"
    "hashBlock (snd (SetBestBlock v hash)) = hash"
    using v(2,3) assms(4) by (simp_all add: SetBestBlock_def view_ok_def tip.cached_ok_def view_utxo_def)
  have "\<exists>s1 c. Flush (cache_view (db_view ctx) usage) order (SetBestBlock v hash) = Some (True, (s1, c)) \<and>
      tip_utxo ctx s1 = u \<and> tip_best s1 = hash \<and> tip_ok ctx s1"
    if "distinct order" "set order = dom (cacheCoins (snd v))" for order
    using tip.flush_law [OF vb(1) [unfolded view_ok_def], of order usage] that vb(2-4) assms(5)
    by (auto simp: view_defs tip.cached_ok_def)
  moreover have "\<exists>w. DisconnectBlock (cache_view (db_view ctx) usage) usage hash (tip_best s) nHeight (cb # txs) (Some (tl undos))
      (s1, CCoinsViewCache_ctor) = Some ((True, True), w) \<and> view_utxo ctx w = tip_utxo ctx s \<and> view_best w = tip_best s"
    if "tip_ok ctx s1" "tip_utxo ctx s1 = u" "tip_best s1 = hash" for s1
  proof -
    note g = fresh_view(1) [of ctx s1, unfolded view_ok_def] fresh_view(2) [of ctx s1, unfolded view_defs [symmetric]]
      fresh_view(3) [of s1, unfolded view_best_def]
    have "spec_block (tip_utxo ctx s) nHeight (cb # txs) (tip_utxo ctx s) =
        Some (undo # undos', coins_view.cached_utxo (tip_utxo ctx) (s1, CCoinsViewCache_ctor))" using assms(8) un that(2) g(2) by simp
    from tip.disconnect_block_law [OF g(1) [OF that(1)] assms(2) this assms(6,7) _ bl assms(3), of hash usage usage] g(3) that(3) un
    show ?thesis by (auto simp: view_best_def view_defs)
  qed
  moreover have "finite (dom (cacheCoins (snd v)))" using v(2) by (simp add: view_ok_def tip.cached_ok_def map_ok_def)
  ultimately show ?thesis using v(1) by (intro exI [of _ v]) fastforce
qed

theorem reorg_restores_witness:
  "\<exists>undos v. connect_coins (cache_view (db_view even_secp256k1) (\<lambda>_. 8)) (\<lambda>_. 8) 5 0 [sample_cb] [] (sample_node, CCoinsViewCache_ctor) =
      Some (undos, v) \<and>
    (\<exists>s1 c w. Flush (cache_view (db_view even_secp256k1) (\<lambda>_. 8)) (sorted_list_of_set (dom (cacheCoins (snd v))))
        (SetBestBlock v (replicate 32 9)) = Some (True, (s1, c)) \<and>
      DisconnectBlock (cache_view (db_view even_secp256k1) (\<lambda>_. 8)) (\<lambda>_. 8) (replicate 32 9) (replicate 32 1) 5 [sample_cb] (Some undos)
        (s1, CCoinsViewCache_ctor) = Some ((True, True), w) \<and> view_utxo even_secp256k1 w = Map.empty)"
proof -
  obtain h where h: "GetHash sample_cb = Some h" using sample_cb_props by blast
  have blk: "spec_block (tip_utxo even_secp256k1 sample_node) 5 [sample_cb] (tip_utxo even_secp256k1 sample_node) =
      Some ([[]], Map.empty(h := live (Some (FromTx CCoins_ctor sample_cb 5))))"
    using h sample_cb_props(1,2) by (simp add: sample_node_props(2) spec_tx_def)
  have hyp: "utxo_ok (tip_utxo even_secp256k1 sample_node)" "tip_best sample_node \<noteq> uint256_null"
    "length (replicate 32 (9 :: u8)) = 32" "replicate 32 9 \<noteq> uint256_null" "list_all (\<lambda>tx. \<not> IsCoinBase tx) []"
    by (simp_all add: sample_node_props(2,3) utxo_ok_def uint256_null_def)
  note reorg = reorg_restores [OF sample_node_props(1) hyp(1-4) sample_cb_props(1) hyp(5) blk, of "\<lambda>_. 8",
      unfolded sample_node_props(2,3) list.sel(3)]
  show ?thesis
    using reorg
  proof (elim exE conjE, goal_cases)
    case (1 v)
    have "distinct (sorted_list_of_set (dom (cacheCoins (snd v)))) \<and> set (sorted_list_of_set (dom (cacheCoins (snd v)))) = dom (cacheCoins (snd v))"
      using 1(2) by simp
    from 1(3) [rule_format, OF this] show ?case
    proof (elim exE conjE, goal_cases)
      case (1 s1 c w)
      then show ?case using \<open>connect_coins _ _ _ _ _ _ _ = _\<close> by (intro exI conjI)
    qed
  qed
qed

text \<open>
  C17: a flush of the tip makes the set of unspent outputs durable. Whatever the order of traversal,
  flushing a sound cache over the database succeeds and leaves the cache empty, and the database alone then holds
  the set, and the best block, that the cache and the database held together: a node that is restarted with an empty cache sees the same coins.
\<close>

theorem flush_persists:
  assumes "tip_ok ctx s" "distinct order" "set order = dom (cacheCoins (snd s))"
  shows "\<exists>db c. Flush (db_view ctx) order s = Some (True, (db, c)) \<and> cacheCoins c = Map.empty \<and>
    db_utxo ctx db = tip_utxo ctx s \<and> tip_utxo ctx (db, CCoinsViewCache_ctor) = tip_utxo ctx s \<and>
    tip_ok ctx (db, CCoinsViewCache_ctor) \<and> (hashBlock (snd s) \<noteq> uint256_null \<longrightarrow> db_best db = tip_best s)"
proof -
  have "coins_view.cached_ok (db_utxo ctx) (db_ok ctx) s" using assms(1) by (simp only: tip_defs)
  from db.flush_law [OF this assms(2,3)] obtain db c where f: "Flush (db_view ctx) order s = Some (True, (db, c))"
    "db_utxo ctx db = tip_utxo ctx s" "cacheCoins c = Map.empty" "tip_ok ctx (db, c)"
    "hashBlock (snd s) \<noteq> uint256_null \<longrightarrow> db_best db = hashBlock (snd s)"
    by (auto simp: tip_defs)
  have "tip_utxo ctx (db, CCoinsViewCache_ctor) = tip_utxo ctx s" using f(2) by (simp add: tip_utxo_def CCoinsViewCache_ctor_def)
  moreover have "tip_ok ctx (db, CCoinsViewCache_ctor)" using f(4) by (simp add: tip_ok_def CCoinsViewCache_ctor_def uint256_null_def)
  ultimately show ?thesis using f by (auto simp: tip_best_def)
qed

definition sample_dirty :: "CDBWrapper cached" where
  "sample_dirty = (fst sample_node, (snd sample_node)\<lparr>cacheCoins := [replicate 32 5 \<mapsto> \<lparr>coins = sample_coins, flags = 3\<rparr>]\<rparr>)"

lemma sample_dirty_props: "tip_ok even_secp256k1 sample_dirty"
  "tip_utxo even_secp256k1 sample_dirty (replicate 32 5) = Some (sample_coins\<lparr>fCoinStake := False\<rparr>)"
proof -
  let ?e = "\<lparr>coins = sample_coins, flags = 3\<rparr>"
  have "db_utxo even_secp256k1 (fst sample_node) = Map.empty"
    by (rule ext) (simp add: sample_node_def db_utxo_def db_coins_None)
  moreover have "entry_ok None ?e" using sample_coins_ok by (simp add: entry_ok_def coins_wf_def)
  ultimately show "tip_ok even_secp256k1 sample_dirty"
    using sample_node_props(1) by (simp add: tip_ok_def sample_dirty_def map_ok_upd)
  have "\<not> IsPruned sample_coins" using wf_pruned [of sample_coins] sample_coins_ok by (simp add: coins_wf_def coins_ok_def)
  then show "tip_utxo even_secp256k1 sample_dirty (replicate 32 5) = Some (sample_coins\<lparr>fCoinStake := False\<rparr>)"
    by (simp add: tip_utxo_def sample_dirty_def overlay_def live.simps)
qed

theorem flush_persists_witness:
  "\<exists>db c. Flush (db_view even_secp256k1) [replicate 32 5] sample_dirty = Some (True, (db, c)) \<and>
    db_utxo even_secp256k1 db (replicate 32 5) = Some (sample_coins\<lparr>fCoinStake := False\<rparr>) \<and> db_best db = replicate 32 1"
proof -
  have o: "distinct [replicate 32 (5 :: u8)]" "set [replicate 32 5] = dom (cacheCoins (snd sample_dirty))"
    by (simp_all add: sample_dirty_def)
  have "hashBlock (snd sample_dirty) = replicate 32 1" "tip_best sample_dirty = replicate 32 1"
    by (simp_all add: sample_dirty_def sample_node_def tip_best_def uint256_null_def)
  then show ?thesis
    using flush_persists [OF sample_dirty_props(1) o] sample_dirty_props(2) by (auto simp: uint256_null_def)
qed

end
