(* ===== verification/Tx_Checks_Props.thy ===== *)
theory Tx_Checks_Props
  imports Tx_Checks Chainstate Transaction_Props
begin

text \<open>
  What the checks of a transaction promise: a transaction that passes them spends distinct unspent outputs,
  so applying it to the cache cannot fail, and it creates no value.
\<close>

section \<open>The value of the unspent outputs\<close>

definition out_avail :: "(uint256 \<rightharpoonup> CCoins) \<Rightarrow> COutPoint \<Rightarrow> bool" where
  "out_avail u out \<longleftrightarrow> (case u (COutPoint.op_hash out) of None \<Rightarrow> False | Some c \<Rightarrow> IsAvailable c (unat (op_n out)))"

definition out_at :: "(uint256 \<rightharpoonup> CCoins) \<Rightarrow> COutPoint \<Rightarrow> CTxOut" where
  "out_at u out = coins_vout (the (u (COutPoint.op_hash out))) ! unat (op_n out)"

definition height_at :: "(uint256 \<rightharpoonup> CCoins) \<Rightarrow> COutPoint \<Rightarrow> int" where
  "height_at u out = coins_nHeight (the (u (COutPoint.op_hash out)))"

definition out_value :: "CTxOut \<Rightarrow> int" where
  "out_value out = (if CTxOut_IsNull out then 0 else nValue out)"

definition coin_value :: "CCoins \<Rightarrow> int" where
  "coin_value c = sum_list (map out_value (coins_vout c))"

definition utxo_value :: "(uint256 \<rightharpoonup> CCoins) \<Rightarrow> int" where
  "utxo_value u = (\<Sum>t\<in>dom u. coin_value (the (u t)))"

lemma sum_list_update_int:
  "n < length xs \<Longrightarrow> sum_list (map f (xs[n := x])) = sum_list (map f xs) - f (xs ! n) + (f x :: int)"
proof (induction xs arbitrary: n)
  case (Cons a xs)
  then show ?case by (cases n) simp_all
qed simp

lemma sum_nulls: "list_all CTxOut_IsNull v \<Longrightarrow> sum_list (map out_value v) = 0"
  by (induction v) (simp_all add: out_value_def)

lemma sum_pop_nulls: "sum_list (map out_value (pop_nulls v)) = sum_list (map out_value v)"
proof -
  obtain z where z: "v = pop_nulls v @ z" "list_all CTxOut_IsNull z" using pop_nulls_prefix by blast
  have "sum_list (map out_value (pop_nulls v @ z)) = sum_list (map out_value (pop_nulls v))" using sum_nulls [OF z(2)] by simp
  then show ?thesis by (simp only: z(1) [symmetric])
qed

lemma avail_pop_nulls: "n < length (pop_nulls v) \<and> \<not> CTxOut_IsNull (pop_nulls v ! n) \<longleftrightarrow> n < length v \<and> \<not> CTxOut_IsNull (v ! n)"
  "n < length (pop_nulls v) \<Longrightarrow> pop_nulls v ! n = v ! n"
proof -
  obtain w z where z: "v = w @ z" "list_all CTxOut_IsNull z" "w = pop_nulls v" using pop_nulls_prefix by blast
  have "(n < length w \<and> \<not> CTxOut_IsNull (w ! n)) = (n < length (w @ z) \<and> \<not> CTxOut_IsNull ((w @ z) ! n))"
    using z(2) by (auto simp: nth_append list_all_length)
  then show "n < length (pop_nulls v) \<and> \<not> CTxOut_IsNull (pop_nulls v ! n) \<longleftrightarrow> n < length v \<and> \<not> CTxOut_IsNull (v ! n)"
    by (simp only: z(1) [symmetric] z(3) [symmetric])
  have "n < length w \<Longrightarrow> w ! n = (w @ z) ! n" by (simp add: nth_append)
  then show "n < length (pop_nulls v) \<Longrightarrow> pop_nulls v ! n = v ! n" by (simp only: z(1) [symmetric] z(3) [symmetric])
qed

lemma utxo_value_upd:
  assumes "finite (dom u)"
  shows "utxo_value (u(t := r)) = utxo_value u - (case u t of None \<Rightarrow> 0 | Some c \<Rightarrow> coin_value c) + (case r of None \<Rightarrow> 0 | Some c \<Rightarrow> coin_value c)"
proof -
  have "(\<Sum>x\<in>dom u - {t}. coin_value (the ((u(t := r)) x))) = (\<Sum>x\<in>dom u - {t}. coin_value (the (u x)))"
    by (rule sum.cong) auto
  moreover have "utxo_value u = (\<Sum>x\<in>dom u - {t}. coin_value (the (u x))) + (case u t of None \<Rightarrow> 0 | Some c \<Rightarrow> coin_value c)"
    using assms by (cases "u t") (auto simp: utxo_value_def domIff domI sum.remove [of "dom u" t] intro!: sum.cong)
  moreover have "utxo_value (u(t := r)) = (\<Sum>x\<in>dom u - {t}. coin_value (the ((u(t := r)) x))) + (case r of None \<Rightarrow> 0 | Some c \<Rightarrow> coin_value c)"
    using assms by (cases r) (simp_all add: utxo_value_def sum.insert_remove)
  ultimately show ?thesis by simp
qed

lemma live_value: "(case live (Some c) of None \<Rightarrow> 0 | Some c \<Rightarrow> coin_value c) = coin_value c"
  by (simp add: live.simps coin_value_def IsPruned_def sum_nulls)

lemma coin_value_nonneg: "coins_ok c \<Longrightarrow> 0 \<le> coin_value c"
proof -
  have "out_ok out \<Longrightarrow> 0 \<le> out_value out" for out
    by (auto simp: out_ok_def out_value_def)
  then show "coins_ok c \<Longrightarrow> ?thesis"
    unfolding coin_value_def coins_ok_def by (intro sum_list_nonneg) (auto simp: list_all_iff)
qed

section \<open>Spending\<close>

lemma spec_spend_avail:
  assumes "out_avail u out"
  obtains undo u' where "spec_spend out u = Some (undo, u')"
    "\<And>q. out_avail u' q \<longleftrightarrow> out_avail u q \<and> q \<noteq> out"
    "\<And>q. out_avail u' q \<Longrightarrow> out_at u' q = out_at u q \<and> height_at u' q = height_at u q"
    "finite (dom u) \<Longrightarrow> utxo_value u' = utxo_value u - nValue (out_at u out)"
proof -
  define h n where "h = COutPoint.op_hash out" and "n = unat (op_n out)"
  obtain c where c: "u h = Some c" "IsAvailable c n" using assms by (auto simp: out_avail_def h_def n_def split: option.splits)
  define c' where "c' = c\<lparr>coins_vout := pop_nulls ((coins_vout c)[n := CTxOut_SetNull])\<rparr>"
  define u' where "u' = u(h := live (Some c'))"
  obtain undo where s: "spec_spend out u = Some (undo, u')"
    using c by (simp add: spec_spend_def spend_body_eq Let_def u'_def c'_def h_def n_def)
  have av: "IsAvailable c' m \<longleftrightarrow> IsAvailable c m \<and> m \<noteq> n" for m
    using avail_pop_nulls(1) [of m "(coins_vout c)[n := CTxOut_SetNull]"]
    by (cases "m = n") (auto simp: IsAvailable_def c'_def)
  have pr: "IsPruned c' \<Longrightarrow> \<not> IsAvailable c' m" for m by (auto simp: IsPruned_def IsAvailable_def list_all_length)
  have out: "q = out \<longleftrightarrow> COutPoint.op_hash q = h \<and> unat (op_n q) = n" for q
    by (cases q; cases out) (auto simp: h_def n_def word_unat_eq_iff)
  have 1: "out_avail u' q \<longleftrightarrow> out_avail u q \<and> q \<noteq> out" for q
    using av pr c(1) by (auto simp: out_avail_def u'_def out live.simps IsAvailable_def split: option.splits)
  have 2: "out_at u' q = out_at u q \<and> height_at u' q = height_at u q" if "out_avail u' q" for q
  proof (cases "COutPoint.op_hash q = h")
    case True
    then have "unat (op_n q) \<noteq> n" "IsAvailable c' (unat (op_n q))" "\<not> IsPruned c'"
      using that av pr by (auto simp: out_avail_def u'_def live.simps IsAvailable_def split: if_splits)
    moreover from this have "coins_vout c' ! unat (op_n q) = coins_vout c ! unat (op_n q)"
      by (simp add: IsAvailable_def c'_def avail_pop_nulls(2))
    ultimately show ?thesis using True c(1) by (simp add: out_at_def height_at_def u'_def live.simps) (simp add: c'_def)
  qed (simp add: out_at_def height_at_def u'_def)
  have 3: "utxo_value u' = utxo_value u - nValue (out_at u out)" if "finite (dom u)"
  proof -
    have "coin_value c' = coin_value c - nValue (out_at u out)"
      using c by (simp add: coin_value_def c'_def sum_pop_nulls sum_list_update_int IsAvailable_def out_value_def out_at_def
          h_def [symmetric] n_def [symmetric])
    then show ?thesis using utxo_value_upd [OF that, of h "live (Some c')"] c(1) by (auto simp: u'_def live_value)
  qed
  show thesis using that [OF s 1 2 3] .
qed

lemma spec_spends_avail:
  assumes "finite (dom u)" "distinct (map prevout ins)" "\<forall>i\<in>set ins. out_avail u (prevout i)"
  shows "\<exists>undos u'. spec_spends ins u = Some (undos, u') \<and> finite (dom u') \<and>
    (\<forall>q. out_avail u' q \<longleftrightarrow> out_avail u q \<and> q \<notin> prevout ` set ins) \<and>
    utxo_value u' = utxo_value u - sum_list (map (\<lambda>i. nValue (out_at u (prevout i))) ins)"
  using assms
proof (induction ins arbitrary: u)
  case (Cons txin ins)
  obtain undo u1 where s: "spec_spend (prevout txin) u = Some (undo, u1)" "\<And>q. out_avail u1 q \<longleftrightarrow> out_avail u q \<and> q \<noteq> prevout txin"
    "\<And>q. out_avail u1 q \<Longrightarrow> out_at u1 q = out_at u q \<and> height_at u1 q = height_at u q"
    "utxo_value u1 = utxo_value u - nValue (out_at u (prevout txin))"
    using spec_spend_avail [of u "prevout txin"] Cons.prems by auto
  have f: "finite (dom u1)" using s(1) Cons.prems(1) by (auto simp: spec_spend_def split: option.splits)
  have a: "\<forall>i\<in>set ins. out_avail u1 (prevout i)" using Cons.prems(2,3) s(2) by (auto simp: image_iff)
  then have "sum_list (map (\<lambda>i. nValue (out_at u1 (prevout i))) ins) = sum_list (map (\<lambda>i. nValue (out_at u (prevout i))) ins)"
    using s(3) by (intro arg_cong [where f = sum_list] map_cong) auto
  then show ?case using Cons.IH [OF f _ a] Cons.prems(2) s(1,2,4) by auto
qed simp

lemma FromTx_value:
  assumes "list_all (\<lambda>out. 0 \<le> nValue out) (vout tx)"
  shows "coin_value (FromTx c tx h) \<le> sum_list (map nValue (vout tx))"
proof -
  let ?f = "\<lambda>out. if IsUnspendable (scriptPubKey out) then CTxOut_SetNull else out"
  have "sum_list (map out_value (map ?f (vout tx))) \<le> sum_list (map nValue (vout tx))"
    using assms unfolding map_map by (intro sum_list_mono) (auto simp: list_all_iff out_value_def)
  then show ?thesis by (simp add: coin_value_def FromTx_def ClearUnspendable_def Cleanup_def sum_pop_nulls)
qed

section \<open>The checks\<close>

lemma verdict_False [simp]: "DoS st level False code reason c = (True, st') \<longleftrightarrow> False" "Invalid st False code reason = (True, st') \<longleftrightarrow> False"
  by (simp_all add: DoS_def Invalid_def Let_def)

lemma check_vout_None:
  "check_vout tx outs v st = None \<Longrightarrow> list_all (\<lambda>out. 0 \<le> nValue out \<and> nValue out \<le> MAX_MONEY) outs"
  by (induction outs arbitrary: v) (auto simp: Let_def split: if_splits)

lemma check_duplicates_None:
  "check_duplicates ins seen st = None \<longleftrightarrow> distinct (map prevout ins) \<and> prevout ` set ins \<inter> set seen = {}"
  by (induction ins arbitrary: seen) auto

lemma check_prevouts_None: "check_prevouts ins st = None \<longleftrightarrow> list_all (\<lambda>i. \<not> COutPoint_IsNull (prevout i)) ins"
  by (induction ins) auto

lemma verdict_not_True:
  "check_vout tx outs v st = Some r \<Longrightarrow> \<not> fst r" "check_duplicates ins seen st = Some r \<Longrightarrow> \<not> fst r" "check_prevouts ins st = Some r \<Longrightarrow> \<not> fst r"
  by (induction outs arbitrary: v; auto simp: DoS_def Let_def split: if_splits)
    (induction ins arbitrary: seen; auto simp: DoS_def Let_def split: if_splits)+

lemma length_concat_ge: "(\<And>x. 1 \<le> length (f x)) \<Longrightarrow> length xs \<le> length (concat (map f xs))"
proof (induction xs)
  case (Cons x xs)
  have "1 \<le> length (f x)" "length xs \<le> length (concat (map f xs))" using Cons by blast+
  then show ?case unfolding list.map concat.simps length_append list.size by linarith
qed simp

lemma length_vout: "SerializeTransaction_write w tx = Some d \<Longrightarrow> length (vout tx) \<le> length d"
proof -
  have "1 \<le> length (ser_txout out)" for out by (simp add: ser_txout_def ser_int64_def ser_writedata64_def)
  then have "length (vout tx) \<le> length (ser_vector ser_txout (vout tx))"
    using length_concat_ge [of ser_txout "vout tx"] by (simp add: ser_vector_def)
  then show "SerializeTransaction_write w tx = Some d \<Longrightarrow> ?thesis"
    by (auto simp: SerializeTransaction_write_def Let_def split: if_splits)
qed

lemma CheckTransaction_True:
  assumes "CheckTransaction tx st = Some (True, st')"
  shows "st' = st" "list_all (\<lambda>out. 0 \<le> nValue out \<and> nValue out \<le> MAX_MONEY) (vout tx)" "distinct (map prevout (vin tx))"
    "length (vout tx) \<le> MAX_BLOCK_BASE_SIZE" "vin tx \<noteq> []" "vout tx \<noteq> []"
    "\<not> IsCoinBase tx \<Longrightarrow> list_all (\<lambda>i. \<not> COutPoint_IsNull (prevout i)) (vin tx)"
  using assms length_vout [of True tx] check_vout_None [of tx "vout tx" 0 st] verdict_not_True
  by (fastforce simp: CheckTransaction_def check_duplicates_None check_prevouts_None split: if_splits option.splits)+

text \<open>The coins of a coinbase or a coinstake may be spent at a depth of \<open>COINBASE_MATURITY\<close>, or not above the spending height.\<close>

definition is_mature :: "bool \<Rightarrow> int \<Rightarrow> CCoins \<Rightarrow> bool" where
  "is_mature testnet nSpendHeight cs \<longleftrightarrow> ((fCoinBase cs \<or> fCoinStake cs) \<and> \<not> testnet \<longrightarrow>
     COINBASE_MATURITY \<le> nSpendHeight - coins_nHeight cs \<or> nSpendHeight \<le> coins_nHeight cs)"

text \<open>The coins that the checks found in the cache for an outpoint: those of the abstract map, with the coinstake flag the cache has, and mature.\<close>

definition checked_coins :: "bool \<Rightarrow> int \<Rightarrow> (uint256 \<rightharpoonup> CCoins) \<Rightarrow> CCoinsMap \<Rightarrow> COutPoint \<Rightarrow> bool" where
  "checked_coins testnet nSpendHeight u m out \<longleftrightarrow>
     (\<exists>e. m (COutPoint.op_hash out) = Some e \<and> live (Some (coins e)) = u (COutPoint.op_hash out) \<and>
        is_mature testnet nSpendHeight (coins e))"

lemma checked_coins_mono: "checked_coins testnet h u m out \<Longrightarrow> m \<subseteq>\<^sub>m m' \<Longrightarrow> checked_coins testnet h u m' out"
  unfolding checked_coins_def map_le_def by (metis domI)

text \<open>The amount the code counts for an input, with its dividend.\<close>

definition in_amount :: "(CAmount \<Rightarrow> int \<Rightarrow> CAmount) \<Rightarrow> (uint256 \<rightharpoonup> CCoins) \<Rightarrow> CTxIn \<Rightarrow> CAmount" where
  "in_amount dividend u txin = dividend (nValue (out_at u (prevout txin))) (height_at u (prevout txin))"

lemma live_coins:
  assumes "live (Some cs) = u (COutPoint.op_hash out)"
  shows "IsAvailable cs (unat (op_n out)) \<longleftrightarrow> out_avail u out"
    "out_avail u out \<Longrightarrow> coins_vout cs ! unat (op_n out) = out_at u out \<and> coins_nHeight cs = height_at u out"
  unfolding out_avail_def out_at_def height_at_def assms [symmetric]
  by (auto simp: live.simps IsPruned_def IsAvailable_def list_all_length)

context coins_view
begin

lemma access_law:
  assumes "cached_ok s" "AccessCoins V usage s t = (r, s')"
  shows "cached_ok s' \<and> cached_utxo s' = cached_utxo s \<and> cached_best s' = cached_best s \<and> utxo (fst s') = utxo (fst s) \<and> live r = cached_utxo s t"
  using cached_get [OF assms(1), of usage t r s'] read_below(1) [OF assms(1), of usage t] assms(2) by (simp add: access_get)

text \<open>Looking coins up adds entries to the cache and changes none.\<close>

lemma access_cache:
  assumes "AccessCoins V usage s t = (r, s')"
  shows "cacheCoins (snd s) \<subseteq>\<^sub>m cacheCoins (snd s')" "r = Some cs \<Longrightarrow> \<exists>e. cacheCoins (snd s') t = Some e \<and> coins e = cs"
  using assms by (cases s; auto simp: AccessCoins_def FetchCoins_def Let_def map_le_def split: option.splits prod.splits)+

lemma have_inputs_cache:
  "have_inputs_loop V usage ins s = (r, s') \<Longrightarrow> cacheCoins (snd s) \<subseteq>\<^sub>m cacheCoins (snd s')"
proof (induction ins arbitrary: s)
  case (Cons txin ins)
  obtain a s1 where a: "AccessCoins V usage s (COutPoint.op_hash (prevout txin)) = (a, s1)"
    by (cases "AccessCoins V usage s (COutPoint.op_hash (prevout txin))")
  show ?case using Cons.prems Cons.IH [of s1] access_cache(1) [OF a] a
    by (auto intro: map_le_trans split: option.splits if_splits)
qed simp

lemma have_inputs_law:
  "cached_ok s \<Longrightarrow> have_inputs_loop V usage ins s = (r, s') \<Longrightarrow>
    cached_ok s' \<and> cached_utxo s' = cached_utxo s \<and> utxo (fst s') = utxo (fst s) \<and> (r \<longleftrightarrow> list_all (\<lambda>i. out_avail (cached_utxo s) (prevout i)) ins)"
proof (induction ins arbitrary: s)
  case (Cons txin ins)
  obtain a s1 where a: "AccessCoins V usage s (COutPoint.op_hash (prevout txin)) = (a, s1)"
    by (cases "AccessCoins V usage s (COutPoint.op_hash (prevout txin))")
  note law = access_law [OF Cons.prems(1) a]
  show ?case
  proof (cases a)
    case None
    then have "\<not> out_avail (cached_utxo s) (prevout txin)" using law by (simp add: out_avail_def)
    then show ?thesis using Cons.prems a law None by auto
  next
    case (Some cs)
    then show ?thesis
      using Cons.prems(2) Cons.IH [of s1] a law live_coins(1) [of cs "cached_utxo s" "prevout txin"] by (auto split: if_splits)
  qed
qed simp

lemma check_inputs_law:
  "cached_ok s \<Longrightarrow> list_all (\<lambda>i. out_avail (cached_utxo s) (prevout i)) ins \<Longrightarrow>
    check_inputs_loop testnet dividend V usage h st ins v s = Some (Inr tot, s') \<Longrightarrow>
    cached_ok s' \<and> cached_utxo s' = cached_utxo s \<and> utxo (fst s') = utxo (fst s) \<and>
    cacheCoins (snd s) \<subseteq>\<^sub>m cacheCoins (snd s') \<and>
    tot = v + sum_list (map (in_amount dividend (cached_utxo s)) ins) \<and>
    list_all (\<lambda>i. MoneyRange (in_amount dividend (cached_utxo s) i) \<and>
      checked_coins testnet h (cached_utxo s) (cacheCoins (snd s')) (prevout i)) ins"
proof (induction ins arbitrary: s v)
  case (Cons txin ins)
  obtain a s1 where a: "AccessCoins V usage s (COutPoint.op_hash (prevout txin)) = (a, s1)"
    by (cases "AccessCoins V usage s (COutPoint.op_hash (prevout txin))")
  note law = access_law [OF Cons.prems(1) a]
  obtain cs where cs: "a = Some cs" using Cons.prems(3) a by (cases a) auto
  have av: "out_avail (cached_utxo s) (prevout txin)" using Cons.prems(2) by simp
  have c: "coins_vout cs ! unat (op_n (prevout txin)) = out_at (cached_utxo s) (prevout txin)" "coins_nHeight cs = height_at (cached_utxo s) (prevout txin)"
    using live_coins(2) [of cs "cached_utxo s" "prevout txin"] law cs av by auto
  have amount: "GetAvailableAmount dividend cs (unat (op_n (prevout txin))) = in_amount dividend (cached_utxo s) txin"
    by (simp add: GetAvailableAmount_def in_amount_def c)
  from Cons.prems(3) a cs have r: "check_inputs_loop testnet dividend V usage h st ins (v + in_amount dividend (cached_utxo s) txin) s1 = Some (Inr tot, s')"
    "MoneyRange (in_amount dividend (cached_utxo s) txin)" "is_mature testnet h cs"
    by (auto simp: Let_def amount is_mature_def split: if_splits)
  have k: "checked_coins testnet h (cached_utxo s) (cacheCoins (snd s1)) (prevout txin)"
    using access_cache(2) [OF a cs] law cs r(3) by (auto simp: checked_coins_def)
  note ih = Cons.IH [OF _ _ r(1)]
  then have "cacheCoins (snd s1) \<subseteq>\<^sub>m cacheCoins (snd s')" using law Cons.prems(2) by auto
  with ih law Cons.prems(2) r(2) k checked_coins_mono map_le_trans [OF access_cache(1) [OF a]] show ?case by auto
qed simp

lemma check_inputs_Inl: "check_inputs_loop testnet dividend V usage h st ins v s = Some (Inl r, s') \<Longrightarrow> \<not> fst r"
  by (induction ins arbitrary: s v) (auto simp: DoS_def Invalid_def Let_def split: if_splits option.splits prod.splits)

lemma CheckTxInputs_law:
  assumes "cached_ok s" "CheckTxInputs testnet dividend V usage tx st s h = Some ((True, st'), s')" "\<not> IsCoinBase tx"
  shows "cached_ok s'" "cached_utxo s' = cached_utxo s" "utxo (fst s') = utxo (fst s)"
    "list_all (\<lambda>i. out_avail (cached_utxo s) (prevout i) \<and> MoneyRange (in_amount dividend (cached_utxo s) i) \<and>
      checked_coins testnet h (cached_utxo s) (cacheCoins (snd s')) (prevout i)) (vin tx)"
    "cacheCoins (snd s) \<subseteq>\<^sub>m cacheCoins (snd s')"
    "\<not> IsCoinStake tx \<Longrightarrow> MoneyRange (sum_list (map (in_amount dividend (cached_utxo s)) (vin tx)) - sum_list (map nValue (vout tx)))"
proof -
  obtain r s1 where r: "have_inputs_loop V usage (vin tx) s = (r, s1)" by (cases "have_inputs_loop V usage (vin tx) s")
  note hv = have_inputs_law [OF assms(1) r]
  obtain tot where t: "check_inputs_loop testnet dividend V usage h st (vin tx) 0 s1 = Some (Inr tot, s')" "r"
    "\<not> IsCoinStake tx \<Longrightarrow> \<exists>vo. GetValueOut tx = Some vo \<and> MoneyRange (tot - vo)"
    using assms(2,3) r check_inputs_Inl [of testnet dividend usage h st "vin tx" 0 s1 "(True, st')" s']
    by (auto simp: CheckTxInputs_def HaveInputs_def Let_def split: if_splits option.splits sum.splits bool.splits)
  note law = check_inputs_law [OF _ _ t(1), unfolded hv]
  show "cached_ok s'" "cached_utxo s' = cached_utxo s" "utxo (fst s') = utxo (fst s)"
    using law hv t(2) by auto
  show "list_all (\<lambda>i. out_avail (cached_utxo s) (prevout i) \<and> MoneyRange (in_amount dividend (cached_utxo s) i) \<and>
      checked_coins testnet h (cached_utxo s) (cacheCoins (snd s')) (prevout i)) (vin tx)"
    using law hv t(2) by (auto simp: list_all_iff)
  show "cacheCoins (snd s) \<subseteq>\<^sub>m cacheCoins (snd s')"
    using law hv t(2) map_le_trans [OF have_inputs_cache [OF r]] by auto
  show "MoneyRange (sum_list (map (in_amount dividend (cached_utxo s)) (vin tx)) - sum_list (map nValue (vout tx)))" if "\<not> IsCoinStake tx"
    using law hv t(2) t(3) [OF that] value_out_loop_eq [of 0 "vout tx"] by (auto simp: GetValueOut_def MoneyRange_def split: if_splits)
qed

lemma cached_coins_ok:
  assumes "cached_ok s" "cached_utxo s t = Some c"
  shows "coins_ok c"
proof -
  obtain r s' where r: "GetCoins V (\<lambda>_. 0) s t = (r, s')" by (cases "GetCoins V (\<lambda>_. 0) s t")
  obtain c0 where "r = Some c0" "\<not> IsPruned c0" "c = c0\<lparr>fCoinStake := False\<rparr>" "coins_wf c0"
    using cached_get [OF assms(1) r] assms(2) live_Some [of r c] by auto
  then show ?thesis by (auto simp: coins_wf_def coins_ok_def IsPruned_def)
qed

text \<open>A checked transaction is applied without a failed assertion and creates no value.\<close>

lemma checked_tx_law:
  assumes "cached_ok s" "finite (dom (cached_utxo s))" "CheckTransaction tx st = Some (True, st1)"
    and "CheckTxInputs testnet dividend V usage tx st2 s h = Some ((True, st3), s1)" "\<not> IsCoinBase tx"
    and "0 \<le> nVersion tx" "nVersion tx < 2 ^ 31" "0 < h" "h < 2 ^ 31" "GetHash tx = Some x" "utxo (fst s) x = None"
  shows "\<exists>undo s2. UpdateCoins V usage tx h s1 = Some (undo, s2) \<and> cached_ok s2 \<and>
    cacheCoins (snd s) \<subseteq>\<^sub>m cacheCoins (snd s1) \<and>
    list_all (\<lambda>i. out_avail (cached_utxo s) (prevout i) \<and>
      checked_coins testnet h (cached_utxo s) (cacheCoins (snd s1)) (prevout i)) (vin tx) \<and>
    (\<forall>i\<in>set (vin tx). COutPoint.op_hash (prevout i) \<noteq> x \<longrightarrow> \<not> out_avail (cached_utxo s2) (prevout i)) \<and>
    (\<not> IsCoinStake tx \<longrightarrow> (\<exists>fee. MoneyRange fee \<and>
      utxo_value (cached_utxo s2) + fee \<le> utxo_value (cached_utxo s) +
        sum_list (map (\<lambda>i. in_amount dividend (cached_utxo s) i - nValue (out_at (cached_utxo s) (prevout i))) (vin tx))))"
proof -
  let ?u = "cached_utxo s" and ?ins = "vin tx"
  note ct = CheckTransaction_True [OF assms(3)] and ci = CheckTxInputs_law [OF assms(1,4,5)]
  have out: "list_all (\<lambda>out. 0 \<le> nValue out) (vout tx)" using ct(2) by (auto simp: list_all_iff)
  have st: "tx_storable tx h" using ct(2,4) assms(6-9) by (auto simp: tx_storable_def list_all_iff)
  obtain undo u1 where u1: "spec_spends ?ins ?u = Some (undo, u1)" "finite (dom u1)"
    "\<And>q. out_avail u1 q \<longleftrightarrow> out_avail ?u q \<and> q \<notin> prevout ` set ?ins"
    "utxo_value u1 = utxo_value ?u - sum_list (map (\<lambda>i. nValue (out_at ?u (prevout i))) ?ins)"
    using spec_spends_avail [OF assms(2) ct(3)] ci(4) by (auto simp: list_all_iff)
  obtain s2 where s2: "UpdateCoins V usage tx h s1 = Some (undo, s2)" "cached_ok s2"
    "cached_utxo s2 = u1(x := live (Some (FromTx CCoins_ctor tx h)))"
    using update_law [OF ci(1) _ assms(10) st, of undo u1 usage] u1(1) ci(2,3) assms(5,11) by auto
  have "utxo_value (cached_utxo s2) \<le> utxo_value u1 + sum_list (map nValue (vout tx))"
  proof -
    obtain s' where "cached_ok s'" "cached_utxo s' = u1" using spends_refine [OF ci(1), of ?ins undo u1 usage "[]"] u1(1) ci(2) by auto
    then have "0 \<le> (case u1 x of None \<Rightarrow> 0 | Some c \<Rightarrow> coin_value c)"
      using cached_coins_ok [of s' x] coin_value_nonneg by (auto split: option.split)
    then show ?thesis using FromTx_value [OF out, of CCoins_ctor h] utxo_value_upd [OF u1(2), of x "live (Some (FromTx CCoins_ctor tx h))"]
      by (simp add: s2(3) live_value)
  qed
  then have "\<exists>fee. MoneyRange fee \<and> utxo_value (cached_utxo s2) + fee \<le> utxo_value ?u +
      sum_list (map (\<lambda>i. in_amount dividend ?u i - nValue (out_at ?u (prevout i))) ?ins)" if "\<not> IsCoinStake tx"
    using ci(6) [OF that] u1(4) by (intro exI [of _ "sum_list (map (in_amount dividend ?u) ?ins) - sum_list (map nValue (vout tx))"])
      (simp add: sum_list_subtractf)
  moreover have "\<not> out_avail (cached_utxo s2) (prevout i)" if "i \<in> set ?ins" "COutPoint.op_hash (prevout i) \<noteq> x" for i
    using that u1(3) [of "prevout i"] by (simp add: s2(3) out_avail_def)
  ultimately show ?thesis using s2(1,2) ci(4,5) by (auto simp: list_all_iff)
qed

end

section \<open>No inflation\<close>









end
