(* ===== verification/Spec2Isabelle.thy ===== *)
theory Spec2Isabelle
  imports Compact_Bits Merkle Hash Verify_Props Multisig Spend Wire_Types Pubkey_Props Sighash_Props Sigcache
    Versionbits_Props Tx_Checks_Props
begin

text \<open>
  This is a verification development for the Chratos node, a Bitcoin-derived node with proof of stake and
  dividends; file names below are relative to \<^verbatim>\<open>src/src\<close>.  A node receives transactions and blocks as bytes, checks
  them, and keeps the set of unspent outputs and the tree of block headers.  The development follows a
  transaction along that way: the bytes are read (serialization), identified (hash functions), its scripts
  are run and its signatures are checked (interpreter, signature hashes, public keys), its inputs are looked up and its
  amounts are compared (checks), and its effect is written to the set of unspent outputs (caches, database,
  undo data).  Beside it stand the header tree with its active chain, the version-bits deployments, Merkle trees and
  256-bit arithmetic.

  \<^bold>\<open>Conventions.\<close>  Machine words are \<open>w word\<close>, so arithmetic wraps as in the code; signed numbers are \<open>int\<close> within the
  range of their type; a \<open>uint256\<close> and a script are byte lists; counters that index a container are \<open>nat\<close>.  A function that
  changes an object takes and returns it.  \<open>None\<close>, or the error constructor of a sum, is an exception, a
  failed assertion, or a verdict of the code.  A pointer to a header is an index into a store.  A loop is a recursive
  function with a termination proof, except the walks over headers in \<open>Chain\<close> and \<open>Versionbits\<close>, which are partial functions
  and proved to return on every tree of blocks.  No function has a fuel argument.

  \<^bold>\<open>Foundations.\<close>
  \<^item> \<open>Prelude\<close>: word types, shared lemmas and fact collections.
  \<^item> \<open>Arith_Uint256\<close>, \<open>Compact_Bits\<close> (\<^verbatim>\<open>arith_uint256.h/.cpp\<close>): limb arithmetic against arithmetic modulo \<open>2 ^ 256\<close>,
    long division, and the compact form of targets with its round trips.
  \<^item> \<open>Crypto_Common\<close>, \<open>Sha256\<close>, \<open>Sha512\<close>, \<open>Sha1\<close>, \<open>Ripemd160\<close>, \<open>Hash\<close> (\<^verbatim>\<open>crypto/\<close>, \<^verbatim>\<open>hash.h/.cpp\<close>): the unrolled
    transforms and the buffering classes compute the standards' digests of whatever pieces are written; HMAC, double hashes,
    MurmurHash3 and both SipHash versions.  The locale \<open>block_hash\<close> has the buffering proofs once for all four classes.
  \<^item> \<open>Serialize\<close>, \<open>Wire_Types\<close> (\<^verbatim>\<open>serialize.h\<close>, \<^verbatim>\<open>streams.h\<close>): readers and writers, the locale \<open>codec\<close> for
    round trips, canonical compact sizes, and that accepted bytes are well typed.
  \<^item> \<open>Merkle\<close> (\<^verbatim>\<open>consensus/merkle.cpp\<close>): the one-pass computation gives the root of the recursive definition,
    reports duplicated subtrees, so that two lists with trees of one height and one root are told apart if the hash has no
    collision in the two trees, and its branches verify; the hash of a node is an argument.

  \<^bold>\<open>Scripts and signatures.\<close>
  \<^item> \<open>Script\<close>, \<open>Script_Props\<close> (\<^verbatim>\<open>script/script.h/.cpp\<close>): script numbers, decoding, \<open>FindAndDelete\<close> against
    its opcode-by-opcode specification, operation counts.
  \<^item> \<open>Interpreter\<close>, \<open>Interpreter_Props\<close>, \<open>Softfork\<close>, \<open>Verify_Props\<close>, \<open>Multisig\<close>, \<open>Spend\<close> (\<^verbatim>\<open>script/interpreter.cpp\<close>):
    every opcode, the loop, witness programs and \<open>VerifyScript\<close>.  No script fails an assertion, and
    \<open>VerifyScript\<close> does so only for inconsistent flags; the limits hold, more flags only reject more, the multisignature loop finds an order-preserving matching, unspendable outputs cannot be
    spent, and the standard spend of a key hash works exactly as intended.
  \<^item> \<open>Sighash\<close>, \<open>Sighash_Props\<close> (\<^verbatim>\<open>script/interpreter.cpp\<close>, \<^verbatim>\<open>test/sighash_tests.cpp\<close>): both signature hashes, the agreement of
    the legacy one with the reference of the unit tests, what they commit to and what the witness version leaves out.
  \<^item> \<open>Pubkey\<close>, \<open>Pubkey_Props\<close> (\<^verbatim>\<open>pubkey.h/.cpp\<close>): keys, the lax parser of signatures and its agreement with the strict
    test; libsecp256k1 is a record of functions.
  \<^item> \<open>Sigcache\<close> (\<^verbatim>\<open>script/sigcache.cpp\<close>): the cache never changes a verdict.

  \<^bold>\<open>Transactions and the set of unspent outputs.\<close>
  \<^item> \<open>Transaction\<close>, \<open>Transaction_Props\<close> (\<^verbatim>\<open>primitives/transaction.h/.cpp\<close>, \<^verbatim>\<open>amount.h/.cpp\<close>): both formats, identifiers,
    values and fees.
  \<^item> \<open>Compressor\<close>, \<open>Compressor_Props\<close>, \<open>Coins\<close>, \<open>Coins_Props\<close> (\<^verbatim>\<open>compressor.h/.cpp\<close>, \<^verbatim>\<open>coins.h/.cpp\<close>): the compact form of outputs and of
    a transaction's unspent outputs, and their round trips, with what storage loses (the coinstake flag and the sign of a version).
  \<^item> \<open>Coins_View\<close>, \<open>View_Props\<close> (\<^verbatim>\<open>coins.cpp\<close>, \<^verbatim>\<open>txdb.cpp\<close>, \<^verbatim>\<open>dbwrapper.h/.cpp\<close>): caches with their flags and the
    database.  The locale \<open>coins_view\<close> is the contract of a view: it behaves as a partial map from identifiers to unspent
    coins.  It is interpreted on the database and on a cache over it; a cache over any view has the contract too.
  \<^item> \<open>Undo\<close>, \<open>Undo_Props\<close>, \<open>Chainstate\<close> (\<^verbatim>\<open>undo.h\<close>, \<^verbatim>\<open>main.cpp\<close>): \<open>UpdateCoins\<close>, the coins part of \<open>ConnectBlock\<close> and
    \<open>DisconnectBlock\<close> over the database and two caches: they refine the map, a flush persists it, and
    disconnecting a block restores what there was.
  \<^item> \<open>Tx_Checks\<close>, \<open>Tx_Checks_Props\<close> (\<^verbatim>\<open>main.cpp\<close>, \<^verbatim>\<open>consensus/validation.h\<close>): \<open>CheckTransaction\<close>, \<open>CheckTxInputs\<close> and
    operation costs: a checked transaction is applied without a failed assertion, spends mature coins, and creates no value unless
    it is a coinbase or a coinstake.

  \<^bold>\<open>Headers.\<close>
  \<^item> \<open>Chain\<close>, \<open>Chain_Props\<close> (\<^verbatim>\<open>chain.h/.cpp\<close>): the skip list against walking back, the active chain, forks, locators and work.
  \<^item> \<open>Versionbits\<close>, \<open>Versionbits_Props\<close> (\<^verbatim>\<open>versionbits.h/.cpp\<close>): cached deployment states against a state machine that
    restarts at a period end before the start time, which is the plain one where median times do not decrease; a deployment is decided
    once the chain stays past its timeout.

  \<^bold>\<open>Hypotheses.\<close>  Collision freedom of a hash is assumed only on the values compared: the two preimages, or the node pairs of the two
  Merkle trees.  Point compression by libsecp256k1 is
  assumed to be inverted by decompression.  LevelDB is a map that a batch changes at once.  The memory that objects take, the order in which a
  hash table is traversed, random draws, and what an amount is worth with its dividends are arguments, and the theorems hold for all of them.
  In the theorems on the set of unspent outputs, coins are assumed to have amounts below \<open>2 ^ 60\<close>, fewer than \<open>2 ^ 28\<close> outputs, and heights and versions that are not negative,
  as the variable-length integers of the database require; amounts in range are far below that bound.

  \<^bold>\<open>Not modelled.\<close>  The proof-of-work hash (third-party C code), retargeting and the stake kernel, the dividend ledger
  (a Berkeley database and floating-point tests), acceptance and activation of blocks with their locks, files and messages, the
  optional address indexes, the memory pool and fee estimation (Boost containers and floating point), Bloom filters, partial Merkle trees,
  wallet and secret keys, text encodings, mining, networking, remote and graphical interfaces, start-up, and the bundled
  libraries.
\<close>

end
